(* ===== verification/Prelude.thy ===== *)
theory Prelude
  imports Main "HOL-Library.Word" "HOL-Library.State_Monad" "HOL-Library.Multiset"
begin

text \<open>
  Shared vocabulary of the development: the names of the machine types the C code uses,
  the generic lemmas on lists, searching and splitting that several components rest on,
  and the rules by which a program written in the state monad is executed symbolically.

  C \<open>char\<close> buffers that hold text are \<^typ>\<open>string\<close>; binary buffers are lists of
  8-bit words; \<open>wchar_t\<close> strings (Windows) are lists of 16-bit words.  A C string is the
  list of its characters without the terminating zero byte, unless a definition says that it
  is modelled with the terminator.
\<close>

unbundle bit_operations_syntax

type_synonym u8 = "8 word"
type_synonym u16 = "16 word"
type_synonym u32 = "32 word"
type_synonym u64 = "64 word"
type_synonym bytes = "u8 list"
type_synonym wstr = "u16 list"

named_theorems run_simps \<open>symbolic execution of programs of the state monad\<close>
named_theorems flag_simps \<open>definitions of the flag and attribute constants\<close>

subsection \<open>Bits and truth values of C\<close>

text \<open>A C condition \<open>flags & m\<close> holds when the masked value is not zero.\<close>

definition tst :: "u32 \<Rightarrow> u32 \<Rightarrow> bool" where
  "tst f m \<longleftrightarrow> f AND m \<noteq> 0"

definition c_bool :: "bool \<Rightarrow> int" where
  "c_bool b = (if b then 1 else 0)"

lemma c_bool_simps [simp]:
  "c_bool True = 1" "c_bool False = 0" "c_bool b = 0 \<longleftrightarrow> \<not> b" "c_bool b \<noteq> 0 \<longleftrightarrow> b"
  by (simp_all add: c_bool_def)

lemma tst_zero [simp]: "\<not> tst 0 m" "\<not> tst f 0"
  by (simp_all add: tst_def)

lemma tst_or_same: "tst (f OR m) m \<longleftrightarrow> m \<noteq> 0"
proof -
  have "(f OR m) AND m = m" by (auto simp: bit_eq_iff bit_and_iff bit_or_iff)
  then show ?thesis by (simp add: tst_def)
qed

subsection \<open>Characters and C strings\<close>

abbreviation (input) NUL :: char where "NUL \<equiv> CHR 0x00"

text \<open>The string in a buffer: the characters before the terminating zero.\<close>

definition c_str :: "string \<Rightarrow> string" where
  "c_str b = takeWhile (\<lambda>c. c \<noteq> NUL) b"

text \<open>The value of a \<open>char\<close>, unsigned and signed.\<close>

definition uchar :: "char \<Rightarrow> nat" where
  "uchar c = of_char c"

definition schar :: "char \<Rightarrow> int" where
  "schar c = (if uchar c < 128 then int (uchar c) else int (uchar c) - 256)"

lemma c_str_app: "NUL \<notin> set s \<Longrightarrow> c_str (s @ NUL # rest) = s"
  by (auto simp: c_str_def takeWhile_tail takeWhile_eq_all_conv)

lemma uchar_inj: "uchar c = uchar d \<longleftrightarrow> c = d"
  by (simp add: uchar_def)

lemma uchar_0: "uchar c = 0 \<longleftrightarrow> c = NUL"
  using uchar_inj [of c NUL] by (simp add: uchar_def)

subsection \<open>Searching and splitting lists\<close>

text \<open>
  \<open>find_pos P s\<close> and \<open>rfind_pos P s\<close> are the positions of the first and of the last
  element that satisfies \<open>P\<close>, \<open>-1\<close> when there is none: the convention of every search
  function of the C library the code is written against.
\<close>

fun find_pos :: "('a \<Rightarrow> bool) \<Rightarrow> 'a list \<Rightarrow> int" where
  "find_pos P [] = -1"
| "find_pos P (x # xs) = (if P x then 0 else (let r = find_pos P xs in if r < 0 then -1 else r + 1))"

fun rfind_pos :: "('a \<Rightarrow> bool) \<Rightarrow> 'a list \<Rightarrow> int" where
  "rfind_pos P [] = -1"
| "rfind_pos P (x # xs) =
     (let r = rfind_pos P xs in if r \<ge> 0 then r + 1 else if P x then 0 else -1)"

lemma find_pos_ge: "find_pos P xs \<ge> -1"
  by (induction xs) (auto simp: Let_def)

lemma rfind_pos_ge: "rfind_pos P xs \<ge> -1"
  by (induction xs) (auto simp: Let_def)

lemma find_pos_neg: "find_pos P xs < 0 \<longleftrightarrow> (\<forall>x\<in>set xs. \<not> P x)"
  by (induction xs) (auto simp: Let_def)

lemma rfind_pos_neg: "rfind_pos P xs < 0 \<longleftrightarrow> (\<forall>x\<in>set xs. \<not> P x)"
  by (induction xs) (auto simp: Let_def)

lemma find_pos_takeWhile:
  "\<exists>x\<in>set xs. P x \<Longrightarrow> find_pos P xs = int (length (takeWhile (\<lambda>x. \<not> P x) xs))"
proof (induction xs)
  case (Cons a xs)
  then show ?case
    using find_pos_neg [of P xs] by (cases "P a") (auto simp: Let_def)
qed simp

lemma rfind_pos_append_tail:
  "\<forall>x\<in>set ys. \<not> P x \<Longrightarrow> P c \<Longrightarrow> rfind_pos P (xs @ c # ys) = int (length xs)"
proof (induction xs)
  case Nil
  then have "rfind_pos P ys < 0" by (simp add: rfind_pos_neg)
  with Nil show ?case by (simp add: Let_def)
next
  case (Cons a xs)
  then show ?case by (simp add: Let_def)
qed

text \<open>The position found by \<^const>\<open>rfind_pos\<close> splits the list at the last hit.\<close>

lemma rfind_pos_decomp:
  assumes "rfind_pos P s \<ge> 0"
  obtains xs c ys where "s = xs @ c # ys" "P c" "\<forall>y\<in>set ys. \<not> P y"
    "rfind_pos P s = int (length xs)"
proof -
  from assms have "\<exists>x\<in>set s. P x" using rfind_pos_neg [of P s] by force
  then obtain xs c ys where "s = xs @ c # ys" "P c" "\<forall>y\<in>set ys. \<not> P y"
    using split_list_last_prop [of s P] by blast
  then show thesis using that rfind_pos_append_tail [of ys P c xs] by simp
qed

lemma take_length_append [simp]: "take (length xs) (xs @ ys) = xs"
  by simp

text \<open>Splitting at the first element that satisfies \<open>P\<close>: position, part before, part after.\<close>

definition split_first :: "('a \<Rightarrow> bool) \<Rightarrow> 'a list \<Rightarrow> int \<times> 'a list \<times> 'a list" where
  "split_first P s =
     (let i = find_pos P s
      in if i < 0 then (-1, s, []) else (i, take (nat i) s, drop (nat i + 1) s))"

lemma split_first_none: "\<forall>x\<in>set s. \<not> P x \<Longrightarrow> split_first P s = (-1, s, [])"
  using find_pos_neg [of P s] by (simp add: split_first_def Let_def)

lemma split_first_hit:
  assumes "\<forall>x\<in>set a. \<not> P x" "P c"
  shows "split_first P (a @ c # b) = (int (length a), a, b)"
proof -
  have "takeWhile (\<lambda>x. \<not> P x) (a @ c # b) = a"
    using assms by (simp add: takeWhile_append2)
  then have "find_pos P (a @ c # b) = int (length a)"
    using find_pos_takeWhile [of "a @ c # b" P] assms by simp
  then show ?thesis by (simp add: split_first_def)
qed

lemma split_first_cases:
  obtains (none) "\<forall>x\<in>set s. \<not> P x" "split_first P s = (-1, s, [])"
  | (hit) a c b where "s = a @ c # b" "\<forall>x\<in>set a. \<not> P x" "P c"
      "split_first P s = (int (length a), a, b)"
proof (cases "\<exists>x\<in>set s. P x")
  case True
  then obtain a c b where "s = a @ c # b" "P c" "\<forall>x\<in>set a. \<not> P x"
    using split_list_first_prop [of s P] by blast
  then show thesis using hit [of a c b] split_first_hit [of a P c b] by simp
next
  case False
  then have "\<forall>x\<in>set s. \<not> P x" by simp
  then show thesis using none split_first_none [of s P] by simp
qed

subsection \<open>Running programs of the state monad\<close>

text \<open>
  The programs are built from \<^const>\<open>State_Monad.bind\<close>, \<^const>\<open>State_Monad.return\<close> and
  calls to the system.  These rules push \<^const>\<open>run_state\<close> through control flow, so that a
  proof about a program is a case distinction on what the system replied.
\<close>

lemma run_if [run_simps]:
  "run_state (if b then m else n) s = (if b then run_state m s else run_state n s)"
  by simp

lemma run_let [run_simps]: "run_state (let x = a in f x) s = (let x = a in run_state (f x) s)"
  by simp

lemma run_bind [run_simps]:
  "run_state (State_Monad.bind m f) s =
     run_state (f (fst (run_state m s))) (snd (run_state m s))"
  by (simp add: split_beta)

lemma run_update [run_simps]: "run_state (State_Monad.update f) s = ((), f s)"
  by (simp add: State_Monad.update_def)

end
