(* ===== verification/Ffbase.thy ===== *)
theory Ffbase
  imports Prelude
begin

text \<open>
  The functions of the external package ffbase that the modelled code calls and that compute
  something: searching, splitting, and the arithmetic macros.  Their source is not part of the
  repository, so they are parameters: the fields of a record \<open>ffbase\<close> that every definition
  using them takes as an argument.  \<open>ffbase_ok\<close> states their documented behaviour; the
  theorems that need it take it as a hypothesis, and \<open>ffbase_ref\<close> is a concrete instance
  that satisfies it.

  ffbase's plain accessors and comparisons of values (\<open>ffstr_set\<close>, \<open>ffstr_null\<close>,
  \<open>ffstr_shift\<close>, \<open>ffstr_eq*\<close>, \<open>ffstr_last\<close>, \<open>ffsz_len\<close>, \<open>ffmem_copy\<close>,
  \<open>ffmem_zero_obj\<close>, \<open>ffslice_set\<close>) are written as the assignment or list operation they
  stand for.  The functions that allocate memory are calls to the system (theory \<open>Os\<close>).
\<close>

record ffbase =
  ffs_rfindchar :: "string \<Rightarrow> char \<Rightarrow> int"
  ffs_rfindany :: "string \<Rightarrow> string \<Rightarrow> int"
  ffs_split :: "string \<Rightarrow> int \<Rightarrow> int \<times> string \<times> string"
  ffstr_findchar :: "string \<Rightarrow> char \<Rightarrow> int"
  ffstr_splitby :: "string \<Rightarrow> char \<Rightarrow> int \<times> string \<times> string"
  ffstr_splitbyany :: "string \<Rightarrow> string \<Rightarrow> int \<times> string \<times> string"
  ffstr_skipany :: "string \<Rightarrow> string \<Rightarrow> string"
  ffstr_rskipchar :: "bytes \<Rightarrow> u8 \<Rightarrow> bytes"
  ffmin :: "nat \<Rightarrow> nat \<Rightarrow> nat"
  ffmax :: "u32 \<Rightarrow> u32 \<Rightarrow> u32"
  ffint_abs :: "u32 \<Rightarrow> u32"

definition ffs_split_at :: "string \<Rightarrow> int \<Rightarrow> int \<times> string \<times> string" where
  "ffs_split_at s at = (at, take (nat at) s, drop (nat at + 1) s)"

text \<open>
  The documented behaviour: the find functions return the position of the first (\<open>find\<close>) or
  last (\<open>rfind\<close>) matching character or \<open>-1\<close>; \<open>ffs_split\<close> cuts a string around a
  position inside it; the \<open>splitby\<close> functions cut it around the first separator, and give
  the whole string and an empty rest when there is none; the \<open>skip\<close> functions drop the listed
  characters from the front (\<open>rskip\<close>: from the back).
\<close>

definition ffbase_ok :: "ffbase \<Rightarrow> bool" where
  "ffbase_ok B \<longleftrightarrow>
     (\<forall>s c. ffs_rfindchar B s c = rfind_pos (\<lambda>x. x = c) s) \<and>
     (\<forall>s cs. ffs_rfindany B s cs = rfind_pos (\<lambda>x. x \<in> set cs) s) \<and>
     (\<forall>s at. 0 \<le> at \<and> at < int (length s) \<longrightarrow> ffs_split B s at = ffs_split_at s at) \<and>
     (\<forall>s c. ffstr_findchar B s c = find_pos (\<lambda>x. x = c) s) \<and>
     (\<forall>s c. ffstr_splitby B s c = split_first (\<lambda>x. x = c) s) \<and>
     (\<forall>s cs. ffstr_splitbyany B s cs = split_first (\<lambda>x. x \<in> set cs) s) \<and>
     (\<forall>s cs. ffstr_skipany B s cs = dropWhile (\<lambda>x. x \<in> set cs) s) \<and>
     (\<forall>s c. ffstr_rskipchar B s c = rev (dropWhile (\<lambda>x. x = c) (rev s))) \<and>
     (\<forall>a b. ffmin B a b = (if a < b then a else b)) \<and>
     (\<forall>a b. ffmax B a b = (if a < b then b else a)) \<and>
     (\<forall>a. ffint_abs B a = (if sint a < 0 then - a else a))"

lemma ffbase_okD:
  assumes "ffbase_ok B"
  shows "ffs_rfindchar B s c = rfind_pos (\<lambda>x. x = c) s"
    and "ffs_rfindany B s cs = rfind_pos (\<lambda>x. x \<in> set cs) s"
    and "0 \<le> at \<Longrightarrow> at < int (length s) \<Longrightarrow> ffs_split B s at = ffs_split_at s at"
    and "ffstr_findchar B s c = find_pos (\<lambda>x. x = c) s"
    and "ffstr_splitby B s c = split_first (\<lambda>x. x = c) s"
    and "ffstr_splitbyany B s cs = split_first (\<lambda>x. x \<in> set cs) s"
    and "ffmin B a b = min a b"
    and "ffmax B x y = max x y"
    and "ffint_abs B x = (if sint x < 0 then - x else x)"
    and "ffstr_skipany B s cs = dropWhile (\<lambda>x. x \<in> set cs) s"
    and "ffstr_rskipchar B z o0 = rev (dropWhile (\<lambda>x. x = o0) (rev z))"
  using assms by (auto simp: ffbase_ok_def min_def max_def)

definition ffbase_ref :: ffbase where
  "ffbase_ref = \<lparr>
     ffs_rfindchar = (\<lambda>s c. rfind_pos (\<lambda>x. x = c) s),
     ffs_rfindany = (\<lambda>s cs. rfind_pos (\<lambda>x. x \<in> set cs) s),
     ffs_split = ffs_split_at,
     ffstr_findchar = (\<lambda>s c. find_pos (\<lambda>x. x = c) s),
     ffstr_splitby = (\<lambda>s c. split_first (\<lambda>x. x = c) s),
     ffstr_splitbyany = (\<lambda>s cs. split_first (\<lambda>x. x \<in> set cs) s),
     ffstr_skipany = (\<lambda>s cs. dropWhile (\<lambda>x. x \<in> set cs) s),
     ffstr_rskipchar = (\<lambda>s c. rev (dropWhile (\<lambda>x. x = c) (rev s))),
     ffmin = (\<lambda>a b. if a < b then a else b),
     ffmax = (\<lambda>a b. if a < b then b else a),
     ffint_abs = (\<lambda>a. if sint a < 0 then - a else a)\<rparr>"

lemma ffbase_ref_ok [simp]: "ffbase_ok ffbase_ref"
  by (simp add: ffbase_ok_def ffbase_ref_def)

end
