(* ===== verification/Os.thy ===== *)
theory Os
  imports Ffbase
begin

text \<open>
  The boundary between the library and the operating system.

  ffos is a layer of small functions over system calls, C library calls, Win32 functions and the
  allocating functions of ffbase.  None of those has its source in the repository, so they are a
  parameter: a kernel \<open>K\<close> takes a call with its arguments and the state of the world and
  gives a reply and the new state of the world.  A theorem for every \<open>K\<close> and every world holds
  for every behaviour of the system, failures included; a theorem that needs more says so in its
  hypotheses.

  A reply has the return value, the error code the call left in \<open>errno\<close> (or in the thread's
  last-error value on Windows) if it set one, and the data the call wrote through its output
  arguments.  The state \<open>sys\<close> has the world, the last error, and the ghost log of the calls
  made so far with their replies, which is what the theorems on resources speak about.

  Pointers and handles are integers: \<open>0\<close> is \<open>NULL\<close>, and \<open>-1\<close> is the invalid file
  descriptor, \<open>INVALID_HANDLE_VALUE\<close> and \<open>INVALID_SOCKET\<close>.
\<close>

subsection \<open>Structures of the system interface\<close>

record timespec =
  ts_sec :: u64
  ts_nsec :: u64

record timeval =
  tv_sec :: u64
  tv_usec :: u64

record filetime =
  ft_lo :: u32
  ft_hi :: u32

text \<open>The members of \<open>struct stat\<close> that the library reads.\<close>

record stat =
  st_size :: u64
  st_mtim :: timespec
  st_mode :: u32
  st_ino :: u64
  st_uid :: u32

text \<open>\<open>BY_HANDLE_FILE_INFORMATION\<close>, the part of it that the library reads or writes.\<close>

record winfileinfo =
  dwFileAttributes :: u32
  ftCreationTime :: filetime
  ftLastAccessTime :: filetime
  ftLastWriteTime :: filetime
  nFileSizeHigh :: u32
  nFileSizeLow :: u32
  nFileIndexHigh :: u32
  nFileIndexLow :: u32

text \<open>\<open>struct epoll_event\<close>, and the members of \<open>struct kevent\<close> the library sets.\<close>

record epoll_event =
  ep_events :: u32
  ep_data :: int

record kevent =
  kv_ident :: int
  kv_filter :: int
  kv_flags :: u32
  kv_fflags :: u32
  kv_data :: int
  kv_udata :: int

text \<open>\<open>struct itimerspec\<close>.\<close>

record itimerspec =
  it_value :: timespec
  it_interval :: timespec

text \<open>
  \<open>INPUT_RECORD\<close>: whether it is the event of a key being pressed, and the members of
  \<open>KEY_EVENT_RECORD\<close> the library reads.
\<close>

record input_record =
  ir_keydown :: bool
  ir_ascii :: u8
  ir_vkey :: u16
  ir_ctl :: u32

subsection \<open>Calls\<close>

text \<open>Memory: ffbase's allocator and its allocating conversion of UTF-8 to UTF-16.\<close>

datatype mem_call =
    MAlloc nat
  | MRealloc int nat
  | MFree int
  | MAllocUtow string

text \<open>Files and directories of UNIX.\<close>

datatype file_call =
    Open string u32 u32
  | Close int
  | Read int nat
  | Write int bytes
  | Pread int nat u64
  | Pwrite int bytes u64
  | Lseek int u64 int
  | Ftruncate int u64
  | Stat string
  | Lstat string
  | Fstat int
  | Utimensat string "timespec list"
  | Utimes string "timeval list"
  | Futimens int "timespec list"
  | Futimes int "timeval list"
  | Chmod string u32
  | Fchmod int u32
  | Fchown int u32 u32
  | Rename string string
  | Unlink string
  | Link string string
  | Symlink string string
  | Dup int
  | Posix_fadvise int int int int
  | Fcntl_readahead int int
  | Ioctl_fionbio int int
  | Mkdir string u32
  | Rmdir string
  | Opendir string
  | Fdopendir int
  | Readdir int
  | Closedir int
  | Statfs string

text \<open>Sockets and pipes of UNIX.  Addresses are passed as the bytes of the \<open>sockaddr\<close>.\<close>

datatype sock_call =
    Socket int u32 int
  | Bind int bytes
  | Listen int int
  | Connect int bytes
  | Accept int
  | Accept_noaddr int
  | Accept4 int u32
  | Getsockopt int int int
  | Setsockopt int int int int
  | Setsockopt_filter int "string option"
  | Getsockname int
  | Recv int nat int
  | Recvfrom int nat int
  | Recvmsg int nat
  | Send int bytes int
  | Sendto int bytes int bytes
  | Sendmsg int "bytes list" bytes
  | Writev int "bytes list"
  | Shutdown int int
  | Sigaction_ignore int
  | Getaddrinfo string int int
  | Freeaddrinfo int
  | Pipe
  | Pipe2 u32

text \<open>Event queues, semaphores and clocks of UNIX.\<close>

datatype ev_call =
    Epoll_create int
  | Epoll_ctl_add int int epoll_event
  | Epoll_wait int nat u32
  | Eventfd u32 u32
  | Kqueue
  | Kevent_change int "kevent list"
  | Kevent_wait int nat timespec
  | Sem_init int u32
  | Sem_destroy int
  | Sem_open string u32 u32 u32
  | Sem_close int
  | Sem_unlink string
  | Sem_wait int
  | Sem_trywait int
  | Sem_timedwait int timespec
  | Sem_post int
  | Getpid
  | Clock_gettime
  | Tzset
  | Time
  | Localtime_gmtoff u64
  | Mktime_of_gmtime u64

text \<open>Win32: files.\<close>

datatype winfile_call =
    GetFileAttributesExW wstr
  | GetFileAttributesW wstr
  | SetFileAttributesW wstr u32
  | GetFileInformationByHandle int
  | SetFileInformationByHandle int u32
  | GetFileSizeEx int
  | SetFileTime int filetime
  | MoveFileExW wstr wstr u32
  | DeleteFileW wstr
  | CreateHardLinkW wstr wstr
  | GetLongPathNameW wstr nat
  | CreateFileW wstr u32 u32 u32 u32
  | GetCurrentProcess
  | DuplicateHandle int int u32
  | CloseHandle int
  | SetFilePointerEx int u64 int
  | SetEndOfFile int
  | WriteFile int bytes "u64 option"
  | ReadFile int nat "u64 option"
  | CreateDirectoryW wstr
  | RemoveDirectoryW wstr
  | FindFirstFileW wstr
  | FindNextFileW int
  | FindClose int
  | GetDiskFreeSpaceW wstr

text \<open>Win32: pipes, completion ports, semaphores, sockets.\<close>

datatype winio_call =
    CreatePipe
  | SetNamedPipeHandleState int u32
  | CreateNamedPipeW wstr u32 u32
  | DisconnectNamedPipe int
  | ConnectNamedPipe int bool
  | GetOverlappedResult int
  | CreateIoCompletionPort int int int
  | GetQueuedCompletionStatusEx int nat u32
  | GetQueuedCompletionStatus int u32
  | PostQueuedCompletionStatus int int
  | CreateSemaphoreW u32 "wstr option"
  | OpenSemaphoreW wstr
  | WaitForSingleObject int u32
  | ReleaseSemaphore int
  | GetSystemTimePreciseAsFileTime
  | GetSystemTimeAsFileTime

text \<open>
  Winsock.  \<open>ReadFileOv\<close> and \<open>WriteFileOv\<close> are \<open>ReadFile\<close> and \<open>WriteFile\<close> on a socket
  with an \<open>OVERLAPPED\<close> object.
\<close>

datatype winsock_call =
    WSocket int u32 int
  | Closesocket int
  | Ioctlsocket int int
  | WSetsockopt int int int int
  | WGetsockopt int int int
  | WBind int bytes
  | WListen int int
  | WConnect int bytes
  | WAccept int
  | ConnectEx int bytes
  | AcceptEx int int
  | GetAcceptExSockaddrs bytes
  | DisconnectEx int
  | WGetsockname int
  | WRecv int int int
  | WRecvfrom int int int
  | WSARecvFrom int nat
  | WSend int bytes int int
  | WSendto int bytes int int bytes
  | WSASend int "bytes list"
  | ReadFileOv int nat
  | WriteFileOv int bytes
  | WSAIoctl_getfunc int int
  | WSAStartup
  | GetAddrInfoW wstr int
  | FreeAddrInfoW int

text \<open>Terminals: UNIX and the Windows console.\<close>

datatype term_call =
    Tcgetattr int
  | Tcsetattr int u32 bytes
  | GetStdHandle int
  | GetConsoleMode int
  | SetConsoleMode int u32
  | ReadConsoleW int nat
  | WriteConsoleW int wstr
  | GetNumberOfConsoleInputEvents int
  | ReadConsoleInput int nat

text \<open>Win32: environment and locale.\<close>

datatype env_call =
    ExpandEnvironmentStringsW wstr nat
  | GetUserDefaultLocaleName nat
  | GetLocaleInfoW u32
  | SendMessageTimeout_settingchange

text \<open>
  Processes.  \<open>CreateProcessW\<close> has the file name, the command line, the three standard handles
  of the start-up information, its flags, and whether handles are inherited.
\<close>

datatype proc_call =
    Vfork
  | Sigaction_default int
  | Dup2 int int
  | Chdir string
  | Execve string "string list" "string list"
  | Exit_process int
  | Abort
  | Waitid int u32
  | Kill int int
  | Realpath string
  | Readlink string nat
  | Sysctl_pathname nat
  | NSGetExecutablePath nat
  | Getcwd nat
  | GetProcessId int
  | SetHandleInformation int int
  | CreateProcessW wstr wstr "int list" u32 bool
  | GetExitCodeProcess int
  | TerminateProcess int u32
  | GetCurrentProcessId
  | ExitProcess int
  | GetModuleFileNameW nat
  | GetCurrentDirectoryW nat

text \<open>Threads.  A thread is created with the address of its function, its argument and stack size.\<close>

datatype thread_call =
    Pthread_attr_init
  | Pthread_attr_setstacksize nat
  | Pthread_attr_destroy
  | Pthread_create "nat option" int int
  | Pthread_join int
  | Pthread_tryjoin_np int
  | Pthread_timedjoin_np int timespec
  | Pthread_detach int
  | Gettid
  | Pthread_threadid_np
  | Pthread_getthreadid_np
  | Usleep u32
  | CreateThread nat int int
  | GetExitCodeThread int
  | Sleep u32
  | GetCurrentThreadId

text \<open>Timers and signals.\<close>

datatype timer_call =
    Timerfd_create u32
  | Timerfd_settime int itimerspec
  | CreateWaitableTimer
  | CreateEvent
  | SetEvent int
  | WaitForSingleObjectEx int
  | SetWaitableTimer int u64 u32
  | CancelWaitableTimer int

datatype signal_call =
    Signalfd "int list" u32
  | Read_siginfo int
  | Sigprocmask int "int list"
  | Sigaltstack int nat
  | Sigaction int u32
  | SetConsoleCtrlHandler
  | SetUnhandledExceptionFilter bool

text \<open>Monitoring of files.\<close>

datatype mon_call =
    Inotify_init1 u32
  | Inotify_add_watch int string u32
  | Inotify_rm_watch int int
  | ReadDirectoryChangesW int nat u32

text \<open>The Windows registry.\<close>

datatype reg_call =
    RegCreateKeyExW int wstr u32
  | RegOpenKeyExW int wstr u32
  | RegCloseKey int
  | RegQueryInfoKeyW int
  | RegQueryValueExW int wstr nat
  | RegSetValueExW int wstr u32 bytes
  | RegDeleteKeyValueW int wstr wstr
  | RegDeleteKeyW int wstr
  | RegEnumKeyExW int u32 nat
  | RegEnumValueW int u32 nat nat

text \<open>Libraries, the stack of a thread, mappings, volumes and messages of errors.\<close>

datatype lib_call =
    Dlopen string u32
  | Dlclose int
  | Dlsym int string
  | Dlerror
  | LoadLibraryExW wstr u32
  | GetProcAddress int string
  | FreeLibrary int
  | Mmap nat int int int u64
  | Munmap int nat
  | CreateFileMapping int u32 u32 u32
  | MapViewOfFile int int u32 u32 nat
  | UnmapViewOfFile int
  | FindFirstVolumeW nat
  | FindNextVolumeW int nat
  | FindVolumeClose int
  | GetDriveTypeW wstr
  | GetVolumeInformationW wstr nat
  | GetVolumePathNamesForVolumeNameW wstr nat
  | DeleteVolumeMountPointW wstr
  | SetVolumeMountPointW wstr wstr
  | GetModuleHandleW wstr
  | CaptureStackBackTrace nat
  | GetModuleHandleExW int
  | GetModuleFileNameW_of int nat
  | Backtrace nat
  | Dladdr int
  | FormatMessageW int nat
  | Strerror_r int nat
  | Strerror int
  | Gai_strerror int

text \<open>Counters and settings.\<close>

datatype perf_call =
    Clock_gettime_id int
  | Getrusage int
  | QueryPerformanceFrequency
  | QueryPerformanceCounter
  | GetCurrentThread
  | GetProcessTimes int
  | GetThreadTimes int
  | GetProcessIoCounters int
  | GetProcessMemoryInfo int
  | NtQuerySystemInformation nat
  | Srandom u32
  | Random
  | Rand_s
  | Sysconf int
  | GetNativeSystemInfo
  | GetNetworkParams nat

datatype call =
    Mem mem_call
  | FileC file_call
  | Sock sock_call
  | Ev ev_call
  | WinFile winfile_call
  | WinIo winio_call
  | WinSock winsock_call
  | Term term_call
  | Env env_call
  | Proc proc_call
  | Thr thread_call
  | Tim timer_call
  | Sig signal_call
  | Mon mon_call
  | Reg reg_call
  | Lib lib_call
  | Perf perf_call

subsection \<open>Replies, kernels and the state of a program\<close>

datatype out =
    NoOut
  | OBytes bytes
  | OText string
  | OWide wstr
  | OInts "int list"
  | OWords "u64 list"
  | OStat stat
  | OWinfo winfileinfo
  | OFind winfileinfo wstr
  | OTime timespec
  | OFiletime filetime
  | OAddr bytes nat
  | OMsg bytes bytes nat
  | OTermios u32 bytes
  | OInput "input_record list"
  | OReg u32 bytes nat
  | OEnum wstr u32 bytes
  | OProcs "(int \<times> (int \<times> u32) list) list"
  | OStrs "string list"
  | OSym int string

record reply =
  rv :: int
  rerr :: "int option"
  rout :: out

type_synonym 'w kernel = "call \<Rightarrow> 'w \<Rightarrow> reply \<times> 'w"

record 'w sys =
  world :: 'w
  lasterr :: int
  trace :: "(call \<times> reply) list"

type_synonym ('w, 'a) prog = "('w sys, 'a) state"

definition err_after :: "reply \<Rightarrow> int \<Rightarrow> int" where
  "err_after r e = (case rerr r of None \<Rightarrow> e | Some e' \<Rightarrow> e')"

definition sys_step :: "'w kernel \<Rightarrow> call \<Rightarrow> 'w sys \<Rightarrow> 'w sys" where
  "sys_step K c s =
     (let rw = K c (world s)
      in \<lparr>world = snd rw, lasterr = err_after (fst rw) (lasterr s),
          trace = trace s @ [(c, fst rw)]\<rparr>)"

definition sys :: "'w kernel \<Rightarrow> call \<Rightarrow> ('w, reply) prog" where
  "sys K c = State (\<lambda>s. (fst (K c (world s)), sys_step K c s))"

text \<open>A call of which only the return value matters.\<close>

definition sysi :: "'w kernel \<Rightarrow> call \<Rightarrow> ('w, int) prog" where
  "sysi K c = do { r \<leftarrow> sys K c; State_Monad.return (rv r) }"

definition fferr_last :: "('w, int) prog" where
  "fferr_last = State (\<lambda>s. (lasterr s, s))"

definition fferr_set :: "int \<Rightarrow> ('w, unit) prog" where
  "fferr_set e = State (\<lambda>s. ((), s\<lparr>lasterr := e\<rparr>))"

text \<open>The state in which a program starts: nothing logged yet.\<close>

definition start :: "'w \<Rightarrow> int \<Rightarrow> 'w sys" where
  "start w e = \<lparr>world = w, lasterr = e, trace = []\<rparr>"

definition calls_of :: "'w sys \<Rightarrow> call list" where
  "calls_of s = map fst (trace s)"

lemma run_sys [run_simps]: "run_state (sys K c) s = (fst (K c (world s)), sys_step K c s)"
  by (simp add: sys_def)

lemma run_sysi [run_simps]: "run_state (sysi K c) s = (rv (fst (K c (world s))), sys_step K c s)"
  by (simp add: sysi_def sys_def)

lemma run_fferr_last [run_simps]: "run_state fferr_last s = (lasterr s, s)"
  by (simp add: fferr_last_def)

lemma run_fferr_set [run_simps]: "run_state (fferr_set e) s = ((), s\<lparr>lasterr := e\<rparr>)"
  by (simp add: fferr_set_def)

lemma sys_step_sel [simp]:
  "world (sys_step K c s) = snd (K c (world s))"
  "lasterr (sys_step K c s) = err_after (fst (K c (world s))) (lasterr s)"
  "trace (sys_step K c s) = trace s @ [(c, fst (K c (world s)))]"
  by (simp_all add: sys_step_def Let_def)

lemma start_sel [simp]: "world (start w e) = w" "lasterr (start w e) = e" "trace (start w e) = []"
  by (simp_all add: start_def)

lemma err_after_simps [simp]:
  "rerr r = None \<Longrightarrow> err_after r e = e" "rerr r = Some e' \<Longrightarrow> err_after r e = e'"
  by (simp_all add: err_after_def)

lemma run_return' [run_simps]: "run_state (State_Monad.return x) s = (x, s)"
  by (simp add: State_Monad.return_def)

subsection \<open>Weakest preconditions\<close>

text \<open>
  \<open>wp m Q s\<close>: run from \<open>s\<close>, the program \<open>m\<close> ends with a result and a state that
  satisfy \<open>Q\<close>.  The rules follow the structure of a program and name the reply of each call,
  so that a proof sees one branch of the code at a time.
\<close>

definition wp :: "('w, 'a) prog \<Rightarrow> ('a \<Rightarrow> 'w sys \<Rightarrow> bool) \<Rightarrow> 'w sys \<Rightarrow> bool" where
  "wp m Q s \<longleftrightarrow> Q (fst (run_state m s)) (snd (run_state m s))"

named_theorems wp_intros \<open>verification conditions\<close>

lemma wp_return [wp_intros]: "Q x s \<Longrightarrow> wp (State_Monad.return x) Q s"
  by (simp add: wp_def State_Monad.return_def)

lemma wp_bind [wp_intros]: "wp m (\<lambda>x. wp (f x) Q) s \<Longrightarrow> wp (State_Monad.bind m f) Q s"
  by (simp add: wp_def split_beta)

lemma wp_if [wp_intros]:
  "(b \<Longrightarrow> wp m Q s) \<Longrightarrow> (\<not> b \<Longrightarrow> wp n Q s) \<Longrightarrow> wp (if b then m else n) Q s"
  by simp

lemma wp_let [wp_intros]: "(\<And>x. x = a \<Longrightarrow> wp (f x) Q s) \<Longrightarrow> wp (let x = a in f x) Q s"
  by simp

lemma wp_prod [wp_intros]: "(\<And>x y. p = (x, y) \<Longrightarrow> wp (f x y) Q s) \<Longrightarrow> wp (case p of (x, y) \<Rightarrow> f x y) Q s"
  by (cases p) simp

lemma wp_option [wp_intros]:
  "(p = None \<Longrightarrow> wp m Q s) \<Longrightarrow> (\<And>x. p = Some x \<Longrightarrow> wp (f x) Q s)
   \<Longrightarrow> wp (case p of None \<Rightarrow> m | Some x \<Rightarrow> f x) Q s"
  by (cases p) simp_all

lemma wp_sys [wp_intros]:
  "(\<And>r s'. K c (world s) = (r, world s') \<Longrightarrow> trace s' = trace s @ [(c, r)]
      \<Longrightarrow> lasterr s' = err_after r (lasterr s) \<Longrightarrow> Q r s')
   \<Longrightarrow> wp (sys K c) Q s"
  by (simp add: wp_def sys_def)

lemma wp_sysi [wp_intros]:
  "(\<And>r s'. K c (world s) = (r, world s') \<Longrightarrow> trace s' = trace s @ [(c, r)]
      \<Longrightarrow> lasterr s' = err_after r (lasterr s) \<Longrightarrow> Q (rv r) s')
   \<Longrightarrow> wp (sysi K c) Q s"
  by (simp add: wp_def sysi_def sys_def)

lemma wp_fferr_last [wp_intros]: "Q (lasterr s) s \<Longrightarrow> wp fferr_last Q s"
  by (simp add: wp_def fferr_last_def)

lemma wp_fferr_set [wp_intros]:
  "(\<And>s'. world s' = world s \<Longrightarrow> trace s' = trace s \<Longrightarrow> lasterr s' = e \<Longrightarrow> Q () s')
   \<Longrightarrow> wp (fferr_set e) Q s"
  by (simp add: wp_def fferr_set_def)

text \<open>Using a specification of a called function.\<close>

lemma wp_mono: "wp m P s \<Longrightarrow> (\<And>x s'. P x s' \<Longrightarrow> Q x s') \<Longrightarrow> wp m Q s"
  by (simp add: wp_def)

lemma wp_conj: "wp m P s \<Longrightarrow> wp m Q s \<Longrightarrow> wp m (\<lambda>r s'. P r s' \<and> Q r s') s"
  by (simp add: wp_def)

lemma wp_any: "wp m (\<lambda>r s. True) s"
  by (simp add: wp_def)

lemma wpD: "wp m Q s \<Longrightarrow> Q (fst (run_state m s)) (snd (run_state m s))"
  by (simp add: wp_def)

subsection \<open>Reading what a call wrote\<close>

fun out_bytes :: "reply \<Rightarrow> bytes" where
  "out_bytes r = (case rout r of OBytes b \<Rightarrow> b | OMsg b _ _ \<Rightarrow> b | _ \<Rightarrow> [])"

fun out_text :: "reply \<Rightarrow> string" where
  "out_text r = (case rout r of OText t \<Rightarrow> t | _ \<Rightarrow> [])"

fun out_wide :: "reply \<Rightarrow> wstr" where
  "out_wide r = (case rout r of OWide w \<Rightarrow> w | _ \<Rightarrow> [])"

fun out_int :: "reply \<Rightarrow> nat \<Rightarrow> int" where
  "out_int r i = (case rout r of OInts xs \<Rightarrow> (if i < length xs then xs ! i else 0) | _ \<Rightarrow> 0)"

fun out_word :: "reply \<Rightarrow> u64" where
  "out_word r = (case rout r of OWords (x # _) \<Rightarrow> x | _ \<Rightarrow> 0)"

subsection \<open>Resources in the log\<close>

text \<open>
  \<open>heap_after t\<close> is the multiset of heap blocks that the calls of \<open>t\<close> obtained and did not
  release; releasing a block that is not outstanding is recorded as a fault (\<open>None\<close>).
  \<open>free(NULL)\<close> does nothing.
\<close>

definition heap_step :: "int multiset option \<Rightarrow> call \<times> reply \<Rightarrow> int multiset option" where
  "heap_step h cr = (case h of None \<Rightarrow> None | Some h \<Rightarrow>
     (case fst cr of
        Mem m \<Rightarrow>
          (case m of
             MFree p \<Rightarrow> if p = 0 then Some h else if p \<in># h then Some (h - {#p#}) else None
           | MRealloc p n \<Rightarrow>
               if rv (snd cr) = 0 then Some h
               else if p = 0 then Some (add_mset (rv (snd cr)) h)
               else if p \<in># h then Some (add_mset (rv (snd cr)) (h - {#p#})) else None
           | _ \<Rightarrow> Some (if rv (snd cr) = 0 then h else add_mset (rv (snd cr)) h))
      | _ \<Rightarrow> Some h))"

definition heap_after :: "(call \<times> reply) list \<Rightarrow> int multiset option" where
  "heap_after t = foldl heap_step (Some {#}) t"

lemma heap_after_simps [simp]:
  "heap_after [] = Some {#}" "heap_after (x # t) = foldl heap_step (heap_step (Some {#}) x) t"
  "heap_after (t @ u) = foldl heap_step (heap_after t) u"
  by (simp_all add: heap_after_def)

lemma heap_step_None [simp]: "heap_step None x = None" "foldl heap_step None t = None"
  by (induction t) (simp_all add: heap_step_def)

text \<open>No block leaks and none is released twice.\<close>

definition heap_clean :: "(call \<times> reply) list \<Rightarrow> bool" where
  "heap_clean t \<longleftrightarrow> heap_after t = Some {#}"

text \<open>The block a pointer owns; \<open>NULL\<close> owns none.\<close>

definition block :: "int \<Rightarrow> int multiset" where
  "block p = (if p = 0 then {#} else {#p#})"

text \<open>
  The same for descriptors and handles: what a call opened (\<open>-1\<close> is the failure of the calls
  that open one, \<open>NULL\<close> of the Windows objects and of directory streams), and closing something that is not open is a
  fault.
\<close>

definition opens_fd :: "call \<Rightarrow> bool" where
  "opens_fd c \<longleftrightarrow> (case c of
      FileC f \<Rightarrow> (case f of Open _ _ _ \<Rightarrow> True | Dup _ \<Rightarrow> True | _ \<Rightarrow> False)
    | Sock f \<Rightarrow> (case f of Socket _ _ _ \<Rightarrow> True | Accept _ \<Rightarrow> True | Accept_noaddr _ \<Rightarrow> True
        | Accept4 _ _ \<Rightarrow> True | _ \<Rightarrow> False)
    | Ev f \<Rightarrow> (case f of Epoll_create _ \<Rightarrow> True | Eventfd _ _ \<Rightarrow> True | Kqueue \<Rightarrow> True | _ \<Rightarrow> False)
    | WinFile f \<Rightarrow> (case f of CreateFileW _ _ _ _ _ \<Rightarrow> True | FindFirstFileW _ \<Rightarrow> True | _ \<Rightarrow> False)
    | WinIo f \<Rightarrow> (case f of CreateNamedPipeW _ _ _ \<Rightarrow> True | _ \<Rightarrow> False)
    | WinSock f \<Rightarrow> (case f of WSocket _ _ _ \<Rightarrow> True | WAccept _ \<Rightarrow> True | _ \<Rightarrow> False)
    | Tim f \<Rightarrow> (case f of Timerfd_create _ \<Rightarrow> True | _ \<Rightarrow> False)
    | Sig f \<Rightarrow> (case f of Signalfd _ _ \<Rightarrow> True | _ \<Rightarrow> False)
    | Mon f \<Rightarrow> (case f of Inotify_init1 _ \<Rightarrow> True | _ \<Rightarrow> False)
    | Lib f \<Rightarrow> (case f of FindFirstVolumeW _ \<Rightarrow> True | _ \<Rightarrow> False)
    | _ \<Rightarrow> False)"

definition opens_object :: "call \<Rightarrow> bool" where
  "opens_object c \<longleftrightarrow> (case c of
      FileC f \<Rightarrow> (case f of Opendir _ \<Rightarrow> True | Fdopendir _ \<Rightarrow> True | _ \<Rightarrow> False)
    | WinIo f \<Rightarrow> (case f of CreateSemaphoreW _ _ \<Rightarrow> True | OpenSemaphoreW _ \<Rightarrow> True | _ \<Rightarrow> False)
    | Thr f \<Rightarrow> (case f of CreateThread _ _ _ \<Rightarrow> True | _ \<Rightarrow> False)
    | Tim f \<Rightarrow> (case f of CreateWaitableTimer \<Rightarrow> True | CreateEvent \<Rightarrow> True | _ \<Rightarrow> False)
    | Lib f \<Rightarrow> (case f of LoadLibraryExW _ _ \<Rightarrow> True | Dlopen _ _ \<Rightarrow> True | CreateFileMapping _ _ _ _ \<Rightarrow> True
        | _ \<Rightarrow> False)
    | _ \<Rightarrow> False)"

definition opens_pair :: "call \<Rightarrow> reply \<Rightarrow> bool" where
  "opens_pair c r \<longleftrightarrow> (case c of
      Sock f \<Rightarrow> (case f of Pipe \<Rightarrow> rv r = 0 | Pipe2 _ \<Rightarrow> rv r = 0 | _ \<Rightarrow> False)
    | WinIo f \<Rightarrow> (case f of CreatePipe \<Rightarrow> rv r \<noteq> 0 | _ \<Rightarrow> False)
    | Proc f \<Rightarrow> (case f of CreateProcessW _ _ _ _ _ \<Rightarrow> rv r \<noteq> 0 | _ \<Rightarrow> False)
    | _ \<Rightarrow> False)"

text \<open>Registry keys come back through an output argument.\<close>

definition opens_key :: "call \<Rightarrow> reply \<Rightarrow> bool" where
  "opens_key c r \<longleftrightarrow> (case c of
      Reg f \<Rightarrow> (case f of RegCreateKeyExW _ _ _ \<Rightarrow> rv r = 0 | RegOpenKeyExW _ _ _ \<Rightarrow> rv r = 0 | _ \<Rightarrow> False)
    | _ \<Rightarrow> False)"

definition opened :: "call \<Rightarrow> reply \<Rightarrow> int multiset" where
  "opened c r =
     (if opens_fd c then (if rv r = -1 then {#} else {#rv r#})
      else if opens_object c then (if rv r = 0 then {#} else {#rv r#})
      else if opens_pair c r then {#out_int r 0, out_int r 1#}
      else if opens_key c r then {#out_int r 0#} else {#})"

lemmas opened_simps [simp] = opened_def opens_fd_def opens_object_def opens_pair_def opens_key_def

definition closed :: "call \<Rightarrow> int option" where
  "closed c = (case c of
      FileC f \<Rightarrow> (case f of Close d \<Rightarrow> Some d | Closedir d \<Rightarrow> Some d | _ \<Rightarrow> None)
    | WinFile f \<Rightarrow> (case f of CloseHandle d \<Rightarrow> Some d | FindClose d \<Rightarrow> Some d | _ \<Rightarrow> None)
    | WinSock f \<Rightarrow> (case f of Closesocket d \<Rightarrow> Some d | _ \<Rightarrow> None)
    | Reg f \<Rightarrow> (case f of RegCloseKey d \<Rightarrow> Some d | _ \<Rightarrow> None)
    | Lib f \<Rightarrow> (case f of FreeLibrary d \<Rightarrow> Some d | Dlclose d \<Rightarrow> Some d | FindVolumeClose d \<Rightarrow> Some d | _ \<Rightarrow> None)
    | _ \<Rightarrow> None)"

definition fd_step :: "int multiset option \<Rightarrow> call \<times> reply \<Rightarrow> int multiset option" where
  "fd_step h cr = (case h of None \<Rightarrow> None | Some h \<Rightarrow>
     (case closed (fst cr) of
        None \<Rightarrow> Some (h + opened (fst cr) (snd cr))
      | Some d \<Rightarrow> if d \<in># h then Some (h - {#d#}) else None))"

definition fds_after :: "(call \<times> reply) list \<Rightarrow> int multiset option" where
  "fds_after t = foldl fd_step (Some {#}) t"

lemma fds_after_simps [simp]:
  "fds_after [] = Some {#}" "fds_after (x # t) = foldl fd_step (fd_step (Some {#}) x) t"
  "fds_after (t @ u) = foldl fd_step (fds_after t) u"
  by (simp_all add: fds_after_def)

lemma calls_of_simps [simp]:
  "trace s = [] \<Longrightarrow> calls_of s = []"
  "trace s' = trace s @ [(c, r)] \<Longrightarrow> calls_of s' = calls_of s @ [c]"
  by (simp_all add: calls_of_def)

subsection \<open>Systems and error codes\<close>

text \<open>
  The UNIX systems the sources distinguish; \<open>FF_LINUX\<close> is defined on Android too.  The error
  numbers are those of Linux, the code only uses their names.
\<close>

datatype os = Linux | Android | FreeBSD | Apple

definition ff_linux :: "os \<Rightarrow> bool" where
  "ff_linux os \<longleftrightarrow> os = Linux \<or> os = Android"

lemma ff_linux_simps [simp]: "ff_linux Linux" "ff_linux Android" "\<not> ff_linux FreeBSD" "\<not> ff_linux Apple"
  by (simp_all add: ff_linux_def)

abbreviation (input) EPERM :: int where "EPERM \<equiv> 1"
abbreviation (input) ENOENT :: int where "ENOENT \<equiv> 2"
abbreviation (input) EINTR :: int where "EINTR \<equiv> 4"
abbreviation (input) EAGAIN :: int where "EAGAIN \<equiv> 11"
abbreviation (input) EBUSY :: int where "EBUSY \<equiv> 16"
abbreviation (input) EEXIST :: int where "EEXIST \<equiv> 17"
abbreviation (input) EINVAL :: int where "EINVAL \<equiv> 22"
abbreviation (input) ENFILE :: int where "ENFILE \<equiv> 23"
abbreviation (input) EMFILE :: int where "EMFILE \<equiv> 24"
abbreviation (input) ENOSYS :: int where "ENOSYS \<equiv> 38"
abbreviation (input) EOVERFLOW :: int where "EOVERFLOW \<equiv> 75"
abbreviation (input) EMSGSIZE :: int where "EMSGSIZE \<equiv> 90"
abbreviation (input) ETIMEDOUT :: int where "ETIMEDOUT \<equiv> 110"
abbreviation (input) EINPROGRESS :: int where "EINPROGRESS \<equiv> 115"

abbreviation (input) ERROR_FILE_NOT_FOUND :: int where "ERROR_FILE_NOT_FOUND \<equiv> 2"
abbreviation (input) ERROR_PATH_NOT_FOUND :: int where "ERROR_PATH_NOT_FOUND \<equiv> 3"
abbreviation (input) ERROR_ACCESS_DENIED :: int where "ERROR_ACCESS_DENIED \<equiv> 5"
abbreviation (input) ERROR_INVALID_DATA :: int where "ERROR_INVALID_DATA \<equiv> 13"
abbreviation (input) ERROR_NO_MORE_FILES :: int where "ERROR_NO_MORE_FILES \<equiv> 18"
abbreviation (input) ERROR_NOT_READY :: int where "ERROR_NOT_READY \<equiv> 21"
abbreviation (input) ERROR_HANDLE_EOF :: int where "ERROR_HANDLE_EOF \<equiv> 38"
abbreviation (input) ERROR_NOT_SUPPORTED :: int where "ERROR_NOT_SUPPORTED \<equiv> 50"
abbreviation (input) ERROR_FILE_EXISTS :: int where "ERROR_FILE_EXISTS \<equiv> 80"
abbreviation (input) ERROR_INVALID_PARAMETER :: int where "ERROR_INVALID_PARAMETER \<equiv> 87"
abbreviation (input) ERROR_BROKEN_PIPE :: int where "ERROR_BROKEN_PIPE \<equiv> 109"
abbreviation (input) ERROR_INVALID_NAME :: int where "ERROR_INVALID_NAME \<equiv> 123"
abbreviation (input) ERROR_BUSY :: int where "ERROR_BUSY \<equiv> 170"
abbreviation (input) ERROR_ALREADY_EXISTS :: int where "ERROR_ALREADY_EXISTS \<equiv> 183"
abbreviation (input) ERROR_NO_DATA :: int where "ERROR_NO_DATA \<equiv> 232"
abbreviation (input) WAIT_TIMEOUT :: int where "WAIT_TIMEOUT \<equiv> 258"
abbreviation (input) ERROR_PIPE_CONNECTED :: int where "ERROR_PIPE_CONNECTED \<equiv> 535"
abbreviation (input) ERROR_IO_INCOMPLETE :: int where "ERROR_IO_INCOMPLETE \<equiv> 996"
abbreviation (input) ERROR_IO_PENDING :: int where "ERROR_IO_PENDING \<equiv> 997"
abbreviation (input) WSAEWOULDBLOCK :: int where "WSAEWOULDBLOCK \<equiv> 10035"
abbreviation (input) WSAETIMEDOUT :: int where "WSAETIMEDOUT \<equiv> 10060"

text \<open>The predicates on error codes, UNIX and Windows (\<open>EWOULDBLOCK\<close> is \<open>EAGAIN\<close>).\<close>

definition fferr_again :: "int \<Rightarrow> bool" where
  "fferr_again code \<longleftrightarrow> code = EAGAIN"

definition fferr_exist :: "int \<Rightarrow> bool" where
  "fferr_exist code \<longleftrightarrow> code = EEXIST"

definition fferr_notexist :: "int \<Rightarrow> bool" where
  "fferr_notexist code \<longleftrightarrow> code = ENOENT"

definition fferr_fdlimit :: "int \<Rightarrow> bool" where
  "fferr_fdlimit code \<longleftrightarrow> code = EMFILE \<or> code = ENFILE"

definition fferr_again_win :: "int \<Rightarrow> bool" where
  "fferr_again_win code \<longleftrightarrow> code = WSAEWOULDBLOCK"

definition fferr_exist_win :: "int \<Rightarrow> bool" where
  "fferr_exist_win code \<longleftrightarrow> code = ERROR_FILE_EXISTS \<or> code = ERROR_ALREADY_EXISTS"

definition fferr_notexist_win :: "int \<Rightarrow> bool" where
  "fferr_notexist_win code \<longleftrightarrow> code = ERROR_FILE_NOT_FOUND \<or> code = ERROR_PATH_NOT_FOUND
     \<or> code = ERROR_NOT_READY \<or> code = ERROR_INVALID_NAME"

definition fferr_fdlimit_win :: "int \<Rightarrow> bool" where
  "fferr_fdlimit_win code \<longleftrightarrow> False"

text \<open>Allocations succeed.\<close>

definition mem_available :: "'w kernel \<Rightarrow> bool" where
  "mem_available K \<longleftrightarrow> (\<forall>n w. rv (fst (K (Mem (MAlloc n)) w)) \<noteq> 0) \<and> (\<forall>p n w. rv (fst (K (Mem (MRealloc p n)) w)) \<noteq> 0)"

lemma mem_availableD:
  assumes "mem_available K"
  shows "K (Mem (MAlloc n)) w = (r, w') \<Longrightarrow> rv r \<noteq> 0" "K (Mem (MRealloc p n)) w = (r, w') \<Longrightarrow> rv r \<noteq> 0"
  using assms unfolding mem_available_def by (metis fst_conv)+

text \<open>Programs that own the same blocks afterwards.\<close>

definition heap_neutral :: "('w, 'a) prog \<Rightarrow> bool" where
  "heap_neutral m \<longleftrightarrow> (\<forall>s. wp m (\<lambda>r s'. \<forall>h. heap_after (trace s) = Some h \<longrightarrow> heap_after (trace s') = Some h) s)"

lemma heap_neutralD: "heap_neutral m \<Longrightarrow> wp m (\<lambda>r s'. \<forall>h. heap_after (trace s) = Some h \<longrightarrow> heap_after (trace s') = Some h) s"
  by (simp add: heap_neutral_def)

lemma heap_neutralI:
  "(\<And>h s. heap_after (trace s) = Some h \<Longrightarrow> wp m (\<lambda>r s'. heap_after (trace s') = Some h) s) \<Longrightarrow> heap_neutral m"
  unfolding heap_neutral_def wp_def by blast

lemma heap_neutral_clean: "heap_neutral m \<Longrightarrow> wp m (\<lambda>r s. heap_clean (trace s)) (start w e)"
  unfolding heap_clean_def by (rule wp_mono [OF heap_neutralD]) auto

end
