(* ===== verification/Platform.thy ===== *)
theory Platform
  imports Os
begin

text \<open>
  What the preprocessor decides (\<open>FFOS/detect-os.h\<close>, \<open>FFOS/detect-compiler.h\<close>) and the built-ins
  of \<open>FFOS/compiler-gcc.h\<close>.  The input is which macros the compiler has predefined; a \<open>#error\<close> is
  \<open>None\<close>.
\<close>

subsection \<open>The system\<close>

text \<open>\<open>BSD\<close> is defined by \<open>sys/param.h\<close>; \<open>d_apiver\<close> is a value given for \<open>FF_WIN_APIVER\<close>.\<close>

record predefined =
  d_linux :: bool
  d_ANDROID :: bool
  d_APPLE :: bool
  d_MACH :: bool
  d_unix :: bool
  d_BSD :: bool
  d_WIN32 :: bool
  d_WIN64 :: bool
  d_CYGWIN :: bool
  d_apiver :: "nat option"

text \<open>The macros that the headers test.\<close>

datatype ff_macro = FF_UNIX | FF_LINUX | FF_ANDROID | FF_LINUX_MAINLINE | FF_APPLE | FF_BSD | FF_WIN nat

definition detect_os :: "predefined \<Rightarrow> ff_macro set option" where
  "detect_os d =
     (if d_linux d then Some (if d_ANDROID d then {FF_UNIX, FF_LINUX, FF_ANDROID} else {FF_UNIX, FF_LINUX, FF_LINUX_MAINLINE})
      else if d_APPLE d \<and> d_MACH d then Some {FF_UNIX, FF_APPLE}
      else if d_unix d then Some (if d_BSD d then {FF_UNIX, FF_BSD} else {FF_UNIX})
      else if d_WIN32 d \<or> d_WIN64 d \<or> d_CYGWIN d then
        Some {FF_WIN (case d_apiver d of None \<Rightarrow> 0x0600 | Some v \<Rightarrow> v)}
      else None)"

text \<open>The types of \<open>base.h\<close> that depend on it: whether a descriptor is an \<open>int\<close>, and the bytes of \<open>ffsyschar\<close>.\<close>

definition base_types :: "ff_macro set \<Rightarrow> bool \<times> nat" where
  "base_types m = (if FF_UNIX \<in> m then (True, 1) else (False, 2))"

text \<open>The system of the models that a set of macros stands for.\<close>

definition os_of :: "ff_macro set \<Rightarrow> os option" where
  "os_of m = (if FF_ANDROID \<in> m then Some Android else if FF_LINUX \<in> m then Some Linux
     else if FF_APPLE \<in> m then Some Apple else if FF_BSD \<in> m then Some FreeBSD else None)"

subsection \<open>The compiler\<close>

record predefined_cc =
  d_clang :: bool
  d_MINGW32 :: bool
  d_MINGW64 :: bool
  d_GNUC :: bool

datatype compiler = FF_CLANG | FF_MINGW | FF_GCC

definition detect_compiler :: "predefined_cc \<Rightarrow> compiler option" where
  "detect_compiler d =
     (if d_clang d then Some FF_CLANG
      else if d_MINGW32 d \<or> d_MINGW64 d then Some FF_MINGW
      else if d_GNUC d then Some FF_GCC
      else None)"

definition FF_EXP :: "compiler \<Rightarrow> string" where
  "FF_EXP c = (if c = FF_MINGW then ''__declspec(dllexport)'' else ''__attribute__((visibility('' @ [CHR 0x22] @ ''default'' @ [CHR 0x22] @ '')))'')"

definition FF_IMP :: "compiler \<Rightarrow> string" where
  "FF_IMP c = (if c = FF_MINGW then ''__declspec(dllimport)'' else [])"

text \<open>\<open>__builtin_ffs\<close>: one plus the index of the lowest bit that is set, 0 if there is none.\<close>

definition builtin_ffs :: "nat \<Rightarrow> 'a::len word \<Rightarrow> nat" where
  "builtin_ffs n i = (case find (bit i) [0..<n] of None \<Rightarrow> 0 | Some k \<Rightarrow> Suc k)"

definition ffbit_ffs32 :: "u32 \<Rightarrow> nat" where "ffbit_ffs32 i = builtin_ffs 32 i"

definition ffbit_ffs64 :: "u64 \<Rightarrow> nat" where "ffbit_ffs64 i = builtin_ffs 64 i"

subsection \<open>Properties\<close>

lemma builtin_ffs_spec:
  fixes i :: "'a::len word"
  assumes "n = LENGTH('a)"
  shows "(builtin_ffs n i = 0 \<longleftrightarrow> i = 0) \<and> builtin_ffs n i \<le> n \<and>
    (i \<noteq> 0 \<longrightarrow> bit i (builtin_ffs n i - 1) \<and> (\<forall>k < builtin_ffs n i - 1. \<not> bit i k))"
proof (cases "find (bit i) [0..<n]")
  case None
  then have "i = 0" using assms unfolding find_None_iff by (auto intro!: bit_word_eqI)
  then show ?thesis using None by (simp add: builtin_ffs_def)
next
  case (Some k)
  then have "k < n" "bit i k" "\<forall>j < k. \<not> bit i j" unfolding find_Some_iff by auto
  then show ?thesis using Some by (auto simp: builtin_ffs_def)
qed

text \<open>
  The headers have a UNIX half and a Windows half: every supported system selects one of them, never
  both, and of the UNIX systems at most one.
\<close>

lemma detect_os_one_half:
  assumes "detect_os d = Some m"
  shows "(FF_UNIX \<in> m) \<noteq> (\<exists>v. FF_WIN v \<in> m)"
    and "FF_UNIX \<in> m \<Longrightarrow> os_of m = None \<Longrightarrow> m = {FF_UNIX}"
    and "card (m \<inter> {FF_LINUX, FF_APPLE, FF_BSD}) \<le> 1"
  using assms unfolding detect_os_def os_of_def by (auto split: if_splits)

lemma detect_os_linux:
  "detect_os d = Some m \<Longrightarrow> os_of m = Some os \<Longrightarrow> FF_LINUX \<in> m \<longleftrightarrow> ff_linux os"
  unfolding detect_os_def os_of_def ff_linux_def by (auto split: if_splits)

text \<open>
  The test for \<open>__CYGWIN__\<close> has no effect with a compiler that defines \<open>__unix__\<close> too, as that of
  Cygwin does: the UNIX half is selected, and no system in it.
\<close>

lemma detect_os_cygwin:
  "d_CYGWIN d \<Longrightarrow> d_unix d \<Longrightarrow> \<not> d_linux d \<Longrightarrow> \<not> d_APPLE d \<Longrightarrow> \<not> d_BSD d \<Longrightarrow> detect_os d = Some {FF_UNIX}"
  by (simp add: detect_os_def)

end
