(* ===== verification/Time.thy ===== *)
theory Time
  imports Os
begin

text \<open>
  Date and time (\<open>FFOS/time.h\<close>): the conversions between ffbase's \<open>fftime\<close> and the time
  types of the systems, and the functions that read the clock and the time zone.

  \<open>fftime\<close> has a signed 64-bit \<open>sec\<close> and an unsigned 32-bit \<open>nsec\<close>.  Both are
  machine words here, so every product and sum wraps exactly as in the code; \<open>time_t\<close> and
  \<open>long\<close> are 64 bits wide.
\<close>

record fftime =
  sec :: u64
  nsec :: u32

record fftime_zone =
  tz_off :: int
  tz_have_dst :: int
  tz_is_dst :: int
  tz_real_offset :: int

definition fftime_empty :: "fftime \<Rightarrow> bool" where
  "fftime_empty t \<longleftrightarrow> sec t = 0 \<and> nsec t = 0"

definition fftime_null :: fftime where
  "fftime_null = \<lparr>sec = 0, nsec = 0\<rparr>"

definition fftime_msec :: "fftime \<Rightarrow> u32" where
  "fftime_msec t = nsec t div 1000000"

definition fftime_usec :: "fftime \<Rightarrow> u32" where
  "fftime_usec t = nsec t div 1000"

definition fftime_setsec :: "fftime \<Rightarrow> u32 \<Rightarrow> fftime" where
  "fftime_setsec t s = t\<lparr>sec := ucast s\<rparr>"

definition fftime_setmsec :: "fftime \<Rightarrow> u32 \<Rightarrow> fftime" where
  "fftime_setmsec t ms = t\<lparr>nsec := ms * 1000000\<rparr>"

definition fftime_setusec :: "fftime \<Rightarrow> u32 \<Rightarrow> fftime" where
  "fftime_setusec t us = t\<lparr>nsec := us * 1000\<rparr>"

definition fftime_setnsec :: "fftime \<Rightarrow> u32 \<Rightarrow> fftime" where
  "fftime_setnsec t ns = t\<lparr>nsec := ns\<rparr>"

definition fftime_to_msec :: "fftime \<Rightarrow> u64" where
  "fftime_to_msec t = sec t * 1000 + ucast (nsec t div 1000000)"

definition fftime_to_usec :: "fftime \<Rightarrow> u64" where
  "fftime_to_usec t = sec t * 1000000 + ucast (nsec t div 1000)"

definition fftime_from_time_t :: "u64 \<Rightarrow> fftime" where
  "fftime_from_time_t tt = \<lparr>sec = tt, nsec = 0\<rparr>"

definition fftime_to_time_t :: "fftime \<Rightarrow> u64" where
  "fftime_to_time_t t = sec t"

definition fftime_from_timeval :: "timeval \<Rightarrow> fftime" where
  "fftime_from_timeval tv = \<lparr>sec = tv_sec tv, nsec = ucast (tv_usec tv) * 1000\<rparr>"

definition fftime_to_timeval :: "fftime \<Rightarrow> timeval" where
  "fftime_to_timeval t = \<lparr>tv_sec = sec t, tv_usec = ucast (nsec t div 1000)\<rparr>"

definition fftime_from_timespec :: "timespec \<Rightarrow> fftime" where
  "fftime_from_timespec ts = \<lparr>sec = ts_sec ts, nsec = ucast (ts_nsec ts)\<rparr>"

definition fftime_to_timespec :: "fftime \<Rightarrow> timespec" where
  "fftime_to_timespec t = \<lparr>ts_sec = sec t, ts_nsec = ucast (nsec t)\<rparr>"

text \<open>100-ns intervals within 1600..1970.\<close>

definition FFTIME_100NS :: u64 where
  "FFTIME_100NS = 116444736000000000"

definition fftime_from_winftime :: "filetime \<Rightarrow> fftime" where
  "fftime_from_winftime ft =
     (let i = (push_bit 32 (ucast (ft_hi ft)) OR ucast (ft_lo ft) :: u64)
      in if i > FFTIME_100NS
         then let i' = i - FFTIME_100NS
              in \<lparr>sec = i' div (1000000 * 10), nsec = ucast ((i' mod (1000000 * 10)) * 100)\<rparr>
         else \<lparr>sec = 0, nsec = 0\<rparr>)"

definition fftime_to_winftime :: "fftime \<Rightarrow> filetime" where
  "fftime_to_winftime t =
     (let d = sec t * 1000000 * 10 + ucast (nsec t div 100) + FFTIME_100NS
      in \<lparr>ft_lo = ucast d, ft_hi = ucast (drop_bit 32 d)\<rparr>)"

text \<open>
  \<open>fftime_now\<close>: the result of \<open>clock_gettime\<close> is ignored and \<open>ts\<close> starts zeroed, so a
  call that fails without writing gives the zero time.  \<open>fftime_now_win\<close> is the version
  for systems that have \<open>GetSystemTimePreciseAsFileTime\<close> (\<open>FF_WIN >= 0x0602\<close>);
  \<open>fftime_now_oldwin\<close> looks the function up once and keeps it in a static variable, \<open>-1\<close> at first.
\<close>

definition fftime_now :: "'w kernel \<Rightarrow> ('w, fftime) prog" where
  "fftime_now K = do {
     r \<leftarrow> sys K (Ev Clock_gettime);
     let ts = (case rout r of OTime ts \<Rightarrow> ts | _ \<Rightarrow> \<lparr>ts_sec = 0, ts_nsec = 0\<rparr>);
     State_Monad.return (fftime_from_timespec ts)
   }"

definition fftime_now_win :: "'w kernel \<Rightarrow> ('w, fftime) prog" where
  "fftime_now_win K = do {
     r \<leftarrow> sys K (WinIo GetSystemTimePreciseAsFileTime);
     let ft = (case rout r of OFiletime ft \<Rightarrow> ft | _ \<Rightarrow> \<lparr>ft_lo = 0, ft_hi = 0\<rparr>);
     State_Monad.return (fftime_from_winftime ft)
   }"

definition kernel32_dll :: wstr where
  "kernel32_dll = [107, 101, 114, 110, 101, 108, 51, 50, 46, 100, 108, 108]"

definition fftime_now_oldwin :: "'w kernel \<Rightarrow> int \<Rightarrow> ('w, fftime \<times> int) prog" where
  "fftime_now_oldwin K fn = do {
     fn \<leftarrow> (if fn = -1 then do {
             m \<leftarrow> sysi K (Lib (GetModuleHandleW kernel32_dll));
             sysi K (Lib (GetProcAddress m ''GetSystemTimePreciseAsFileTime''))
           } else State_Monad.return fn);
     r \<leftarrow> sys K (WinIo (if fn \<noteq> 0 then GetSystemTimePreciseAsFileTime else GetSystemTimeAsFileTime));
     let ft = (case rout r of OFiletime ft \<Rightarrow> ft | _ \<Rightarrow> \<lparr>ft_lo = 0, ft_hi = 0\<rparr>);
     State_Monad.return (fftime_from_winftime ft, fn)
   }"

text \<open>
  \<open>fftime_local\<close>.  \<open>tzset\<close> gives the globals \<open>timezone\<close> and \<open>daylight\<close>;
  \<open>Mktime_of_gmtime gt\<close> is \<open>mktime\<close> of \<open>gmtime_r(gt)\<close> with \<open>tm_isdst = -1\<close>, which
  gives the time and the \<open>tm_isdst\<close> it stored.  \<open>linux\<close> selects the \<open>FF_LINUX\<close>
  branch; the Windows function makes the calls of that branch in another order.
\<close>

definition fftime_local_end :: "'w kernel \<Rightarrow> int \<Rightarrow> int \<Rightarrow> int \<Rightarrow> ('w, fftime_zone) prog" where
  "fftime_local_end K gt off dst = do {
     m \<leftarrow> sys K (Ev (Mktime_of_gmtime (of_int gt)));
     State_Monad.return \<lparr>tz_off = off, tz_have_dst = dst, tz_is_dst = out_int m 0,
       tz_real_offset = gt - rv m\<rparr>
   }"

definition fftime_local :: "'w kernel \<Rightarrow> bool \<Rightarrow> ('w, fftime_zone) prog" where
  "fftime_local K linux = do {
     gt \<leftarrow> sysi K (Ev Time);
     z \<leftarrow> sys K (Ev Tzset);
     if linux then fftime_local_end K gt (- out_int z 0) (out_int z 1)
     else do {
       l \<leftarrow> sysi K (Ev (Localtime_gmtoff (of_int gt)));
       fftime_local_end K gt l 0
     }
   }"

definition fftime_local_win :: "'w kernel \<Rightarrow> ('w, fftime_zone) prog" where
  "fftime_local_win K = do {
     z \<leftarrow> sys K (Ev Tzset);
     gt \<leftarrow> sysi K (Ev Time);
     fftime_local_end K gt (- out_int z 0) (out_int z 1)
   }"

subsection \<open>Conversions as arithmetic\<close>

text \<open>A time that a clock can show: \<open>nsec\<close> is less than a second.\<close>

definition fftime_wf :: "fftime \<Rightarrow> bool" where
  "fftime_wf t \<longleftrightarrow> unat (nsec t) < 1000000000"

text \<open>The value of a FILETIME as a number.\<close>

definition ft_nat :: "filetime \<Rightarrow> nat" where
  "ft_nat ft = unat (ft_hi ft) * 2 ^ 32 + unat (ft_lo ft)"

lemma join_words: "(push_bit 32 (ucast (h::u32)) OR ucast (l::u32) :: u64) = ucast h * 2 ^ 32 + ucast l"
proof -
  have "push_bit 32 (ucast h) OR (ucast l :: u64) = push_bit 32 (ucast h) + ucast l"
    by (rule disjunctive_add [symmetric]) (auto simp: bit_simps dest: bit_imp_le_length)
  then show ?thesis by (simp add: push_bit_eq_mult)
qed

lemma unat_u32_less: "unat (x :: u32) < 4294967296"
  using unsigned_less [of x, where 'a = nat] by simp

lemma unat_u64_less: "unat (x :: u64) < 18446744073709551616"
  using unsigned_less [of x, where 'a = nat] by simp

lemma unat_up [simp]: "unat (ucast (x :: u32) :: u64) = unat x"
  using unat_u32_less [of x] by (simp add: unsigned_ucast_eq take_bit_eq_mod)

lemma unat_down: "unat (ucast (x :: u64) :: u32) = unat x mod 4294967296"
  by (simp add: unsigned_ucast_eq take_bit_eq_mod)

lemma unat_join:
  "unat (push_bit 32 (ucast (h::u32)) OR ucast (l::u32) :: u64) = unat h * 2 ^ 32 + unat l"
  using unat_u32_less [of h] unat_u32_less [of l]
  unfolding join_words by (simp add: unat_word_ariths)

lemma ft_nat_less: "ft_nat ft < 2 ^ 64"
  using unat_u32_less [of "ft_hi ft"] unat_u32_less [of "ft_lo ft"] by (simp add: ft_nat_def)

lemma unat_100NS: "unat FFTIME_100NS = 116444736000000000"
  by (simp add: FFTIME_100NS_def)

lemma from_winftime_nat:
  assumes "ft_nat ft > 116444736000000000"
  defines "i \<equiv> ft_nat ft - 116444736000000000"
  shows "unat (sec (fftime_from_winftime ft)) = i div 10000000"
    and "unat (nsec (fftime_from_winftime ft)) = (i mod 10000000) * 100"
proof -
  let ?j = "push_bit 32 (ucast (ft_hi ft)) OR ucast (ft_lo ft) :: u64"
  have j: "unat ?j = ft_nat ft" by (simp add: unat_join ft_nat_def)
  have gt: "FFTIME_100NS < ?j" using assms(1) by (simp add: word_less_nat_alt j unat_100NS)
  then have i: "unat (?j - FFTIME_100NS) = i"
    by (simp add: unat_sub_if' word_le_nat_alt [symmetric] less_imp_le j unat_100NS i_def
        word_less_nat_alt)
  show "unat (sec (fftime_from_winftime ft)) = i div 10000000"
    using gt i by (simp add: fftime_from_winftime_def Let_def unat_div)
  have "i mod 10000000 * 100 < 1000000000"
    using mod_less_divisor [of 10000000 i] by simp
  then show "unat (nsec (fftime_from_winftime ft)) = (i mod 10000000) * 100"
    using gt i by (simp add: fftime_from_winftime_def Let_def unat_down unat_word_ariths unat_mod)
qed

lemma from_winftime_early:
  assumes "ft_nat ft \<le> 116444736000000000"
  shows "fftime_from_winftime ft = fftime_null"
proof -
  have "\<not> FFTIME_100NS < push_bit 32 (ucast (ft_hi ft)) OR ucast (ft_lo ft)"
    using assms by (simp add: word_less_nat_alt unat_join unat_100NS ft_nat_def)
  then show ?thesis by (simp add: fftime_from_winftime_def fftime_null_def Let_def)
qed

lemma split_words: "unat (ucast (drop_bit 32 (d::u64)) :: u32) * 4294967296 + unat (ucast d :: u32) = unat d"
proof -
  have "unat (drop_bit 32 d) = unat d div 4294967296"
    by (simp add: unsigned_drop_bit_eq drop_bit_eq_div unat_div)
  moreover have "unat d div 4294967296 < 4294967296"
    using unat_u64_less [of d] by simp
  ultimately show ?thesis by (simp add: unat_down)
qed

lemma to_winftime_nat:
  assumes "unat (sec t) * 10000000 + unat (nsec t) div 100 + 116444736000000000 < 2 ^ 64"
  shows "ft_nat (fftime_to_winftime t) =
    unat (sec t) * 10000000 + unat (nsec t) div 100 + 116444736000000000"
proof -
  let ?d = "sec t * 1000000 * 10 + ucast (nsec t div 100) + FFTIME_100NS"
  have "unat ?d = unat (sec t) * 10000000 + unat (nsec t) div 100 + 116444736000000000"
    using assms le_less_trans [OF div_le_dividend unat_u32_less, of "nsec t" 100]
    by (simp add: unat_word_ariths unat_100NS unat_div mod_simps)
  then show ?thesis
    using split_words [of ?d] by (simp add: fftime_to_winftime_def Let_def ft_nat_def)
qed

lemma ft_nat_inj: "ft_nat a = ft_nat b \<longleftrightarrow> a = b"
proof
  assume e: "ft_nat a = ft_nat b"
  have m: "ft_nat x mod 4294967296 = unat (ft_lo x)" "ft_nat x div 4294967296 = unat (ft_hi x)" for x
    using unat_u32_less [of "ft_lo x"] by (simp_all add: ft_nat_def)
  have "unat (ft_lo a) = unat (ft_lo b)" "unat (ft_hi a) = unat (ft_hi b)"
    using m [of a] m [of b] e by simp_all
  then have "ft_lo a = ft_lo b" "ft_hi a = ft_hi b" by (simp_all add: word_unat_eq_iff)
  then show "a = b" by (cases a, cases b) simp
qed simp

lemma fftime_eqI: "unat (sec a) = unat (sec b) \<Longrightarrow> unat (nsec a) = unat (nsec b) \<Longrightarrow> (a::fftime) = b"
  by (cases a, cases b) (simp add: word_unat_eq_iff)

subsection \<open>Properties\<close>

text \<open>
  A FILETIME after 1970 survives the trip through \<open>fftime\<close> unchanged, for all 64
  bits of it; an earlier one becomes the zero time.
\<close>

theorem winftime_roundtrip:
  "fftime_to_winftime (fftime_from_winftime ft) = ft \<or>
   ft_nat ft \<le> unat FFTIME_100NS \<and> fftime_from_winftime ft = fftime_null"
proof (cases "ft_nat ft > 116444736000000000")
  case True
  let ?t = "fftime_from_winftime ft" and ?i = "ft_nat ft - 116444736000000000"
  note n = from_winftime_nat [OF True]
  have e: "unat (sec ?t) * 10000000 + unat (nsec ?t) div 100 = ?i" using n by simp
  have "ft_nat (fftime_to_winftime ?t) = ft_nat ft"
    using to_winftime_nat [of ?t] e True ft_nat_less [of ft] by simp
  then show ?thesis by (simp add: ft_nat_inj)
next
  case False
  then show ?thesis using from_winftime_early [of ft] by (simp add: unat_100NS)
qed

text \<open>
  In the other direction a well-formed time from 1970 up to the year 60056 comes back
  with its nanoseconds cut to the 100-ns unit of FILETIME, and nothing wraps on the way.
\<close>

theorem fftime_winftime_roundtrip:
  assumes "fftime_wf t" "unat (sec t) \<le> 1833029933769"
  defines "u \<equiv> fftime_from_winftime (fftime_to_winftime t)"
  shows "sec u = sec t \<and> unat (nsec u) = unat (nsec t) div 100 * 100"
proof -
  let ?i = "unat (sec t) * 10000000 + unat (nsec t) div 100"
  have b: "unat (nsec t) div 100 < 10000000" using assms(1) by (simp add: fftime_wf_def)
  then have l: "?i + 116444736000000000 < 2 ^ 64" using assms(2) by simp
  note f = to_winftime_nat [OF l]
  show ?thesis
  proof (cases "?i = 0")
    case True
    then have "u = fftime_null" using f from_winftime_early [of "fftime_to_winftime t"]
      by (simp add: u_def)
    then show ?thesis using True by (simp add: fftime_null_def unat_eq_0)
  next
    case False
    then have g: "ft_nat (fftime_to_winftime t) > 116444736000000000" using f by simp
    have "unat (sec u) = unat (sec t)" "unat (nsec u) = unat (nsec t) div 100 * 100"
      using from_winftime_nat [OF g] f b by (simp_all add: u_def)
    then show ?thesis by (simp add: word_unat_eq_iff)
  qed
qed

theorem fftime_winftime_roundtrip_witness:
  "fftime_from_winftime (fftime_to_winftime \<lparr>sec = 1600000000, nsec = 123456789\<rparr>) =
   \<lparr>sec = 1600000000, nsec = 123456700\<rparr>"
proof (rule fftime_eqI)
  let ?t = "\<lparr>sec = 1600000000, nsec = 123456789\<rparr> :: fftime"
  have w: "fftime_wf ?t" "unat (sec ?t) \<le> 1833029933769" by (simp_all add: fftime_wf_def)
  show "unat (sec (fftime_from_winftime (fftime_to_winftime ?t))) =
      unat (sec \<lparr>sec = 1600000000, nsec = 123456700\<rparr>)"
    using fftime_winftime_roundtrip [OF w] by simp
  show "unat (nsec (fftime_from_winftime (fftime_to_winftime ?t))) =
      unat (nsec \<lparr>sec = 1600000000, nsec = 123456700\<rparr>)"
    using fftime_winftime_roundtrip [OF w] by simp
qed

text \<open>
  UNIX: a time goes through \<open>timespec\<close> unchanged and through \<open>timeval\<close> with
  its nanoseconds cut to microseconds; milliseconds and microseconds are computed without
  wrap-around for every time up to the year 292278994 and 292277 respectively.
\<close>

theorem fftime_unix_conversions:
  assumes "fftime_wf t" "unat (sec t) < 9223372036854"
  shows "fftime_from_timespec (fftime_to_timespec t) = t \<and>
    fftime_from_timeval (fftime_to_timeval t) = t\<lparr>nsec := nsec t div 1000 * 1000\<rparr> \<and>
    unat (fftime_to_msec t) = unat (sec t) * 1000 + unat (nsec t) div 1000000 \<and>
    unat (fftime_to_usec t) = unat (sec t) * 1000000 + unat (nsec t) div 1000"
proof (intro conjI)
  show "fftime_from_timespec (fftime_to_timespec t) = t"
    using unat_u32_less [of "nsec t"]
    by (intro fftime_eqI) (simp_all add: fftime_from_timespec_def fftime_to_timespec_def unat_down)
  show "fftime_from_timeval (fftime_to_timeval t) = t\<lparr>nsec := nsec t div 1000 * 1000\<rparr>"
    using le_less_trans [OF div_le_dividend unat_u32_less, of "nsec t" 1000]
    by (intro fftime_eqI)
      (simp_all add: fftime_from_timeval_def fftime_to_timeval_def unat_down unat_word_ariths unat_div)
  show "unat (fftime_to_msec t) = unat (sec t) * 1000 + unat (nsec t) div 1000000"
    using assms by (simp add: fftime_to_msec_def unat_word_ariths unat_div fftime_wf_def)
  show "unat (fftime_to_usec t) = unat (sec t) * 1000000 + unat (nsec t) div 1000"
    using assms by (simp add: fftime_to_usec_def unat_word_ariths unat_div fftime_wf_def)
qed

theorem fftime_unix_conversions_witness:
  "unat (fftime_to_msec \<lparr>sec = 5, nsec = 7000000\<rparr>) = 5007"
proof -
  let ?t = "\<lparr>sec = 5, nsec = 7000000\<rparr> :: fftime"
  have w: "fftime_wf ?t" "unat (sec ?t) < 9223372036854" by (simp_all add: fftime_wf_def)
  show ?thesis using fftime_unix_conversions [OF w] by simp
qed

end
