(* ===== verification/File.thy ===== *)
theory File
  imports Time
begin

text \<open>
  Files on UNIX (\<open>FFOS/file.h\<close>, the UNIX half and the functions shared by both systems).

  Each function is the sequence of system calls it makes, with the tests between them.  Data that
  a call writes into the caller's buffer is returned beside the C return value.  Open flags are
  the values of the generic Linux ABI.
\<close>

subsection \<open>Open flags\<close>

definition O_WRONLY :: u32 where [flag_simps]: "O_WRONLY = 1"
definition O_LARGEFILE :: u32 where [flag_simps]: "O_LARGEFILE = 0x8000"
definition O_NOATIME :: u32 where [flag_simps]: "O_NOATIME = 0x40000"

definition FFFILE_CREATE :: u32 where [flag_simps]: "FFFILE_CREATE = 0x40"
definition FFFILE_CREATENEW :: u32 where [flag_simps]: "FFFILE_CREATENEW = 0xC0"
definition FFFILE_READONLY :: u32 where [flag_simps]: "FFFILE_READONLY = 0"
definition FFFILE_WRITEONLY :: u32 where [flag_simps]: "FFFILE_WRITEONLY = 1"
definition FFFILE_READWRITE :: u32 where [flag_simps]: "FFFILE_READWRITE = 2"
definition FFFILE_TRUNCATE :: u32 where [flag_simps]: "FFFILE_TRUNCATE = 0x200"

abbreviation (input) FFFILE_NULL :: int where "FFFILE_NULL \<equiv> -1"

subsection \<open>Properties of a file\<close>

text \<open>What \<open>stat\<close> wrote into the caller's structure; \<open>fi\<close> is its content before.\<close>

definition out_stat :: "stat \<Rightarrow> reply \<Rightarrow> stat" where
  "out_stat fi r = (case rout r of OStat st \<Rightarrow> st | _ \<Rightarrow> fi)"

definition fffile_info_path :: "'w kernel \<Rightarrow> string \<Rightarrow> stat \<Rightarrow> ('w, int \<times> stat) prog" where
  "fffile_info_path K name fi = do {
     r \<leftarrow> sys K (FileC (Stat name));
     State_Monad.return (rv r, out_stat fi r)
   }"

definition fffile_info_linkpath :: "'w kernel \<Rightarrow> string \<Rightarrow> stat \<Rightarrow> ('w, int \<times> stat) prog" where
  "fffile_info_linkpath K name fi = do {
     r \<leftarrow> sys K (FileC (Lstat name));
     State_Monad.return (rv r, out_stat fi r)
   }"

definition fffile_info :: "'w kernel \<Rightarrow> int \<Rightarrow> stat \<Rightarrow> ('w, int \<times> stat) prog" where
  "fffile_info K fd fi = do {
     r \<leftarrow> sys K (FileC (Fstat fd));
     State_Monad.return (rv r, out_stat fi r)
   }"

definition stat_undef :: stat where
  "stat_undef = \<lparr>st_size = 0, st_mtim = \<lparr>ts_sec = 0, ts_nsec = 0\<rparr>, st_mode = 0, st_ino = 0, st_uid = 0\<rparr>"

text \<open>The result is \<open>ffint64\<close>: \<open>-1\<close> or the size, as a 64-bit word.\<close>

definition fffile_size :: "'w kernel \<Rightarrow> int \<Rightarrow> ('w, u64) prog" where
  "fffile_size K fd = do {
     r \<leftarrow> sys K (FileC (Fstat fd));
     if rv r \<noteq> 0 then State_Monad.return (-1)
     else State_Monad.return (st_size (out_stat stat_undef r))
   }"

definition fffileinfo_size :: "stat \<Rightarrow> u64" where
  "fffileinfo_size fi = st_size fi"

definition fffileinfo_mtime :: "stat \<Rightarrow> fftime" where
  "fffileinfo_mtime fi = fftime_from_timespec (st_mtim fi)"

definition fffileinfo_attr :: "stat \<Rightarrow> u32" where
  "fffileinfo_attr fi = st_mode fi"

definition S_IFMT :: u32 where [flag_simps]: "S_IFMT = 0xF000"
definition S_IFDIR :: u32 where [flag_simps]: "S_IFDIR = 0x4000"

definition fffile_isdir :: "u32 \<Rightarrow> bool" where
  "fffile_isdir file_attr \<longleftrightarrow> file_attr AND S_IFMT = S_IFDIR"

definition fffileinfo_id :: "stat \<Rightarrow> u64" where
  "fffileinfo_id fi = st_ino fi"

definition fffileinfo_owner :: "stat \<Rightarrow> u32" where
  "fffileinfo_owner fi = st_uid fi"

definition fffile_exists :: "'w kernel \<Rightarrow> string \<Rightarrow> ('w, bool) prog" where
  "fffile_exists K name = do {
     r \<leftarrow> fffile_info_path K name stat_undef;
     State_Monad.return (fst r = 0)
   }"

definition fffile_set_mtime_path :: "'w kernel \<Rightarrow> os \<Rightarrow> string \<Rightarrow> fftime \<Rightarrow> ('w, int) prog" where
  "fffile_set_mtime_path K os name last_write =
     (if ff_linux os
      then sysi K (FileC (Utimensat name [fftime_to_timespec last_write, fftime_to_timespec last_write]))
      else sysi K (FileC (Utimes name [fftime_to_timeval last_write, fftime_to_timeval last_write])))"

text \<open>
  The condition of the second branch is \<open>!defined FF_ANDROID || defined __ANDROID_API__ >= 26\<close>.
  The preprocessor reads its second half as \<open>(defined __ANDROID_API__) >= 26\<close>, which is false,
  so on Android the third branch is compiled whatever the API level is.
\<close>

definition fffile_set_mtime :: "'w kernel \<Rightarrow> os \<Rightarrow> int \<Rightarrow> fftime \<Rightarrow> ('w, int) prog" where
  "fffile_set_mtime K os fd last_write =
     (if ff_linux os \<and> os \<noteq> Android
      then sysi K (FileC (Futimens fd [fftime_to_timespec last_write, fftime_to_timespec last_write]))
      else if os \<noteq> Android
      then sysi K (FileC (Futimes fd [fftime_to_timeval last_write, fftime_to_timeval last_write]))
      else do { fferr_set ENOSYS; State_Monad.return (-1) })"

definition fffile_set_attr_path :: "'w kernel \<Rightarrow> string \<Rightarrow> u32 \<Rightarrow> ('w, int) prog" where
  "fffile_set_attr_path K name mode = sysi K (FileC (Chmod name mode))"

definition fffile_set_attr :: "'w kernel \<Rightarrow> int \<Rightarrow> u32 \<Rightarrow> ('w, int) prog" where
  "fffile_set_attr K fd mode = sysi K (FileC (Fchmod fd mode))"

definition fffile_set_owner :: "'w kernel \<Rightarrow> int \<Rightarrow> u32 \<Rightarrow> u32 \<Rightarrow> ('w, int) prog" where
  "fffile_set_owner K fd uid gid = sysi K (FileC (Fchown fd uid gid))"

subsection \<open>Names and links\<close>

definition fffile_rename :: "'w kernel \<Rightarrow> string \<Rightarrow> string \<Rightarrow> ('w, int) prog" where
  "fffile_rename K oldpath newpath = sysi K (FileC (Rename oldpath newpath))"

definition fffile_remove :: "'w kernel \<Rightarrow> string \<Rightarrow> ('w, int) prog" where
  "fffile_remove K name = sysi K (FileC (Unlink name))"

definition fffile_hardlink :: "'w kernel \<Rightarrow> string \<Rightarrow> string \<Rightarrow> ('w, int) prog" where
  "fffile_hardlink K oldpath newpath = sysi K (FileC (Link oldpath newpath))"

definition fffile_symlink :: "'w kernel \<Rightarrow> string \<Rightarrow> string \<Rightarrow> ('w, int) prog" where
  "fffile_symlink K target linkpath = sysi K (FileC (Symlink target linkpath))"

subsection \<open>Descriptors and I/O\<close>

definition fffile_open :: "'w kernel \<Rightarrow> os \<Rightarrow> string \<Rightarrow> u32 \<Rightarrow> ('w, int) prog" where
  "fffile_open K os name flags =
     (let mode = 0x1B6 in
      if ff_linux os then do {
        let flags = flags OR O_LARGEFILE;
        fd \<leftarrow> sysi K (FileC (Open name flags mode));
        e \<leftarrow> fferr_last;
        if fd = FFFILE_NULL \<and> e = EPERM \<and> tst flags O_NOATIME
        then sysi K (FileC (Open name (flags AND NOT O_NOATIME) mode))
        else State_Monad.return fd
      }
      else sysi K (FileC (Open name flags mode)))"

definition fffile_createtemp :: "'w kernel \<Rightarrow> os \<Rightarrow> string \<Rightarrow> u32 \<Rightarrow> ('w, int) prog" where
  "fffile_createtemp K os name flags = do {
     fd \<leftarrow> fffile_open K os name (FFFILE_CREATENEW OR flags);
     if fd \<noteq> FFFILE_NULL then do { sysi K (FileC (Unlink name)); State_Monad.return fd }
     else State_Monad.return fd
   }"

definition fffile_dup :: "'w kernel \<Rightarrow> int \<Rightarrow> ('w, int) prog" where
  "fffile_dup K fd = sysi K (FileC (Dup fd))"

definition fffile_close :: "'w kernel \<Rightarrow> int \<Rightarrow> ('w, int) prog" where
  "fffile_close K fd =
     (if fd = FFFILE_NULL then State_Monad.return 0 else sysi K (FileC (Close fd)))"

definition fffile_seek :: "'w kernel \<Rightarrow> int \<Rightarrow> u64 \<Rightarrow> int \<Rightarrow> ('w, int) prog" where
  "fffile_seek K fd pos whence = sysi K (FileC (Lseek fd pos whence))"

abbreviation (input) POSIX_FADV_NORMAL :: int where "POSIX_FADV_NORMAL \<equiv> 0"
abbreviation (input) POSIX_FADV_SEQUENTIAL :: int where "POSIX_FADV_SEQUENTIAL \<equiv> 2"

definition fffile_readahead :: "'w kernel \<Rightarrow> os \<Rightarrow> int \<Rightarrow> int \<Rightarrow> ('w, int) prog" where
  "fffile_readahead K os fd len =
     (if os = Android then do { fferr_set ENOSYS; State_Monad.return (-1) }
      else if ff_linux os then do {
        let (len, f) = (if len = -1 then (0, POSIX_FADV_NORMAL) else (len, POSIX_FADV_SEQUENTIAL));
        r \<leftarrow> sysi K (FileC (Posix_fadvise fd 0 len f));
        if r \<noteq> 0 then do { fferr_set r; State_Monad.return 1 } else State_Monad.return 0
      }
      else sysi K (FileC (Fcntl_readahead fd len)))"

definition fffile_write :: "'w kernel \<Rightarrow> int \<Rightarrow> bytes \<Rightarrow> ('w, int) prog" where
  "fffile_write K fd data = sysi K (FileC (Write fd data))"

definition fffile_writeat :: "'w kernel \<Rightarrow> int \<Rightarrow> bytes \<Rightarrow> u64 \<Rightarrow> ('w, int) prog" where
  "fffile_writeat K fd data off = sysi K (FileC (Pwrite fd data off))"

definition fffile_read :: "'w kernel \<Rightarrow> int \<Rightarrow> nat \<Rightarrow> ('w, int \<times> bytes) prog" where
  "fffile_read K fd n = do {
     r \<leftarrow> sys K (FileC (Read fd n));
     State_Monad.return (rv r, out_bytes r)
   }"

definition fffile_readat :: "'w kernel \<Rightarrow> int \<Rightarrow> nat \<Rightarrow> u64 \<Rightarrow> ('w, int \<times> bytes) prog" where
  "fffile_readat K fd n off = do {
     r \<leftarrow> sys K (FileC (Pread fd n off));
     State_Monad.return (rv r, out_bytes r)
   }"

definition fffile_trunc :: "'w kernel \<Rightarrow> int \<Rightarrow> u64 \<Rightarrow> ('w, int) prog" where
  "fffile_trunc K fd len = sysi K (FileC (Ftruncate fd len))"

definition fffile_nonblock :: "'w kernel \<Rightarrow> int \<Rightarrow> int \<Rightarrow> ('w, int) prog" where
  "fffile_nonblock K fd nonblock = sysi K (FileC (Ioctl_fionbio fd nonblock))"

subsection \<open>Whole files\<close>

text \<open>
  The vector \<open>dst\<close> is its buffer and the bytes that its \<open>len\<close> covers.  \<open>ff64\<close> tells
  whether \<open>FF_64\<close> is defined.  Sizes are 64-bit values; a failed \<open>fffile_size\<close> is the
  largest of them, which no limit below it admits.
\<close>

record ffvec =
  vec_ptr :: int
  vec_data :: bytes

text \<open>What a buffer that held \<open>old\<close> holds after \<open>new\<close> has been written to its front.\<close>

definition overwrite :: "bytes \<Rightarrow> bytes \<Rightarrow> bytes" where
  "overwrite new old = take (length old) (new @ drop (length new) old)"

definition fffile_readwhole ::
  "'w kernel \<Rightarrow> os \<Rightarrow> bool \<Rightarrow> string \<Rightarrow> ffvec \<Rightarrow> u64 \<Rightarrow> ('w, int \<times> ffvec) prog" where
  "fffile_readwhole K os ff64 fn dst limit = do {
     f \<leftarrow> fffile_open K os fn FFFILE_READONLY;
     if f = FFFILE_NULL then State_Monad.return (-1, dst)
     else do {
       sz \<leftarrow> fffile_size K f;
       res \<leftarrow> (if sz > limit then State_Monad.return (-1, dst)
              else if \<not> ff64 \<and> sz > 0xffffffff then State_Monad.return (-1, dst)
              else do {
                p \<leftarrow> sysi K (Mem (MRealloc (vec_ptr dst) (unat (sz + 1))));
                if p = 0 then State_Monad.return (-1, dst)
                else do {
                  let dst = dst\<lparr>vec_ptr := p\<rparr>;
                  r \<leftarrow> fffile_read K f (unat sz);
                  if sz \<noteq> of_int (fst r)
                  then State_Monad.return (-1, dst\<lparr>vec_data := overwrite (snd r) (vec_data dst)\<rparr>)
                  else State_Monad.return (0, dst\<lparr>vec_data := snd r\<rparr>)
                }
              });
       fffile_close K f;
       State_Monad.return res
     }
   }"

definition fffile_writewhole :: "'w kernel \<Rightarrow> os \<Rightarrow> string \<Rightarrow> bytes \<Rightarrow> u32 \<Rightarrow> ('w, int) prog" where
  "fffile_writewhole K os fn d flags = do {
     let flags = (if flags = 0 then FFFILE_CREATE OR FFFILE_TRUNCATE else flags);
     f \<leftarrow> fffile_open K os fn (flags OR FFFILE_WRITEONLY);
     if f = FFFILE_NULL then State_Monad.return (-1)
     else do {
       n \<leftarrow> fffile_write K f d;
       let rc = (if (of_nat (length d) :: u64) \<noteq> of_int n then -1 else 0);
       c \<leftarrow> fffile_close K f;
       let rc = rc OR c;
       if rc \<noteq> 0 then do { fffile_remove K fn; State_Monad.return rc }
       else State_Monad.return rc
     }
   }"

lemmas file_defs = fffile_info_path_def fffile_info_def fffile_size_def fffile_open_def
  fffile_createtemp_def fffile_close_def fffile_read_def fffile_write_def fffile_remove_def
  fffile_readwhole_def fffile_writewhole_def

lemma rc_or_zero [simp]: "(if b then -1 else 0) OR c = (0 :: int) \<longleftrightarrow> \<not> b \<and> c = 0"
  by simp

lemmas fd_simps = fd_step_def closed_def

subsection \<open>Properties: opening\<close>

text \<open>
  \<open>fffile_open\<close> makes one \<open>open\<close> call, or two: the second one only after the first was
  refused with \<open>EPERM\<close>, and it differs from the first in the \<open>O_NOATIME\<close> bit alone.
\<close>

definition open_flags :: "os \<Rightarrow> u32 \<Rightarrow> u32" where
  "open_flags os flags = (if ff_linux os then flags OR O_LARGEFILE else flags)"

definition open_retry :: "'w kernel \<Rightarrow> os \<Rightarrow> string \<Rightarrow> u32 \<Rightarrow> 'w \<Rightarrow> int \<Rightarrow> bool" where
  "open_retry K os name flags w e \<longleftrightarrow>
     (let r = fst (K (FileC (Open name (open_flags os flags) 0x1B6)) w)
      in ff_linux os \<and> rv r = -1 \<and> err_after r e = EPERM \<and> tst (open_flags os flags) O_NOATIME)"

text \<open>
  \<open>fffile_open\<close> returns what the last of its one or two \<open>open\<close> calls returned.
  It asks again without \<open>O_NOATIME\<close> exactly if the first attempt on Linux failed with
  \<open>EPERM\<close> and the flag was set; all other bits of the request stay as the caller gave them.
\<close>

theorem fffile_open_calls:
  "calls_of (snd (run_state (fffile_open K os name flags) (start w e))) =
     FileC (Open name (open_flags os flags) 0x1B6) #
       (if open_retry K os name flags w e
        then [FileC (Open name (open_flags os flags AND NOT O_NOATIME) 0x1B6)] else []) \<and>
   fst (run_state (fffile_open K os name flags) (start w e)) =
     rv (snd (last (trace (snd (run_state (fffile_open K os name flags) (start w e)))))) \<and>
   (open_flags os flags AND NOT O_NOATIME) OR O_NOATIME = open_flags os flags OR O_NOATIME"
proof -
  have "(x AND NOT m) OR m = x OR m" for x m :: u32
    by (rule bit_word_eqI) (auto simp: bit_simps)
  then show ?thesis
    by (simp add: fffile_open_def Let_def run_simps calls_of_def open_retry_def open_flags_def)
qed

subsection \<open>Properties: whole files\<close>

text \<open>
  Whatever the system replies, \<open>fffile_readwhole\<close> closes the descriptor it opened
  exactly once and returns \<open>0\<close> or \<open>-1\<close>; the file is not written, no other descriptor is
  touched.
\<close>

theorem readwhole_no_fd_leak:
  "wp (fffile_readwhole K os ff64 fn dst limit)
     (\<lambda>r s. fds_after (trace s) = Some {#} \<and> fst r \<in> {0, -1}) (start w e)"
  unfolding file_defs by (intro wp_intros) (simp_all add: fd_simps)

text \<open>
  \<open>fffile_writewhole\<close> closes the descriptor it opened exactly once.  It deletes
  the file, after closing it, exactly when the file was opened and the result is not \<open>0\<close>;
  the result is \<open>0\<close> exactly when all bytes were accepted by one \<open>write\<close> and
  \<open>close\<close> succeeded.
\<close>

theorem writewhole_deletes_on_error:
  "wp (fffile_writewhole K os fn d flags)
     (\<lambda>rc s. fds_after (trace s) = Some {#} \<and>
        (FileC (Unlink fn) \<in> set (calls_of s) \<longleftrightarrow> rc \<noteq> 0 \<and> (\<exists>fd. FileC (Close fd) \<in> set (calls_of s))) \<and>
        (rc = 0 \<longleftrightarrow>
          (\<exists>fd r c. (FileC (Write fd d), r) \<in> set (trace s) \<and> of_int (rv r) = (of_nat (length d) :: u64) \<and>
             (FileC (Close fd), c) \<in> set (trace s) \<and> rv c = 0))) (start w e)"
  unfolding file_defs calls_of_def
  by (intro wp_intros) (auto simp: fd_simps)

text \<open>
  What a file system promises for regular files: \<open>content\<close> is the content of the file of a
  name, \<open>desc\<close> the file and the offset of an open descriptor.  Every call may fail; the laws
  say what holds when it succeeds, and that the calls concerned touch nothing else.
\<close>

definition fs_laws :: "'w kernel \<Rightarrow> ('w \<Rightarrow> string \<Rightarrow> bytes option) \<Rightarrow> ('w \<Rightarrow> int \<Rightarrow> (string \<times> nat) option) \<Rightarrow> bool" where
  "fs_laws K content desc \<longleftrightarrow>
     (\<forall>w n f m r w'. K (FileC (Open n f m)) w = (r, w') \<longrightarrow> rv r \<noteq> -1 \<longrightarrow>
        desc w' (rv r) = Some (n, 0) \<and>
        (if tst f FFFILE_TRUNCATE then content w' n = Some []
         else content w n \<noteq> None \<longrightarrow> content w' n = content w n)) \<and>
     (\<forall>w fd d r w' n c. K (FileC (Write fd d)) w = (r, w') \<longrightarrow> 0 \<le> rv r \<longrightarrow> rv r \<le> int (length d) \<longrightarrow>
        desc w fd = Some (n, length c) \<longrightarrow> content w n = Some c \<longrightarrow>
        content w' n = Some (c @ take (nat (rv r)) d)) \<and>
     (\<forall>w fd d r w'. K (FileC (Write fd d)) w = (r, w') \<longrightarrow> -1 \<le> rv r \<and> rv r \<le> int (length d)) \<and>
     (\<forall>w fd r w'. K (FileC (Close fd)) w = (r, w') \<longrightarrow> content w' = content w) \<and>
     (\<forall>w p k r w'. K (Mem (MRealloc p k)) w = (r, w') \<longrightarrow> content w' = content w \<and> desc w' = desc w) \<and>
     (\<forall>w fd r w' n i c. K (FileC (Fstat fd)) w = (r, w') \<longrightarrow>
        content w' = content w \<and> desc w' = desc w \<and>
        (rv r = 0 \<longrightarrow> desc w fd = Some (n, i) \<longrightarrow> content w n = Some c \<longrightarrow>
           (\<exists>st. rout r = OStat st \<and> st_size st = of_nat (length c)))) \<and>
     (\<forall>w fd k r w' n i c. K (FileC (Read fd k)) w = (r, w') \<longrightarrow>
        -1 \<le> rv r \<and> rv r \<le> int k \<and>
        (0 \<le> rv r \<longrightarrow> desc w fd = Some (n, i) \<longrightarrow> content w n = Some c \<longrightarrow>
           rout r = OBytes (take (nat (rv r)) (drop i c))))"

lemma fs_lawsD:
  assumes "fs_laws K content desc"
  shows "K (FileC (Open n f m)) w = (r, w') \<Longrightarrow> rv r \<noteq> -1 \<Longrightarrow> desc w' (rv r) = Some (n, 0)"
    and "K (FileC (Open n f m)) w = (r, w') \<Longrightarrow> rv r \<noteq> -1 \<Longrightarrow> tst f FFFILE_TRUNCATE \<Longrightarrow> content w' n = Some []"
    and "K (FileC (Open n f m)) w = (r, w') \<Longrightarrow> rv r \<noteq> -1 \<Longrightarrow> \<not> tst f FFFILE_TRUNCATE \<Longrightarrow>
      content w n = Some c \<Longrightarrow> content w' n = Some c"
    and "K (FileC (Write fd d)) w = (r, w') \<Longrightarrow> 0 \<le> rv r \<Longrightarrow> desc w fd = Some (n, length c) \<Longrightarrow>
      content w n = Some c \<Longrightarrow> content w' n = Some (c @ take (nat (rv r)) d)"
    and "K (FileC (Write fd d)) w = (r, w') \<Longrightarrow> -1 \<le> rv r \<and> rv r \<le> int (length d)"
    and "K (FileC (Close fd)) w = (r, w') \<Longrightarrow> content w' = content w"
    and "K (Mem (MRealloc p k)) w = (r, w') \<Longrightarrow> content w' = content w \<and> desc w' = desc w"
    and "K (FileC (Fstat fd)) w = (r, w') \<Longrightarrow> content w' = content w \<and> desc w' = desc w"
    and "K (FileC (Fstat fd)) w = (r, w') \<Longrightarrow> rv r = 0 \<Longrightarrow> desc w fd = Some (n, i) \<Longrightarrow> content w n = Some c
      \<Longrightarrow> st_size (out_stat st0 r) = of_nat (length c)"
    and "K (FileC (Read fd k)) w = (r, w') \<Longrightarrow> -1 \<le> rv r \<and> rv r \<le> int k"
    and "K (FileC (Read fd k)) w = (r, w') \<Longrightarrow> 0 \<le> rv r \<Longrightarrow> desc w fd = Some (n, i) \<Longrightarrow> content w n = Some c
      \<Longrightarrow> rout r = OBytes (take (nat (rv r)) (drop i c))"
  using assms unfolding fs_laws_def out_stat_def by (simp; fastforce)+

lemma word_len_eq:
  assumes "of_nat n = (of_int r :: u64)" "-1 \<le> r" "r \<le> int k" "n < 2 ^ 63" "k < 2 ^ 63"
  shows "r = int n"
proof -
  have "uint (of_nat n :: u64) = int n" using assms(4) by (simp add: unsigned_of_nat take_bit_eq_mod)
  moreover have "uint (of_int r :: u64) = r mod 2 ^ 64" by (simp add: unsigned_of_int take_bit_eq_mod)
  ultimately have e: "r mod 2 ^ 64 = int n" using assms(1) by metis
  show ?thesis
  proof (cases "r = -1")
    case True
    then show ?thesis using e assms(4) by simp
  next
    case False
    then show ?thesis using e assms(2-5) by simp
  qed
qed

lemma no_retry_flags:
  "\<not> tst (FFFILE_READONLY OR O_LARGEFILE) O_NOATIME"
  "\<not> tst (((FFFILE_CREATE OR FFFILE_TRUNCATE) OR FFFILE_WRITEONLY) OR O_LARGEFILE) O_NOATIME"
  "tst (((FFFILE_CREATE OR FFFILE_TRUNCATE) OR FFFILE_WRITEONLY) OR O_LARGEFILE) FFFILE_TRUNCATE"
  "tst ((FFFILE_CREATE OR FFFILE_TRUNCATE) OR FFFILE_WRITEONLY) FFFILE_TRUNCATE"
  "\<not> tst (FFFILE_READONLY OR O_LARGEFILE) FFFILE_TRUNCATE"
  "\<not> tst FFFILE_READONLY FFFILE_TRUNCATE"
  by (simp_all add: tst_def flag_simps)

lemma open_trunc_content:
  assumes "fs_laws K content desc"
  shows "wp (fffile_open K os fn ((FFFILE_CREATE OR FFFILE_TRUNCATE) OR FFFILE_WRITEONLY))
    (\<lambda>f s. f \<noteq> -1 \<longrightarrow> desc (world s) f = Some (fn, 0) \<and> content (world s) fn = Some []) s0"
  unfolding fffile_open_def
  by (intro wp_intros) (auto simp: no_retry_flags fs_lawsD [OF assms])

lemma open_read_content:
  assumes "fs_laws K content desc" "content (world s0) fn = Some c"
  shows "wp (fffile_open K os fn FFFILE_READONLY)
    (\<lambda>f s. f \<noteq> -1 \<longrightarrow> desc (world s) f = Some (fn, 0) \<and> content (world s) fn = Some c) s0"
  unfolding fffile_open_def using assms(2)
  by (intro wp_intros) (auto simp: no_retry_flags fs_lawsD(1,3) [OF assms(1)])

lemma write_content:
  assumes L: "fs_laws K content desc" and d: "length d < 2 ^ 63"
    and "desc (world s0) f = Some (fn, 0)" "content (world s0) fn = Some []"
  shows "wp (fffile_write K f d)
    (\<lambda>n s. of_nat (length d) = (of_int n :: u64) \<longrightarrow> content (world s) fn = Some d) s0"
proof -
  have "content w' fn = Some d"
    if k: "K (FileC (Write f d)) (world s0) = (r, w')" "of_nat (length d) = (of_int (rv r) :: u64)"
    for r w'
  proof -
    have "rv r = int (length d)"
      using word_len_eq [OF k(2) _ _ d d] fs_lawsD(5) [OF L k(1)] by blast
    then show ?thesis using fs_lawsD(4) [OF L k(1), of fn "[]"] assms(3,4) by simp
  qed
  then show ?thesis unfolding fffile_write_def by (intro wp_intros) auto
qed

lemma close_content:
  assumes "fs_laws K content desc"
  shows "wp (fffile_close K f) (\<lambda>r s. content (world s) = content (world s0)) s0"
  unfolding fffile_close_def by (intro wp_intros) (auto dest: fs_lawsD(6) [OF assms])

lemma writewhole_content:
  assumes L: "fs_laws K content desc" and d: "length d < 2 ^ 63"
  shows "wp (fffile_writewhole K os fn d 0) (\<lambda>rc s. rc = 0 \<longrightarrow> content (world s) fn = Some d) s0"
  unfolding fffile_writewhole_def fffile_remove_def Let_def
  by (intro wp_intros wp_mono [OF open_trunc_content [OF L]] wp_mono [OF write_content [OF L d]]
      wp_mono [OF close_content [OF L]] | simp)+ auto

lemma size_content:
  assumes L: "fs_laws K content desc" and "desc (world s0) f = Some (fn, 0)" "content (world s0) fn = Some c"
  shows "wp (fffile_size K f) (\<lambda>sz s. desc (world s) f = Some (fn, 0) \<and> content (world s) fn = Some c \<and>
    (sz = -1 \<or> sz = of_nat (length c))) s0"
proof -
  have "desc w' f = Some (fn, 0) \<and> content w' fn = Some c"
    "rv r = 0 \<Longrightarrow> st_size (out_stat stat_undef r) = of_nat (length c)"
    if k: "K (FileC (Fstat f)) (world s0) = (r, w')" for r w'
    using fs_lawsD(8) [OF L k] fs_lawsD(9) [OF L k _ assms(2,3)] assms(2,3) by simp_all
  then show ?thesis unfolding fffile_size_def by (intro wp_intros) auto
qed

lemma read_content:
  assumes L: "fs_laws K content desc" and c: "length c < 2 ^ 63"
    and "desc (world s0) f = Some (fn, 0)" "content (world s0) fn = Some c"
  shows "wp (fffile_read K f k) (\<lambda>r s. k = length c \<longrightarrow> of_nat (length c) = (of_int (fst r) :: u64) \<longrightarrow> snd r = c) s0"
proof -
  have "out_bytes r = c"
    if k: "K (FileC (Read f (length c))) (world s0) = (r, w')"
      "of_nat (length c) = (of_int (rv r) :: u64)" for r w'
  proof -
    have "rv r = int (length c)"
      using word_len_eq [OF k(2) _ _ c c] fs_lawsD(10) [OF L k(1)] by blast
    then show ?thesis using fs_lawsD(11) [OF L k(1) _ assms(3,4)] by simp
  qed
  then show ?thesis unfolding fffile_read_def by (intro wp_intros) auto
qed

lemma realloc_content:
  assumes "fs_laws K content desc"
  shows "wp (sysi K (Mem (MRealloc p k)))
    (\<lambda>r s. content (world s) = content (world s0) \<and> desc (world s) = desc (world s0)) s0"
  by (intro wp_intros) (auto dest: fs_lawsD(7) [OF assms])

lemma readwhole_content:
  assumes L: "fs_laws K content desc" and c: "length c < 2 ^ 63" and s0: "content (world s0) fn = Some c"
  shows "wp (fffile_readwhole K os ff64 fn dst limit) (\<lambda>r s. fst r = 0 \<longrightarrow> limit < -1 \<longrightarrow> vec_data (snd r) = c) s0"
proof -
  have sz: "unat (of_nat (length c) :: u64) = length c" using c by (simp add: unat_of_nat)
  have l: "limit < -1 \<Longrightarrow> \<not> (-1 :: u64) \<le> limit" by simp
  show ?thesis
    unfolding fffile_readwhole_def Let_def
    by (intro wp_intros wp_mono [OF open_read_content [OF L s0]] wp_mono [OF size_content [OF L]]
      wp_mono [OF realloc_content [OF L]] wp_mono [OF read_content [OF L c]] wp_mono [OF close_content [OF L]]
      | simp)+ (auto simp: sz)
qed

text \<open>
  A file system on which no call fails that can be done: files can be created and those that exist
  opened, there is room for what is written, whole contents are read, and there is memory.
\<close>

definition fs_works :: "'w kernel \<Rightarrow> ('w \<Rightarrow> string \<Rightarrow> bytes option) \<Rightarrow> ('w \<Rightarrow> int \<Rightarrow> (string \<times> nat) option) \<Rightarrow> bool" where
  "fs_works K content desc \<longleftrightarrow>
     (\<forall>w n f m. tst f FFFILE_CREATE \<or> content w n \<noteq> None \<longrightarrow> rv (fst (K (FileC (Open n f m)) w)) \<noteq> -1) \<and>
     (\<forall>w fd d n i. desc w fd = Some (n, i) \<longrightarrow> content w n \<noteq> None \<longrightarrow> rv (fst (K (FileC (Write fd d)) w)) = int (length d)) \<and>
     (\<forall>w fd. rv (fst (K (FileC (Close fd)) w)) = 0) \<and>
     (\<forall>w fd n i. desc w fd = Some (n, i) \<longrightarrow> content w n \<noteq> None \<longrightarrow> rv (fst (K (FileC (Fstat fd)) w)) = 0) \<and>
     (\<forall>w fd n c. desc w fd = Some (n, 0) \<longrightarrow> content w n = Some c \<longrightarrow> rv (fst (K (FileC (Read fd (length c))) w)) = int (length c)) \<and>
     (\<forall>w p k. rv (fst (K (Mem (MRealloc p k)) w)) \<noteq> 0)"

lemma fs_worksD:
  assumes "fs_works K content desc"
  shows "K (FileC (Open n f m)) w = (r, w') \<Longrightarrow> tst f FFFILE_CREATE \<or> content w n \<noteq> None \<Longrightarrow> rv r \<noteq> -1"
    and "K (FileC (Write fd d)) w = (r, w') \<Longrightarrow> desc w fd = Some (n, i) \<Longrightarrow> content w n = Some c \<Longrightarrow> rv r = int (length d)"
    and "K (FileC (Close fd)) w = (r, w') \<Longrightarrow> rv r = 0"
    and "K (FileC (Fstat fd)) w = (r, w') \<Longrightarrow> desc w fd = Some (n, i) \<Longrightarrow> content w n = Some c \<Longrightarrow> rv r = 0"
    and "K (FileC (Read fd (length c))) w = (r, w') \<Longrightarrow> desc w fd = Some (n, 0) \<Longrightarrow> content w n = Some c \<Longrightarrow> rv r = int (length c)"
    and "K (Mem (MRealloc p k)) w = (r, w') \<Longrightarrow> rv r \<noteq> 0"
  using assms unfolding fs_works_def by (metis fst_conv option.distinct(1))+

lemma create_flags:
  "tst (((FFFILE_CREATE OR FFFILE_TRUNCATE) OR FFFILE_WRITEONLY) OR O_LARGEFILE) FFFILE_CREATE"
  "tst ((FFFILE_CREATE OR FFFILE_TRUNCATE) OR FFFILE_WRITEONLY) FFFILE_CREATE"
  by (simp_all add: tst_def flag_simps)

lemma open_works:
  assumes "fs_works K content desc"
  shows "wp (fffile_open K os fn ((FFFILE_CREATE OR FFFILE_TRUNCATE) OR FFFILE_WRITEONLY)) (\<lambda>f s. f \<noteq> -1) s0"
    "content (world s0) fn = Some c \<Longrightarrow> wp (fffile_open K os fn FFFILE_READONLY) (\<lambda>f s. f \<noteq> -1) s0"
  unfolding fffile_open_def
  by (intro wp_intros; auto simp: no_retry_flags create_flags dest: fs_worksD(1) [OF assms])+

lemma writewhole_works:
  assumes L: "fs_laws K content desc" and W: "fs_works K content desc" and d: "length d < 2 ^ 63"
  shows "wp (fffile_writewhole K os fn d 0) (\<lambda>rc s. rc = 0) s0"
  unfolding fffile_writewhole_def fffile_write_def fffile_close_def fffile_remove_def Let_def
  by (intro wp_intros wp_mono [OF wp_conj [OF open_works(1) [OF W] open_trunc_content [OF L]]] | simp)+
    (auto dest: fs_worksD(2,3) [OF W])

lemma readwhole_works:
  assumes L: "fs_laws K content desc" and W: "fs_works K content desc" and c: "length c < 2 ^ 63"
    and s0: "content (world s0) fn = Some c" and l: "of_nat (length c) \<le> limit" "ff64 \<or> length c \<le> 0xffffffff"
  shows "wp (fffile_readwhole K os ff64 fn dst limit) (\<lambda>r s. fst r = 0) s0"
proof -
  have u: "unat (of_nat (length c) :: u64) = length c" using c by (simp add: unat_of_nat)
  have le: "\<not> limit < of_nat (length c)" "ff64 \<or> \<not> (0xffffffff :: u64) < of_nat (length c)"
    using l u by (simp_all only: not_less word_le_nat_alt) simp_all
  have sz: "wp (fffile_size K f) (\<lambda>sz s. sz = of_nat (length c) \<and> desc (world s) f = Some (fn, 0) \<and> content (world s) fn = Some c) s"
    if "desc (world s) f = Some (fn, 0)" "content (world s) fn = Some c" for f s
  proof -
    have "st_size (out_stat stat_undef r) = of_nat (length c) \<and> rv r = 0 \<and> desc w' f = Some (fn, 0) \<and> content w' fn = Some c"
      if k: "K (FileC (Fstat f)) (world s) = (r, w')" for r w'
      using fs_lawsD(8,9) [OF L k] fs_worksD(4) [OF W k] \<open>desc (world s) f = _\<close> \<open>content (world s) fn = _\<close> by simp
    then show ?thesis unfolding fffile_size_def by (intro wp_intros) auto
  qed
  have rd: "(of_int (rv ra) :: u64) = of_nat (length c)" if "K (Mem (MRealloc p k)) w = (r, w1)" "K (FileC (Read f (length c))) w1 = (ra, w2)"
    "desc w f = Some (fn, 0)" "content w fn = Some c" for p k w r w1 ra w2 f
    using fs_worksD(5) [OF W that(2)] fs_lawsD(7) [OF L that(1)] that(3,4) by simp
  show ?thesis
    unfolding fffile_readwhole_def fffile_read_def fffile_close_def Let_def
    by (intro wp_intros wp_mono [OF wp_conj [OF open_works(2) [OF W s0] open_read_content [OF L s0]]] wp_mono [OF sz] | simp)+
      (use u le rd in \<open>auto dest: fs_worksD(6) [OF W]\<close>)
qed

text \<open>
  Claim C17.  On a file system that keeps what it accepts (\<open>fs_laws\<close>), a file written by
  \<open>fffile_writewhole\<close> and read back by \<open>fffile_readwhole\<close> has the bytes that were written,
  whenever both functions report success, however the system fails in between; and if the system
  does not fail (\<open>fs_works\<close>) and the limit admits the file, both do.
\<close>

theorem writewhole_readwhole_roundtrip:
  assumes "fs_laws K content desc" "length d < 2 ^ 63" "limit < -1"
  shows "wp (do { rc \<leftarrow> fffile_writewhole K os fn d 0;
                  r \<leftarrow> fffile_readwhole K os ff64 fn dst limit;
                  State_Monad.return (rc, r) })
    (\<lambda>(rc, rc', v) s. (rc = 0 \<and> rc' = 0 \<longrightarrow> vec_data v = d) \<and>
       (fs_works K content desc \<and> of_nat (length d) \<le> limit \<and> (ff64 \<or> length d \<le> 0xffffffff) \<longrightarrow> rc = 0 \<and> rc' = 0)) s"
proof -
  let ?ok = "fs_works K content desc \<and> of_nat (length d) \<le> limit \<and> (ff64 \<or> length d \<le> 0xffffffff)"
  have wr: "wp (fffile_writewhole K os fn d 0)
      (\<lambda>rc s. (rc = 0 \<longrightarrow> content (world s) fn = Some d) \<and> (?ok \<longrightarrow> rc = 0)) s"
    using writewhole_content [OF assms(1,2)] writewhole_works [OF assms(1) _ assms(2)] by (simp add: wp_def)
  have rd: "wp (fffile_readwhole K os ff64 fn dst limit)
      (\<lambda>r s. (rc = 0 \<and> fst r = 0 \<longrightarrow> vec_data (snd r) = d) \<and> (?ok \<longrightarrow> rc = 0 \<and> fst r = 0)) s'"
    if "(rc = 0 \<longrightarrow> content (world s') fn = Some d) \<and> (?ok \<longrightarrow> rc = 0)" for rc :: int and s'
    using that readwhole_content [OF assms(1,2), of s' fn] readwhole_works [OF assms(1) _ assms(2), of s' fn] assms(3)
    by (simp add: wp_def)
  show ?thesis
    by (rule wp_bind, rule wp_mono [OF wr], rule wp_bind, rule wp_mono [OF rd], assumption, rule wp_return) auto
qed

subsection \<open>A file system that satisfies the laws\<close>

text \<open>
  Files are byte strings by name, the system never fails, descriptors are numbered upwards.  It is
  the instance on which the hypotheses of the theorems are checked; calls that it does not know
  reply \<open>-1\<close>.
\<close>

record ref_fs =
  files :: "string \<Rightarrow> bytes option"
  descs :: "int \<Rightarrow> (string \<times> nat) option"
  next_fd :: nat

definition ok_reply :: "int \<Rightarrow> out \<Rightarrow> reply" where
  "ok_reply v x = \<lparr>rv = v, rerr = None, rout = x\<rparr>"

definition ref_open :: "string \<Rightarrow> u32 \<Rightarrow> ref_fs \<Rightarrow> reply \<times> ref_fs" where
  "ref_open n f w =
     (if files w n = None \<and> \<not> tst f FFFILE_CREATE
      then (\<lparr>rv = -1, rerr = Some ENOENT, rout = NoOut\<rparr>, w)
      else (ok_reply (int (next_fd w)) NoOut,
        w\<lparr>files := (files w)(n \<mapsto> (if tst f FFFILE_TRUNCATE \<or> files w n = None then []
                                 else the (files w n))),
          descs := (descs w)(int (next_fd w) \<mapsto> (n, 0)), next_fd := next_fd w + 1\<rparr>))"

definition ref_content :: "ref_fs \<Rightarrow> int \<Rightarrow> (string \<times> nat \<times> bytes) option" where
  "ref_content w fd = (case descs w fd of None \<Rightarrow> None | Some (n, i) \<Rightarrow>
     (case files w n of None \<Rightarrow> None | Some c \<Rightarrow> Some (n, i, c)))"

definition fail_reply :: reply where
  "fail_reply = \<lparr>rv = -1, rerr = Some EINVAL, rout = NoOut\<rparr>"

fun ref_file_call :: "file_call \<Rightarrow> ref_fs \<Rightarrow> reply \<times> ref_fs" where
  "ref_file_call (Open n f m) w = ref_open n f w"
| "ref_file_call (Close fd) w = (ok_reply 0 NoOut, w\<lparr>descs := (descs w)(fd := None)\<rparr>)"
| "ref_file_call (Write fd d) w =
     (case ref_content w fd of None \<Rightarrow> (fail_reply, w)
      | Some (n, i, c) \<Rightarrow> (ok_reply (int (length d)) NoOut,
          w\<lparr>files := (files w)(n \<mapsto> take i c @ d @ drop (i + length d) c),
            descs := (descs w)(fd \<mapsto> (n, i + length d))\<rparr>))"
| "ref_file_call (Read fd k) w =
     (case ref_content w fd of None \<Rightarrow> (fail_reply, w)
      | Some (n, i, c) \<Rightarrow> (let d = take k (drop i c) in
          (ok_reply (int (length d)) (OBytes d), w\<lparr>descs := (descs w)(fd \<mapsto> (n, i + length d))\<rparr>)))"
| "ref_file_call (Fstat fd) w =
     (case ref_content w fd of None \<Rightarrow> (fail_reply, w)
      | Some (n, i, c) \<Rightarrow> (ok_reply 0 (OStat (stat_undef\<lparr>st_size := of_nat (length c)\<rparr>)), w))"
| "ref_file_call (Unlink n) w = (ok_reply 0 NoOut, w\<lparr>files := (files w)(n := None)\<rparr>)"
| "ref_file_call _ w = (fail_reply, w)"

definition refK :: "call \<Rightarrow> ref_fs \<Rightarrow> reply \<times> ref_fs" where
  "refK c w = (case c of
      FileC f \<Rightarrow> ref_file_call f w
    | Mem m \<Rightarrow> (case m of MFree _ \<Rightarrow> (ok_reply 0 NoOut, w) | _ \<Rightarrow> (ok_reply 1 NoOut, w))
    | _ \<Rightarrow> (fail_reply, w))"

definition ref_start :: ref_fs where
  "ref_start = \<lparr>files = (\<lambda>_. None), descs = (\<lambda>_. None), next_fd = 3\<rparr>"

lemma refK_laws: "fs_laws refK files descs"
  unfolding fs_laws_def refK_def
  by (intro conjI allI impI)
    (auto simp: ref_open_def ref_content_def ok_reply_def fail_reply_def Let_def min_def
      split: if_splits option.splits prod.splits)

lemma refK_works: "fs_works refK files descs"
  unfolding fs_works_def refK_def
  by (auto simp: ref_open_def ref_content_def ok_reply_def fail_reply_def Let_def split: option.splits)

theorem writewhole_readwhole_witness:
  "fst (run_state (do { rc \<leftarrow> fffile_writewhole refK Linux ''a'' [1, 2, 3] 0;
                  r \<leftarrow> fffile_readwhole refK Linux True ''a'' \<lparr>vec_ptr = 0, vec_data = []\<rparr> 100;
                  State_Monad.return (rc, r) }) (start ref_start 0)) =
   (0, 0, \<lparr>vec_ptr = 1, vec_data = [1, 2, 3]\<rparr>)"
proof -
  let ?m = "do { rc \<leftarrow> fffile_writewhole refK Linux ''a'' [1, 2, 3] 0;
                  r \<leftarrow> fffile_readwhole refK Linux True ''a'' \<lparr>vec_ptr = 0, vec_data = []\<rparr> 100;
                  State_Monad.return (rc, r) }"
  obtain rc rc' v where x: "fst (run_state ?m (start ref_start 0)) = (rc, rc', v)"
    by (metis prod_cases3)
  have "case fst (run_state ?m (start ref_start 0)) of (rc, rc', v) \<Rightarrow> rc = 0 \<and> rc' = 0 \<and> vec_ptr v = 1"
    by code_simp
  then have r: "rc = 0" "rc' = 0" "vec_ptr v = 1" unfolding x by simp_all
  have "length [1, 2, 3 :: u8] < 2 ^ 63" "(100 :: u64) < -1" by simp_all
  from writewhole_readwhole_roundtrip [OF refK_laws this, of Linux "''a''" True
      "\<lparr>vec_ptr = 0, vec_data = []\<rparr>" "start ref_start 0"]
  have "vec_data v = [1, 2, 3]" unfolding wp_def x using r by simp
  then show ?thesis unfolding x using r by simp
qed

end
