(* ===== verification/Wstring.thy ===== *)
theory Wstring
  imports Os
begin

text \<open>
  The Windows half of \<open>FFOS/string.h\<close>: conversions between UTF-8 and UTF-16 that use the
  caller's buffer when the text fits and allocate one otherwise.

  The conversions themselves belong to ffbase and to the C library; they are the fields of
  \<open>wconv\<close>.  A converter takes the capacity of the destination (\<open>None\<close> for a
  \<open>NULL\<close> destination) and gives its return value and what it wrote.
\<close>

record wconv =
  ffsz_utow :: "nat \<Rightarrow> string \<Rightarrow> int \<times> wstr"
  ffutf8_to_utf16 :: "nat option \<Rightarrow> string \<Rightarrow> int \<times> wstr"
  ffsz_wtou :: "nat \<Rightarrow> wstr \<Rightarrow> int \<times> string"
  ffs_wtou :: "nat \<Rightarrow> wstr \<Rightarrow> int \<times> string"
  wcsicmp :: "wstr \<Rightarrow> wstr \<Rightarrow> int"

text \<open>
  A \<open>wchar_t*\<close> that a conversion returned: \<open>NULL\<close>, the caller's buffer, or a block of the
  heap.
\<close>

datatype wbuf = WNull | WStack wstr | WHeap int wstr

fun w_chars :: "wbuf \<Rightarrow> wstr" where
  "w_chars WNull = []"
| "w_chars (WStack w) = w"
| "w_chars (WHeap p w) = w"

fun w_heap :: "wbuf \<Rightarrow> int multiset" where
  "w_heap (WHeap p w) = (if p = 0 then {#} else {#p#})"
| "w_heap _ = {#}"

text \<open>\<open>if (w != ws) ffmem_free(w)\<close>\<close>

definition w_free :: "'w kernel \<Rightarrow> wbuf \<Rightarrow> ('w, unit) prog" where
  "w_free K w = (case w of
      WStack _ \<Rightarrow> State_Monad.return ()
    | WNull \<Rightarrow> do { sysi K (Mem (MFree 0)); State_Monad.return () }
    | WHeap p _ \<Rightarrow> do { sysi K (Mem (MFree p)); State_Monad.return () })"

text \<open>Results are \<open>ffsize\<close>: a negative count becomes \<open>0\<close>.  \<open>nul\<close> is the case
  \<open>len == -1\<close> of a null-terminated source.\<close>

definition ff_utow :: "wconv \<Rightarrow> nat \<Rightarrow> string \<Rightarrow> bool \<Rightarrow> nat \<times> wstr" where
  "ff_utow U cap_wchars src nul =
     (let r = (if nul then ffsz_utow U cap_wchars src
               else let x = ffutf8_to_utf16 U (Some (cap_wchars * 2)) src in (if fst x < 0 then - (- fst x div 2) else fst x div 2, snd x))
      in (if fst r \<ge> 0 then nat (fst r) else 0, snd r))"

definition ffs_utow_n :: "wconv \<Rightarrow> nat option \<Rightarrow> string \<Rightarrow> int \<times> wstr" where
  "ffs_utow_n U cap_wchars src =
     (let r = ffutf8_to_utf16 U (map_option (\<lambda>n. n * 2) cap_wchars) src
      in if fst r \<le> 0 then r else (fst r div 2, snd r))"

text \<open>\<open>dst\<close> is the capacity of the caller's buffer, if there is one.  The result is the buffer
  and the number of characters written.\<close>

definition ffs_utow :: "'w kernel \<Rightarrow> wconv \<Rightarrow> nat option \<Rightarrow> string \<Rightarrow> bool \<Rightarrow> ('w, wbuf \<times> nat) prog" where
  "ffs_utow K U dst s nul =
     (let first = (case dst of None \<Rightarrow> (0, []) | Some cap \<Rightarrow> ff_utow U cap s nul) in
      if dst \<noteq> None \<and> (fst first \<noteq> 0 \<or> \<not> nul \<and> length s = 0)
      then State_Monad.return (WStack (snd first), fst first)
      else do {
        let wlen = length s + 1;
        p \<leftarrow> sysi K (Mem (MAlloc (wlen * 2)));
        if p = 0 then State_Monad.return (WNull, 0)
        else do {
          let r = ff_utow U wlen s nul;
          if fst r = 0 then do { sysi K (Mem (MFree p)); State_Monad.return (WNull, 0) }
          else State_Monad.return (WHeap p (snd r), fst r)
        }
      })"

definition ff_wtou :: "wconv \<Rightarrow> nat \<Rightarrow> wstr \<Rightarrow> bool \<Rightarrow> nat \<times> string" where
  "ff_wtou U cap src nul =
     (let r = (if nul then ffsz_wtou U cap src else ffs_wtou U cap src)
      in (if fst r \<ge> 0 then nat (fst r) else 0, snd r))"

text \<open>\<open>ffsz_alloc_utow\<close> is ffbase's allocating conversion, a call.\<close>

definition ffsz_alloc_buf_utow :: "'w kernel \<Rightarrow> wconv \<Rightarrow> nat option \<Rightarrow> string \<Rightarrow> ('w, wbuf) prog" where
  "ffsz_alloc_buf_utow K U dst sz =
     (let first = (case dst of None \<Rightarrow> (0, []) | Some cap \<Rightarrow> ffsz_utow U cap sz) in
      if dst \<noteq> None \<and> 0 < fst first then State_Monad.return (WStack (snd first))
      else do {
        r \<leftarrow> sys K (Mem (MAllocUtow sz));
        State_Monad.return (if rv r = 0 then WNull else WHeap (rv r) (out_wide r))
      })"

text \<open>\<open>ffsz_alloc_buf_utow(ws, FF_COUNT(ws), name)\<close> with \<open>wchar_t ws[256]\<close>\<close>

definition utow256 :: "'w kernel \<Rightarrow> wconv \<Rightarrow> string \<Rightarrow> ('w, wbuf) prog" where
  "utow256 K U name = ffsz_alloc_buf_utow K U (Some 256) name"

text \<open>The conversion result is stored unchecked, so a failure is a huge number of characters.\<close>

definition ffs_alloc_utow_addcap ::
  "'w kernel \<Rightarrow> wconv \<Rightarrow> string \<Rightarrow> nat \<Rightarrow> ('w, wbuf \<times> u64) prog" where
  "ffs_alloc_utow_addcap K U s add_chars =
     (let n = fst (ffs_utow_n U None s) in
      if 0 > n then State_Monad.return (WNull, of_nat add_chars)
      else do {
        let n = nat n + add_chars;
        p \<leftarrow> sysi K (Mem (MAlloc (n * 2)));
        if p = 0 then State_Monad.return (WNull, of_nat add_chars)
        else do {
          let r = ffs_utow_n U (Some n) s;
          State_Monad.return (WHeap p (snd r), of_int (fst r))
        }
      })"

definition ffs_alloc_buf_utow ::
  "'w kernel \<Rightarrow> wconv \<Rightarrow> nat option \<Rightarrow> nat \<Rightarrow> string \<Rightarrow> ('w, wbuf \<times> nat) prog" where
  "ffs_alloc_buf_utow K U dst cap_wchars s =
     (let r = (case dst of None \<Rightarrow> (-1, []) | Some cap \<Rightarrow> ffutf8_to_utf16 U (Some (cap * 2)) s) in
      if dst \<noteq> None \<and> fst r \<ge> 0 then State_Monad.return (WStack (snd r), nat (fst r div 2))
      else do {
        let n = fst (ffutf8_to_utf16 U None s);
        w \<leftarrow> sysi K (Mem (MAlloc (unat (of_int n :: u64))));
        if w = 0 then State_Monad.return (WNull, cap_wchars)
        else do {
          let r = ffutf8_to_utf16 U (Some (unat (of_int n :: u64))) s;
          if fst r < 0 then do { sysi K (Mem (MFree w)); State_Monad.return (WNull, cap_wchars) }
          else State_Monad.return (WHeap w (snd r), nat (fst r div 2))
        }
      })"

subsection \<open>Ownership of the buffers\<close>

text \<open>
  Every conversion either returns the caller's buffer, or \<open>NULL\<close> with nothing left allocated,
  or a block that the caller now owns; \<open>w_free\<close> gives it back.
\<close>

lemma heap_step_alloc [simp]:
  "heap_step (Some h) (Mem (MAlloc n), r) = Some (if rv r = 0 then h else add_mset (rv r) h)"
  "heap_step (Some h) (Mem (MAllocUtow t), r) = Some (if rv r = 0 then h else add_mset (rv r) h)"
  "heap_step (Some h) (Mem (MFree p), r) =
     (if p = 0 then Some h else if p \<in># h then Some (h - {#p#}) else None)"
  "heap_step (Some h) (FileC f, r) = Some h" "heap_step (Some h) (Sock a, r) = Some h"
  "heap_step (Some h) (Ev v, r) = Some h" "heap_step (Some h) (WinFile x, r) = Some h"
  "heap_step (Some h) (WinIo y, r) = Some h" "heap_step (Some h) (WinSock z, r) = Some h"
  "heap_step (Some h) (Term v', r) = Some h" "heap_step (Some h) (Env v'', r) = Some h"
  "heap_step (Some h) (Proc p1, r) = Some h" "heap_step (Some h) (Thr p2, r) = Some h"
  "heap_step (Some h) (Tim p3, r) = Some h" "heap_step (Some h) (Sig p4, r) = Some h"
  "heap_step (Some h) (Mon p5, r) = Some h" "heap_step (Some h) (Reg p6, r) = Some h"
  "heap_step (Some h) (Lib p7, r) = Some h" "heap_step (Some h) (Perf p8, r) = Some h"
  by (simp_all add: heap_step_def)

lemma heap_step_realloc [simp]:
  "heap_step (Some h) (Mem (MRealloc p n), r) =
     (if rv r = 0 then Some h else if p = 0 then Some (add_mset (rv r) h)
      else if p \<in># h then Some (add_mset (rv r) (h - {#p#})) else None)"
  by (simp add: heap_step_def)

lemma fd_step_mem [simp]: "fd_step h (Mem m, r) = h"
  by (cases h) (simp_all add: fd_step_def closed_def)

lemma wp_utow:
  assumes "heap_after (trace s) = Some h"
    and "\<And>w s'. heap_after (trace s') = Some (h + w_heap w) \<Longrightarrow> fds_after (trace s') = fds_after (trace s)
      \<Longrightarrow> (\<exists>t. trace s' = trace s @ t \<and> set (map fst t) \<subseteq> {Mem (MAllocUtow sz)}) \<Longrightarrow> Q w s'"
  shows "wp (ffsz_alloc_buf_utow K U dst sz) Q s"
  unfolding ffsz_alloc_buf_utow_def using assms(1)
  by (intro wp_intros assms(2)) auto

lemma wp_w_free:
  assumes "heap_after (trace s) = Some (h + w_heap w)"
    and "\<And>s'. heap_after (trace s') = Some h \<Longrightarrow> fds_after (trace s') = fds_after (trace s)
      \<Longrightarrow> (\<exists>t. trace s' = trace s @ t \<and> (\<forall>c\<in>set (map fst t). \<exists>p. c = Mem (MFree p))) \<Longrightarrow> Q () s'"
  shows "wp (w_free K w) Q s"
proof (cases w)
  case WNull
  then show ?thesis unfolding w_free_def using assms(1)
    by (simp, intro wp_intros assms(2)) auto
next
  case (WStack x)
  then show ?thesis unfolding w_free_def using assms(1)
    by (simp, intro wp_intros assms(2)) auto
next
  case (WHeap p x)
  then show ?thesis unfolding w_free_def using assms(1)
    by (simp, intro wp_intros assms(2)) auto
qed

lemma wp_w_free_sub:
  assumes "heap_after (trace s) = Some H" "w_heap w \<subseteq># H"
    and "\<And>s'. heap_after (trace s') = Some (H - w_heap w) \<Longrightarrow> fds_after (trace s') = fds_after (trace s)
      \<Longrightarrow> (\<exists>t. trace s' = trace s @ t \<and> (\<forall>c\<in>set (map fst t). \<exists>p. c = Mem (MFree p))) \<Longrightarrow> Q () s'"
  shows "wp (w_free K w) Q s"
proof (rule wp_w_free [where h = "H - w_heap w"])
  show "heap_after (trace s) = Some (H - w_heap w + w_heap w)" using assms(1,2) by simp
qed (rule assms(3))

text \<open>
  The conversions of \<open>FFOS/string.h\<close> do not lose memory: after each of them the
  blocks outstanding are exactly the one the result points to, if it points to the heap at all,
  also when the conversion into the new block fails.
\<close>

theorem conversions_own_result:
  "wp (ffs_utow K U dst t nul) (\<lambda>r s. heap_after (trace s) = Some (w_heap (fst r))) (start w e) \<and>
   wp (ffsz_alloc_buf_utow K U dst t) (\<lambda>r s. heap_after (trace s) = Some (w_heap r)) (start w e) \<and>
   wp (ffs_alloc_utow_addcap K U t n) (\<lambda>r s. heap_after (trace s) = Some (w_heap (fst r))) (start w e) \<and>
   wp (ffs_alloc_buf_utow K U dst n t) (\<lambda>r s. heap_after (trace s) = Some (w_heap (fst r))) (start w e)"
  unfolding ffs_utow_def ffsz_alloc_buf_utow_def ffs_alloc_utow_addcap_def ffs_alloc_buf_utow_def
  by (intro conjI wp_intros) (simp_all add: heap_after_def)

lemma wp_utow256:
  assumes "heap_after (trace s) = Some h"
    and "\<And>w s'. heap_after (trace s') = Some (h + w_heap w) \<Longrightarrow> fds_after (trace s') = fds_after (trace s)
      \<Longrightarrow> (\<exists>t. trace s' = trace s @ t \<and> set (map fst t) \<subseteq> {Mem (MAllocUtow sz)}) \<Longrightarrow> Q w s'"
  shows "wp (utow256 K U sz) Q s"
  unfolding utow256_def using assms by (rule wp_utow)

text \<open>The same rules without the log of the calls.\<close>

lemma wp_utow_res:
  assumes "heap_after (trace s) \<noteq> None"
    and "\<And>w s'. heap_after (trace s') = Some (the (heap_after (trace s)) + w_heap w)
      \<Longrightarrow> fds_after (trace s') = fds_after (trace s) \<Longrightarrow> Q w s'"
  shows "wp (utow256 K U sz) Q s"
  using assms by (intro wp_utow256) auto

lemma wp_free_res:
  assumes "heap_after (trace s) \<noteq> None" "w_heap w \<subseteq># the (heap_after (trace s))"
    and "\<And>s'. heap_after (trace s') = Some (the (heap_after (trace s)) - w_heap w)
      \<Longrightarrow> fds_after (trace s') = fds_after (trace s) \<Longrightarrow> Q () s'"
  shows "wp (w_free K w) Q s"
  using assms by (intro wp_w_free_sub) auto

lemmas wp_res = wp_utow_res wp_free_res

subsection \<open>Functions of one path\<close>

text \<open>The calls to the system proper, allocations left out.\<close>

definition is_mem :: "call \<Rightarrow> bool" where
  "is_mem c = (case c of Mem _ \<Rightarrow> True | _ \<Rightarrow> False)"

definition sys_calls :: "'w sys \<Rightarrow> call list" where
  "sys_calls s = filter (\<lambda>x. \<not> is_mem x) (calls_of s)"

lemma is_mem_iff: "is_mem c \<longleftrightarrow> (\<exists>m. c = Mem m)"
  by (simp add: is_mem_def split: call.split)

text \<open>
  Many functions of the Windows half have one shape: convert the path, make one call with it,
  free the buffer, return the negated result.  The locale states the shape, and its lemmas are
  proved once for all functions that have it: memory is given back on every way out, and the
  system is asked exactly once, or not at all when the path cannot be converted.
\<close>

locale wpath_call =
  fixes f :: "'w kernel \<Rightarrow> wconv \<Rightarrow> string \<Rightarrow> ('w, int) prog" and c :: "wstr \<Rightarrow> call"
  assumes shape: "f K U name = do {
       w \<leftarrow> utow256 K U name;
       if w = WNull then State_Monad.return (-1)
       else do {
         r \<leftarrow> sysi K (c (w_chars w));
         w_free K w;
         State_Monad.return (c_bool (r = 0))
       }
     }"
    and not_mem: "c w \<noteq> Mem m" and opens_nothing: "opened (c w) r = {#}" and no_close: "closed (c w) = None"
begin

lemma heap_step_c: "heap_step (Some h) (c x, r) = Some h"
  using not_mem by (cases "c x") (simp_all add: heap_step_def)

lemma fd_step_c: "fd_step h (c x, r) = h"
  using opens_nothing no_close by (cases h) (simp_all add: fd_step_def del: opened_simps)

lemma clean: "wp (f K U name)
    (\<lambda>r s. heap_clean (trace s) \<and> fds_after (trace s) = Some {#} \<and> r \<in> {-1, 0, 1}) (start w e)"
  unfolding shape heap_clean_def
  by (intro wp_intros wp_utow256 wp_w_free) (auto simp: heap_step_c fd_step_c)

lemma one_call: "wp (f K U name)
    (\<lambda>r s. (r = -1 \<longrightarrow> sys_calls s = []) \<and> (r \<noteq> -1 \<longrightarrow> (\<exists>x. sys_calls s = [c x]))) (start w e)"
proof -
  have m: "filter (\<lambda>x. \<not> is_mem x) (map fst t) = []" if "fst ` set t \<subseteq> {Mem n}"
    for t :: "(call \<times> reply) list" and n
    using that by (auto simp: filter_empty_conv is_mem_def)
  have fr: "filter (\<lambda>x. \<not> is_mem x) (map fst t) = []" if "\<forall>x\<in>set t. \<exists>p. fst x = Mem (MFree p)"
    for t :: "(call \<times> reply) list"
    using that by (fastforce simp: filter_empty_conv is_mem_def)
  have c: "\<not> is_mem (c x)" for x using not_mem by (simp add: is_mem_iff)
  show ?thesis
    unfolding shape sys_calls_def calls_of_def
    by (intro wp_intros wp_utow256 wp_w_free) (auto simp: heap_step_c m fr c c_bool_def)
qed

end

end
