(* ===== verification/File_Win.thy ===== *)
theory File_Win
  imports Time Wstring
begin

text \<open>
  Files on Windows (\<open>FFOS/file.h\<close>, the \<open>FF_WIN\<close> half).  The functions that share their
  C name with a UNIX function have the suffix \<open>_win\<close>.  \<open>U\<close> are the UTF-8 conversions; the
  constants are those of the Windows SDK.
\<close>

definition out_winfo :: "winfileinfo \<Rightarrow> reply \<Rightarrow> winfileinfo" where
  "out_winfo fi r = (case rout r of OWinfo x \<Rightarrow> x | _ \<Rightarrow> fi)"

definition fffile_info_path_win :: "'w kernel \<Rightarrow> wconv \<Rightarrow> string \<Rightarrow> winfileinfo \<Rightarrow> ('w, int \<times> winfileinfo) prog" where
  "fffile_info_path_win K U name fi = do {
     w \<leftarrow> utow256 K U name;
     if w = WNull then State_Monad.return (-1, fi)
     else do {
       x \<leftarrow> sys K (WinFile (GetFileAttributesExW (w_chars w)));
       let r = c_bool (rv x = 0);
       let fi' = (if r \<noteq> 0 then fi
                  else (out_winfo fi x)\<lparr>nFileIndexHigh := 0, nFileIndexLow := 0\<rparr>);
       w_free K w;
       State_Monad.return (r, fi')
     }
   }"

definition fffile_info_linkpath_win :: "'w kernel \<Rightarrow> wconv \<Rightarrow> string \<Rightarrow> winfileinfo \<Rightarrow> ('w, int \<times> winfileinfo) prog" where
  "fffile_info_linkpath_win K U name fi = fffile_info_path_win K U name fi"

definition fffile_info_win :: "'w kernel \<Rightarrow> int \<Rightarrow> winfileinfo \<Rightarrow> ('w, int \<times> winfileinfo) prog" where
  "fffile_info_win K fd fi = do {
     x \<leftarrow> sys K (WinFile (GetFileInformationByHandle fd));
     State_Monad.return (c_bool (rv x = 0), out_winfo fi x)
   }"

definition fffile_size_win :: "'w kernel \<Rightarrow> int \<Rightarrow> ('w, u64) prog" where
  "fffile_size_win K fd = do {
     x \<leftarrow> sys K (WinFile (GetFileSizeEx fd));
     State_Monad.return (if rv x = 0 then -1 else out_word x)
   }"

definition fffileinfo_size_win :: "winfileinfo \<Rightarrow> u64" where
  "fffileinfo_size_win fi = push_bit 32 (ucast (nFileSizeHigh fi)) OR ucast (nFileSizeLow fi)"

definition fffileinfo_mtime_win :: "winfileinfo \<Rightarrow> fftime" where
  "fffileinfo_mtime_win fi = fftime_from_winftime (ftLastWriteTime fi)"

definition fffileinfo_attr_win :: "winfileinfo \<Rightarrow> u32" where
  "fffileinfo_attr_win fi = dwFileAttributes fi"

definition fffile_isdir_win :: "u32 \<Rightarrow> bool" where
  "fffile_isdir_win file_attr \<longleftrightarrow> tst file_attr 0x10"

definition fffileinfo_id_win :: "winfileinfo \<Rightarrow> u64" where
  "fffileinfo_id_win fi = push_bit 32 (ucast (nFileIndexHigh fi)) OR ucast (nFileIndexLow fi)"

definition fffile_set_mtime_win :: "'w kernel \<Rightarrow> int \<Rightarrow> fftime \<Rightarrow> ('w, int) prog" where
  "fffile_set_mtime_win K fd last_write = do {
     r \<leftarrow> sysi K (WinFile (SetFileTime fd (fftime_to_winftime last_write)));
     State_Monad.return (c_bool (r = 0))
   }"

definition fffile_set_attr_path_win :: "'w kernel \<Rightarrow> wconv \<Rightarrow> string \<Rightarrow> u32 \<Rightarrow> ('w, int) prog" where
  "fffile_set_attr_path_win K U name attr = do {
     w \<leftarrow> utow256 K U name;
     if w = WNull then State_Monad.return (-1)
     else do {
       r \<leftarrow> sysi K (WinFile (SetFileAttributesW (w_chars w) attr));
       w_free K w;
       State_Monad.return (c_bool (r = 0))
     }
   }"

definition fffile_set_attr_win :: "'w kernel \<Rightarrow> int \<Rightarrow> u32 \<Rightarrow> ('w, int) prog" where
  "fffile_set_attr_win K fd attr = do {
     r \<leftarrow> sysi K (WinFile (SetFileInformationByHandle fd attr));
     State_Monad.return (c_bool (r = 0))
   }"

text \<open>The early return after the second conversion leaves the first buffer allocated.\<close>

definition fffile_rename_win :: "'w kernel \<Rightarrow> wconv \<Rightarrow> string \<Rightarrow> string \<Rightarrow> ('w, int) prog" where
  "fffile_rename_win K U oldpath newpath = do {
     w_old \<leftarrow> utow256 K U oldpath;
     if w_old = WNull then State_Monad.return (-1)
     else do {
       w_new \<leftarrow> utow256 K U newpath;
       if w_new = WNull then State_Monad.return (-1)
       else do {
         r \<leftarrow> sysi K (WinFile (MoveFileExW (w_chars w_old) (w_chars w_new) 1));
         w_free K w_old;
         w_free K w_new;
         State_Monad.return (c_bool (r = 0))
       }
     }
   }"

definition FFFILE_WIN_READONLY :: u32 where [flag_simps]: "FFFILE_WIN_READONLY = 1"

definition fffile_remove_win :: "'w kernel \<Rightarrow> wconv \<Rightarrow> string \<Rightarrow> ('w, int) prog" where
  "fffile_remove_win K U name = do {
     w \<leftarrow> utow256 K U name;
     if w = WNull then State_Monad.return (-1)
     else do {
       r \<leftarrow> sysi K (WinFile (DeleteFileW (w_chars w)));
       e \<leftarrow> fferr_last;
       r \<leftarrow> (if r = 0 \<and> e = ERROR_ACCESS_DENIED then do {
              attr \<leftarrow> sysi K (WinFile (GetFileAttributesW (w_chars w)));
              if attr = -1 \<or> \<not> tst (of_int attr) FFFILE_WIN_READONLY then State_Monad.return 1
              else do {
                b \<leftarrow> sysi K (WinFile (SetFileAttributesW (w_chars w)
                       (of_int attr AND NOT FFFILE_WIN_READONLY)));
                if b = 0 then State_Monad.return 1
                else do {
                  r \<leftarrow> sysi K (WinFile (DeleteFileW (w_chars w)));
                  State_Monad.return (c_bool (r = 0))
                }
              }
            }
            else State_Monad.return (c_bool (r = 0)));
       w_free K w;
       State_Monad.return r
     }
   }"

definition fffile_hardlink_win :: "'w kernel \<Rightarrow> wconv \<Rightarrow> string \<Rightarrow> string \<Rightarrow> ('w, int) prog" where
  "fffile_hardlink_win K U oldpath newpath = do {
     w_old \<leftarrow> utow256 K U oldpath;
     if w_old = WNull then State_Monad.return (-1)
     else do {
       w_new \<leftarrow> utow256 K U newpath;
       if w_new = WNull then State_Monad.return (-1)
       else do {
         r \<leftarrow> sysi K (WinFile (CreateHardLinkW (w_chars w_new) (w_chars w_old)));
         w_free K w_old;
         w_free K w_new;
         State_Monad.return (c_bool (r = 0))
       }
     }
   }"

definition fffile_symlink_win :: "string \<Rightarrow> string \<Rightarrow> ('w, int) prog" where
  "fffile_symlink_win target linkpath = do { fferr_set ERROR_NOT_SUPPORTED; State_Monad.return (-1) }"

subsection \<open>Opening\<close>

definition CREATE_NEW :: u32 where [flag_simps]: "CREATE_NEW = 1"
definition OPEN_EXISTING :: u32 where [flag_simps]: "OPEN_EXISTING = 3"
definition TRUNCATE_EXISTING :: u32 where [flag_simps]: "TRUNCATE_EXISTING = 5"
definition FILE_GENERIC_READ :: u32 where [flag_simps]: "FILE_GENERIC_READ = 0x120089"
definition FILE_GENERIC_WRITE :: u32 where [flag_simps]: "FILE_GENERIC_WRITE = 0x120116"
definition FILE_WRITE_DATA :: u32 where [flag_simps]: "FILE_WRITE_DATA = 2"

definition FFFILE_CREATE_WIN :: u32 where [flag_simps]: "FFFILE_CREATE_WIN = 0x40"
definition FFFILE_CREATENEW_WIN :: u32 where [flag_simps]: "FFFILE_CREATENEW_WIN = 0x10"
definition FFFILE_READONLY_WIN :: u32 where [flag_simps]: "FFFILE_READONLY_WIN = 0x800"
definition FFFILE_WRITEONLY_WIN :: u32 where [flag_simps]: "FFFILE_WRITEONLY_WIN = 0x400"
definition FFFILE_TRUNCATE_WIN :: u32 where [flag_simps]: "FFFILE_TRUNCATE_WIN = 0x1000"
definition FFFILE_NODOSNAME_WIN :: u32 where [flag_simps]: "FFFILE_NODOSNAME_WIN = 0x2000"
definition FFFILE_APPEND_WIN :: u32 where [flag_simps]: "FFFILE_APPEND_WIN = 0x4000"

text \<open>
  The arguments of \<open>CreateFileW\<close> that \<open>fffile_open\<close> derives from its flags.  The test for
  \<open>FFFILE_CREATENEW\<close> compares the shifted value with the unshifted constant, as in the code.
\<close>

definition open_creation :: "u32 \<Rightarrow> u32" where
  "open_creation flags =
     (let creation = drop_bit 4 (flags AND 0xf0) in
      if tst flags FFFILE_TRUNCATE_WIN \<and> creation \<noteq> FFFILE_CREATENEW_WIN then TRUNCATE_EXISTING
      else if creation = 0 then OPEN_EXISTING
      else creation)"

definition open_access :: "u32 \<Rightarrow> u32" where
  "open_access flags =
     (if tst flags FFFILE_APPEND_WIN
      then (if tst flags FFFILE_READONLY_WIN then FILE_GENERIC_READ else 0) OR
           (if tst flags FFFILE_WRITEONLY_WIN then FILE_GENERIC_WRITE AND NOT FILE_WRITE_DATA else 0)
      else push_bit 20 (flags AND 0x0f00))"

definition open_attr :: "u32 \<Rightarrow> u32" where
  "open_attr flags = ((0x80 OR (flags AND 0x0f)) OR (flags AND 0xffff0000)) OR 0x02000000"

text \<open>
  \<open>FFFILE_NODOSNAME\<close>: the long name is put into \<open>longname\<close>, or into a new block when it does
  not fit, but it is always \<open>longname\<close> that is compared; \<open>junk\<close> is what the array holds
  when nothing was written to it.  The result tells whether to go on, and the block to free.
\<close>

definition open_check_longname ::
  "'w kernel \<Rightarrow> wconv \<Rightarrow> wstr \<Rightarrow> wstr \<Rightarrow> ('w, bool \<times> int option) prog" where
  "open_check_longname K U junk w = do {
     n \<leftarrow> sysi K (WinFile (GetLongPathNameW w 0));
     p \<leftarrow> (if n > 256 then do { p \<leftarrow> sysi K (Mem (MAlloc (nat n * 2))); State_Monad.return (Some p) }
          else State_Monad.return None);
     x \<leftarrow> sys K (WinFile (GetLongPathNameW w (nat n)));
     if rv x = 0 then State_Monad.return (False, p)
     else if wcsicmp U (if p = None then out_wide x else junk) w \<noteq> 0
     then do { fferr_set ERROR_INVALID_NAME; State_Monad.return (False, p) }
     else State_Monad.return (True, p)
   }"

definition free_opt :: "'w kernel \<Rightarrow> int option \<Rightarrow> ('w, unit) prog" where
  "free_opt K p = (case p of None \<Rightarrow> State_Monad.return ()
     | Some p \<Rightarrow> do { sysi K (Mem (MFree p)); State_Monad.return () })"

definition create_file :: "'w kernel \<Rightarrow> u32 \<Rightarrow> wstr \<Rightarrow> ('w, int) prog" where
  "create_file K flags w = do {
     fd \<leftarrow> sysi K (WinFile (CreateFileW w (open_access flags) 7 (open_creation flags) (open_attr flags)));
     e \<leftarrow> fferr_last;
     if fd = -1 \<and> e = ERROR_FILE_NOT_FOUND \<and>
        flags AND (FFFILE_TRUNCATE_WIN OR 0xf0) = FFFILE_TRUNCATE_WIN OR FFFILE_CREATE_WIN
     then sysi K (WinFile (CreateFileW w (open_access flags) 7 CREATE_NEW (open_attr flags)))
     else State_Monad.return fd
   }"

definition fffile_open_win :: "'w kernel \<Rightarrow> wconv \<Rightarrow> wstr \<Rightarrow> string \<Rightarrow> u32 \<Rightarrow> ('w, int) prog" where
  "fffile_open_win K U junk name flags = do {
     w \<leftarrow> utow256 K U name;
     if w = WNull then State_Monad.return (-1)
     else do {
       chk \<leftarrow> (if tst flags FFFILE_NODOSNAME_WIN then open_check_longname K U junk (w_chars w)
              else State_Monad.return (True, None));
       fd \<leftarrow> (if fst chk then create_file K flags (w_chars w) else State_Monad.return (-1));
       w_free K w;
       free_opt K (snd chk);
       State_Monad.return fd
     }
   }"

definition fffile_createtemp_win :: "'w kernel \<Rightarrow> wconv \<Rightarrow> wstr \<Rightarrow> string \<Rightarrow> u32 \<Rightarrow> ('w, int) prog" where
  "fffile_createtemp_win K U junk name flags =
     fffile_open_win K U junk name ((FFFILE_CREATENEW_WIN OR 0x04000000) OR (flags AND NOT 0x0f))"

subsection \<open>I/O\<close>

definition fffile_dup_win :: "'w kernel \<Rightarrow> int \<Rightarrow> ('w, int) prog" where
  "fffile_dup_win K fd = do {
     ps \<leftarrow> sysi K (WinFile GetCurrentProcess);
     x \<leftarrow> sys K (WinFile (DuplicateHandle ps fd 2));
     State_Monad.return (case rout x of OInts (h # _) \<Rightarrow> h | _ \<Rightarrow> -1)
   }"

definition fffile_close_win :: "'w kernel \<Rightarrow> int \<Rightarrow> ('w, int) prog" where
  "fffile_close_win K fd =
     (if fd = -1 then State_Monad.return 0
      else do { r \<leftarrow> sysi K (WinFile (CloseHandle fd)); State_Monad.return (c_bool (r = 0)) })"

definition fffile_seek_win :: "'w kernel \<Rightarrow> int \<Rightarrow> u64 \<Rightarrow> int \<Rightarrow> ('w, int) prog" where
  "fffile_seek_win K fd pos whence = do {
     x \<leftarrow> sys K (WinFile (SetFilePointerEx fd pos whence));
     State_Monad.return (if rv x = 0 then -1 else sint (out_word x))
   }"

definition fffile_readahead_win :: "int \<Rightarrow> int \<Rightarrow> ('w, int) prog" where
  "fffile_readahead_win fd len = do { fferr_set ERROR_NOT_SUPPORTED; State_Monad.return (-1) }"

text \<open>A transfer is cut to \<open>0xffffffff\<close> bytes; \<open>off\<close> is the position in \<open>OVERLAPPED\<close>.\<close>

definition win_write :: "'w kernel \<Rightarrow> ffbase \<Rightarrow> int \<Rightarrow> bytes \<Rightarrow> u64 option \<Rightarrow> ('w, int) prog" where
  "win_write K B fd data off = do {
     x \<leftarrow> sys K (WinFile (WriteFile fd (take (ffmin B (length data) 0xffffffff) data) off));
     State_Monad.return (if rv x = 0 then -1 else out_int x 0)
   }"

definition fffile_write_win :: "'w kernel \<Rightarrow> ffbase \<Rightarrow> int \<Rightarrow> bytes \<Rightarrow> ('w, int) prog" where
  "fffile_write_win K B fd data = win_write K B fd data None"

definition fffile_writeat_win :: "'w kernel \<Rightarrow> ffbase \<Rightarrow> int \<Rightarrow> bytes \<Rightarrow> u64 \<Rightarrow> ('w, int) prog" where
  "fffile_writeat_win K B fd data off =
     (let lo = (ucast off :: u32); hi = (ucast (drop_bit 32 off) :: u32)
      in win_write K B fd data (Some (push_bit 32 (ucast hi) OR ucast lo)))"

text \<open>The reply to \<open>ReadFile\<close> has the bytes read; their number is what \<open>rd\<close> receives.\<close>

definition fffile_read_win :: "'w kernel \<Rightarrow> ffbase \<Rightarrow> int \<Rightarrow> nat \<Rightarrow> ('w, int \<times> bytes) prog" where
  "fffile_read_win K B fd n = do {
     x \<leftarrow> sys K (WinFile (ReadFile fd (ffmin B n 0xffffffff) None));
     State_Monad.return (if rv x = 0 then (-1, []) else (int (length (out_bytes x)), out_bytes x))
   }"

definition fffile_readat_win :: "'w kernel \<Rightarrow> ffbase \<Rightarrow> int \<Rightarrow> nat \<Rightarrow> u64 \<Rightarrow> ('w, int \<times> bytes) prog" where
  "fffile_readat_win K B fd n off =
     (let lo = (ucast off :: u32); hi = (ucast (drop_bit 32 off) :: u32) in do {
        x \<leftarrow> sys K (WinFile (ReadFile fd (ffmin B n 0xffffffff) (Some (push_bit 32 (ucast hi) OR ucast lo))));
        e \<leftarrow> fferr_last;
        State_Monad.return (if rv x = 0 then (if e = ERROR_HANDLE_EOF then 0 else -1, [])
                            else (int (length (out_bytes x)), out_bytes x))
      })"

abbreviation (input) FILE_BEGIN :: int where "FILE_BEGIN \<equiv> 0"
abbreviation (input) FILE_CURRENT :: int where "FILE_CURRENT \<equiv> 1"

definition fffile_trunc_win :: "'w kernel \<Rightarrow> int \<Rightarrow> u64 \<Rightarrow> ('w, int) prog" where
  "fffile_trunc_win K fd len = do {
     pos \<leftarrow> fffile_seek_win K fd 0 FILE_CURRENT;
     if pos < 0 then State_Monad.return (-1)
     else do {
       p \<leftarrow> fffile_seek_win K fd len FILE_BEGIN;
       if 0 > p then State_Monad.return (-1)
       else do {
         r \<leftarrow> sysi K (WinFile (SetEndOfFile fd));
         q \<leftarrow> fffile_seek_win K fd (of_int pos) FILE_BEGIN;
         State_Monad.return (if 0 > q then -1 else c_bool (r = 0))
       }
     }
   }"

definition fffile_set_mtime_path_win ::
  "'w kernel \<Rightarrow> wconv \<Rightarrow> wstr \<Rightarrow> string \<Rightarrow> fftime \<Rightarrow> ('w, int) prog" where
  "fffile_set_mtime_path_win K U junk name last_write = do {
     fd \<leftarrow> fffile_open_win K U junk name FFFILE_WRITEONLY_WIN;
     if fd = -1 then State_Monad.return (-1)
     else do {
       r \<leftarrow> fffile_set_mtime_win K fd last_write;
       fffile_close_win K fd;
       State_Monad.return r
     }
   }"

subsection \<open>Properties: memory and handles\<close>

interpretation set_attr_path: wpath_call "\<lambda>K U name. fffile_set_attr_path_win K U name attr"
  "\<lambda>w. WinFile (SetFileAttributesW w attr)" for attr
  by unfold_locales (simp_all add: fffile_set_attr_path_win_def closed_def)

definition opt_heap :: "int option \<Rightarrow> int multiset" where
  "opt_heap p = (case p of None \<Rightarrow> {#} | Some p \<Rightarrow> if p = 0 then {#} else {#p#})"

lemma wp_free_opt:
  assumes "heap_after (trace s) \<noteq> None" "opt_heap p \<subseteq># the (heap_after (trace s))"
    and "\<And>s'. heap_after (trace s') = Some (the (heap_after (trace s)) - opt_heap p)
      \<Longrightarrow> fds_after (trace s') = fds_after (trace s) \<Longrightarrow> Q () s'"
  shows "wp (free_opt K p) Q s"
  unfolding free_opt_def using assms(1,2)
  by (intro wp_intros assms(3)) (auto simp: opt_heap_def split: if_splits)

lemma wp_longname:
  assumes "heap_after (trace s) \<noteq> None"
    and "\<And>b p s'. heap_after (trace s') = Some (the (heap_after (trace s)) + opt_heap p)
      \<Longrightarrow> fds_after (trace s') = fds_after (trace s) \<Longrightarrow> Q (b, p) s'"
  shows "wp (open_check_longname K U junk x) Q s"
proof -
  have f: "fd_step d (WinFile (GetLongPathNameW a k), r) = d" for d a k r
    by (cases d) (simp_all add: fd_step_def closed_def)
  show ?thesis
    unfolding open_check_longname_def using assms(1)
    by (intro wp_intros assms(2)) (auto simp: f opt_heap_def)
qed

lemma wp_create_file:
  assumes "heap_after (trace s) \<noteq> None" "fds_after (trace s) \<noteq> None"
    and "\<And>fd s'. heap_after (trace s') = heap_after (trace s)
      \<Longrightarrow> fds_after (trace s') = Some (the (fds_after (trace s)) + (if fd = -1 then {#} else {#fd#})) \<Longrightarrow> Q fd s'"
  shows "wp (create_file K flags x) Q s"
  unfolding create_file_def using assms(1,2)
  by (intro wp_intros assms(3)) (auto simp: fd_step_def closed_def)

text \<open>Opening from any state: the handle is all that is added.\<close>

lemma wp_open_win:
  assumes "heap_after (trace s) \<noteq> None" "fds_after (trace s) \<noteq> None"
    and "\<And>fd s'. heap_after (trace s') = heap_after (trace s)
      \<Longrightarrow> fds_after (trace s') = Some (the (fds_after (trace s)) + (if fd = -1 then {#} else {#fd#})) \<Longrightarrow> Q fd s'"
  shows "wp (fffile_open_win K U junk name flags) Q s"
  unfolding fffile_open_win_def using assms(1,2)
  by (intro wp_intros wp_res wp_longname wp_create_file wp_free_opt assms(3)) (auto simp: opt_heap_def)

lemma open_win_clean:
  "wp (fffile_open_win K U junk name flags)
     (\<lambda>fd s. heap_clean (trace s) \<and> fds_after (trace s) = Some (if fd = -1 then {#} else {#fd#}))
     (start w e)"
  by (rule wp_open_win) (simp_all add: heap_clean_def)

text \<open>
  \<open>fffile_open\<close> on Windows gives back all the memory it allocated, for the path
  and for the long name, on every way out, and the only handle open afterwards is the one it
  returns.
\<close>

theorem open_win_resources:
  "wp (fffile_open_win K U junk name flags)
     (\<lambda>fd s. heap_clean (trace s) \<and> fds_after (trace s) = Some (if fd = -1 then {#} else {#fd#}))
     (start w e)"
  by (rule open_win_clean)

lemma fd_step_winfile:
  "fd_step d (WinFile (SetFileTime h t), r) = d" "fd_step d (WinFile (DeleteFileW x), r) = d"
  "fd_step d (WinFile (GetFileAttributesW x), r) = d" "fd_step d (WinFile (SetFileAttributesW x a), r) = d"
  "fd_step d (WinFile (GetFileAttributesExW x), r) = d"
  "fd_step d (WinFile (MoveFileExW x y z), r) = d" "fd_step d (WinFile (CreateHardLinkW x y), r) = d"
  by (cases d; simp add: fd_step_def closed_def)+

text \<open>
  The functions that work on a path without returning a handle leave neither memory
  nor handles behind: getting information, setting attributes and times, deleting; so do
  \<open>fffile_rename\<close> and \<open>fffile_hardlink\<close> whenever they report success.
\<close>

theorem winfile_paths_clean:
  "wp (fffile_info_path_win K U name fi) (\<lambda>r s. heap_clean (trace s) \<and> fds_after (trace s) = Some {#}) (start w e) \<and>
   wp (fffile_set_attr_path_win K U name attr) (\<lambda>r s. heap_clean (trace s) \<and> fds_after (trace s) = Some {#}) (start w e) \<and>
   wp (fffile_remove_win K U name) (\<lambda>r s. heap_clean (trace s) \<and> fds_after (trace s) = Some {#}) (start w e) \<and>
   wp (fffile_set_mtime_path_win K U junk name t) (\<lambda>r s. heap_clean (trace s) \<and> fds_after (trace s) = Some {#}) (start w e) \<and>
   wp (fffile_rename_win K U old new) (\<lambda>r s. heap_clean (trace s) \<or> r = -1) (start w e) \<and>
   wp (fffile_hardlink_win K U old new) (\<lambda>r s. heap_clean (trace s) \<or> r = -1) (start w e)"
proof (intro conjI)
  show "wp (fffile_set_attr_path_win K U name attr)
      (\<lambda>r s. heap_clean (trace s) \<and> fds_after (trace s) = Some {#}) (start w e)"
    by (rule wp_mono [OF set_attr_path.clean]) simp
  show "wp (fffile_set_mtime_path_win K U junk name t)
      (\<lambda>r s. heap_clean (trace s) \<and> fds_after (trace s) = Some {#}) (start w e)"
    unfolding fffile_set_mtime_path_win_def fffile_set_mtime_win_def fffile_close_win_def
    by (intro wp_intros wp_mono [OF open_win_clean])
      (auto simp: heap_clean_def fd_step_winfile, simp_all add: fd_step_def closed_def)
  show "wp (fffile_info_path_win K U name fi)
      (\<lambda>r s. heap_clean (trace s) \<and> fds_after (trace s) = Some {#}) (start w e)"
    unfolding fffile_info_path_win_def heap_clean_def Let_def
    by (intro wp_intros wp_res) (simp_all add: fd_step_winfile)
  show "wp (fffile_remove_win K U name)
      (\<lambda>r s. heap_clean (trace s) \<and> fds_after (trace s) = Some {#}) (start w e)"
    unfolding fffile_remove_win_def heap_clean_def
    by (intro wp_intros wp_res) (simp_all add: fd_step_winfile)
  show "wp (fffile_rename_win K U old new) (\<lambda>r s. heap_clean (trace s) \<or> r = -1) (start w e)"
    unfolding fffile_rename_win_def heap_clean_def
    by (intro wp_intros wp_res) simp_all
  show "wp (fffile_hardlink_win K U old new) (\<lambda>r s. heap_clean (trace s) \<or> r = -1) (start w e)"
    unfolding fffile_hardlink_win_def heap_clean_def
    by (intro wp_intros wp_res) simp_all
qed

definition no_room :: wconv where
  "no_room = \<lparr>ffsz_utow = (\<lambda>cap s. (0, [])), ffutf8_to_utf16 = (\<lambda>cap s. (-1, [])),
     ffsz_wtou = (\<lambda>cap s. (0, [])), ffs_wtou = (\<lambda>cap s. (0, [])), wcsicmp = (\<lambda>a b. 0)\<rparr>"

definition alloc_once :: "call \<Rightarrow> nat \<Rightarrow> reply \<times> nat" where
  "alloc_once c w = (\<lparr>rv = (if w = 0 then 4096 else 0), rerr = None, rout = NoOut\<rparr>, w + 1)"

text \<open>
  \<open>fffile_rename\<close> and \<open>fffile_hardlink\<close> on Windows return at once when the
  conversion of the second path fails and leave the converted first path allocated if it was too
  long for the local buffer.
\<close>

theorem rename_win_leaks:
  "wp (fffile_rename_win alloc_once no_room old new) (\<lambda>r s. r = -1 \<and> heap_after (trace s) = Some {#4096#}) (start 0 e) \<and>
   wp (fffile_hardlink_win alloc_once no_room old new) (\<lambda>r s. r = -1 \<and> heap_after (trace s) = Some {#4096#}) (start 0 e)"
  by (simp add: wp_def fffile_rename_win_def fffile_hardlink_win_def utow256_def ffsz_alloc_buf_utow_def
      run_simps alloc_once_def no_room_def)

subsection \<open>Properties: creation, offsets, truncation\<close>

text \<open>
  With \<open>FFFILE_TRUNCATE\<close> the disposition passed to \<open>CreateFileW\<close> is always
  \<open>TRUNCATE_EXISTING\<close>, also for \<open>FFFILE_CREATENEW | FFFILE_TRUNCATE\<close>, which is documented to
  fail if the file exists; without it the disposition is the one the flags name.
\<close>

theorem open_win_disposition:
  "(if tst flags FFFILE_TRUNCATE_WIN then open_creation flags = TRUNCATE_EXISTING
    else open_creation flags = (if flags AND 0xf0 = 0 then OPEN_EXISTING else drop_bit 4 (flags AND 0xf0))) \<and>
   open_creation (FFFILE_CREATENEW_WIN OR FFFILE_TRUNCATE_WIN) \<noteq> CREATE_NEW \<and>
   open_creation FFFILE_CREATENEW_WIN = CREATE_NEW"
proof -
  have "drop_bit 4 (flags AND 0xf0) \<noteq> FFFILE_CREATENEW_WIN"
  proof
    assume "drop_bit 4 (flags AND 0xf0) = FFFILE_CREATENEW_WIN"
    then have "bit (drop_bit 4 (flags AND 0xf0)) 4" by (simp add: flag_simps bit_numeral_rec(1))
    then show False by (simp add: bit_simps)
  qed
  moreover have "drop_bit 4 (flags AND 0xf0) = 0 \<longleftrightarrow> flags AND 0xf0 = 0"
  proof
    assume z: "drop_bit 4 (flags AND 0xf0) = 0"
    show "flags AND 0xf0 = 0"
    proof (rule bit_word_eqI)
      fix n :: nat
      have "n = 0 \<or> n = 1 \<or> n = 2 \<or> n = 3 \<or> 4 \<le> n" by arith
      then have "bit (0xf0 :: u32) n \<Longrightarrow> 4 \<le> n" by (auto simp: bit_iff_odd)
      moreover have "bit (drop_bit 4 (flags AND 0xf0)) (n - 4) = bit (flags AND 0xf0) (4 + (n - 4))"
        by (simp only: bit_drop_bit_eq o_apply)
      then have "\<not> bit (flags AND 0xf0) (4 + (n - 4))" unfolding z by simp
      ultimately show "bit (flags AND 0xf0) n = bit 0 n" by (auto simp: bit_and_iff)
    qed
  qed simp
  ultimately show ?thesis by (simp add: open_creation_def Let_def tst_def flag_simps)
qed

lemma join_split: "(push_bit 32 (ucast (ucast (drop_bit 32 (x :: u64)) :: u32)) OR ucast (ucast x :: u32) :: u64) = x"
  using unat_join [of "ucast (drop_bit 32 x)" "ucast x"] split_words [of x]
  by (simp add: word_unat_eq_iff)

text \<open>
  The offset of \<open>fffile_writeat\<close> and \<open>fffile_readat\<close> reaches the system
  unchanged although it is passed in two 32-bit halves, and a transfer is never larger than the
  32-bit count the Win32 functions take.
\<close>

theorem writeat_readat_offset:
  assumes "ffbase_ok B"
  shows "wp (fffile_writeat_win K B fd d off)
      (\<lambda>r s. \<exists>d'. calls_of s = [WinFile (WriteFile fd d' (Some off))] \<and>
         d' = take (length d') d \<and> length d' = min (length d) 0xffffffff) (start w e) \<and>
    wp (fffile_readat_win K B fd n off)
      (\<lambda>r s. calls_of s = [WinFile (ReadFile fd (min n 0xffffffff) (Some off))]) (start w e)"
proof -
  have "ffmin B a b = min a b" for a b by (rule ffbase_okD(7) [OF assms])
  then show ?thesis
    unfolding fffile_writeat_win_def fffile_readat_win_def win_write_def Let_def join_split
    by (intro conjI wp_intros) (auto simp: calls_of_def)
qed

theorem writeat_readat_offset_witness:
  "calls_of (snd (run_state (fffile_readat_win alloc_once ffbase_ref 5 10 0x123456789) (start 0 0))) =
     [WinFile (ReadFile 5 10 (Some 0x123456789))]"
proof -
  have "wp (fffile_readat_win alloc_once ffbase_ref 5 10 0x123456789)
    (\<lambda>r s. calls_of s = [WinFile (ReadFile 5 (min 10 0xffffffff) (Some 0x123456789))]) (start 0 0)"
    by (rule conjunct2 [OF writeat_readat_offset [OF ffbase_ref_ok]])
  moreover have "min 10 0xffffffff = (10 :: nat)" by simp
  ultimately show ?thesis unfolding wp_def by (simp only:)
qed

text \<open>What Windows documents of the file pointer and of \<open>SetEndOfFile\<close>.\<close>

definition fileptr_laws :: "'w kernel \<Rightarrow> ('w \<Rightarrow> int \<Rightarrow> u64) \<Rightarrow> ('w \<Rightarrow> int \<Rightarrow> u64) \<Rightarrow> bool" where
  "fileptr_laws K ptr eof \<longleftrightarrow>
     (\<forall>w fd p m r w'. K (WinFile (SetFilePointerEx fd p m)) w = (r, w') \<longrightarrow>
        eof w' = eof w \<and> (rv r = 0 \<longrightarrow> ptr w' = ptr w) \<and>
        (rv r \<noteq> 0 \<longrightarrow> rout r = OWords [ptr w' fd] \<and> (m = FILE_BEGIN \<longrightarrow> ptr w' fd = p) \<and>
           (m = FILE_CURRENT \<longrightarrow> ptr w' fd = ptr w fd + p))) \<and>
     (\<forall>w fd r w'. K (WinFile (SetEndOfFile fd)) w = (r, w') \<longrightarrow>
        ptr w' = ptr w \<and> (if rv r = 0 then eof w' = eof w else eof w' fd = ptr w fd))"

lemma fileptr_lawsD:
  assumes "fileptr_laws K ptr eof"
  shows "K (WinFile (SetFilePointerEx fd p m)) w = (r, w') \<Longrightarrow> eof w' = eof w"
    and "K (WinFile (SetFilePointerEx fd p m)) w = (r, w') \<Longrightarrow> rv r \<noteq> 0 \<Longrightarrow> out_word r = ptr w' fd"
    and "K (WinFile (SetFilePointerEx fd p 0)) w = (r, w') \<Longrightarrow> rv r \<noteq> 0 \<Longrightarrow> ptr w' fd = p"
    and "K (WinFile (SetFilePointerEx fd p 1)) w = (r, w') \<Longrightarrow> rv r \<noteq> 0 \<Longrightarrow> ptr w' fd = ptr w fd + p"
    and "K (WinFile (SetEndOfFile fd)) w = (r, w') \<Longrightarrow> ptr w' = ptr w"
    and "K (WinFile (SetEndOfFile fd)) w = (r, w') \<Longrightarrow> rv r \<noteq> 0 \<Longrightarrow> eof w' fd = ptr w fd"
  using assms unfolding fileptr_laws_def by (force split: if_splits)+

lemma wp_seek_win:
  assumes L: "fileptr_laws K ptr eof"
    and "\<And>r s'. eof (world s') = eof (world s) \<Longrightarrow>
      (r \<noteq> -1 \<Longrightarrow> r = sint (ptr (world s') fd) \<and> (m = 0 \<longrightarrow> ptr (world s') fd = p) \<and>
         (m = 1 \<longrightarrow> ptr (world s') fd = ptr (world s) fd + p)) \<Longrightarrow> Q r s'"
  shows "wp (fffile_seek_win K fd p m) Q s"
  unfolding fffile_seek_win_def
  by (intro wp_intros assms(2)) (auto simp del: out_word.simps simp: fileptr_lawsD(2) [OF L]
      dest: fileptr_lawsD(1,3,4) [OF L] split: if_splits)

text \<open>
  \<open>fffile_trunc\<close> on Windows sets the size through the file pointer: when it returns
  \<open>0\<close> the file has the requested size, and unless it returns \<open>-1\<close> the file pointer is where
  it was before, also if setting the size failed.
\<close>

theorem trunc_win_restores_pointer:
  assumes "fileptr_laws K ptr eof"
  shows "wp (fffile_trunc_win K fd len)
    (\<lambda>r s. (r = 0 \<longrightarrow> eof (world s) fd = len) \<and> (r \<noteq> -1 \<longrightarrow> ptr (world s) fd = ptr w fd)) (start w e)"
  unfolding fffile_trunc_win_def
  by (intro wp_intros wp_seek_win [OF assms])
    (auto simp: c_bool_def dest: fileptr_lawsD(5,6) [OF assms])

definition ptrK :: "call \<Rightarrow> u64 \<times> u64 \<Rightarrow> reply \<times> (u64 \<times> u64)" where
  "ptrK c w = (case c of
      WinFile f \<Rightarrow> (case f of
          SetFilePointerEx fd p m \<Rightarrow>
            (let q = (if m = 0 then p else fst w + p)
             in (\<lparr>rv = 1, rerr = None, rout = OWords [q]\<rparr>, (q, snd w)))
        | SetEndOfFile fd \<Rightarrow> (\<lparr>rv = 1, rerr = None, rout = NoOut\<rparr>, (fst w, fst w))
        | _ \<Rightarrow> (\<lparr>rv = 0, rerr = None, rout = NoOut\<rparr>, w))
    | _ \<Rightarrow> (\<lparr>rv = 0, rerr = None, rout = NoOut\<rparr>, w))"

theorem trunc_win_restores_pointer_witness:
  "fst (run_state (fffile_trunc_win ptrK 7 100) (start (40, 1000) 0)) = 0 \<and>
   world (snd (run_state (fffile_trunc_win ptrK 7 100) (start (40, 1000) 0))) = (40, 100)"
proof -
  have L: "fileptr_laws ptrK (\<lambda>w fd. fst w) (\<lambda>w fd. snd w)"
    by (auto simp: fileptr_laws_def ptrK_def Let_def)
  have "fst (run_state (fffile_trunc_win ptrK 7 100) (start (40, 1000) 0)) = 0" by code_simp
  with trunc_win_restores_pointer [OF L, of 7 100 "(40, 1000)" 0] show ?thesis
    by (simp add: wp_def prod_eq_iff)
qed

end
