(* ===== verification/Kqueue.thy ===== *)
theory Kqueue
  imports Time
begin

text \<open>
  Kernel event queues (\<open>FFOS/queue.h\<close>) over epoll, kqueue and I/O completion ports, and the
  task descriptor of asynchronous operations (\<open>FFOS/kqtask.h\<close>).
\<close>

subsection \<open>Tasks\<close>

text \<open>
  \<open>active\<close> is the truth value of the C member.  On Windows the task also owns the
  \<open>OVERLAPPED\<close> object, which only the system reads and writes, and the byte \<open>buf[1]\<close>.
\<close>

record ffkq_task =
  task_active :: bool
  kev_flags :: u16
  kev_errno :: u32

record ffkq_task_win =
  wtask_active :: bool
  wtask_buf :: bytes

definition task_zero :: ffkq_task where
  "task_zero = \<lparr>task_active = False, kev_flags = 0, kev_errno = 0\<rparr>"

definition task_zero_win :: ffkq_task_win where
  "task_zero_win = \<lparr>wtask_active = False, wtask_buf = [0]\<rparr>"

subsection \<open>UNIX\<close>

definition EPOLLIN :: u32 where [flag_simps]: "EPOLLIN = 1"
definition EPOLLOUT :: u32 where [flag_simps]: "EPOLLOUT = 4"
definition EPOLLERR :: u32 where [flag_simps]: "EPOLLERR = 8"
definition EPOLLET :: u32 where [flag_simps]: "EPOLLET = 0x80000000"
definition EV_ADD :: u32 where [flag_simps]: "EV_ADD = 1"
definition EV_DELETE :: u32 where [flag_simps]: "EV_DELETE = 2"
definition EV_ENABLE :: u32 where [flag_simps]: "EV_ENABLE = 4"
definition EV_CLEAR :: u32 where [flag_simps]: "EV_CLEAR = 0x20"
definition NOTE_TRIGGER :: u32 where [flag_simps]: "NOTE_TRIGGER = 0x01000000"
definition EFD_NONBLOCK :: u32 where [flag_simps]: "EFD_NONBLOCK = 0x800"

abbreviation (input) EVFILT_READ :: int where "EVFILT_READ \<equiv> -1"
abbreviation (input) EVFILT_WRITE :: int where "EVFILT_WRITE \<equiv> -2"
abbreviation (input) EVFILT_USER :: int where "EVFILT_USER \<equiv> -11"
abbreviation (input) FFKQ_POST_ID :: int where "FFKQ_POST_ID \<equiv> 1"
abbreviation (input) FFKQ_NULL :: int where "FFKQ_NULL \<equiv> -1"

definition FFKQ_READ :: "os \<Rightarrow> u32" where
  "FFKQ_READ os = (if ff_linux os then EPOLLIN else 1)"

definition FFKQ_WRITE :: "os \<Rightarrow> u32" where
  "FFKQ_WRITE os = (if ff_linux os then EPOLLOUT else 2)"

definition FFKQ_READWRITE :: "os \<Rightarrow> u32" where
  "FFKQ_READWRITE os = FFKQ_READ os OR FFKQ_WRITE os"

definition ffkq_create_linux :: "'w kernel \<Rightarrow> ('w, int) prog" where
  "ffkq_create_linux K = sysi K (Ev (Epoll_create 1))"

definition ffkq_create_bsd :: "'w kernel \<Rightarrow> ('w, int) prog" where
  "ffkq_create_bsd K = sysi K (Ev Kqueue)"

definition ffkq_create :: "'w kernel \<Rightarrow> os \<Rightarrow> ('w, int) prog" where
  "ffkq_create K os = (if ff_linux os then ffkq_create_linux K else ffkq_create_bsd K)"

lemmas ffkq_create_defs = ffkq_create_def ffkq_create_linux_def ffkq_create_bsd_def

text \<open>\<open>EV_SET\<close>\<close>

definition ev_set :: "int \<Rightarrow> int \<Rightarrow> u32 \<Rightarrow> u32 \<Rightarrow> int \<Rightarrow> kevent" where
  "ev_set ident filt flags fflags data =
     \<lparr>kv_ident = ident, kv_filter = filt, kv_flags = flags, kv_fflags = fflags, kv_data = 0, kv_udata = data\<rparr>"

definition ffkq_attach_linux :: "'w kernel \<Rightarrow> int \<Rightarrow> int \<Rightarrow> int \<Rightarrow> u32 \<Rightarrow> ('w, int) prog" where
  "ffkq_attach_linux K kq fd data flags =
     sysi K (Ev (Epoll_ctl_add kq fd \<lparr>ep_events = flags OR EPOLLET, ep_data = data\<rparr>))"

definition ffkq_attach_bsd :: "'w kernel \<Rightarrow> os \<Rightarrow> int \<Rightarrow> int \<Rightarrow> int \<Rightarrow> u32 \<Rightarrow> ('w, int) prog" where
  "ffkq_attach_bsd K os kq fd data flags =
     sysi K (Ev (Kevent_change kq
       ((if tst flags (FFKQ_READ os) then [ev_set fd EVFILT_READ (EV_ADD OR EV_CLEAR) 0 data] else []) @
        (if tst flags (FFKQ_WRITE os) then [ev_set fd EVFILT_WRITE (EV_ADD OR EV_CLEAR) 0 data] else []))))"

definition ffkq_attach :: "'w kernel \<Rightarrow> os \<Rightarrow> int \<Rightarrow> int \<Rightarrow> int \<Rightarrow> u32 \<Rightarrow> ('w, int) prog" where
  "ffkq_attach K os kq fd data flags =
     (if ff_linux os then ffkq_attach_linux K kq fd data flags else ffkq_attach_bsd K os kq fd data flags)"

lemmas ffkq_attach_defs = ffkq_attach_def ffkq_attach_linux_def ffkq_attach_bsd_def

text \<open>\<open>ffkq_time\<close>: milliseconds on Linux, a \<open>timespec\<close> elsewhere.\<close>

datatype ffkq_time = TimeMs u32 | TimeSpec timespec

definition ffkq_time_set_linux :: "u32 \<Rightarrow> u32" where
  "ffkq_time_set_linux msec = msec"

definition ffkq_time_set_bsd :: "u32 \<Rightarrow> timespec" where
  "ffkq_time_set_bsd msec = \<lparr>ts_sec = ucast (msec div 1000), ts_nsec = ucast ((msec mod 1000) * 1000000)\<rparr>"

definition ffkq_time_set :: "os \<Rightarrow> u32 \<Rightarrow> ffkq_time" where
  "ffkq_time_set os msec =
     (if ff_linux os then TimeMs (ffkq_time_set_linux msec) else TimeSpec (ffkq_time_set_bsd msec))"

lemmas ffkq_time_set_defs = ffkq_time_set_def ffkq_time_set_linux_def ffkq_time_set_bsd_def

text \<open>The events are what the call wrote; the reply has them and their number.\<close>

definition ffkq_wait_linux :: "'w kernel \<Rightarrow> int \<Rightarrow> nat \<Rightarrow> u32 \<Rightarrow> ('w, reply) prog" where
  "ffkq_wait_linux K kq events_cap timeout = sys K (Ev (Epoll_wait kq events_cap timeout))"

definition ffkq_wait_bsd :: "'w kernel \<Rightarrow> int \<Rightarrow> nat \<Rightarrow> timespec \<Rightarrow> ('w, reply) prog" where
  "ffkq_wait_bsd K kq events_cap timeout = sys K (Ev (Kevent_wait kq events_cap timeout))"

definition ffkq_wait :: "'w kernel \<Rightarrow> int \<Rightarrow> nat \<Rightarrow> ffkq_time \<Rightarrow> ('w, reply) prog" where
  "ffkq_wait K kq events_cap timeout =
     (case timeout of
        TimeMs t \<Rightarrow> ffkq_wait_linux K kq events_cap t
      | TimeSpec t \<Rightarrow> ffkq_wait_bsd K kq events_cap t)"

lemmas ffkq_wait_defs = ffkq_wait_def ffkq_wait_linux_def ffkq_wait_bsd_def

definition ffkq_event_data_linux :: "epoll_event \<Rightarrow> int" where
  "ffkq_event_data_linux ev = ep_data ev"

definition ffkq_event_flags_linux :: "epoll_event \<Rightarrow> u32" where
  "ffkq_event_flags_linux ev =
     (if \<not> tst (ep_events ev) EPOLLERR then ep_events ev else FFKQ_READWRITE Linux)"

definition ffkq_task_event_assign_linux :: "ffkq_task \<Rightarrow> epoll_event \<Rightarrow> ffkq_task" where
  "ffkq_task_event_assign_linux task ev = task\<lparr>kev_flags := ucast (ep_events ev)\<rparr>"

definition ffkq_event_data_bsd :: "kevent \<Rightarrow> int" where
  "ffkq_event_data_bsd ev = kv_udata ev"

definition ffkq_event_flags_bsd :: "kevent \<Rightarrow> u32" where
  "ffkq_event_flags_bsd ev = (if kv_filter ev \<noteq> EVFILT_WRITE then 1 else 2)"

definition ffkq_task_event_assign_bsd :: "ffkq_task \<Rightarrow> kevent \<Rightarrow> ffkq_task" where
  "ffkq_task_event_assign_bsd task ev =
     task\<lparr>kev_flags := ucast (kv_flags ev), kev_errno := kv_fflags ev\<rparr>"

definition ffkq_post_attach_linux :: "'w kernel \<Rightarrow> os \<Rightarrow> int \<Rightarrow> int \<Rightarrow> ('w, int) prog" where
  "ffkq_post_attach_linux K os kq data = do {
     post \<leftarrow> sysi K (Ev (Eventfd 0 EFD_NONBLOCK));
     if post = -1 then State_Monad.return FFKQ_NULL
     else do {
       r \<leftarrow> ffkq_attach K os kq post data (FFKQ_READ os);
       if r \<noteq> 0 then do { sysi K (FileC (Close post)); State_Monad.return FFKQ_NULL }
       else State_Monad.return post
     }
   }"

definition ffkq_post_attach_bsd :: "'w kernel \<Rightarrow> int \<Rightarrow> int \<Rightarrow> ('w, int) prog" where
  "ffkq_post_attach_bsd K kq data = do {
     r \<leftarrow> sysi K (Ev (Kevent_change kq
            [ev_set FFKQ_POST_ID EVFILT_USER ((EV_ADD OR EV_ENABLE) OR EV_CLEAR) 0 0]));
     State_Monad.return (if r \<noteq> 0 then FFKQ_NULL else kq)
   }"

definition ffkq_post_attach :: "'w kernel \<Rightarrow> os \<Rightarrow> int \<Rightarrow> int \<Rightarrow> ('w, int) prog" where
  "ffkq_post_attach K os kq data =
     (if ff_linux os then ffkq_post_attach_linux K os kq data else ffkq_post_attach_bsd K kq data)"

lemmas ffkq_post_attach_defs = ffkq_post_attach_def ffkq_post_attach_linux_def ffkq_post_attach_bsd_def

definition ffkq_post_detach_linux :: "'w kernel \<Rightarrow> int \<Rightarrow> int \<Rightarrow> ('w, unit) prog" where
  "ffkq_post_detach_linux K post kq =
     (if post = FFKQ_NULL then State_Monad.return ()
      else do { sysi K (FileC (Close post)); State_Monad.return () })"

text \<open>The assertion \<open>post == kq\<close>, which \<open>ffkq_post_attach\<close> guarantees, is left out.\<close>

definition ffkq_post_detach_bsd :: "'w kernel \<Rightarrow> int \<Rightarrow> int \<Rightarrow> ('w, unit) prog" where
  "ffkq_post_detach_bsd K post kq =
     (if post = FFKQ_NULL then State_Monad.return ()
      else do {
        sysi K (Ev (Kevent_change kq [ev_set FFKQ_POST_ID EVFILT_USER EV_DELETE 0 0]));
        State_Monad.return ()
      })"

definition ffkq_post_detach :: "'w kernel \<Rightarrow> os \<Rightarrow> int \<Rightarrow> int \<Rightarrow> ('w, unit) prog" where
  "ffkq_post_detach K os post kq =
     (if ff_linux os then ffkq_post_detach_linux K post kq else ffkq_post_detach_bsd K post kq)"

lemmas ffkq_post_detach_defs = ffkq_post_detach_def ffkq_post_detach_linux_def ffkq_post_detach_bsd_def

text \<open>The eight bytes of the value \<open>1\<close>.\<close>

definition u64_one :: bytes where
  "u64_one = [1, 0, 0, 0, 0, 0, 0, 0]"

definition ffkq_post_linux :: "'w kernel \<Rightarrow> int \<Rightarrow> int \<Rightarrow> ('w, int) prog" where
  "ffkq_post_linux K post data = do {
     n \<leftarrow> sysi K (FileC (Write post u64_one));
     State_Monad.return (if n \<noteq> 8 then -1 else 0)
   }"

definition ffkq_post_bsd :: "'w kernel \<Rightarrow> int \<Rightarrow> int \<Rightarrow> ('w, int) prog" where
  "ffkq_post_bsd K post data =
     sysi K (Ev (Kevent_change post [ev_set FFKQ_POST_ID EVFILT_USER 0 NOTE_TRIGGER data]))"

definition ffkq_post :: "'w kernel \<Rightarrow> os \<Rightarrow> int \<Rightarrow> int \<Rightarrow> ('w, int) prog" where
  "ffkq_post K os post data = (if ff_linux os then ffkq_post_linux K post data else ffkq_post_bsd K post data)"

lemmas ffkq_post_defs = ffkq_post_def ffkq_post_linux_def ffkq_post_bsd_def

text \<open>Read until it fails; \<open>None\<close> if that never happens.\<close>

partial_function (option) post_consume_loop :: "'w kernel \<Rightarrow> int \<Rightarrow> 'w sys \<Rightarrow> 'w sys option" where
  "post_consume_loop K post s =
     (let rs = run_state (sysi K (FileC (Read post 8))) s
      in if fst rs < 0 then Some (snd rs) else post_consume_loop K post (snd rs))"

definition ffkq_post_consume_bsd :: "int \<Rightarrow> 'w sys \<Rightarrow> 'w sys option" where
  "ffkq_post_consume_bsd post s = Some s"

definition ffkq_post_consume :: "'w kernel \<Rightarrow> os \<Rightarrow> int \<Rightarrow> 'w sys \<Rightarrow> 'w sys option" where
  "ffkq_post_consume K os post s =
     (if ff_linux os then post_consume_loop K post s else ffkq_post_consume_bsd post s)"

lemmas ffkq_post_consume_defs = ffkq_post_consume_def ffkq_post_consume_bsd_def

definition ffkq_close :: "'w kernel \<Rightarrow> int \<Rightarrow> ('w, unit) prog" where
  "ffkq_close K kq =
     (if kq = FFKQ_NULL then State_Monad.return ()
      else do { sysi K (FileC (Close kq)); State_Monad.return () })"

subsection \<open>Windows\<close>

text \<open>\<open>FFKQ_NULL\<close> is the \<open>NULL\<close> handle here.\<close>

definition ffkq_create_win :: "'w kernel \<Rightarrow> ('w, int) prog" where
  "ffkq_create_win K = sysi K (WinIo (CreateIoCompletionPort (-1) 0 0))"

definition ffkq_close_win :: "'w kernel \<Rightarrow> int \<Rightarrow> ('w, unit) prog" where
  "ffkq_close_win K kq =
     (if kq = 0 then State_Monad.return ()
      else do { sysi K (WinFile (CloseHandle kq)); State_Monad.return () })"

definition ffkq_attach_win :: "'w kernel \<Rightarrow> int \<Rightarrow> int \<Rightarrow> int \<Rightarrow> ('w, int) prog" where
  "ffkq_attach_win K kq fd data = do {
     r \<leftarrow> sysi K (WinIo (CreateIoCompletionPort fd kq data));
     State_Monad.return (c_bool (r = 0))
   }"

definition ffkq_wait_win :: "'w kernel \<Rightarrow> int \<Rightarrow> nat \<Rightarrow> u32 \<Rightarrow> ('w, int) prog" where
  "ffkq_wait_win K kq events_cap timeout = do {
     x \<leftarrow> sys K (WinIo (GetQueuedCompletionStatusEx kq events_cap timeout));
     e \<leftarrow> fferr_last;
     State_Monad.return (if rv x = 0 then (if e = WAIT_TIMEOUT then 0 else -1) else out_int x 0)
   }"

text \<open>Systems before Vista: one event per call; \<open>out_int x 0\<close> is \<open>lpOverlapped\<close>.\<close>

definition ffkq_wait_oldwin :: "'w kernel \<Rightarrow> int \<Rightarrow> nat \<Rightarrow> u32 \<Rightarrow> ('w, int) prog" where
  "ffkq_wait_oldwin K kq events_cap timeout =
     (if events_cap = 0 then State_Monad.return 0
      else do {
        x \<leftarrow> sys K (WinIo (GetQueuedCompletionStatus kq timeout));
        e \<leftarrow> fferr_last;
        State_Monad.return (if rv x = 0
           then (if e = WAIT_TIMEOUT then 0 else if out_int x 0 = 0 then -1 else 1)
           else 1)
      })"

definition ffkq_time_set_win :: "u32 \<Rightarrow> u32" where
  "ffkq_time_set_win msec = msec"

text \<open>An event of a completion port has the key of its object; it carries no flags.\<close>

record overlapped_entry =
  lpCompletionKey :: int

definition ffkq_event_data_win :: "overlapped_entry \<Rightarrow> int" where
  "ffkq_event_data_win ev = lpCompletionKey ev"

definition ffkq_event_flags_win :: "overlapped_entry \<Rightarrow> int" where
  "ffkq_event_flags_win ev = 0"

definition ffkq_task_event_assign_win :: "ffkq_task_win \<Rightarrow> overlapped_entry \<Rightarrow> ffkq_task_win" where
  "ffkq_task_event_assign_win task ev = task"

definition ffkq_post_detach_win :: "int \<Rightarrow> int \<Rightarrow> ('w, unit) prog" where
  "ffkq_post_detach_win post kq = State_Monad.return ()"

definition ffkq_post_consume_win :: "int \<Rightarrow> ('w, unit) prog" where
  "ffkq_post_consume_win post = State_Monad.return ()"

definition ffkq_post_attach_win :: "int \<Rightarrow> int \<Rightarrow> int" where
  "ffkq_post_attach_win kq data = kq"

definition ffkq_post_win :: "'w kernel \<Rightarrow> int \<Rightarrow> int \<Rightarrow> ('w, int) prog" where
  "ffkq_post_win K post data = do {
     r \<leftarrow> sysi K (WinIo (PostQueuedCompletionStatus post data));
     State_Monad.return (c_bool (r = 0))
   }"

text \<open>Asking for the result of the operation that the task started.\<close>

definition overlapped_result :: "'w kernel \<Rightarrow> ffkq_task_win \<Rightarrow> ('w, (bool \<times> int) \<times> ffkq_task_win) prog" where
  "overlapped_result K task = do {
     x \<leftarrow> sys K (WinIo (GetOverlappedResult 0));
     if rv x = 0 then do {
       e \<leftarrow> fferr_last;
       if e = ERROR_IO_INCOMPLETE
       then do { fferr_set ERROR_IO_PENDING; State_Monad.return ((False, 0), task) }
       else State_Monad.return ((False, 0), task\<lparr>wtask_active := False\<rparr>)
     }
     else State_Monad.return ((True, out_int x 0), task\<lparr>wtask_active := False\<rparr>)
   }"

subsection \<open>Properties\<close>

text \<open>
  \<open>ffkq_post_attach\<close> on Linux leaves open exactly the event descriptor it returns:
  if the queue refuses it, it is closed again.  Detaching it closes it.
\<close>

theorem post_attach_no_leak:
  "wp (ffkq_post_attach K Linux kq data)
     (\<lambda>post s. fds_after (trace s) = Some (if post = -1 then {#} else {#post#})) (start w e) \<and>
   wp (do { post \<leftarrow> ffkq_post_attach K Linux kq data; ffkq_post_detach K Linux post kq })
     (\<lambda>r s. fds_after (trace s) = Some {#}) (start w e)"
  unfolding ffkq_post_attach_defs ffkq_post_detach_defs ffkq_attach_defs
  by (intro conjI wp_intros) (simp_all add: fd_step_def closed_def)

text \<open>
  The time set for the queue is the number of milliseconds given, in the unit of each
  system, and the \<open>timespec\<close> of BSD and macOS is normalised.
\<close>

theorem kq_time_set_value:
  "case ffkq_time_set os msec of
     TimeMs t \<Rightarrow> ff_linux os \<and> t = msec
   | TimeSpec t \<Rightarrow> \<not> ff_linux os \<and> unat (ts_nsec t) < 1000000000 \<and>
       unat (ts_sec t) * 1000 + unat (ts_nsec t) div 1000000 = unat msec"
proof -
  have m: "unat (msec mod 1000) < 1000" by (simp add: unat_mod)
  then have "unat ((msec mod 1000) * 1000000) = unat msec mod 1000 * 1000000"
    by (simp add: unat_word_ariths unat_mod)
  then show ?thesis by (simp add: ffkq_time_set_defs unat_div)
qed

text \<open>
  What Linux documents of a non-blocking \<open>eventfd\<close>: reading takes the whole counter, or fails
  with \<open>EAGAIN\<close> when it is zero; writing \<open>1\<close> increments it or fails.
\<close>

definition eventfd_laws :: "'w kernel \<Rightarrow> int \<Rightarrow> ('w \<Rightarrow> nat) \<Rightarrow> bool" where
  "eventfd_laws K fd cnt \<longleftrightarrow>
     (\<forall>w r w'. K (FileC (Read fd 8)) w = (r, w') \<longrightarrow>
        cnt w' = 0 \<and> (if cnt w = 0 then rv r = -1 \<and> rerr r = Some EAGAIN else rv r = 8)) \<and>
     (\<forall>w r w'. K (FileC (Write fd u64_one)) w = (r, w') \<longrightarrow>
        rv r = 8 \<and> cnt w' = cnt w + 1 \<or> rv r = -1 \<and> cnt w' = cnt w)"

lemma eventfd_read:
  assumes "eventfd_laws K fd cnt"
  defines "rs \<equiv> \<lambda>s. run_state (sysi K (FileC (Read fd 8))) s"
  shows "cnt (world (snd (rs s))) = 0"
    and "cnt (world s) = 0 \<Longrightarrow> fst (rs s) = -1 \<and> lasterr (snd (rs s)) = EAGAIN"
    and "cnt (world s) \<noteq> 0 \<Longrightarrow> fst (rs s) = 8"
    and "length (trace (snd (rs s))) = length (trace s) + 1"
proof -
  obtain r w' where k: "K (FileC (Read fd 8)) (world s) = (r, w')" by fastforce
  with assms(1) have "cnt w' = 0 \<and> (if cnt (world s) = 0 then rv r = -1 \<and> rerr r = Some EAGAIN else rv r = 8)"
    unfolding eventfd_laws_def by blast
  then show "cnt (world (snd (rs s))) = 0"
    "cnt (world s) = 0 \<Longrightarrow> fst (rs s) = -1 \<and> lasterr (snd (rs s)) = EAGAIN"
    "cnt (world s) \<noteq> 0 \<Longrightarrow> fst (rs s) = 8"
    "length (trace (snd (rs s))) = length (trace s) + 1"
    by (simp_all add: rs_def run_simps k)
qed

lemma consume_zero:
  assumes "eventfd_laws K fd cnt" "cnt (world s) = 0"
  shows "\<exists>s'. post_consume_loop K fd s = Some s' \<and> cnt (world s') = 0 \<and>
    length (trace s') = length (trace s) + 1 \<and> lasterr s' = EAGAIN"
  using eventfd_read [OF assms(1), of s] assms(2)
  by (subst post_consume_loop.simps) (simp add: Let_def)

text \<open>
  \<open>ffkq_post\<close> raises the user event whenever it returns \<open>0\<close>, and
  \<open>ffkq_post_consume\<close> ends after at most two reads with the event lowered, however many times
  it was posted.
\<close>

theorem post_consume_terminates:
  assumes "eventfd_laws K fd cnt"
  shows "wp (ffkq_post K Linux fd data) (\<lambda>r s. r = 0 \<longrightarrow> cnt (world s) > 0) s0 \<and>
    (\<exists>s'. ffkq_post_consume K Linux fd s = Some s' \<and> cnt (world s') = 0 \<and>
       length (trace s') \<le> length (trace s) + 2)"
proof
  have "rv r = 8 \<Longrightarrow> cnt w' > 0" if "K (FileC (Write fd u64_one)) w = (r, w')" for w r w'
    using assms that unfolding eventfd_laws_def by (metis add_is_0 bot_nat_0.not_eq_extremum one_neq_zero
      equal_neg_zero numeral_One zero_neq_neg_numeral numeral_neq_neg_one)
  then show "wp (ffkq_post K Linux fd data) (\<lambda>r s. r = 0 \<longrightarrow> cnt (world s) > 0) s0"
    unfolding ffkq_post_defs by (intro wp_intros) auto
  let ?s = "snd (run_state (sysi K (FileC (Read fd 8))) s)"
  show "\<exists>s'. ffkq_post_consume K Linux fd s = Some s' \<and> cnt (world s') = 0 \<and>
       length (trace s') \<le> length (trace s) + 2"
  proof (cases "cnt (world s) = 0")
    case True
    then show ?thesis using consume_zero [OF assms, of s] by (auto simp: ffkq_post_consume_defs)
  next
    case False
    then have "post_consume_loop K fd s = post_consume_loop K fd ?s"
      using eventfd_read(3) [OF assms, of s] by (subst post_consume_loop.simps) (simp add: Let_def)
    then show ?thesis
      using consume_zero [OF assms, of ?s] eventfd_read(1,4) [OF assms, of s]
      by (auto simp: ffkq_post_consume_defs)
  qed
qed

definition counterK :: "call \<Rightarrow> nat \<Rightarrow> reply \<times> nat" where
  "counterK c n = (case c of
      FileC f \<Rightarrow> (case f of
          Read _ _ \<Rightarrow> (if n = 0 then \<lparr>rv = -1, rerr = Some EAGAIN, rout = NoOut\<rparr>
                       else \<lparr>rv = 8, rerr = None, rout = NoOut\<rparr>, 0)
        | Write _ _ \<Rightarrow> (\<lparr>rv = 8, rerr = None, rout = NoOut\<rparr>, n + 1)
        | _ \<Rightarrow> (\<lparr>rv = -1, rerr = None, rout = NoOut\<rparr>, n))
    | _ \<Rightarrow> (\<lparr>rv = -1, rerr = None, rout = NoOut\<rparr>, n))"

theorem post_consume_witness:
  "world (snd (run_state (ffkq_post counterK Linux 5 0) (start 0 0))) = 1 \<and>
   map_option world (ffkq_post_consume counterK Linux 5 (start 3 0)) = Some 0"
proof -
  have L: "eventfd_laws counterK 5 (\<lambda>n. n)" by (auto simp: eventfd_laws_def counterK_def)
  have "world (snd (run_state (ffkq_post counterK Linux 5 0) (start 0 0))) = 1"
    by (simp add: ffkq_post_defs run_simps counterK_def)
  with post_consume_terminates [OF L, of 0 "start 0 0" "start 3 0"] show ?thesis by auto
qed

lemma wp_overlapped_result:
  "wp (overlapped_result K task)
     (\<lambda>r s. wtask_active (snd r) \<longrightarrow> \<not> fst (fst r) \<and> (wtask_active task \<longrightarrow> lasterr s = ERROR_IO_PENDING)) s0"
  unfolding overlapped_result_def by (intro wp_intros) auto

subsection \<open>The contract of asynchronous operations\<close>

text \<open>
  An asynchronous function either finishes, or leaves its task active, and then it has failed
  with the in-progress code and is to be called again when the queue signals.  The locale states
  that contract for one function: \<open>t\<close> is its task, \<open>act\<close> tells whether it is active,
  \<open>ok\<close> is what the function relies on from the system.  A caller that repeats the call until
  the task is inactive is proved once, here.
\<close>

locale async_op =
  fixes oper :: "'w kernel \<Rightarrow> 't \<Rightarrow> ('w, 'r \<times> 't) prog" and res :: "'r \<Rightarrow> int" and act :: "'t \<Rightarrow> bool"
    and in_progress :: int and ok :: "'w kernel \<Rightarrow> bool"
  assumes pending: "ok K \<Longrightarrow> wp (oper K t)
    (\<lambda>r s. act (snd r) \<longrightarrow> res (fst r) < 0 \<and> lasterr s = in_progress) s"
begin

primrec repeat_op :: "'w kernel \<Rightarrow> nat \<Rightarrow> 't \<Rightarrow> ('w, 'r \<times> 't) prog" where
  "repeat_op K 0 t = oper K t"
| "repeat_op K (Suc n) t = do {
     r \<leftarrow> oper K t;
     if act (snd r) then repeat_op K n (snd r) else State_Monad.return r
   }"

lemma repeat_pending:
  "ok K \<Longrightarrow> wp (repeat_op K n t) (\<lambda>r s. act (snd r) \<longrightarrow> res (fst r) < 0 \<and> lasterr s = in_progress) st"
proof (induction n arbitrary: t st)
  case 0
  then show ?case by (simp add: pending)
next
  case (Suc n t st)
  have "wp (oper K t) (\<lambda>r. wp (if act (snd r) then repeat_op K n (snd r) else State_Monad.return r)
      (\<lambda>r s. act (snd r) \<longrightarrow> res (fst r) < 0 \<and> lasterr s = in_progress)) st"
    by (rule wp_mono [OF pending [OF Suc.prems]])
      (rule wp_if, rule Suc.IH [OF Suc.prems], rule wp_return, simp)
  then show ?case by (simp add: wp_bind)
qed

text \<open>A result that is not a failure is final.\<close>

lemma finished: "ok K \<Longrightarrow> wp (oper K t) (\<lambda>r s. 0 \<le> res (fst r) \<longrightarrow> \<not> act (snd r)) s"
  by (rule wp_mono [OF pending]) auto

end

end
