(* ===== verification/Sock.thy ===== *)
theory Sock
  imports Kqueue
begin

text \<open>
  Sockets (\<open>FFOS/socket.h\<close>): addresses, I/O vectors and the UNIX half.

  A \<open>ffsockaddr\<close> is its \<open>len\<close> and the 28 bytes of its union, in the layout of Linux and
  Windows: family (2 bytes), port (2), then the IPv4 address at 4 or the IPv6 address at 8.  The
  two members of the union share their first bytes as in the code.
\<close>

subsection \<open>Addresses\<close>

record ffsockaddr =
  sa_len :: u32
  sa_data :: bytes

definition u16_bytes :: "u16 \<Rightarrow> bytes" where
  "u16_bytes x = [ucast x, ucast (drop_bit 8 x)]"

definition u16_of :: "bytes \<Rightarrow> u16" where
  "u16_of b = (case b of l # h # _ \<Rightarrow> push_bit 8 (ucast h) OR ucast l | _ \<Rightarrow> 0)"

text \<open>Writing bytes into a structure.\<close>

definition patch :: "nat \<Rightarrow> bytes \<Rightarrow> bytes \<Rightarrow> bytes" where
  "patch off bs d = take off d @ bs @ drop (off + length bs) d"

definition AF_INET :: u16 where [flag_simps]: "AF_INET = 2"
definition AF_INET6 :: u16 where [flag_simps]: "AF_INET6 = 10"

text \<open>\<open>be\<close> is ffbase's \<open>ffint_be_cpu16\<close>.  The address argument is \<open>None\<close> for \<open>NULL\<close>.\<close>

definition ffsockaddr_set_ipv4 :: "(u16 \<Rightarrow> u16) \<Rightarrow> ffsockaddr \<Rightarrow> bytes option \<Rightarrow> u32 \<Rightarrow> ffsockaddr" where
  "ffsockaddr_set_ipv4 be a ipv4 port =
     \<lparr>sa_len = 16,
      sa_data = patch 4 (case ipv4 of Some ip \<Rightarrow> take 4 ip | None \<Rightarrow> [0, 0, 0, 0])
        (patch 2 (u16_bytes (be (ucast port))) (patch 0 (u16_bytes AF_INET) (sa_data a)))\<rparr>"

definition ffsockaddr_set_ipv6 :: "(u16 \<Rightarrow> u16) \<Rightarrow> ffsockaddr \<Rightarrow> bytes option \<Rightarrow> u32 \<Rightarrow> ffsockaddr" where
  "ffsockaddr_set_ipv6 be a ipv6 port =
     \<lparr>sa_len = 28,
      sa_data = patch 8 (case ipv6 of Some ip \<Rightarrow> take 16 ip | None \<Rightarrow> replicate 16 0)
        (patch 2 (u16_bytes (be (ucast port))) (patch 0 (u16_bytes AF_INET6) (sa_data a)))\<rparr>"

text \<open>The slice returned and \<open>*port\<close>, which is not written for another family.\<close>

definition ffsockaddr_ip_port :: "(u16 \<Rightarrow> u16) \<Rightarrow> ffsockaddr \<Rightarrow> u32 \<Rightarrow> bytes \<times> u32" where
  "ffsockaddr_ip_port be a port =
     (let family = u16_of (sa_data a) in
      if family = AF_INET
      then (take 4 (drop 4 (sa_data a)), ucast (be (u16_of (drop 2 (sa_data a)))))
      else if family = AF_INET6
      then (take 16 (drop 8 (sa_data a)), ucast (be (u16_of (drop 2 (sa_data a)))))
      else ([], port))"

text \<open>The bytes of the address that are passed to the system.\<close>

definition sa_bytes :: "ffsockaddr \<Rightarrow> bytes" where
  "sa_bytes a = take (unat (sa_len a)) (sa_data a)"

subsection \<open>Sockets\<close>

abbreviation (input) FFSOCK_NULL :: int where "FFSOCK_NULL \<equiv> -1"
abbreviation (input) SOL_SOCKET :: int where "SOL_SOCKET \<equiv> 1"
abbreviation (input) SO_REUSEADDR :: int where "SO_REUSEADDR \<equiv> 2"
abbreviation (input) SO_ERROR :: int where "SO_ERROR \<equiv> 4"
abbreviation (input) IPPROTO_TCP :: int where "IPPROTO_TCP \<equiv> 6"
abbreviation (input) IPPROTO_UDP :: int where "IPPROTO_UDP \<equiv> 17"
abbreviation (input) TCP_DEFER_ACCEPT :: int where "TCP_DEFER_ACCEPT \<equiv> 9"

definition SOCK_STREAM_T :: u32 where [flag_simps]: "SOCK_STREAM_T = 1"
definition SOCK_DGRAM_T :: u32 where [flag_simps]: "SOCK_DGRAM_T = 2"

definition FFSOCK_NONBLOCK :: "os \<Rightarrow> u32" where
  "FFSOCK_NONBLOCK os = (if os = Apple then 0x40000000 else 0x800)"

definition ffsock_init :: "'w kernel \<Rightarrow> u32 \<Rightarrow> ('w, int) prog" where
  "ffsock_init K flags = do {
     (if tst flags 1 then sysi K (Sock (Sigaction_ignore 13)) else State_Monad.return 0);
     State_Monad.return 0
   }"

definition ffsock_close :: "'w kernel \<Rightarrow> int \<Rightarrow> ('w, unit) prog" where
  "ffsock_close K sk =
     (if sk = FFSOCK_NULL then State_Monad.return ()
      else do { sysi K (FileC (Close sk)); State_Monad.return () })"

definition ffsock_nonblock :: "'w kernel \<Rightarrow> int \<Rightarrow> int \<Rightarrow> ('w, int) prog" where
  "ffsock_nonblock K sk nonblock = sysi K (FileC (Ioctl_fionbio sk nonblock))"

text \<open>Systems without a flag for it set the non-blocking mode after the socket exists.\<close>

definition set_nonblock_or_close :: "'w kernel \<Rightarrow> bool \<Rightarrow> int \<Rightarrow> ('w, int) prog" where
  "set_nonblock_or_close K want sk =
     (if want \<and> sk \<noteq> FFSOCK_NULL then do {
        r \<leftarrow> ffsock_nonblock K sk 1;
        if r \<noteq> 0 then do { ffsock_close K sk; State_Monad.return FFSOCK_NULL }
        else State_Monad.return sk
      }
      else State_Monad.return sk)"

definition ffsock_create :: "'w kernel \<Rightarrow> os \<Rightarrow> int \<Rightarrow> u32 \<Rightarrow> int \<Rightarrow> ('w, int) prog" where
  "ffsock_create K os domain type protocol =
     (if os = Apple then do {
        sk \<leftarrow> sysi K (Sock (Socket domain (type AND NOT (FFSOCK_NONBLOCK os)) protocol));
        set_nonblock_or_close K (tst type (FFSOCK_NONBLOCK os)) sk
      }
      else sysi K (Sock (Socket domain type protocol)))"

definition ffsock_create_tcp :: "'w kernel \<Rightarrow> os \<Rightarrow> int \<Rightarrow> u32 \<Rightarrow> ('w, int) prog" where
  "ffsock_create_tcp K os domain flags = ffsock_create K os domain (SOCK_STREAM_T OR flags) IPPROTO_TCP"

definition ffsock_create_udp :: "'w kernel \<Rightarrow> os \<Rightarrow> int \<Rightarrow> u32 \<Rightarrow> ('w, int) prog" where
  "ffsock_create_udp K os domain flags = ffsock_create K os domain (SOCK_DGRAM_T OR flags) IPPROTO_UDP"

definition ffsock_connect :: "'w kernel \<Rightarrow> int \<Rightarrow> ffsockaddr \<Rightarrow> ('w, int) prog" where
  "ffsock_connect K sk addr = do {
     r \<leftarrow> sysi K (Sock (Connect sk (sa_bytes addr)));
     State_Monad.return (if 0 \<noteq> r then -1 else 0)
   }"

text \<open>The second call: what the event queue reported about the connection.\<close>

definition connect_finish :: "'w kernel \<Rightarrow> os \<Rightarrow> int \<Rightarrow> ffkq_task \<Rightarrow> ('w, int) prog" where
  "connect_finish K os sk task =
     (if ff_linux os then
        if kev_flags task AND 0x008 \<noteq> 0 then do {
          x \<leftarrow> sys K (Sock (Getsockopt sk SOL_SOCKET SO_ERROR));
          if 0 \<noteq> rv x then State_Monad.return (-1)
          else if out_int x 0 \<noteq> 0 then do { fferr_set (out_int x 0); State_Monad.return (-1) }
          else State_Monad.return 0
        }
        else State_Monad.return 0
      else if kev_flags task AND 0x8000 \<noteq> 0 \<and> kev_errno task \<noteq> 0
      then do { fferr_set (uint (kev_errno task)); State_Monad.return (-1) }
      else State_Monad.return 0)"

definition ffsock_connect_async ::
  "'w kernel \<Rightarrow> os \<Rightarrow> int \<Rightarrow> ffsockaddr \<Rightarrow> ffkq_task \<Rightarrow> ('w, int \<times> ffkq_task) prog" where
  "ffsock_connect_async K os sk addr task =
     (if task_active task then do {
        r \<leftarrow> connect_finish K os sk task;
        State_Monad.return (r, task\<lparr>task_active := False\<rparr>)
      }
      else do {
        r \<leftarrow> sysi K (Sock (Connect sk (sa_bytes addr)));
        e \<leftarrow> fferr_last;
        State_Monad.return (if r = 0 then (0, task_zero)
                            else (-1, task_zero\<lparr>task_active := e = EINPROGRESS\<rparr>))
      })"

text \<open>What an accepting or receiving call wrote as the peer's address; the size starts as 28.\<close>

definition out_addr :: "ffsockaddr \<Rightarrow> reply \<Rightarrow> bytes \<times> nat" where
  "out_addr a r = (case rout r of OAddr d n \<Rightarrow> (d, n) | OMsg _ d n \<Rightarrow> (d, n) | _ \<Rightarrow> (sa_data a, 28))"

definition ffsock_accept ::
  "'w kernel \<Rightarrow> os \<Rightarrow> int \<Rightarrow> ffsockaddr \<Rightarrow> u32 \<Rightarrow> ('w, int \<times> ffsockaddr) prog" where
  "ffsock_accept K os listen_sk addr flags =
     (if os = Linux \<or> os = FreeBSD then do {
        x \<leftarrow> sys K (Sock (Accept4 listen_sk flags));
        State_Monad.return (rv x, \<lparr>sa_len = of_nat (snd (out_addr addr x)), sa_data = fst (out_addr addr x)\<rparr>)
      }
      else do {
        x \<leftarrow> sys K (Sock (Accept listen_sk));
        sk \<leftarrow> set_nonblock_or_close K (tst flags (FFSOCK_NONBLOCK os)) (rv x);
        State_Monad.return (sk,
          \<lparr>sa_len = (if sk = FFSOCK_NULL \<and> rv x \<noteq> FFSOCK_NULL then sa_len addr
                     else of_nat (snd (out_addr addr x))),
           sa_data = fst (out_addr addr x)\<rparr>)
      })"

definition ffsock_localaddr :: "'w kernel \<Rightarrow> int \<Rightarrow> ffsockaddr \<Rightarrow> ('w, int \<times> ffsockaddr) prog" where
  "ffsock_localaddr K sk addr = do {
     x \<leftarrow> sys K (Sock (Getsockname sk));
     let d = out_addr addr x;
     if 0 \<noteq> rv x \<or> snd d > 28 then State_Monad.return (-1, addr\<lparr>sa_data := fst d\<rparr>)
     else State_Monad.return (0, \<lparr>sa_len = of_nat (snd d), sa_data = fst d\<rparr>)
   }"

text \<open>The result: the socket, the peer's and the local address, the task.\<close>

definition ffsock_accept_async ::
  "'w kernel \<Rightarrow> os \<Rightarrow> int \<Rightarrow> ffsockaddr \<Rightarrow> u32 \<Rightarrow> ffsockaddr option \<Rightarrow> ffkq_task
    \<Rightarrow> ('w, (int \<times> ffsockaddr \<times> ffsockaddr option) \<times> ffkq_task) prog" where
  "ffsock_accept_async K os lsock peer flags local task = do {
     x \<leftarrow> ffsock_accept K os lsock peer (flags AND FFSOCK_NONBLOCK os);
     let task = task\<lparr>task_active := False\<rparr>;
     if fst x = -1 then do {
       e \<leftarrow> fferr_last;
       if e = EAGAIN then do {
         fferr_set EINPROGRESS;
         State_Monad.return ((-1, snd x, local), task\<lparr>task_active := True\<rparr>)
       }
       else State_Monad.return ((-1, snd x, local), task)
     }
     else case local of
       None \<Rightarrow> State_Monad.return ((fst x, snd x, None), task)
     | Some l \<Rightarrow> do {
         y \<leftarrow> ffsock_localaddr K (fst x) l;
         State_Monad.return ((fst x, snd x, Some (snd y)), task)
       }
   }"

definition ffsock_setopt :: "'w kernel \<Rightarrow> int \<Rightarrow> int \<Rightarrow> int \<Rightarrow> int \<Rightarrow> ('w, int) prog" where
  "ffsock_setopt K sk level name val = sysi K (Sock (Setsockopt sk level name val))"

definition ffsock_getopt :: "'w kernel \<Rightarrow> int \<Rightarrow> int \<Rightarrow> int \<Rightarrow> ('w, int \<times> int) prog" where
  "ffsock_getopt K sk level name = do {
     x \<leftarrow> sys K (Sock (Getsockopt sk level name));
     State_Monad.return (rv x, out_int x 0)
   }"

definition ffsock_deferaccept :: "'w kernel \<Rightarrow> os \<Rightarrow> int \<Rightarrow> int \<Rightarrow> ('w, int) prog" where
  "ffsock_deferaccept K os sk enable =
     (if ff_linux os then ffsock_setopt K sk IPPROTO_TCP TCP_DEFER_ACCEPT enable
      else if os = FreeBSD
      then sysi K (Sock (Setsockopt_filter sk (if enable \<noteq> 0 then Some ''dataready'' else None)))
      else do { fferr_set ENOSYS; State_Monad.return (-1) })"

definition ffsock_bind :: "'w kernel \<Rightarrow> int \<Rightarrow> ffsockaddr \<Rightarrow> ('w, int) prog" where
  "ffsock_bind K sk addr = do {
     ffsock_setopt K sk SOL_SOCKET SO_REUSEADDR 1;
     sysi K (Sock (Bind sk (sa_bytes addr)))
   }"

definition ffsock_listen :: "'w kernel \<Rightarrow> int \<Rightarrow> int \<Rightarrow> ('w, int) prog" where
  "ffsock_listen K listen_sk max_conn = sysi K (Sock (Listen listen_sk max_conn))"

subsection \<open>Transfers\<close>

definition ffsock_recv :: "'w kernel \<Rightarrow> int \<Rightarrow> nat \<Rightarrow> int \<Rightarrow> ('w, int \<times> bytes) prog" where
  "ffsock_recv K sk cap flags = do {
     x \<leftarrow> sys K (Sock (Recv sk cap flags));
     State_Monad.return (rv x, out_bytes x)
   }"

definition ffsock_recvfrom ::
  "'w kernel \<Rightarrow> int \<Rightarrow> nat \<Rightarrow> int \<Rightarrow> ffsockaddr \<Rightarrow> ('w, int \<times> bytes \<times> ffsockaddr) prog" where
  "ffsock_recvfrom K sk cap flags peer_addr = do {
     x \<leftarrow> sys K (Sock (Recvfrom sk cap flags));
     let d = out_addr peer_addr x;
     State_Monad.return (rv x, out_bytes x,
       \<lparr>sa_len = (if rv x < 0 then sa_len peer_addr else of_nat (snd d)), sa_data = fst d\<rparr>)
   }"

text \<open>
  The tail of the asynchronous transfers: \<open>EAGAIN\<close> becomes \<open>EINPROGRESS\<close> and activates the
  task.
\<close>

definition async_result :: "int \<Rightarrow> ffkq_task \<Rightarrow> ('w, ffkq_task) prog" where
  "async_result r task = do {
     e \<leftarrow> fferr_last;
     if r < 0 \<and> e = EAGAIN
     then do { fferr_set EINPROGRESS; State_Monad.return (task\<lparr>task_active := True\<rparr>) }
     else State_Monad.return (task\<lparr>task_active := False\<rparr>)
   }"

definition ffsock_recv_async ::
  "'w kernel \<Rightarrow> int \<Rightarrow> nat \<Rightarrow> ffkq_task \<Rightarrow> ('w, (int \<times> bytes) \<times> ffkq_task) prog" where
  "ffsock_recv_async K sk cap task = do {
     x \<leftarrow> sys K (Sock (Recv sk cap 0));
     t \<leftarrow> async_result (rv x) task;
     State_Monad.return ((rv x, out_bytes x), t)
   }"

definition ffsock_recv_udp_async ::
  "'w kernel \<Rightarrow> int \<Rightarrow> nat \<Rightarrow> ffkq_task \<Rightarrow> ('w, (int \<times> bytes) \<times> ffkq_task) prog" where
  "ffsock_recv_udp_async K sk cap task = ffsock_recv_async K sk cap task"

definition ffsock_recvfrom_async ::
  "'w kernel \<Rightarrow> int \<Rightarrow> nat \<Rightarrow> ffsockaddr \<Rightarrow> ffkq_task
    \<Rightarrow> ('w, (int \<times> bytes \<times> ffsockaddr) \<times> ffkq_task) prog" where
  "ffsock_recvfrom_async K sk cap peer_addr task = do {
     x \<leftarrow> sys K (Sock (Recvfrom sk cap 0));
     t \<leftarrow> async_result (rv x) task;
     let d = out_addr peer_addr x;
     State_Monad.return ((rv x, out_bytes x,
       \<lparr>sa_len = (if rv x < 0 then sa_len peer_addr else of_nat (snd d)), sa_data = fst d\<rparr>), t)
   }"

definition ffsock_send :: "'w kernel \<Rightarrow> int \<Rightarrow> bytes \<Rightarrow> int \<Rightarrow> ('w, int) prog" where
  "ffsock_send K sk buf flags = sysi K (Sock (Send sk buf flags))"

definition ffsock_sendv :: "'w kernel \<Rightarrow> int \<Rightarrow> bytes list \<Rightarrow> ('w, int) prog" where
  "ffsock_sendv K sk iov = sysi K (Sock (Writev sk iov))"

definition ffsock_sendto :: "'w kernel \<Rightarrow> int \<Rightarrow> bytes \<Rightarrow> int \<Rightarrow> ffsockaddr \<Rightarrow> ('w, int) prog" where
  "ffsock_sendto K sk buf flags peer_addr = sysi K (Sock (Sendto sk buf flags (sa_bytes peer_addr)))"

definition ffsock_send_async :: "'w kernel \<Rightarrow> int \<Rightarrow> bytes \<Rightarrow> ffkq_task \<Rightarrow> ('w, int \<times> ffkq_task) prog" where
  "ffsock_send_async K sk buf task = do {
     r \<leftarrow> sysi K (Sock (Send sk buf 0));
     t \<leftarrow> async_result r task;
     State_Monad.return (r, t)
   }"

definition ffsock_sendv_async :: "'w kernel \<Rightarrow> int \<Rightarrow> bytes list \<Rightarrow> ffkq_task \<Rightarrow> ('w, int \<times> ffkq_task) prog" where
  "ffsock_sendv_async K sk iov task = do {
     r \<leftarrow> sysi K (Sock (Writev sk iov));
     t \<leftarrow> async_result r task;
     State_Monad.return (r, t)
   }"

definition ffsock_fin :: "'w kernel \<Rightarrow> int \<Rightarrow> ('w, int) prog" where
  "ffsock_fin K sk = sysi K (Sock (Shutdown sk 1))"

subsection \<open>I/O vectors\<close>

text \<open>An \<open>ffiovec\<close> is the slice of bytes it points to.  \<open>lim\<close> is the largest length it can
  hold: unlimited on UNIX, \<open>0xffffffff\<close> on Windows.\<close>

definition ffiovec_set :: "bytes \<Rightarrow> bytes" where
  "ffiovec_set data = data"

definition ffiovec_set_win :: "ffbase \<Rightarrow> bytes \<Rightarrow> bytes" where
  "ffiovec_set_win B data = take (ffmin B (length data) 0xffffffff) data"

definition ffiovec_get :: "bytes \<Rightarrow> bytes" where
  "ffiovec_get iov = iov"

definition ffiovec_shift :: "ffbase \<Rightarrow> bytes \<Rightarrow> nat \<Rightarrow> nat \<times> bytes" where
  "ffiovec_shift B iov n = (let n = ffmin B n (length iov) in (n, drop n iov))"

fun ffiovec_array_shift :: "ffbase \<Rightarrow> bytes list \<Rightarrow> nat \<Rightarrow> int \<times> bytes list" where
  "ffiovec_array_shift B [] skip = (0, [])"
| "ffiovec_array_shift B (v # vs) skip =
     (let x = ffiovec_shift B v skip in
      if length (snd x) \<noteq> 0 then (1, snd x # vs)
      else let y = ffiovec_array_shift B vs (skip - fst x) in (fst y, snd x # snd y))"

subsection \<open>Name resolution\<close>

text \<open>\<open>getaddrinfo\<close> gives its own error code, which becomes \<open>errno\<close>; \<open>hints.ai_socktype\<close> is
  \<open>SOCK_DGRAM\<close>.\<close>

definition ffaddrinfo_resolve :: "'w kernel \<Rightarrow> string \<Rightarrow> int \<Rightarrow> ('w, int) prog" where
  "ffaddrinfo_resolve K name flags = do {
     x \<leftarrow> sys K (Sock (Getaddrinfo name flags 2));
     if rv x \<noteq> 0 then do { fferr_set (rv x); State_Monad.return 0 }
     else State_Monad.return (out_int x 0)
   }"

definition ffaddrinfo_free :: "'w kernel \<Rightarrow> int \<Rightarrow> ('w, unit) prog" where
  "ffaddrinfo_free K a = do { sysi K (Sock (Freeaddrinfo a)); State_Monad.return () }"

definition ffaddrinfo_error :: "'w kernel \<Rightarrow> u32 \<Rightarrow> ('w, string) prog" where
  "ffaddrinfo_error K e = do { x \<leftarrow> sys K (Lib (Gai_strerror (sint e))); State_Monad.return (out_text x) }"

subsection \<open>Properties: addresses and vectors\<close>

lemma u16_bytes_of: "u16_of (u16_bytes x @ r) = x"
  by (simp add: u16_of_def u16_bytes_def) (rule bit_word_eqI, auto simp: bit_simps)

lemma length_u16_bytes [simp]: "length (u16_bytes x) = 2"
  by (simp add: u16_bytes_def)

lemma take_drop_patch:
  assumes "length d = 28" "off + length bs \<le> 28"
  shows "length (patch off bs d) = 28" "take (length bs) (drop off (patch off bs d)) = bs"
  using assms by (simp_all add: patch_def)

lemma u16_of_take: "2 \<le> length b \<Longrightarrow> u16_of (take 2 b) = u16_of b"
  by (cases b; cases "tl b") (auto simp: u16_of_def numeral_2_eq_2)

lemma u16_of_patch:
  assumes "length d = 28"
  shows "u16_of (patch 0 (u16_bytes x) d) = x" "u16_of (drop 2 (patch 2 (u16_bytes x) d)) = x"
    "2 \<le> off \<Longrightarrow> u16_of (patch off bs d) = u16_of d"
    "4 \<le> off \<Longrightarrow> off \<le> 28 \<Longrightarrow> u16_of (drop 2 (patch off bs d)) = u16_of (drop 2 d)"
proof -
  show "u16_of (patch 0 (u16_bytes x) d) = x" by (simp add: patch_def u16_bytes_of)
  show "u16_of (drop 2 (patch 2 (u16_bytes x) d)) = x" using assms by (simp add: patch_def u16_bytes_of)
  show "u16_of (patch off bs d) = u16_of d" if "2 \<le> off"
    using u16_of_take [of "patch off bs d"] u16_of_take [of d] that assms
    by (simp add: patch_def min_def)
  show "u16_of (drop 2 (patch off bs d)) = u16_of (drop 2 d)" if "4 \<le> off" "off \<le> 28"
    using u16_of_take [of "drop 2 (patch off bs d)"] u16_of_take [of "drop 2 d"] that assms
    by (simp add: patch_def min_def take_drop)
qed

text \<open>
  Claim C22.  An address written by \<open>ffsockaddr_set_ipv4\<close> or \<open>ffsockaddr_set_ipv6\<close> is read
  back by \<open>ffsockaddr_ip_port\<close> with the same IP bytes and the low 16 bits of the port, whatever
  the structure held before, and its length is that of the system's structure.
\<close>

theorem sockaddr_roundtrip:
  assumes "\<forall>x. be (be x) = x" "length (sa_data a) = 28" "length ip4 = 4" "length ip6 = 16"
  shows "ffsockaddr_ip_port be (ffsockaddr_set_ipv4 be a (Some ip4) port) p = (ip4, ucast (ucast port :: u16)) \<and>
    ffsockaddr_ip_port be (ffsockaddr_set_ipv6 be a (Some ip6) port) p = (ip6, ucast (ucast port :: u16)) \<and>
    ffsockaddr_ip_port be (ffsockaddr_set_ipv4 be a None port) p = ([0, 0, 0, 0], ucast (ucast port :: u16)) \<and>
    length (sa_bytes (ffsockaddr_set_ipv4 be a (Some ip4) port)) = 16 \<and>
    length (sa_bytes (ffsockaddr_set_ipv6 be a (Some ip6) port)) = 28"
proof -
  have l: "length (patch 2 (u16_bytes x) (patch 0 (u16_bytes y) (sa_data a))) = 28" for x y
    using assms(2) by (simp add: patch_def)
  have l0: "length (patch 0 (u16_bytes y) (sa_data a)) = 28" for y using assms(2) by (simp add: patch_def)
  note s = u16_of_patch [OF assms(2)] u16_of_patch [OF l0] u16_of_patch [OF l]
  have t4: "take 4 (drop 4 (patch 4 bs d)) = bs" "length (patch 4 bs d) = 28"
    if "length bs = 4" "length d = 28" for bs d
    using take_drop_patch [of d 4 bs] that by simp_all
  have t6: "take 16 (drop 8 (patch 8 bs d)) = bs" "length (patch 8 bs d) = 28"
    if "length bs = 16" "length d = 28" for bs d
    using take_drop_patch [of d 8 bs] that by simp_all
  show ?thesis
    using assms by (simp add: ffsockaddr_ip_port_def ffsockaddr_set_ipv4_def ffsockaddr_set_ipv6_def
        sa_bytes_def Let_def s t4 t6 l AF_INET_def AF_INET6_def)
qed

theorem sockaddr_roundtrip_witness:
  "ffsockaddr_ip_port (\<lambda>x. x) (ffsockaddr_set_ipv4 (\<lambda>x. x) \<lparr>sa_len = 0, sa_data = replicate 28 7\<rparr>
     (Some [127, 0, 0, 1]) 8080) 0 = ([127, 0, 0, 1], 8080)"
proof -
  have l: "length (sa_data \<lparr>sa_len = 0, sa_data = replicate 28 (7 :: u8)\<rparr>) = 28"
    "length [127, 0, 0, 1 :: u8] = 4" "length (replicate 16 (0 :: u8)) = 16" by simp_all
  show ?thesis using sockaddr_roundtrip [OF _ l, of "\<lambda>x. x" 8080 0] by simp
qed

text \<open>
  Claim C21.  \<open>ffiovec_array_shift\<close> removes exactly the first \<open>skip\<close> bytes of the data an
  array of vectors describes (or all of it), keeps the number of vectors, and returns \<open>1\<close> exactly
  if something is left; vectors before the first byte left are empty.
\<close>

theorem iovec_array_shift_drops:
  assumes "ffbase_ok B"
  shows "concat (snd (ffiovec_array_shift B iov skip)) = drop skip (concat iov) \<and>
    length (snd (ffiovec_array_shift B iov skip)) = length iov \<and>
    (fst (ffiovec_array_shift B iov skip) = 1 \<longleftrightarrow> skip < length (concat iov)) \<and>
    fst (ffiovec_array_shift B iov skip) \<in> {0, 1}"
proof (induction iov arbitrary: skip)
  case (Cons v vs)
  have m: "ffmin B a b = min a b" for a b by (rule ffbase_okD(7) [OF assms])
  show ?case
  proof (cases "skip < length v")
    case True
    then show ?thesis by (simp add: Let_def ffiovec_shift_def m)
  next
    case False
    then show ?thesis using Cons.IH [of "skip - length v"] by (auto simp: Let_def ffiovec_shift_def m)
  qed
qed simp

theorem iovec_array_shift_witness:
  "ffiovec_array_shift ffbase_ref [[1, 2], [], [3, 4, 5]] 3 = (1, [[], [], [4, 5]])"
proof -
  have "concat (snd (ffiovec_array_shift ffbase_ref [[1, 2], [], [3, 4, 5]] 3)) = [4, 5]"
    using iovec_array_shift_drops [OF ffbase_ref_ok, of "[[1, 2], [], [3, 4, 5]]" 3] by simp
  then show ?thesis by (simp add: ffbase_ref_def ffiovec_shift_def Let_def)
qed

subsection \<open>Properties: asynchronous operations and resources\<close>

text \<open>Every asynchronous operation of UNIX keeps the contract of \<open>async_op\<close>.\<close>

lemma wp_async_result:
  "wp (async_result r task) (\<lambda>t s. task_active t \<longrightarrow> r < 0 \<and> lasterr s = EINPROGRESS) st"
  unfolding async_result_def by (intro wp_intros) auto

interpretation recv_async: async_op "\<lambda>K t. ffsock_recv_async K sk cap t" fst task_active EINPROGRESS
  "\<lambda>K. True" for sk cap
  by unfold_locales (unfold ffsock_recv_async_def, intro wp_intros wp_mono [OF wp_async_result], simp)

interpretation recvfrom_async: async_op "\<lambda>K t. ffsock_recvfrom_async K sk cap peer t" fst task_active
  EINPROGRESS "\<lambda>K. True" for sk cap peer
  by unfold_locales (unfold ffsock_recvfrom_async_def Let_def, intro wp_intros wp_mono [OF wp_async_result], simp)

interpretation send_async: async_op "\<lambda>K t. ffsock_send_async K sk buf t" "\<lambda>r. r" task_active EINPROGRESS
  "\<lambda>K. True" for sk buf
  by unfold_locales (unfold ffsock_send_async_def, intro wp_intros wp_mono [OF wp_async_result], simp)

interpretation sendv_async: async_op "\<lambda>K t. ffsock_sendv_async K sk iov t" "\<lambda>r. r" task_active EINPROGRESS
  "\<lambda>K. True" for sk iov
  by unfold_locales (unfold ffsock_sendv_async_def, intro wp_intros wp_mono [OF wp_async_result], simp)

interpretation accept_async: async_op "\<lambda>K t. ffsock_accept_async K os lsock peer flags local t" fst
  task_active EINPROGRESS "\<lambda>K. True" for os lsock peer flags local
  by unfold_locales
    (unfold ffsock_accept_async_def Let_def, intro wp_intros wp_mono [OF wp_any], simp_all)

interpretation connect_async: async_op "\<lambda>K t. ffsock_connect_async K os sk addr t" "\<lambda>r. r" task_active
  EINPROGRESS "\<lambda>K. True" for os sk addr
  by unfold_locales
    (unfold ffsock_connect_async_def, intro wp_intros wp_mono [OF wp_any], simp_all add: task_zero_def)

text \<open>The system would have had to wait: the call failed with \<open>EAGAIN\<close>.\<close>

definition would_block :: "'w kernel \<Rightarrow> sock_call \<Rightarrow> 'w sys \<Rightarrow> bool" where
  "would_block K c s \<longleftrightarrow> (let r = fst (K (Sock c) (world s)) in rv r < 0 \<and> err_after r (lasterr s) = EAGAIN)"

lemma transfers_wait:
  "wp (ffsock_recv_async K sk cap t) (\<lambda>r s. task_active (snd r) \<longleftrightarrow> would_block K (Recv sk cap 0) s1) s1"
  "wp (ffsock_recvfrom_async K sk cap peer t) (\<lambda>r s. task_active (snd r) \<longleftrightarrow> would_block K (Recvfrom sk cap 0) s1) s1"
  "wp (ffsock_send_async K sk buf t) (\<lambda>r s. task_active (snd r) \<longleftrightarrow> would_block K (Send sk buf 0) s1) s1"
  "wp (ffsock_sendv_async K sk iov t) (\<lambda>r s. task_active (snd r) \<longleftrightarrow> would_block K (Writev sk iov) s1) s1"
  unfolding ffsock_recv_async_def ffsock_recvfrom_async_def ffsock_send_async_def ffsock_sendv_async_def async_result_def would_block_def
  by (intro wp_intros; auto simp: Let_def)+

text \<open>
  Claim C26.  On UNIX the task of receiving and sending is active after the call exactly if the system
  would have had to wait.  An asynchronous socket operation that leaves its task active has failed
  with \<open>FFSOCK_EINPROGRESS\<close>: accepting, connecting, receiving and sending, however often the call
  is repeated.  A call that finishes leaves the task idle.
\<close>

theorem sock_async_contract:
  "wp (ffsock_recv_async K sk cap t) (\<lambda>r s. (task_active (snd r) \<longleftrightarrow> would_block K (Recv sk cap 0) s1) \<and>
      (task_active (snd r) \<longrightarrow> fst (fst r) < 0 \<and> lasterr s = EINPROGRESS)) s1 \<and>
   wp (ffsock_recvfrom_async K sk cap peer t) (\<lambda>r s. (task_active (snd r) \<longleftrightarrow> would_block K (Recvfrom sk cap 0) s1) \<and>
      (task_active (snd r) \<longrightarrow> fst (fst r) < 0 \<and> lasterr s = EINPROGRESS)) s1 \<and>
   wp (ffsock_send_async K sk buf t) (\<lambda>r s. (task_active (snd r) \<longleftrightarrow> would_block K (Send sk buf 0) s1) \<and>
      (task_active (snd r) \<longrightarrow> fst r < 0 \<and> lasterr s = EINPROGRESS)) s1 \<and>
   wp (ffsock_sendv_async K sk iov t) (\<lambda>r s. (task_active (snd r) \<longleftrightarrow> would_block K (Writev sk iov) s1) \<and>
      (task_active (snd r) \<longrightarrow> fst r < 0 \<and> lasterr s = EINPROGRESS)) s1 \<and>
   wp (ffsock_accept_async K os lsock peer flags local t)
     (\<lambda>r s. task_active (snd r) \<longrightarrow> fst (fst r) < 0 \<and> lasterr s = EINPROGRESS) s1 \<and>
   wp (ffsock_connect_async K os sk addr t) (\<lambda>r s. task_active (snd r) \<longrightarrow> fst r < 0 \<and> lasterr s = EINPROGRESS) s1"
  by (intro conjI wp_conj transfers_wait recv_async.pending recvfrom_async.pending send_async.pending sendv_async.pending
      accept_async.pending connect_async.pending TrueI)

theorem sock_async_contract_witness:
  "fst (run_state (ffsock_recv_async (\<lambda>c w. (\<lparr>rv = -1, rerr = Some EAGAIN, rout = NoOut\<rparr>, w)) 3 10 task_zero)
     (start () 0)) = ((-1, []), task_zero\<lparr>task_active := True\<rparr>)"
proof -
  let ?K = "\<lambda>c w. (\<lparr>rv = -1, rerr = Some EAGAIN, rout = NoOut\<rparr>, w)"
  have "wp (ffsock_recv_async ?K 3 10 task_zero)
      (\<lambda>r s. (task_active (snd r) \<longleftrightarrow> would_block ?K (Recv 3 10 0) (start () 0)) \<and>
        (task_active (snd r) \<longrightarrow> fst (fst r) < 0 \<and> lasterr s = EINPROGRESS)) (start () 0)"
    using sock_async_contract by blast
  then show ?thesis by (simp add: ffsock_recv_async_def async_result_def run_simps wp_def)
qed

lemma wp_set_nonblock:
  assumes "fds_after (trace s) = Some (if sk = -1 then {#} else {#sk#})"
    and "\<And>r s'. fds_after (trace s') = Some (if r = -1 then {#} else {#r#}) \<Longrightarrow> Q r s'"
  shows "wp (set_nonblock_or_close K want sk) Q s"
  unfolding set_nonblock_or_close_def ffsock_nonblock_def ffsock_close_def using assms(1)
  by (intro wp_intros assms(2)) (auto simp: fd_step_def closed_def)

text \<open>
  Creating and accepting a socket leaves open exactly the socket returned, on every
  system: where the non-blocking mode needs a second call and that call fails, the socket is
  closed and \<open>FFSOCK_NULL\<close> returned.
\<close>

theorem sock_create_accept_no_leak:
  "wp (ffsock_create K os domain type protocol)
     (\<lambda>sk s. fds_after (trace s) = Some (if sk = -1 then {#} else {#sk#})) (start w e) \<and>
   wp (ffsock_accept K os lsk addr flags)
     (\<lambda>r s. fds_after (trace s) = Some (if fst r = -1 then {#} else {#fst r#})) (start w e)"
  unfolding ffsock_create_def ffsock_accept_def
  by (intro conjI wp_intros wp_set_nonblock) (simp_all add: fd_step_def closed_def)

end
