(* ===== verification/Errstr.thy ===== *)
theory Errstr
  imports Wstring
begin

text \<open>
  Messages of error codes (\<open>FFOS/error.h\<close>).  The caller's buffer is the list of its \<open>cap\<close>
  characters.  \<open>copyz\<close> is ffbase's bounded copy of a string (\<open>ffsz_copyz\<close>): the number it
  returns and the characters it wrote; \<open>wtou\<close> is its conversion to UTF-8 (\<open>ffs_wtou\<close>) with the
  capacity of the destination, \<open>None\<close> for \<open>NULL\<close>.
\<close>

type_synonym copyz = "nat \<Rightarrow> string \<Rightarrow> nat \<times> string"
type_synonym wtou = "nat option \<Rightarrow> wstr \<Rightarrow> int \<times> string"

definition err_put :: "string \<Rightarrow> string \<Rightarrow> string" where
  "err_put w buf = w @ drop (length w) buf"

text \<open>The trailing ". " is cut; \<open>n\<close> is the length that \<open>FormatMessageW\<close> returned.\<close>

definition cut_dot :: "wstr \<Rightarrow> wstr" where
  "cut_dot ws =
     (let n = length ws in
      if n > 2 \<and> ws ! (n - 2) = 46 \<and> ws ! (n - 1) = 32 then take (n - 2) ws else ws)"

definition fferr_str_win :: "'w kernel \<Rightarrow> wtou \<Rightarrow> copyz \<Rightarrow> int \<Rightarrow> string \<Rightarrow> ('w, int \<times> string) prog" where
  "fferr_str_win K wtou copyz code buffer =
     (let cap = length buffer in
      if cap = 0 then State_Monad.return (-1, buffer)
      else do {
        x \<leftarrow> sys K (Lib (FormatMessageW code 256));
        if rv x = 0 then State_Monad.return (0, err_put (snd (copyz cap ''unknown error'')) buffer)
        else do {
          let ws = cut_dot (take (nat (rv x)) (out_wide x)) @ [0];
          let r = wtou (Some cap) ws;
          let buffer = err_put (snd r) buffer;
          if fst r \<le> 0 then
            State_Monad.return (-1,
              if unat (of_int (fst (wtou None ws)) :: u32) > cap then buffer[cap - 1 := CHR 0x00] else buffer)
          else State_Monad.return (0, buffer)
        }
      })"

definition fferr_strptr_win :: "'w kernel \<Rightarrow> wtou \<Rightarrow> copyz \<Rightarrow> int \<Rightarrow> string \<Rightarrow> ('w, string) prog" where
  "fferr_strptr_win K wtou copyz code fferr_buffer = do {
     r \<leftarrow> fferr_str_win K wtou copyz code fferr_buffer;
     State_Monad.return (snd r)
   }"




definition fferr_strptr :: "'w kernel \<Rightarrow> int \<Rightarrow> ('w, string) prog" where
  "fferr_strptr K code = do { x \<leftarrow> sys K (Lib (Strerror code)); State_Monad.return (out_text x) }"

subsection \<open>Properties\<close>


definition wtou_ok :: "(wstr \<Rightarrow> string) \<Rightarrow> wtou \<Rightarrow> bool" where
  "wtou_ok f wtou \<longleftrightarrow> (\<forall>ws. length (f ws) \<le> 3 * length ws \<and> f (ws @ [0]) = f ws @ [CHR 0x00]) \<and>
     (\<forall>ws. wtou None ws = (int (length (f ws)), [])) \<and>
     (\<forall>cap ws. length (f ws) \<le> cap \<longrightarrow> wtou (Some cap) ws = (int (length (f ws)), f ws)) \<and>
     (\<forall>cap ws. cap < length (f ws) \<longrightarrow> fst (wtou (Some cap) ws) < 0 \<and> length (snd (wtou (Some cap) ws)) \<le> cap)"















text \<open>A message that fits is given whole, without the trailing ". ".\<close>

lemma fferr_str_win_text:
  assumes "wtou_ok f wtou" "rv (fst (K (Lib (FormatMessageW code 256)) w)) = int (length m + 2)"
    "out_wide (fst (K (Lib (FormatMessageW code 256)) w)) = m @ [46, 32]" "m \<noteq> []" "length (f m) < length buffer"
  shows "fst (run_state (fferr_str_win K wtou copyz code buffer) (start w e)) = (0, err_put (f m @ [CHR 0x00]) buffer)"
proof -
  have "cut_dot (m @ [46, 32]) = m" using assms(4) by (simp add: cut_dot_def nth_append Let_def)
  moreover have "wtou (Some (length buffer)) (m @ [0]) = (int (length (f m)) + 1, f m @ [CHR 0x00])"
    using assms(1,5) unfolding wtou_ok_def by simp
  ultimately show ?thesis
    using assms by (auto simp: fferr_str_win_def run_simps Let_def)
qed

end
