(* ===== verification/Sock_Win.thy ===== *)
theory Sock_Win
  imports Sock Errstr
begin

text \<open>
  Sockets on Windows (\<open>FFOS/socket.h\<close>, the \<open>FF_WIN\<close> half): an operation that cannot complete
  at once is started with an \<open>OVERLAPPED\<close> object, whose completion the event queue reports.
\<close>

abbreviation (input) INVALID_SOCKET :: int where "INVALID_SOCKET \<equiv> -1"

definition FFSOCK_NONBLOCK_WIN :: u32 where [flag_simps]: "FFSOCK_NONBLOCK_WIN = 0x0100"

text \<open>A count of bytes as the \<open>int\<close> argument of the Winsock functions.\<close>

definition c_int :: "nat \<Rightarrow> int" where
  "c_int n = sint (of_nat n :: u32)"

definition ffsock_close_win :: "'w kernel \<Rightarrow> int \<Rightarrow> ('w, unit) prog" where
  "ffsock_close_win K sk =
     (if sk = INVALID_SOCKET then State_Monad.return ()
      else do { sysi K (WinSock (Closesocket sk)); State_Monad.return () })"

definition ffsock_nonblock_win :: "'w kernel \<Rightarrow> int \<Rightarrow> int \<Rightarrow> ('w, int) prog" where
  "ffsock_nonblock_win K sk nonblock = sysi K (WinSock (Ioctlsocket sk nonblock))"

definition ffsock_setopt_win :: "'w kernel \<Rightarrow> int \<Rightarrow> int \<Rightarrow> int \<Rightarrow> int \<Rightarrow> ('w, int) prog" where
  "ffsock_setopt_win K sk level name val = sysi K (WinSock (WSetsockopt sk level name val))"

definition ffsock_getopt_win :: "'w kernel \<Rightarrow> int \<Rightarrow> int \<Rightarrow> int \<Rightarrow> ('w, int \<times> int) prog" where
  "ffsock_getopt_win K sk level name = do {
     x \<leftarrow> sys K (WinSock (WGetsockopt sk level name));
     State_Monad.return (rv x, out_int x 0)
   }"

definition ffsock_deferaccept_win :: "int \<Rightarrow> int \<Rightarrow> ('w, int) prog" where
  "ffsock_deferaccept_win sk enable = do { fferr_set ERROR_NOT_SUPPORTED; State_Monad.return (-1) }"

definition win_nonblock_or_close :: "'w kernel \<Rightarrow> bool \<Rightarrow> int \<Rightarrow> ('w, int) prog" where
  "win_nonblock_or_close K want sk =
     (if want \<and> sk \<noteq> INVALID_SOCKET then do {
        r \<leftarrow> ffsock_nonblock_win K sk 1;
        if r \<noteq> 0 then do { ffsock_close_win K sk; State_Monad.return INVALID_SOCKET }
        else State_Monad.return sk
      }
      else State_Monad.return sk)"

definition ffsock_create_win :: "'w kernel \<Rightarrow> int \<Rightarrow> u32 \<Rightarrow> int \<Rightarrow> ('w, int) prog" where
  "ffsock_create_win K domain type protocol = do {
     sk \<leftarrow> sysi K (WinSock (WSocket domain (type AND NOT FFSOCK_NONBLOCK_WIN) protocol));
     win_nonblock_or_close K (tst type FFSOCK_NONBLOCK_WIN) sk
   }"

definition ffsock_connect_win :: "'w kernel \<Rightarrow> int \<Rightarrow> ffsockaddr \<Rightarrow> ('w, int) prog" where
  "ffsock_connect_win K sk addr = do {
     r \<leftarrow> sysi K (WinSock (WConnect sk (sa_bytes addr)));
     State_Monad.return (if 0 \<noteq> r then -1 else 0)
   }"

text \<open>
  The end of every function that starts an overlapped operation: \<open>started\<close> is its result.  A
  call that completed at once is reported as pending too, since the queue will signal it.
\<close>

definition overlapped_start :: "bool \<Rightarrow> ('w, bool) prog" where
  "overlapped_start started =
     (if started then do { fferr_set ERROR_IO_PENDING; State_Monad.return True }
      else do { e \<leftarrow> fferr_last; State_Monad.return (e = ERROR_IO_PENDING) })"

definition ffsock_connect_async_win ::
  "'w kernel \<Rightarrow> int \<Rightarrow> ffsockaddr \<Rightarrow> ffkq_task_win \<Rightarrow> ('w, int \<times> ffkq_task_win) prog" where
  "ffsock_connect_async_win K sk addr task =
     (if wtask_active task then do {
        x \<leftarrow> overlapped_result K task;
        State_Monad.return (if fst (fst x) then 0 else -1, snd x)
      }
      else do {
        b \<leftarrow> sysi K (WinSock (WBind sk (take (unat (sa_len addr)) (take 2 (sa_data addr) @ replicate 26 0))));
        if 0 \<noteq> b then State_Monad.return (-1, task)
        else do {
          let task = task_zero_win;
          ok \<leftarrow> sysi K (WinSock (ConnectEx sk (sa_bytes addr)));
          p \<leftarrow> overlapped_start (ok \<noteq> 0);
          State_Monad.return (-1, task\<lparr>wtask_active := p\<rparr>)
        }
      })"

definition ffsock_accept_win ::
  "'w kernel \<Rightarrow> int \<Rightarrow> ffsockaddr \<Rightarrow> u32 \<Rightarrow> ('w, int \<times> ffsockaddr) prog" where
  "ffsock_accept_win K listen_sk peer flags = do {
     x \<leftarrow> sys K (WinSock (WAccept listen_sk));
     sk \<leftarrow> win_nonblock_or_close K (tst flags FFSOCK_NONBLOCK_WIN) (rv x);
     State_Monad.return (sk,
       \<lparr>sa_len = (if sk = INVALID_SOCKET \<and> rv x \<noteq> INVALID_SOCKET then sa_len peer
                  else of_nat (snd (out_addr peer x))),
        sa_data = fst (out_addr peer x)\<rparr>)
   }"

record ffkq_task_accept_win =
  at_active :: bool
  at_addrs :: bytes
  at_csock :: int

text \<open>
  The addresses that \<open>GetAcceptExSockaddrs\<close> finds in the task's buffer: local and peer, each
  with its length.
\<close>

definition out_addr_pair :: "reply \<Rightarrow> bytes \<times> bytes" where
  "out_addr_pair r = (case rout r of OMsg l p _ \<Rightarrow> (l, p) | _ \<Rightarrow> ([], []))"

definition accept_async_addrs :: "int \<Rightarrow> ffsockaddr \<Rightarrow> ffsockaddr option \<Rightarrow> reply \<Rightarrow> ffsockaddr \<times> ffsockaddr option" where
  "accept_async_addrs domain peer local x =
     (let lp = out_addr_pair x in
      if domain = uint (u16_of (snd lp))
      then (\<lparr>sa_len = of_nat (length (snd lp)), sa_data = patch 0 (snd lp) (sa_data peer)\<rparr>,
            map_option (\<lambda>l. \<lparr>sa_len = of_nat (length (fst lp)), sa_data = patch 0 (fst lp) (sa_data l)\<rparr>) local)
      else (peer\<lparr>sa_len := 0\<rparr>, local))"

text \<open>The second call: the accepted connection.\<close>

definition accept_async_finish ::
  "'w kernel \<Rightarrow> ffsockaddr \<Rightarrow> int \<Rightarrow> ffsockaddr option \<Rightarrow> ffkq_task_accept_win
    \<Rightarrow> ('w, (int \<times> ffsockaddr \<times> ffsockaddr option) \<times> ffkq_task_accept_win) prog" where
  "accept_async_finish K peer domain local task = do {
     x \<leftarrow> sys K (WinIo (GetOverlappedResult 0));
     if rv x = 0 then do {
       e \<leftarrow> fferr_last;
       if e = ERROR_IO_INCOMPLETE
       then do { fferr_set ERROR_IO_PENDING; State_Monad.return ((INVALID_SOCKET, peer, local), task) }
       else State_Monad.return ((INVALID_SOCKET, peer, local), task\<lparr>at_active := False\<rparr>)
     }
     else do {
       y \<leftarrow> sys K (WinSock (GetAcceptExSockaddrs (at_addrs task)));
       let pl = accept_async_addrs domain peer local y;
       State_Monad.return ((at_csock task, pl), task\<lparr>at_active := False\<rparr>)
     }
   }"

text \<open>The first call, when no connection is waiting: a socket is made for the next one.\<close>

definition accept_async_begin ::
  "'w kernel \<Rightarrow> int \<Rightarrow> ffsockaddr \<Rightarrow> u32 \<Rightarrow> int \<Rightarrow> ffsockaddr option \<Rightarrow> ffkq_task_accept_win
    \<Rightarrow> ('w, (int \<times> ffsockaddr \<times> ffsockaddr option) \<times> ffkq_task_accept_win) prog" where
  "accept_async_begin K lsock peer flags domain local task = do {
     c \<leftarrow> ffsock_create_win K domain (SOCK_STREAM_T OR (flags AND FFSOCK_NONBLOCK_WIN)) 0;
     if c = INVALID_SOCKET then State_Monad.return ((INVALID_SOCKET, peer, local), task)
     else do {
       let zero = \<lparr>at_active = False, at_addrs = replicate 88 0, at_csock = 0\<rparr>;
       x \<leftarrow> sys K (WinSock (AcceptEx lsock c));
       p \<leftarrow> overlapped_start (rv x \<noteq> 0);
       if \<not> p then do {
         sysi K (WinSock (Closesocket c));
         State_Monad.return ((INVALID_SOCKET, peer, local), zero)
       }
       else State_Monad.return ((INVALID_SOCKET, peer, local),
              zero\<lparr>at_addrs := patch 0 (out_bytes x) (replicate 88 0), at_csock := c, at_active := True\<rparr>)
     }
   }"

definition ffsock_accept_async_win ::
  "'w kernel \<Rightarrow> int \<Rightarrow> ffsockaddr \<Rightarrow> u32 \<Rightarrow> int \<Rightarrow> ffsockaddr option \<Rightarrow> ffkq_task_accept_win
    \<Rightarrow> ('w, (int \<times> ffsockaddr \<times> ffsockaddr option) \<times> ffkq_task_accept_win) prog" where
  "ffsock_accept_async_win K lsock peer flags domain local task =
     (if at_active task then accept_async_finish K peer domain local task
      else do {
        x \<leftarrow> ffsock_accept_win K lsock peer (flags AND FFSOCK_NONBLOCK_WIN);
        if fst x \<noteq> INVALID_SOCKET then State_Monad.return ((fst x, snd x, local), task)
        else do {
          e \<leftarrow> fferr_last;
          if e \<noteq> WSAEWOULDBLOCK then State_Monad.return ((INVALID_SOCKET, snd x, local), task)
          else accept_async_begin K lsock (snd x) flags domain local task
        }
      })"

subsection \<open>Transfers\<close>

definition ffsock_recv_win :: "'w kernel \<Rightarrow> ffbase \<Rightarrow> int \<Rightarrow> nat \<Rightarrow> int \<Rightarrow> ('w, int \<times> bytes) prog" where
  "ffsock_recv_win K B sk cap flags = do {
     x \<leftarrow> sys K (WinSock (WRecv sk (c_int (ffmin B cap 0xffffffff)) flags));
     State_Monad.return (rv x, out_bytes x)
   }"

definition ffsock_recvfrom_win ::
  "'w kernel \<Rightarrow> int \<Rightarrow> nat \<Rightarrow> int \<Rightarrow> ffsockaddr \<Rightarrow> ('w, int \<times> bytes \<times> ffsockaddr) prog" where
  "ffsock_recvfrom_win K sk cap flags peer_addr = do {
     x \<leftarrow> sys K (WinSock (WRecvfrom sk (c_int cap) flags));
     let d = out_addr peer_addr x;
     State_Monad.return (rv x, out_bytes x,
       \<lparr>sa_len = (if rv x < 0 then sa_len peer_addr else of_nat (snd d)), sa_data = fst d\<rparr>)
   }"

text \<open>
  TCP: the overlapped read has an empty buffer, it only waits for data; the data is received by
  the next call, which first collects the result of the wait.
\<close>

definition recv_async_begin ::
  "'w kernel \<Rightarrow> ffbase \<Rightarrow> int \<Rightarrow> nat \<Rightarrow> nat \<Rightarrow> ffkq_task_win \<Rightarrow> ('w, (int \<times> bytes) \<times> ffkq_task_win) prog" where
  "recv_async_begin K B sk cap ov_cap task = do {
     x \<leftarrow> sys K (WinSock (WRecv sk (c_int cap) 0));
     e \<leftarrow> fferr_last;
     if \<not> (rv x < 0 \<and> e = WSAEWOULDBLOCK) then State_Monad.return ((rv x, out_bytes x), task)
     else do {
       ok \<leftarrow> sysi K (WinSock (ReadFileOv sk ov_cap));
       p \<leftarrow> overlapped_start (ok \<noteq> 0);
       State_Monad.return ((-1, []), if p then task\<lparr>wtask_active := True\<rparr> else task)
     }
   }"

definition ffsock_recv_async_win ::
  "'w kernel \<Rightarrow> ffbase \<Rightarrow> int \<Rightarrow> nat \<Rightarrow> ffkq_task_win \<Rightarrow> ('w, (int \<times> bytes) \<times> ffkq_task_win) prog" where
  "ffsock_recv_async_win K B sk cap task =
     (if wtask_active task then do {
        x \<leftarrow> overlapped_result K task;
        if fst (fst x) then recv_async_begin K B sk (ffmin B cap 0xffffffff) 0 (snd x)
        else State_Monad.return ((-1, []), snd x)
      }
      else recv_async_begin K B sk (ffmin B cap 0xffffffff) 0 task)"

definition ffsock_recv_udp_async_win ::
  "'w kernel \<Rightarrow> ffbase \<Rightarrow> int \<Rightarrow> nat \<Rightarrow> ffkq_task_win \<Rightarrow> ('w, (int \<times> bytes) \<times> ffkq_task_win) prog" where
  "ffsock_recv_udp_async_win K B sk cap task =
     (if wtask_active task then do {
        x \<leftarrow> overlapped_result K task;
        State_Monad.return ((if fst (fst x) then snd (fst x) else -1, []), snd x)
      }
      else recv_async_begin K B sk (ffmin B cap 0xffffffff) (ffmin B cap 0xffffffff) task)"

definition ffsock_recvfrom_async_win ::
  "'w kernel \<Rightarrow> ffbase \<Rightarrow> int \<Rightarrow> nat \<Rightarrow> ffsockaddr \<Rightarrow> ffkq_task_win
    \<Rightarrow> ('w, (int \<times> bytes \<times> ffsockaddr) \<times> ffkq_task_win) prog" where
  "ffsock_recvfrom_async_win K B sk cap peer_addr task =
     (if wtask_active task then do {
        x \<leftarrow> overlapped_result K task;
        State_Monad.return ((if fst (fst x) then snd (fst x) else -1, [], peer_addr), snd x)
      }
      else do {
        let cap = ffmin B cap 0xffffffff;
        x \<leftarrow> sys K (WinSock (WRecvfrom sk (c_int cap) 0));
        e \<leftarrow> fferr_last;
        let d = out_addr peer_addr x;
        if \<not> (rv x < 0 \<and> e = WSAEWOULDBLOCK)
        then State_Monad.return ((rv x, out_bytes x, \<lparr>sa_len = of_nat (snd d), sa_data = fst d\<rparr>), task)
        else do {
          r \<leftarrow> sysi K (WinSock (WSARecvFrom sk cap));
          p \<leftarrow> overlapped_start (r = 0);
          State_Monad.return ((-1, [], \<lparr>sa_len = 28, sa_data = fst d\<rparr>),
            if p then task\<lparr>wtask_active := True\<rparr> else task)
        }
      })"

definition ffsock_send_win :: "'w kernel \<Rightarrow> ffbase \<Rightarrow> int \<Rightarrow> bytes \<Rightarrow> int \<Rightarrow> ('w, int) prog" where
  "ffsock_send_win K B sk buf flags = sysi K (WinSock (WSend sk buf (c_int (ffmin B (length buf) 0xffffffff)) flags))"

definition ffsock_sendv_win :: "'w kernel \<Rightarrow> int \<Rightarrow> bytes list \<Rightarrow> ('w, int) prog" where
  "ffsock_sendv_win K sk iov = do {
     x \<leftarrow> sys K (WinSock (WSASend sk iov));
     State_Monad.return (if 0 = rv x then out_int x 0 else -1)
   }"

definition ffsock_sendto_win :: "'w kernel \<Rightarrow> ffbase \<Rightarrow> int \<Rightarrow> bytes \<Rightarrow> int \<Rightarrow> ffsockaddr \<Rightarrow> ('w, int) prog" where
  "ffsock_sendto_win K B sk buf flags peer_addr =
     sysi K (WinSock (WSendto sk buf (c_int (ffmin B (length buf) 0xffffffff)) flags (sa_bytes peer_addr)))"

text \<open>Starting the overlapped write of the bytes that fit into the task (one byte).\<close>

definition send_async_begin :: "'w kernel \<Rightarrow> int \<Rightarrow> bytes \<Rightarrow> ffkq_task_win \<Rightarrow> ('w, int \<times> ffkq_task_win) prog" where
  "send_async_begin K sk data task = do {
     ok \<leftarrow> sysi K (WinSock (WriteFileOv sk data));
     p \<leftarrow> overlapped_start (ok \<noteq> 0);
     State_Monad.return (-1, (if p then task\<lparr>wtask_active := True\<rparr> else task)
       \<lparr>wtask_buf := patch 0 data (wtask_buf task)\<rparr>)
   }"

definition ffsock_send_async_win ::
  "'w kernel \<Rightarrow> ffbase \<Rightarrow> int \<Rightarrow> bytes \<Rightarrow> ffkq_task_win \<Rightarrow> ('w, int \<times> ffkq_task_win) prog" where
  "ffsock_send_async_win K B sk buf task =
     (if wtask_active task then do {
        x \<leftarrow> overlapped_result K task;
        State_Monad.return (if fst (fst x) then snd (fst x) else -1, snd x)
      }
      else do {
        let len = ffmin B (length buf) 0xffffffff;
        r \<leftarrow> sysi K (WinSock (WSend sk buf (c_int len) 0));
        e \<leftarrow> fferr_last;
        if \<not> (r < 0 \<and> e = WSAEWOULDBLOCK) then State_Monad.return (r, task)
        else send_async_begin K sk (take (ffmin B len 1) buf) task
      })"

text \<open>The first bytes of the first non-empty vector.\<close>

fun first_bytes :: "ffbase \<Rightarrow> bytes list \<Rightarrow> bytes" where
  "first_bytes B [] = []"
| "first_bytes B (v # vs) = (if length v \<noteq> 0 then take (ffmin B (length v) 1) v else first_bytes B vs)"

definition ffsock_sendv_async_win ::
  "'w kernel \<Rightarrow> ffbase \<Rightarrow> int \<Rightarrow> bytes list \<Rightarrow> ffkq_task_win \<Rightarrow> ('w, int \<times> ffkq_task_win) prog" where
  "ffsock_sendv_async_win K B sk iov task =
     (if wtask_active task then do {
        x \<leftarrow> overlapped_result K task;
        State_Monad.return (if fst (fst x) then snd (fst x) else -1, snd x)
      }
      else do {
        x \<leftarrow> sys K (WinSock (WSASend sk iov));
        e \<leftarrow> fferr_last;
        if 0 = rv x then State_Monad.return (out_int x 0, task)
        else if e \<noteq> WSAEWOULDBLOCK then State_Monad.return (-1, task)
        else if length (first_bytes B iov) = 0 then State_Monad.return (0, task)
        else send_async_begin K sk (first_bytes B iov) task
      })"

subsection \<open>Start-up, names\<close>

text \<open>The index of the GUID stands for the GUID; the result is the function pointer.\<close>

definition ff_wsa_getfunc :: "'w kernel \<Rightarrow> int \<Rightarrow> int \<Rightarrow> ('w, int) prog" where
  "ff_wsa_getfunc K sk guid = do {
     x \<leftarrow> sys K (WinSock (WSAIoctl_getfunc sk guid));
     if out_int x 0 = 0 then do { fferr_set 127; State_Monad.return 0 }
     else State_Monad.return (out_int x 0)
   }"

fun getfuncs_loop :: "'w kernel \<Rightarrow> int \<Rightarrow> int list \<Rightarrow> ('w, int \<times> int list) prog" where
  "getfuncs_loop K sk [] = State_Monad.return (0, [])"
| "getfuncs_loop K sk (g # gs) = do {
     f \<leftarrow> ff_wsa_getfunc K sk g;
     if f = 0 then State_Monad.return (-1, [0])
     else do {
       r \<leftarrow> getfuncs_loop K sk gs;
       State_Monad.return (fst r, f # snd r)
     }
   }"

text \<open>The pointers stored are the second component: \<open>DisconnectEx\<close>, \<open>ConnectEx\<close>,
  \<open>AcceptEx\<close>, \<open>GetAcceptExSockaddrs\<close>.\<close>

definition ff_wsa_getfuncs :: "'w kernel \<Rightarrow> ('w, int \<times> int list) prog" where
  "ff_wsa_getfuncs K = do {
     sk \<leftarrow> ffsock_create_win K 2 SOCK_STREAM_T 0;
     if sk = INVALID_SOCKET then State_Monad.return (-1, [])
     else do {
       r \<leftarrow> getfuncs_loop K sk [0, 1, 2, 3];
       ffsock_close_win K sk;
       State_Monad.return r
     }
   }"

definition ffsock_init_win :: "'w kernel \<Rightarrow> u32 \<Rightarrow> ('w, int \<times> int list) prog" where
  "ffsock_init_win K flags = do {
     a \<leftarrow> (if tst flags 2 then sysi K (WinSock WSAStartup) else State_Monad.return 0);
     if 0 \<noteq> a then State_Monad.return (-1, [])
     else if tst flags 4 then do {
       r \<leftarrow> ff_wsa_getfuncs K;
       State_Monad.return (if 0 \<noteq> fst r then -1 else 0, snd r)
     }
     else State_Monad.return (0, [])
   }"

definition ffsock_fin_win :: "'w kernel \<Rightarrow> int \<Rightarrow> ('w, int) prog" where
  "ffsock_fin_win K sk = do {
     r \<leftarrow> sysi K (WinSock (DisconnectEx sk));
     State_Monad.return (c_bool (0 = r))
   }"

definition ffaddrinfo_resolve_win :: "'w kernel \<Rightarrow> wconv \<Rightarrow> string \<Rightarrow> int \<Rightarrow> ('w, int) prog" where
  "ffaddrinfo_resolve_win K U name flags =
     (let w = ffsz_utow U 1025 name in
      if 0 \<ge> fst w then do { fferr_set ERROR_INVALID_PARAMETER; State_Monad.return 0 }
      else do {
        x \<leftarrow> sys K (WinSock (GetAddrInfoW (snd w) flags));
        State_Monad.return (if 0 \<noteq> rv x then 0 else out_int x 0)
      })"

definition ffaddrinfo_free_win :: "'w kernel \<Rightarrow> int \<Rightarrow> ('w, unit) prog" where
  "ffaddrinfo_free_win K a = do { sysi K (WinSock (FreeAddrInfoW a)); State_Monad.return () }"

definition ffaddrinfo_error_win :: "'w kernel \<Rightarrow> wtou \<Rightarrow> copyz \<Rightarrow> u32 \<Rightarrow> string \<Rightarrow> ('w, string) prog" where
  "ffaddrinfo_error_win K wtou copyz e fferr_buffer = fferr_strptr_win K wtou copyz (sint e) fferr_buffer"

subsection \<open>Properties\<close>

lemma wp_overlapped_start:
  "(\<And>p s'. (p \<longrightarrow> lasterr s' = ERROR_IO_PENDING) \<Longrightarrow> trace s' = trace s \<Longrightarrow> Q p s')
   \<Longrightarrow> wp (overlapped_start b) Q s"
  unfolding overlapped_start_def by (intro wp_intros) auto

lemma wp_recv_async_begin:
  "\<not> wtask_active task \<Longrightarrow> wp (recv_async_begin K B sk cap ov task)
     (\<lambda>r s. wtask_active (snd r) \<longrightarrow> fst (fst r) < 0 \<and> lasterr s = ERROR_IO_PENDING) s"
  unfolding recv_async_begin_def by (intro wp_intros wp_overlapped_start) auto

lemma wp_send_async_begin:
  "\<not> wtask_active task \<Longrightarrow> wp (send_async_begin K sk data task)
     (\<lambda>r s. wtask_active (snd r) \<longrightarrow> fst r < 0 \<and> lasterr s = ERROR_IO_PENDING) s"
  unfolding send_async_begin_def by (intro wp_intros wp_overlapped_start) auto

text \<open>Every asynchronous operation of Windows keeps the contract of \<open>async_op\<close> too.\<close>

interpretation recv_async_win: async_op "\<lambda>K t. ffsock_recv_async_win K B sk cap t" fst wtask_active
  ERROR_IO_PENDING "\<lambda>K. True" for B sk cap
  by unfold_locales (unfold ffsock_recv_async_win_def,
    intro wp_intros wp_mono [OF wp_overlapped_result] wp_recv_async_begin, auto)

interpretation recv_udp_async_win: async_op "\<lambda>K t. ffsock_recv_udp_async_win K B sk cap t" fst wtask_active
  ERROR_IO_PENDING "\<lambda>K. True" for B sk cap
  by unfold_locales (unfold ffsock_recv_udp_async_win_def,
    intro wp_intros wp_mono [OF wp_overlapped_result] wp_recv_async_begin, auto)

interpretation recvfrom_async_win: async_op "\<lambda>K t. ffsock_recvfrom_async_win K B sk cap peer t" fst
  wtask_active ERROR_IO_PENDING "\<lambda>K. True" for B sk cap peer
  by unfold_locales (unfold ffsock_recvfrom_async_win_def,
    intro wp_intros wp_mono [OF wp_overlapped_result] wp_overlapped_start, auto)

interpretation send_async_win: async_op "\<lambda>K t. ffsock_send_async_win K B sk buf t" "\<lambda>r. r" wtask_active
  ERROR_IO_PENDING "\<lambda>K. True" for B sk buf
  by unfold_locales (unfold ffsock_send_async_win_def,
    intro wp_intros wp_mono [OF wp_overlapped_result] wp_send_async_begin, auto)

interpretation sendv_async_win: async_op "\<lambda>K t. ffsock_sendv_async_win K B sk iov t" "\<lambda>r. r" wtask_active
  ERROR_IO_PENDING "\<lambda>K. True" for B sk iov
  by unfold_locales (unfold ffsock_sendv_async_win_def,
    intro wp_intros wp_mono [OF wp_overlapped_result] wp_send_async_begin, auto)

interpretation connect_async_win: async_op "\<lambda>K t. ffsock_connect_async_win K sk addr t" "\<lambda>r. r" wtask_active
  ERROR_IO_PENDING "\<lambda>K. True" for sk addr
  by unfold_locales (unfold ffsock_connect_async_win_def,
    intro wp_intros wp_mono [OF wp_overlapped_result] wp_overlapped_start, auto)

lemma wp_socket_any:
  "(\<And>r s'. Q r s') \<Longrightarrow> wp (ffsock_accept_win K lsock peer flags) Q s"
  "(\<And>r s'. Q' r s') \<Longrightarrow> wp (ffsock_create_win K domain type protocol) Q' s"
  by (simp_all add: wp_def)

interpretation accept_async_win: async_op "\<lambda>K t. ffsock_accept_async_win K lsock peer flags domain local t"
  fst at_active ERROR_IO_PENDING "\<lambda>K. True" for lsock peer flags domain local
  by unfold_locales (unfold ffsock_accept_async_win_def accept_async_finish_def accept_async_begin_def,
    intro wp_intros wp_socket_any wp_overlapped_start, simp_all)

text \<open>
  On Windows, too, an asynchronous socket operation that leaves its task active has
  failed with \<open>FFSOCK_EINPROGRESS\<close>, whether the system started the operation, completed it at
  once, or is still at work on it when the call is repeated.
\<close>

theorem sock_win_async_contract:
  "wp (ffsock_recv_async_win K B sk cap t)
     (\<lambda>r s. wtask_active (snd r) \<longrightarrow> fst (fst r) < 0 \<and> lasterr s = ERROR_IO_PENDING) s1 \<and>
   wp (ffsock_recv_udp_async_win K B sk cap t)
     (\<lambda>r s. wtask_active (snd r) \<longrightarrow> fst (fst r) < 0 \<and> lasterr s = ERROR_IO_PENDING) s1 \<and>
   wp (ffsock_recvfrom_async_win K B sk cap peer t)
     (\<lambda>r s. wtask_active (snd r) \<longrightarrow> fst (fst r) < 0 \<and> lasterr s = ERROR_IO_PENDING) s1 \<and>
   wp (ffsock_send_async_win K B sk buf t)
     (\<lambda>r s. wtask_active (snd r) \<longrightarrow> fst r < 0 \<and> lasterr s = ERROR_IO_PENDING) s1 \<and>
   wp (ffsock_sendv_async_win K B sk iov t)
     (\<lambda>r s. wtask_active (snd r) \<longrightarrow> fst r < 0 \<and> lasterr s = ERROR_IO_PENDING) s1 \<and>
   wp (ffsock_connect_async_win K sk addr t)
     (\<lambda>r s. wtask_active (snd r) \<longrightarrow> fst r < 0 \<and> lasterr s = ERROR_IO_PENDING) s1 \<and>
   wp (ffsock_accept_async_win K lsock peer flags domain local at)
     (\<lambda>r s. at_active (snd r) \<longrightarrow> fst (fst r) < 0 \<and> lasterr s = ERROR_IO_PENDING) s1"
  by (intro conjI recv_async_win.pending recv_udp_async_win.pending recvfrom_async_win.pending
      send_async_win.pending sendv_async_win.pending connect_async_win.pending accept_async_win.pending TrueI)

definition wouldblockK :: "call \<Rightarrow> unit \<Rightarrow> reply \<times> unit" where
  "wouldblockK c w = (case c of
      WinSock (ReadFileOv _ _) \<Rightarrow> (\<lparr>rv = 1, rerr = None, rout = NoOut\<rparr>, w)
    | _ \<Rightarrow> (\<lparr>rv = -1, rerr = Some WSAEWOULDBLOCK, rout = NoOut\<rparr>, w))"

theorem sock_win_async_contract_witness:
  "wtask_active (snd (fst (run_state (ffsock_recv_async_win wouldblockK ffbase_ref 3 10 task_zero_win) (start () 0)))) \<and>
   lasterr (snd (run_state (ffsock_recv_async_win wouldblockK ffbase_ref 3 10 task_zero_win) (start () 0))) = ERROR_IO_PENDING"
proof -
  have "wp (ffsock_recv_async_win wouldblockK ffbase_ref 3 10 task_zero_win)
      (\<lambda>r s. wtask_active (snd r) \<longrightarrow> fst (fst r) < 0 \<and> lasterr s = ERROR_IO_PENDING) (start () 0)"
    using sock_win_async_contract by blast
  then show ?thesis
    by (simp add: wp_def ffsock_recv_async_win_def recv_async_begin_def overlapped_start_def run_simps
        wouldblockK_def task_zero_win_def)
qed

subsection \<open>Sockets are not lost\<close>

lemma wp_win_nonblock:
  assumes "fds_after (trace s) = Some (if sk = -1 then {#} else {#sk#})"
    and "\<And>r s'. fds_after (trace s') = Some (if r = -1 then {#} else {#r#}) \<Longrightarrow> Q r s'"
  shows "wp (win_nonblock_or_close K want sk) Q s"
  unfolding win_nonblock_or_close_def ffsock_nonblock_win_def ffsock_close_win_def using assms(1)
  by (intro wp_intros assms(2)) (auto simp: fd_step_def closed_def)

lemma wp_create_win:
  assumes "fds_after (trace s) = Some {#}"
    and "\<And>r s'. fds_after (trace s') = Some (if r = -1 then {#} else {#r#}) \<Longrightarrow> Q r s'"
  shows "wp (ffsock_create_win K domain type protocol) Q s"
  unfolding ffsock_create_win_def using assms(1)
  by (intro wp_intros wp_win_nonblock assms(2)) (simp_all add: fd_step_def closed_def)

lemma wp_accept_win:
  assumes "fds_after (trace s) = Some {#}"
    and "\<And>r s'. fds_after (trace s') = Some (if fst r = -1 then {#} else {#fst r#}) \<Longrightarrow> Q r s'"
  shows "wp (ffsock_accept_win K lsk peer flags) Q s"
  unfolding ffsock_accept_win_def using assms(1)
  by (intro wp_intros wp_win_nonblock assms(2)) (simp_all add: fd_step_def closed_def)

lemma wp_getfuncs_loop:
  "(\<And>r s'. fds_after (trace s') = fds_after (trace s) \<Longrightarrow> Q r s') \<Longrightarrow> wp (getfuncs_loop K sk gs) Q s"
proof (induction gs arbitrary: s Q)
  case (Cons g gs)
  have st: "fd_step h (WinSock (WSAIoctl_getfunc sk g), r) = h" for h r
    by (cases h) (simp_all add: fd_step_def closed_def)
  show ?case
    unfolding getfuncs_loop.simps ff_wsa_getfunc_def
    by (intro wp_intros Cons.IH Cons.prems) (simp_all add: st)
qed (simp add: wp_return)

text \<open>
  On Windows creating or accepting a socket leaves open exactly the socket returned; an
  asynchronous accept leaves open the socket it returns or the one it keeps in its active task,
  and closes the one it made if the accept cannot be started; \<open>_ff_wsa_getfuncs\<close> closes the
  socket it asks through.
\<close>

theorem sock_win_no_leak:
  "wp (ffsock_create_win K domain type protocol)
     (\<lambda>sk s. fds_after (trace s) = Some (if sk = -1 then {#} else {#sk#})) (start w e) \<and>
   wp (ffsock_accept_win K lsk peer flags)
     (\<lambda>r s. fds_after (trace s) = Some (if fst r = -1 then {#} else {#fst r#})) (start w e) \<and>
   wp (ffsock_accept_async_win K lsk peer flags domain local (\<lparr>at_active = False, at_addrs = [], at_csock = 0\<rparr>))
     (\<lambda>r s. fds_after (trace s) = Some
        (if at_active (snd r) then {#at_csock (snd r)#} else if fst (fst r) = -1 then {#} else {#fst (fst r)#}))
     (start w e) \<and>
   wp (ff_wsa_getfuncs K) (\<lambda>r s. fds_after (trace s) = Some {#}) (start w e)"
proof (intro conjI)
  show "wp (ff_wsa_getfuncs K) (\<lambda>r s. fds_after (trace s) = Some {#}) (start w e)"
    unfolding ff_wsa_getfuncs_def ffsock_close_win_def
    by (intro wp_intros wp_create_win wp_getfuncs_loop) (simp_all add: fd_step_def closed_def)
  show "wp (ffsock_accept_async_win K lsk peer flags domain local (\<lparr>at_active = False, at_addrs = [], at_csock = 0\<rparr>))
     (\<lambda>r s. fds_after (trace s) = Some
        (if at_active (snd r) then {#at_csock (snd r)#} else if fst (fst r) = -1 then {#} else {#fst (fst r)#}))
     (start w e)"
    unfolding ffsock_accept_async_win_def accept_async_begin_def
    by (simp, intro wp_intros wp_create_win wp_accept_win wp_overlapped_start)
      (simp_all add: fd_step_def closed_def)
qed (rule wp_create_win wp_accept_win; simp)+

text \<open>
  An asynchronous accept that fails after it was started loses the socket it had made:
  the call returns \<open>INVALID_SOCKET\<close> and marks the task idle, and the only thing it asked of the
  system is the result.
\<close>

theorem accept_async_win_leaks:
  assumes "at_active task" "rv (fst (K (WinIo (GetOverlappedResult 0)) w)) = 0"
    "rerr (fst (K (WinIo (GetOverlappedResult 0)) w)) = Some err" "err \<noteq> ERROR_IO_INCOMPLETE"
  shows "wp (ffsock_accept_async_win K lsk peer flags domain local task)
     (\<lambda>r s. fst (fst r) = INVALID_SOCKET \<and> \<not> at_active (snd r) \<and> at_csock (snd r) = at_csock task \<and>
        calls_of s = [WinIo (GetOverlappedResult 0)]) (start w e)"
  unfolding ffsock_accept_async_win_def accept_async_finish_def if_P [OF assms(1)]
  by (intro wp_intros) (use assms(2-4) in \<open>simp_all add: calls_of_def\<close>)

theorem accept_async_win_leaks_witness:
  "snd (fst (run_state (ffsock_accept_async_win (\<lambda>c w. (\<lparr>rv = 0, rerr = Some 64, rout = NoOut\<rparr>, w)) 3
      \<lparr>sa_len = 0, sa_data = []\<rparr> 0 2 None \<lparr>at_active = True, at_addrs = [], at_csock = 9\<rparr>) (start () 0)))
   = \<lparr>at_active = False, at_addrs = [], at_csock = 9\<rparr>"
proof -
  let ?K = "\<lambda>c w. (\<lparr>rv = 0, rerr = Some 64, rout = NoOut\<rparr>, w)"
  have "wp (ffsock_accept_async_win ?K 3 \<lparr>sa_len = 0, sa_data = []\<rparr> 0 2 None
        \<lparr>at_active = True, at_addrs = [], at_csock = 9\<rparr>)
      (\<lambda>r s. fst (fst r) = INVALID_SOCKET \<and> \<not> at_active (snd r) \<and>
        at_csock (snd r) = at_csock \<lparr>at_active = True, at_addrs = [], at_csock = 9\<rparr> \<and>
        calls_of s = [WinIo (GetOverlappedResult 0)]) (start () 0)"
    by (rule accept_async_win_leaks [where err = 64]) simp_all
  note wpD [OF this]
  then show ?thesis
    by (simp add: ffsock_accept_async_win_def accept_async_finish_def run_simps)
qed

end
