(* ===== verification/Bytes.thy ===== *)
theory Bytes
  imports Os
begin

text \<open>
  Members of C structures in a buffer of bytes.  The structures the library reads from the system
  (\<open>inotify_event\<close>, \<open>FILE_NOTIFY_INFORMATION\<close>, \<open>nlmsghdr\<close>, \<open>rtattr\<close>) are in the
  byte order of the machine, which is little-endian on the systems the library is built for.
\<close>

fun le_val :: "bytes \<Rightarrow> nat" where
  "le_val [] = 0"
| "le_val (b # bs) = unat b + 256 * le_val bs"

fun le_put :: "nat \<Rightarrow> nat \<Rightarrow> bytes" where
  "le_put 0 x = []"
| "le_put (Suc n) x = of_nat (x mod 256) # le_put n (x div 256)"

text \<open>The member of \<open>n\<close> bytes at the offset \<open>off\<close>.\<close>

definition field :: "nat \<Rightarrow> nat \<Rightarrow> bytes \<Rightarrow> nat" where
  "field off n b = le_val (take n (drop off b))"

lemma le_put_length [simp]: "length (le_put n x) = n"
  by (induction n arbitrary: x) simp_all

lemma le_val_put: "le_val (le_put n x) = x mod 256 ^ n"
proof (induction n arbitrary: x)
  case (Suc n)
  have "unat (of_nat (x mod 256) :: u8) = x mod 256" by (simp add: unat_of_nat)
  then show ?case using Suc by (simp add: mod_mult2_eq)
qed simp

lemma le_val_put_small [simp]: "x < 256 ^ n \<Longrightarrow> le_val (le_put n x) = x"
  by (simp add: le_val_put)

lemma le_val_less: "le_val b < 256 ^ length b"
proof (induction b)
  case (Cons a b)
  have "unat a < 256" using unsigned_less [of a, where 'a = nat] by simp
  with Cons show ?case by simp
qed simp

lemma field_less: "field off n b < 256 ^ n"
proof -
  have "field off n b < 256 ^ length (take n (drop off b))"
    unfolding field_def by (rule le_val_less)
  also have "\<dots> \<le> 256 ^ n" by (rule power_increasing) simp_all
  finally show ?thesis .
qed

text \<open>A member behind a prefix of known length.\<close>

lemma field_at:
  "length a = off \<Longrightarrow> length v = n \<Longrightarrow> field off n (a @ v @ c) = le_val v"
  by (simp add: field_def)

lemma field_skip: "length a = k \<Longrightarrow> field (k + off) n (a @ b) = field off n b"
  by (simp add: field_def)

lemma field_0 [simp]: "length v = n \<Longrightarrow> field 0 n (v @ c) = le_val v"
  by (simp add: field_def)

text \<open>The values that fit a member of two and of four bytes are those of the words.\<close>

lemma le_val_put_u16 [simp]: "le_val (le_put 2 (unat (x :: u16))) = unat x"
  using unsigned_less [of x, where 'a = nat] by simp

lemma le_val_put_u32 [simp]: "le_val (le_put 4 (unat (x :: u32))) = unat x"
  using unsigned_less [of x, where 'a = nat] by simp

text \<open>Wide characters in a buffer of bytes, and the bytes of a text.\<close>

fun wide_of :: "bytes \<Rightarrow> wstr" where
  "wide_of (a # b # bs) = (ucast a OR push_bit 8 (ucast b)) # wide_of bs"
| "wide_of _ = []"

fun wide_bytes :: "wstr \<Rightarrow> bytes" where
  "wide_bytes [] = []"
| "wide_bytes (c # cs) = ucast c # ucast (drop_bit 8 c) # wide_bytes cs"

definition bytes_of :: "string \<Rightarrow> bytes" where
  "bytes_of t = map (\<lambda>c. of_nat (uchar c)) t"

definition chars_of :: "bytes \<Rightarrow> string" where
  "chars_of b = map (\<lambda>x. char_of (unat x)) b"

lemma wide_bytes_length [simp]: "length (wide_bytes w) = 2 * length w"
  by (induction w) simp_all

lemma wide_of_bytes [simp]: "wide_of (wide_bytes w) = w"
proof (induction w)
  case (Cons c w)
  have "(ucast (ucast c :: u8) :: u16) OR push_bit 8 (ucast (ucast (drop_bit 8 c) :: u8)) = c"
    by (rule bit_word_eqI) (auto simp: bit_simps)
  with Cons show ?case by simp
qed simp

lemma chars_of_bytes [simp]: "chars_of (bytes_of t) = t"
proof -
  have "char_of (unat (of_nat (uchar c) :: u8)) = c" for c
    by (simp add: uchar_def unat_of_nat)
  then show ?thesis by (induction t) (simp_all add: chars_of_def bytes_of_def)
qed

end
