(* ===== verification/Std.thy ===== *)
theory Std
  imports Wstring Bytes
begin

text \<open>
  Standard input and output (\<open>FFOS/std.h\<close>): reading and writing the terminal, keyboard events
  and their codes, terminal attributes; UNIX and Windows.

  The bytes a terminal sends are read from a buffer of known length.  The parser reads it through
  \<open>rd_at\<close>, which gives \<open>None\<close> outside the buffer, so that a parser that never gives
  \<open>None\<close> never reads outside it.
\<close>

subsection \<open>Key codes and attributes\<close>

definition FFKEY_VIRT :: u32 where [flag_simps]: "FFKEY_VIRT = 0x80000000"
definition FFKEY_UP :: u32 where [flag_simps]: "FFKEY_UP = 0x80000001"
definition FFKEY_DOWN :: u32 where [flag_simps]: "FFKEY_DOWN = 0x80000002"
definition FFKEY_RIGHT :: u32 where [flag_simps]: "FFKEY_RIGHT = 0x80000003"
definition FFKEY_LEFT :: u32 where [flag_simps]: "FFKEY_LEFT = 0x80000004"
definition FFKEY_CTRL :: u32 where [flag_simps]: "FFKEY_CTRL = 0x01000000"
definition FFKEY_SHIFT :: u32 where [flag_simps]: "FFKEY_SHIFT = 0x02000000"
definition FFKEY_ALT :: u32 where [flag_simps]: "FFKEY_ALT = 0x04000000"

definition FFSTD_ECHO :: u32 where [flag_simps]: "FFSTD_ECHO = 1"
definition FFSTD_LINEINPUT :: u32 where [flag_simps]: "FFSTD_LINEINPUT = 2"
definition FFSTD_VTERM :: u32 where [flag_simps]: "FFSTD_VTERM = 4"

text \<open>The escape sequences of the eight colours; the macros paste string literals.\<close>

datatype colour = FFSTD_BLACK | FFSTD_RED | FFSTD_GREEN | FFSTD_YELLOW | FFSTD_BLUE | FFSTD_PURPLE | FFSTD_CYAN | FFSTD_WHITE

fun colour_text :: "colour \<Rightarrow> string" where
  "colour_text FFSTD_BLACK = ''0''"
| "colour_text FFSTD_RED = ''1''"
| "colour_text FFSTD_GREEN = ''2''"
| "colour_text FFSTD_YELLOW = ''3''"
| "colour_text FFSTD_BLUE = ''4''"
| "colour_text FFSTD_PURPLE = ''5''"
| "colour_text FFSTD_CYAN = ''6''"
| "colour_text FFSTD_WHITE = ''7''"

definition FFSTD_CLR_RESET :: string where "FFSTD_CLR_RESET = CHR 0x1B # ''[0m''"

definition FFSTD_CLR :: "colour \<Rightarrow> string" where
  "FFSTD_CLR f = CHR 0x1B # ''['' @ ''3'' @ colour_text f @ ''m''"

definition FFSTD_CLR_I :: "colour \<Rightarrow> string" where
  "FFSTD_CLR_I f = CHR 0x1B # ''['' @ ''9'' @ colour_text f @ ''m''"

definition FFSTD_CLR_B :: "colour \<Rightarrow> string" where
  "FFSTD_CLR_B f = CHR 0x1B # ''[1;'' @ ''3'' @ colour_text f @ ''m''"

definition FFSTD_CLRBG :: "colour \<Rightarrow> string" where
  "FFSTD_CLRBG b = CHR 0x1B # ''['' @ ''4'' @ colour_text b @ ''m''"

definition FFSTD_CLRBG_I :: "colour \<Rightarrow> string" where
  "FFSTD_CLRBG_I b = CHR 0x1B # ''['' @ ''10'' @ colour_text b @ ''m''"

subsection \<open>UNIX: reading, writing\<close>

definition ffstdin_read :: "'w kernel \<Rightarrow> nat \<Rightarrow> ('w, int \<times> bytes) prog" where
  "ffstdin_read K cap = do { r \<leftarrow> sys K (FileC (Read 0 cap)); State_Monad.return (rv r, out_bytes r) }"

definition ffstdout_write :: "'w kernel \<Rightarrow> bytes \<Rightarrow> ('w, int) prog" where
  "ffstdout_write K data = sysi K (FileC (Write 1 data))"

definition ffstderr_write :: "'w kernel \<Rightarrow> bytes \<Rightarrow> ('w, int) prog" where
  "ffstderr_write K data = sysi K (FileC (Write 2 data))"

text \<open>
  \<open>ffstdout_fmt\<close> and \<open>ffstderr_fmt\<close> have one body; \<open>text\<close> is what ffbase's
  \<open>ffstr_growfmtv\<close> makes of the format and its arguments, in a block it allocates
  (\<open>None\<close>: it failed and returned \<open>0\<close>).
\<close>

definition std_fmt ::
  "'w kernel \<Rightarrow> (bytes \<Rightarrow> ('w, int) prog) \<Rightarrow> bytes option \<Rightarrow> ('w, int) prog" where
  "std_fmt K out text = do {
     p \<leftarrow> (case text of None \<Rightarrow> State_Monad.return 0
                      | Some t \<Rightarrow> sysi K (Mem (MRealloc 0 (length t))));
     let n = (if p = 0 then [] else the text);
     r \<leftarrow> (if length n \<noteq> 0 then out n else State_Monad.return 0);
     sysi K (Mem (MFree p));
     State_Monad.return r
   }"

definition ffstdout_fmt :: "'w kernel \<Rightarrow> bytes option \<Rightarrow> ('w, int) prog" where
  "ffstdout_fmt K text = std_fmt K (ffstdout_write K) text"

definition ffstderr_fmt :: "'w kernel \<Rightarrow> bytes option \<Rightarrow> ('w, int) prog" where
  "ffstderr_fmt K text = std_fmt K (ffstderr_write K) text"

text \<open>\<open>F\<close> is ffbase's formatting of a message and its arguments; \<open>None\<close>: it failed.\<close>

datatype arg = AInt int | AStr string

type_synonym fmt = "string \<Rightarrow> arg list \<Rightarrow> bytes option"

definition fflog :: "'w kernel \<Rightarrow> fmt \<Rightarrow> string \<Rightarrow> arg list \<Rightarrow> ('w, unit) prog" where
  "fflog K F text args = do { ffstdout_fmt K (F (text @ [CHR 0x0A]) args); State_Monad.return () }"

definition fflogz :: "'w kernel \<Rightarrow> fmt \<Rightarrow> string \<Rightarrow> ('w, unit) prog" where
  "fflogz K F sz = do { ffstdout_fmt K (F (''%s'' @ [CHR 0x0A]) [AStr sz]); State_Monad.return () }"

subsection \<open>UNIX: keyboard\<close>

text \<open>The caller's \<open>ffstr\<close>: what it points to, and its length as a machine word.\<close>

record keydata =
  kd_buf :: bytes
  kd_len :: u64

definition ffstd_keyread :: "'w kernel \<Rightarrow> int \<Rightarrow> keydata \<Rightarrow> ('w, int \<times> keydata) prog" where
  "ffstd_keyread K fd data = do {
     r \<leftarrow> sys K (FileC (Read fd 8));
     e \<leftarrow> fferr_last;
     if rv r < 0 \<and> fferr_again e then State_Monad.return (0, data)
     else if rv r = 0 then do { fferr_set EINVAL; State_Monad.return (-1, data) }
     else State_Monad.return (rv r, \<lparr>kd_buf = out_bytes r, kd_len = of_int (rv r)\<rparr>)
   }"

definition rd_at :: "string \<Rightarrow> nat \<Rightarrow> char option" where
  "rd_at d i = (if i < length d then Some (d ! i) else None)"

definition key_esc1 :: "u32 list" where
  "key_esc1 = [FFKEY_SHIFT, FFKEY_ALT, FFKEY_SHIFT OR FFKEY_ALT, FFKEY_CTRL, FFKEY_CTRL OR FFKEY_SHIFT,
     FFKEY_CTRL OR FFKEY_ALT, FFKEY_CTRL OR FFKEY_SHIFT OR FFKEY_ALT]"

text \<open>From \<open>i += 2\<close> on: an arrow key, or an error with the data left as it was.\<close>

definition keyparse_arrow :: "string \<Rightarrow> u32 \<Rightarrow> nat \<Rightarrow> (int \<times> string) option" where
  "keyparse_arrow d r i = (case rd_at d i of
      None \<Rightarrow> None
    | Some c \<Rightarrow>
        if schar c \<ge> 65 \<and> schar c \<le> 68
        then Some (sint (r OR (FFKEY_UP + of_int (schar c) - 65)), drop (i + 1) d)
        else Some (-1, d))"

definition keyparse_esc :: "string \<Rightarrow> (int \<times> string) option" where
  "keyparse_esc d = (case rd_at d 2 of
      None \<Rightarrow> None
    | Some d2 \<Rightarrow>
        if d2 = CHR ''1'' \<and> length d > 5 then
          (case rd_at d 3 of
             None \<Rightarrow> None
           | Some d3 \<Rightarrow>
               if d3 = CHR '';'' then
                 (case rd_at d 4 of
                    None \<Rightarrow> None
                  | Some d4 \<Rightarrow>
                      let m = (of_nat (uchar d4) :: u32) - 50 in
                      if m \<ge> of_nat (length key_esc1) then Some (-1, d)
                      else keyparse_arrow d (key_esc1 ! unat m) 5)
               else keyparse_arrow d 0 2)
        else keyparse_arrow d 0 2)"

definition ffstd_keyparse :: "string \<Rightarrow> (int \<times> string) option" where
  "ffstd_keyparse d =
     (if length d = 0 then Some (-1, d)
      else case rd_at d 0 of
        None \<Rightarrow> None
      | Some d0 \<Rightarrow>
          let plain = Some (schar d0, drop 1 d) in
          if d0 = CHR 0x1B \<and> length d \<ge> 3 then
            (case rd_at d 1 of
               None \<Rightarrow> None
             | Some d1 \<Rightarrow> if d1 = CHR ''['' then keyparse_esc d else plain)
          else plain)"

subsection \<open>UNIX: attributes\<close>

abbreviation (input) ECHO :: u32 where "ECHO \<equiv> 8"
abbreviation (input) ICANON :: u32 where "ICANON \<equiv> 2"
abbreviation (input) VTIME :: nat where "VTIME \<equiv> 5"
abbreviation (input) VMIN :: nat where "VMIN \<equiv> 6"

fun out_termios :: "reply \<Rightarrow> u32 \<times> bytes" where
  "out_termios r = (case rout r of OTermios f c \<Rightarrow> (f, c) | _ \<Rightarrow> (0, []))"

definition set_bits :: "bool \<Rightarrow> bool \<Rightarrow> u32 \<Rightarrow> u32 \<Rightarrow> u32" where
  "set_bits sel on m f = (if sel then (if on then f OR m else f AND NOT m) else f)"

definition termios_change :: "u32 \<Rightarrow> u32 \<Rightarrow> u32 \<times> bytes \<Rightarrow> u32 \<times> bytes" where
  "termios_change attr val t =
     (let f = set_bits (tst attr FFSTD_ECHO) (tst val FFSTD_ECHO) ECHO (fst t);
        f = set_bits (tst attr FFSTD_LINEINPUT) (tst val FFSTD_LINEINPUT) ICANON f;
        c = (if tst attr FFSTD_LINEINPUT \<and> \<not> tst val FFSTD_LINEINPUT then (snd t)[VTIME := 0, VMIN := 1] else snd t)
      in (f, c))"

definition ffstd_attr :: "'w kernel \<Rightarrow> int \<Rightarrow> u32 \<Rightarrow> u32 \<Rightarrow> ('w, int) prog" where
  "ffstd_attr K fd attr val =
     (if attr = FFSTD_VTERM then do {
        r \<leftarrow> sys K (FileC (Fstat fd));
        State_Monad.return (c_bool (\<not> (rv r = 0 \<and>
          (case rout r of OStat st \<Rightarrow> st_mode st AND 0xF000 = 0x2000 | _ \<Rightarrow> False))))
      }
      else do {
        r \<leftarrow> sys K (Term (Tcgetattr fd));
        if rv r \<noteq> 0 then State_Monad.return (-1)
        else do {
          let t = termios_change attr val (out_termios r);
          sysi K (Term (Tcsetattr fd (fst t) (snd t)));
          State_Monad.return 0
        }
      })"

subsection \<open>Windows: reading, writing\<close>

definition chars_of :: "bytes \<Rightarrow> string" where
  "chars_of b = map (\<lambda>x. char_of (unat x)) b"

definition bytes_of :: "string \<Rightarrow> bytes" where
  "bytes_of t = map (\<lambda>c. of_nat (uchar c)) t"

abbreviation (input) STD_INPUT_HANDLE :: int where "STD_INPUT_HANDLE \<equiv> -10"
abbreviation (input) STD_OUTPUT_HANDLE :: int where "STD_OUTPUT_HANDLE \<equiv> -11"
abbreviation (input) STD_ERROR_HANDLE :: int where "STD_ERROR_HANDLE \<equiv> -12"

text \<open>The console gives UTF-16, in a local array of 1024 characters or in a block of the heap.\<close>

definition ffstdin_read_win :: "'w kernel \<Rightarrow> ffbase \<Rightarrow> wconv \<Rightarrow> nat \<Rightarrow> ('w, int \<times> string) prog" where
  "ffstdin_read_win K B U cap = do {
     h \<leftarrow> sysi K (Term (GetStdHandle STD_INPUT_HANDLE));
     m \<leftarrow> sysi K (Term (GetConsoleMode h));
     if m \<noteq> 0 then do {
       w \<leftarrow> (if cap div 4 > 1024 then do {
              p \<leftarrow> sysi K (Mem (MAlloc (cap div 2)));
              State_Monad.return (if p = 0 then WNull else WHeap p [])
            } else State_Monad.return (WStack []));
       if w = WNull then State_Monad.return (-1, [])
       else do {
         b \<leftarrow> sys K (Term (ReadConsoleW h (ffmin B (cap div 4) 0xffffffff)));
         let r = ffs_wtou U cap (out_wide b);
         w_free K w;
         State_Monad.return (if rv b \<noteq> 0 \<and> \<not> fst r < 0 then r else (-1, []))
       }
     }
     else do {
       x \<leftarrow> sys K (WinFile (ReadFile h (ffmin B cap 0xffffffff) None));
       State_Monad.return (if rv x = 0 then (-1, []) else (int (length (out_bytes x)), chars_of (out_bytes x)))
     }
   }"

text \<open>The number of bytes is passed to \<open>WriteFile\<close> as 32 bits.\<close>

definition ffstd_write :: "'w kernel \<Rightarrow> wconv \<Rightarrow> int \<Rightarrow> string \<Rightarrow> ('w, int) prog" where
  "ffstd_write K U h data = do {
     m \<leftarrow> sysi K (Term (GetConsoleMode h));
     if m \<noteq> 0 then do {
       w \<leftarrow> ffs_alloc_buf_utow K U (Some 1024) 1024 data;
       b \<leftarrow> sysi K (Term (WriteConsoleW h (take (snd w) (w_chars (fst w)))));
       w_free K (fst w);
       State_Monad.return (if b \<noteq> 0 then int (length data) else -1)
     }
     else do {
       x \<leftarrow> sys K (WinFile (WriteFile h (take (length data mod 2 ^ 32) (bytes_of data)) None));
       State_Monad.return (if rv x = 0 then -1 else out_int x 0)
     }
   }"

definition ffstdout_write_win :: "'w kernel \<Rightarrow> wconv \<Rightarrow> string \<Rightarrow> ('w, int) prog" where
  "ffstdout_write_win K U data = do {
     h \<leftarrow> sysi K (Term (GetStdHandle STD_OUTPUT_HANDLE)); ffstd_write K U h data }"

definition ffstderr_write_win :: "'w kernel \<Rightarrow> wconv \<Rightarrow> string \<Rightarrow> ('w, int) prog" where
  "ffstderr_write_win K U data = do {
     h \<leftarrow> sysi K (Term (GetStdHandle STD_ERROR_HANDLE)); ffstd_write K U h data }"

text \<open>The shared formatting functions over the Windows output.\<close>

definition ffstdout_fmt_win :: "'w kernel \<Rightarrow> wconv \<Rightarrow> bytes option \<Rightarrow> ('w, int) prog" where
  "ffstdout_fmt_win K U text = std_fmt K (\<lambda>b. ffstdout_write_win K U (chars_of b)) text"

definition ffstderr_fmt_win :: "'w kernel \<Rightarrow> wconv \<Rightarrow> bytes option \<Rightarrow> ('w, int) prog" where
  "ffstderr_fmt_win K U text = std_fmt K (\<lambda>b. ffstderr_write_win K U (chars_of b)) text"

subsection \<open>Windows: keyboard\<close>

record ffstd_ev =
  ev_state :: nat
  ev_rec :: "input_record list"
  ev_irec :: nat
  ev_nrec :: nat

fun out_input :: "reply \<Rightarrow> input_record list" where
  "out_input r = (case rout r of OInput xs \<Rightarrow> xs | _ \<Rightarrow> [])"

text \<open>State 0: fill the array of records, or return.\<close>

definition keyread_fill ::
  "'w kernel \<Rightarrow> ffbase \<Rightarrow> int \<Rightarrow> ffstd_ev \<Rightarrow> ('w, int + ffstd_ev) prog" where
  "keyread_fill K B fd ev = do {
     a \<leftarrow> sys K (Term (GetNumberOfConsoleInputEvents fd));
     if rv a = 0 then State_Monad.return (Inl (-1))
     else if out_int a 0 = 0 then State_Monad.return (Inl 0)
     else do {
       b \<leftarrow> sys K (Term (ReadConsoleInput fd (ffmin B (nat (out_int a 0)) 8)));
       if rv b = 0 then State_Monad.return (Inl (-1))
       else if length (out_input b) = 0 then State_Monad.return (Inl 0)
       else State_Monad.return (Inr (ev\<lparr>ev_rec := out_input b, ev_nrec := length (out_input b),
              ev_irec := 0, ev_state := 1\<rparr>))
     }
   }"

text \<open>State 1: the next key that was pressed, if the record is one.\<close>

definition keyread_take :: "ffstd_ev \<Rightarrow> input_record option \<times> ffstd_ev" where
  "keyread_take ev =
     (if ev_irec ev = ev_nrec ev then (None, ev\<lparr>ev_state := 0\<rparr>)
      else let ev' = ev\<lparr>ev_irec := ev_irec ev + 1\<rparr> in
        if \<not> ir_keydown (ev_rec ev ! ev_irec ev) then (None, ev')
        else (Some (ev_rec ev ! ev_irec ev), ev'))"

text \<open>\<open>sizeof(KEY_EVENT_RECORD)\<close> is 16.\<close>

partial_function (option) ffstd_keyread_win ::
  "'w kernel \<Rightarrow> ffbase \<Rightarrow> int \<Rightarrow> ffstd_ev \<Rightarrow> 'w sys
    \<Rightarrow> ((int \<times> input_record option \<times> ffstd_ev) \<times> 'w sys) option" where
  "ffstd_keyread_win K B fd ev s =
     (let f = (if ev_state ev = 0 then run_state (keyread_fill K B fd ev) s else (Inr ev, s)) in
      case fst f of
        Inl r \<Rightarrow> Some ((r, None, ev), snd f)
      | Inr ev \<Rightarrow>
          if ev_state ev \<noteq> 1 then ffstd_keyread_win K B fd ev (snd f)
          else let t = keyread_take ev in
            (case fst t of
               None \<Rightarrow> ffstd_keyread_win K B fd (snd t) (snd f)
             | Some k \<Rightarrow> Some ((16, Some k, snd t), snd f)))"

text \<open>\<open>VK_LEFT\<close>, \<open>VK_UP\<close>, \<open>VK_RIGHT\<close>, \<open>VK_DOWN\<close>; \<open>binfind\<close> is ffbase's \<open>ffarrint8_binfind\<close>.\<close>

definition vkeys :: "u8 list" where
  "vkeys = [0x25, 0x26, 0x27, 0x28]"

definition ffkeys :: "u8 list" where
  "ffkeys = [ucast FFKEY_LEFT, ucast FFKEY_UP, ucast FFKEY_RIGHT, ucast FFKEY_DOWN]"

definition key_mods :: "u32 \<Rightarrow> u32 \<Rightarrow> u32" where
  "key_mods ctl r =
     (let r = (if tst ctl (1 OR 2) then r OR FFKEY_ALT else r);
        r = (if tst ctl (4 OR 8) then r OR FFKEY_CTRL else r)
      in if tst ctl 0x10 then r OR FFKEY_SHIFT else r)"

text \<open>\<open>None\<close> is data shorter than a record.\<close>

definition ffstd_keyparse_win ::
  "(u8 list \<Rightarrow> u32 \<Rightarrow> int) \<Rightarrow> input_record option \<Rightarrow> int \<times> input_record option" where
  "ffstd_keyparse_win binfind data = (case data of
      None \<Rightarrow> (-1, None)
    | Some k \<Rightarrow>
        let r = (scast (ir_ascii k) :: u32); i = binfind vkeys (ucast (ir_vkey k)) in
        if r = 0 \<and> (of_int i :: u32) = -1 then (-1, data)
        else let r = (if r = 0 then FFKEY_VIRT OR ucast (ffkeys ! nat i) else r)
          in (sint (key_mods (ir_ctl k) r), None))"

subsection \<open>Windows: attributes\<close>

definition console_change :: "u32 \<Rightarrow> u32 \<Rightarrow> u32 \<Rightarrow> u32" where
  "console_change attr val mode =
     (let mode = (if tst attr FFSTD_VTERM \<and> tst val FFSTD_VTERM then mode OR (1 OR 4) else mode);
        mode = set_bits (tst attr FFSTD_ECHO) (tst val FFSTD_ECHO) 4 mode
      in set_bits (tst attr FFSTD_LINEINPUT) (tst val FFSTD_LINEINPUT) 2 mode)"

definition ffstd_attr_win :: "'w kernel \<Rightarrow> int \<Rightarrow> u32 \<Rightarrow> u32 \<Rightarrow> ('w, int) prog" where
  "ffstd_attr_win K fd attr val = do {
     r \<leftarrow> sys K (Term (GetConsoleMode fd));
     if rv r = 0 then State_Monad.return (-1)
     else do {
       b \<leftarrow> sysi K (Term (SetConsoleMode fd (console_change attr val (ucast (out_word r)))));
       State_Monad.return (c_bool (b = 0))
     }
   }"

subsection \<open>Properties: key codes\<close>

text \<open>
  What a terminal sends for the arrow key number \<open>k\<close> (up, down, right, left) with modifiers, and
  the code that stands for it.
\<close>

definition mods_num :: "bool \<Rightarrow> bool \<Rightarrow> bool \<Rightarrow> nat" where
  "mods_num shift alt ctrl = (if shift then 1 else 0) + (if alt then 2 else 0) + (if ctrl then 4 else 0)"

definition arrow_seq :: "bool \<Rightarrow> bool \<Rightarrow> bool \<Rightarrow> nat \<Rightarrow> string" where
  "arrow_seq shift alt ctrl k =
     [CHR 0x1B, CHR ''[''] @
     (if mods_num shift alt ctrl = 0 then []
      else [CHR ''1'', CHR '';'', char_of (49 + mods_num shift alt ctrl)]) @ [char_of (65 + k)]"

definition arrow_code :: "bool \<Rightarrow> bool \<Rightarrow> bool \<Rightarrow> nat \<Rightarrow> u32" where
  "arrow_code shift alt ctrl k =
     [FFKEY_UP, FFKEY_DOWN, FFKEY_RIGHT, FFKEY_LEFT] ! k OR
     (if shift then FFKEY_SHIFT else 0) OR (if alt then FFKEY_ALT else 0) OR (if ctrl then FFKEY_CTRL else 0)"

lemma less_4_cases: "(k :: nat) < 4 \<longleftrightarrow> k = 0 \<or> k = 1 \<or> k = 2 \<or> k = 3"
  by arith

lemma schar_letter: "k < 4 \<Longrightarrow> schar (char_of (65 + k)) = 65 + int k"
  by (simp add: schar_def uchar_def of_char_of)

lemma keyparse_arrow_at:
  assumes "i < length d" "d ! i = char_of (65 + k)" "k < 4"
  shows "keyparse_arrow d r i = Some (sint (r OR (FFKEY_UP + of_nat k)), drop (i + 1) d)"
  using assms by (simp add: keyparse_arrow_def rd_at_def schar_letter)

lemma arrow_up_plus: "k < 4 \<Longrightarrow> FFKEY_UP + of_nat k = [FFKEY_UP, FFKEY_DOWN, FFKEY_RIGHT, FFKEY_LEFT] ! k"
  unfolding less_4_cases by (elim disjE) (simp_all add: flag_simps)

lemma keyparse_plain_seq:
  "k < 4 \<Longrightarrow> keyparse_esc (CHR 0x1B # CHR ''['' # char_of (65 + k) # rest) =
     Some (sint (arrow_code False False False k), rest)"
proof -
  assume k: "k < 4"
  let ?d = "CHR 0x1B # CHR ''['' # char_of (65 + k) # rest"
  have n: "char_of (65 + k) \<noteq> CHR ''1''"
  proof
    assume "char_of (65 + k) = CHR ''1''"
    then have "schar (char_of (65 + k)) = schar (CHR ''1'')" by simp
    then show False using schar_letter [OF k] by (simp add: schar_def uchar_def)
  qed
  have "keyparse_esc ?d = keyparse_arrow ?d 0 2"
    using n by (simp add: keyparse_esc_def rd_at_def numeral_2_eq_2)
  also have "\<dots> = Some (sint (0 OR (FFKEY_UP + of_nat k)), drop (2 + 1) ?d)"
    by (rule keyparse_arrow_at) (use k in simp_all)
  finally show ?thesis by (simp add: arrow_code_def arrow_up_plus [OF k] numeral_2_eq_2)
qed

lemma keyparse_mod_seq:
  assumes k: "k < 4" and n: "1 \<le> n" "n < 8"
  shows "keyparse_esc (CHR 0x1B # CHR ''['' # CHR ''1'' # CHR '';'' # char_of (49 + n) # char_of (65 + k) # rest) =
     Some (sint (key_esc1 ! (n - 1) OR (FFKEY_UP + of_nat k)), rest)"
proof -
  let ?d = "CHR 0x1B # CHR ''['' # CHR ''1'' # CHR '';'' # char_of (49 + n) # char_of (65 + k) # rest"
  have u: "uchar (char_of (49 + n)) = 49 + n" using n by (simp add: uchar_def of_char_of)
  have m: "(of_nat n - 1 :: u32) = of_nat (n - 1)" using n by (simp add: of_nat_diff)
  have un: "unat (of_nat n - 1 :: u32) = n - 1" unfolding m using n by (simp add: unat_of_nat del: of_nat_diff)
  have l: "\<not> of_nat (length key_esc1) \<le> (of_nat n - 1 :: u32)"
    using n by (simp add: key_esc1_def word_le_nat_alt un)
  have "keyparse_esc ?d = keyparse_arrow ?d (key_esc1 ! (n - 1)) 5"
    using l by (simp add: keyparse_esc_def rd_at_def u un Let_def)
  also have "\<dots> = Some (sint (key_esc1 ! (n - 1) OR (FFKEY_UP + of_nat k)), drop (5 + 1) ?d)"
    by (rule keyparse_arrow_at) (use k in simp_all)
  finally show ?thesis by simp
qed

lemma key_esc1_mods:
  "mods_num shift alt ctrl \<noteq> 0 \<Longrightarrow> key_esc1 ! (mods_num shift alt ctrl - 1) =
     (if shift then FFKEY_SHIFT else 0) OR (if alt then FFKEY_ALT else 0) OR (if ctrl then FFKEY_CTRL else 0)"
  by (cases shift; cases alt; cases ctrl) (simp_all add: mods_num_def key_esc1_def ac_simps)

lemma keyparse_arrow_seq:
  assumes k: "k < 4"
  shows "ffstd_keyparse (arrow_seq shift alt ctrl k @ rest) = Some (sint (arrow_code shift alt ctrl k), rest)"
proof -
  have e: "ffstd_keyparse (arrow_seq shift alt ctrl k @ rest) = keyparse_esc (arrow_seq shift alt ctrl k @ rest)"
    by (simp add: ffstd_keyparse_def rd_at_def arrow_seq_def Let_def)
  show ?thesis
  proof (cases "mods_num shift alt ctrl = 0")
    case True
    then have "\<not> shift \<and> \<not> alt \<and> \<not> ctrl" by (simp add: mods_num_def split: if_splits)
    then show ?thesis unfolding e using keyparse_plain_seq [OF k, of rest] True by (simp add: arrow_seq_def)
  next
    case False
    moreover have "mods_num shift alt ctrl < 8" by (simp add: mods_num_def)
    ultimately have p: "keyparse_esc (arrow_seq shift alt ctrl k @ rest) =
        Some (sint (key_esc1 ! (mods_num shift alt ctrl - 1) OR (FFKEY_UP + of_nat k)), rest)"
      using keyparse_mod_seq [OF k, of "mods_num shift alt ctrl" rest] by (simp add: arrow_seq_def)
    show ?thesis
      unfolding e p key_esc1_mods [OF False] arrow_up_plus [OF k] arrow_code_def by (simp only: ac_simps)
  qed
qed

lemma keyparse_arrow_some: "i < length d \<Longrightarrow> keyparse_arrow d r i = Some (-1, d) \<or>
    (\<exists>v. keyparse_arrow d r i = Some (v, drop (i + 1) d))"
  by (simp add: keyparse_arrow_def rd_at_def)

lemma keyparse_esc_cases:
  "3 \<le> length d \<Longrightarrow> keyparse_esc d = keyparse_arrow d 0 2 \<or> keyparse_esc d = Some (-1, d) \<or>
    5 < length d \<and> (\<exists>r. keyparse_esc d = keyparse_arrow d r 5)"
  by (auto simp: keyparse_esc_def rd_at_def Let_def)

lemma keyparse_esc_some:
  assumes "3 \<le> length d"
  shows "\<exists>v n. keyparse_esc d = Some (v, drop n d) \<and> (v = -1 \<and> n = 0 \<or> 0 < n)"
proof -
  have arrow: "\<exists>v n. keyparse_arrow d r i = Some (v, drop n d) \<and> (v = -1 \<and> n = 0 \<or> 0 < n)"
    if "i < length d" for r i
    using keyparse_arrow_some [OF that, of r]
  proof
    assume "keyparse_arrow d r i = Some (-1, d)"
    then show ?thesis by (intro exI [of _ "-1"] exI [of _ 0]) simp
  next
    assume "\<exists>v. keyparse_arrow d r i = Some (v, drop (i + 1) d)"
    then obtain v where "keyparse_arrow d r i = Some (v, drop (i + 1) d)" ..
    then show ?thesis by (intro exI [of _ v] exI [of _ "i + 1"]) simp
  qed
  have "2 < length d" using assms by simp
  then show ?thesis
    using keyparse_esc_cases [OF assms] arrow [of 2 0] arrow [of 5]
    by (elim disjE conjE exE) (simp_all, intro exI [of _ 0], simp)
qed

text \<open>
  Claim C24.  \<open>ffstd_keyparse\<close> on UNIX reads only bytes it was given, whatever they are, and either
  fails and leaves them as they were or consumes at least one.  The sequence of every arrow key with
  every combination of modifiers gives its key code and leaves what follows; any other character is
  its own code.
\<close>

theorem keyparse_parses_keys:
  "(\<exists>v n. ffstd_keyparse d = Some (v, drop n d) \<and> (v = -1 \<and> n = 0 \<or> 0 < n \<and> 0 < length d)) \<and>
   (k < 4 \<longrightarrow> ffstd_keyparse (arrow_seq shift alt ctrl k @ rest) = Some (sint (arrow_code shift alt ctrl k), rest)) \<and>
   (c \<noteq> CHR 0x1B \<longrightarrow> ffstd_keyparse (c # rest) = Some (schar c, rest))"
proof (intro conjI impI)
  show "\<exists>v n. ffstd_keyparse d = Some (v, drop n d) \<and> (v = -1 \<and> n = 0 \<or> 0 < n \<and> 0 < length d)"
  proof (cases d)
    case Nil
    then show ?thesis by (simp add: ffstd_keyparse_def)
  next
    case (Cons x xs)
    show ?thesis
    proof (cases "x = CHR 0x1B \<and> 3 \<le> length d \<and> d ! 1 = CHR ''[''")
      case True
      then have "ffstd_keyparse d = keyparse_esc d" "0 < length d"
        using Cons by (auto simp: ffstd_keyparse_def rd_at_def)
      then show ?thesis using keyparse_esc_some [of d] True by simp
    next
      case False
      then have "ffstd_keyparse d = Some (schar x, drop 1 d)" using Cons
        by (auto simp: ffstd_keyparse_def rd_at_def Let_def)
      then show ?thesis using Cons by (intro exI [of _ "schar x"] exI [of _ 1]) simp
    qed
  qed
  show "k < 4 \<Longrightarrow> ffstd_keyparse (arrow_seq shift alt ctrl k @ rest) = Some (sint (arrow_code shift alt ctrl k), rest)"
    by (rule keyparse_arrow_seq)
  show "c \<noteq> CHR 0x1B \<Longrightarrow> ffstd_keyparse (c # rest) = Some (schar c, rest)"
    by (simp add: ffstd_keyparse_def rd_at_def)
qed

theorem keyparse_parses_keys_witness:
  "ffstd_keyparse (arrow_seq True False True 3 @ ''x'') = Some (sint (arrow_code True False True 3), ''x'') \<and>
   ffstd_keyparse ''qz'' = Some (113, ''z'')"
  using keyparse_parses_keys [of "''qz''" 3 True False True "''x''" "CHR ''q''"]
    keyparse_parses_keys [of "''qz''" 3 True False True "''z''" "CHR ''q''"]
  by (simp add: schar_def uchar_def)

text \<open>ffbase's search in a sorted array of bytes.\<close>

definition binfind_ok :: "(u8 list \<Rightarrow> u32 \<Rightarrow> int) \<Rightarrow> bool" where
  "binfind_ok f \<longleftrightarrow> (\<forall>a v. sorted (map unat a) \<longrightarrow>
     (f a v = -1 \<and> (\<forall>x\<in>set a. ucast x \<noteq> v) \<or> 0 \<le> f a v \<and> nat (f a v) < length a \<and> ucast (a ! nat (f a v)) = v))"

lemma binfind_vkeys:
  assumes "binfind_ok f" "i < 4"
  shows "f vkeys (ucast (vkeys ! i)) = int i"
proof -
  have len: "length vkeys = 4" by (simp add: vkeys_def)
  have "f vkeys v = -1 \<and> (\<forall>x\<in>set vkeys. ucast x \<noteq> v) \<or>
      0 \<le> f vkeys v \<and> nat (f vkeys v) < length vkeys \<and> ucast (vkeys ! nat (f vkeys v)) = v" for v
    using assms(1) [unfolded binfind_ok_def, rule_format, of vkeys v] by (simp add: vkeys_def)
  from this [of "ucast (vkeys ! i)"] assms(2)
  have f: "0 \<le> f vkeys (ucast (vkeys ! i))" "nat (f vkeys (ucast (vkeys ! i))) < 4"
    "(ucast (vkeys ! nat (f vkeys (ucast (vkeys ! i)))) :: u32) = ucast (vkeys ! i)"
    using nth_mem [of i vkeys] by (auto simp: len)
  have "nat (f vkeys (ucast (vkeys ! i))) = i"
    using f(2,3) assms(2) unfolding less_4_cases by (auto simp: vkeys_def)
  then show ?thesis using f(1) by simp
qed

definition arrow_index :: "nat \<Rightarrow> nat" where
  "arrow_index k = [1, 3, 2, 0] ! k"

definition arrow_record :: "nat \<Rightarrow> u32 \<Rightarrow> input_record" where
  "arrow_record k ctl = \<lparr>ir_keydown = True, ir_ascii = 0, ir_vkey = ucast (vkeys ! arrow_index k), ir_ctl = ctl\<rparr>"

lemma arrow_index_less: "k < 4 \<Longrightarrow> arrow_index k < 4"
  unfolding less_4_cases by (elim disjE) (simp_all add: arrow_index_def)

lemma ffkeys_arrow:
  "k < 4 \<Longrightarrow> FFKEY_VIRT OR ucast (ffkeys ! arrow_index k) = [FFKEY_UP, FFKEY_DOWN, FFKEY_RIGHT, FFKEY_LEFT] ! k"
  unfolding less_4_cases by (elim disjE) (simp_all add: arrow_index_def ffkeys_def flag_simps)

text \<open>
  An arrow key has the same code on both systems: the UNIX parser gives for the sequence of
  a terminal what the Windows parser gives for the record of the console, with the same modifiers.
\<close>

theorem keyparse_same_codes:
  assumes "binfind_ok f" "k < 4" "tst ctl (1 OR 2) = alt" "tst ctl (4 OR 8) = ctrl" "tst ctl 0x10 = shift"
  shows "fst (ffstd_keyparse_win f (Some (arrow_record k ctl))) =
    fst (the (ffstd_keyparse (arrow_seq shift alt ctrl k @ rest)))"
proof -
  have u: "ucast (ucast (vkeys ! i) :: u16) = (ucast (vkeys ! i) :: u32)" for i
    by (auto simp: bit_eq_iff bit_simps dest: bit_imp_le_length)
  have b: "f vkeys (ucast (ucast (vkeys ! arrow_index k) :: u16)) = int (arrow_index k)"
    unfolding u by (rule binfind_vkeys [OF assms(1) arrow_index_less [OF assms(2)]])
  have n: "(of_int (int (arrow_index k)) :: u32) \<noteq> -1"
    using arrow_index_less [OF assms(2)] unfolding less_4_cases by auto
  have "fst (ffstd_keyparse_win f (Some (arrow_record k ctl))) =
      sint (key_mods ctl (FFKEY_VIRT OR ucast (ffkeys ! arrow_index k)))"
    using n by (simp add: ffstd_keyparse_win_def arrow_record_def b Let_def)
  also have "\<dots> = sint (arrow_code shift alt ctrl k)"
    using assms(3-5) unfolding ffkeys_arrow [OF assms(2)] key_mods_def arrow_code_def
    by (cases shift; cases alt; cases ctrl) (simp_all add: Let_def or.commute or.left_commute or.assoc)
  finally show ?thesis by (simp add: keyparse_arrow_seq [OF assms(2)])
qed

definition binfind_ref :: "u8 list \<Rightarrow> u32 \<Rightarrow> int" where
  "binfind_ref a v = find_pos (\<lambda>x. ucast x = v) a"

lemma find_pos_spec:
  "find_pos P a = -1 \<and> (\<forall>x\<in>set a. \<not> P x) \<or> 0 \<le> find_pos P a \<and> nat (find_pos P a) < length a \<and> P (a ! nat (find_pos P a))"
proof (cases "\<exists>x\<in>set a. P x")
  case True
  then obtain ys x zs where a: "a = ys @ x # zs" "P x" "\<forall>y\<in>set ys. \<not> P y"
    using split_list_first_prop [of a P] by blast
  then have "takeWhile (\<lambda>x. \<not> P x) a = ys" by (simp add: takeWhile_append2)
  then show ?thesis using find_pos_takeWhile [OF True] a by simp
next
  case False
  then have "find_pos P a < 0" by (simp add: find_pos_neg)
  then show ?thesis using False find_pos_ge [of P a] by simp
qed

lemma binfind_ref_ok: "binfind_ok binfind_ref"
  unfolding binfind_ok_def binfind_ref_def by (intro allI impI find_pos_spec)

theorem keyparse_same_codes_witness:
  "fst (ffstd_keyparse_win binfind_ref (Some (arrow_record 2 0x18))) = fst (the (ffstd_keyparse (arrow_seq True False True 2 @ [])))"
  by (rule keyparse_same_codes [OF binfind_ref_ok]) (simp_all add: tst_def)

subsection \<open>Properties: events of the console\<close>

text \<open>
  What the code relies on: the console tells how many records wait, and a read takes at least one of
  them, at most as many as asked for, from the front.
\<close>

definition console_laws :: "'w kernel \<Rightarrow> int \<Rightarrow> ('w \<Rightarrow> input_record list) \<Rightarrow> bool" where
  "console_laws K fd waiting \<longleftrightarrow>
     (\<forall>w. let x = K (Term (GetNumberOfConsoleInputEvents fd)) w in
        rv (fst x) \<noteq> 0 \<and> out_int (fst x) 0 = int (length (waiting w)) \<and> waiting (snd x) = waiting w) \<and>
     (\<forall>n w. let x = K (Term (ReadConsoleInput fd n)) w in
        rv (fst x) \<noteq> 0 \<and> waiting w = out_input (fst x) @ waiting (snd x) \<and>
        length (out_input (fst x)) \<le> n \<and> (0 < n \<and> waiting w \<noteq> [] \<longrightarrow> out_input (fst x) \<noteq> []))"

text \<open>The records not delivered yet: those in the array, then those of the console.\<close>

definition held :: "ffstd_ev \<Rightarrow> input_record list" where
  "held ev = (if ev_state ev = 0 then [] else drop (ev_irec ev) (take (ev_nrec ev) (ev_rec ev)))"

definition ev_ok :: "ffstd_ev \<Rightarrow> bool" where
  "ev_ok ev \<longleftrightarrow> ev_state ev \<le> 1 \<and> (ev_state ev = 1 \<longrightarrow> ev_irec ev \<le> ev_nrec ev \<and> ev_nrec ev \<le> length (ev_rec ev))"

definition next_pressed :: "input_record list \<Rightarrow> input_record option \<times> input_record list" where
  "next_pressed xs = (case dropWhile (\<lambda>r. \<not> ir_keydown r) xs of [] \<Rightarrow> (None, []) | k # ks \<Rightarrow> (Some k, ks))"

lemma keyread_fill_spec:
  assumes "console_laws K fd waiting" "ffbase_ok B"
  shows "wp (keyread_fill K B fd ev) (\<lambda>r s'.
    (waiting (world s) = [] \<longrightarrow> r = Inl 0 \<and> waiting (world s') = []) \<and>
    (waiting (world s) \<noteq> [] \<longrightarrow> (\<exists>xs. xs \<noteq> [] \<and> waiting (world s) = xs @ waiting (world s') \<and>
       r = Inr (ev\<lparr>ev_rec := xs, ev_nrec := length xs, ev_irec := 0, ev_state := 1\<rparr>)))) s"
proof -
  have n: "rv (fst (K (Term (GetNumberOfConsoleInputEvents fd)) w)) \<noteq> 0"
    "out_int (fst (K (Term (GetNumberOfConsoleInputEvents fd)) w)) 0 = int (length (waiting w))"
    "waiting (snd (K (Term (GetNumberOfConsoleInputEvents fd)) w)) = waiting w" for w
    using assms(1) unfolding console_laws_def Let_def by blast+
  have r: "rv (fst (K (Term (ReadConsoleInput fd m)) w)) \<noteq> 0"
    "waiting w = out_input (fst (K (Term (ReadConsoleInput fd m)) w)) @ waiting (snd (K (Term (ReadConsoleInput fd m)) w))"
    "0 < m \<Longrightarrow> waiting w \<noteq> [] \<Longrightarrow> out_input (fst (K (Term (ReadConsoleInput fd m)) w)) \<noteq> []" for m w
    using assms(1) unfolding console_laws_def Let_def by blast+
  let ?w = "snd (K (Term (GetNumberOfConsoleInputEvents fd)) (world s))"
  let ?m = "min (length (waiting (world s))) 8"
  have ne: "out_input (fst (K (Term (ReadConsoleInput fd ?m)) ?w)) \<noteq> []" if "waiting (world s) \<noteq> []"
    using that n(3) [of "world s"] by (intro r(3)) simp_all
  show ?thesis
    using n [of "world s"] r(1) [of ?m ?w] r(2) [of ?w ?m] ne
    by (auto simp: wp_def keyread_fill_def run_simps ffbase_okD(7) [OF assms(2)]
        simp del: out_input.simps out_int.simps)
qed

lemma held_take:
  assumes "ev_ok ev" "ev_state ev = 1" "ev_irec ev \<noteq> ev_nrec ev"
  shows "held ev = ev_rec ev ! ev_irec ev # held (ev\<lparr>ev_irec := ev_irec ev + 1\<rparr>)"
    "ev_ok (ev\<lparr>ev_irec := ev_irec ev + 1\<rparr>)"
proof -
  have "ev_irec ev < ev_nrec ev" "ev_nrec ev \<le> length (ev_rec ev)" using assms by (auto simp: ev_ok_def)
  then show "held ev = ev_rec ev ! ev_irec ev # held (ev\<lparr>ev_irec := ev_irec ev + 1\<rparr>)"
    using assms(2) Cons_nth_drop_Suc [of "ev_irec ev" "take (ev_nrec ev) (ev_rec ev)"]
    by (simp add: held_def)
  show "ev_ok (ev\<lparr>ev_irec := ev_irec ev + 1\<rparr>)" using assms by (auto simp: ev_ok_def)
qed

text \<open>What a call delivers, and the measure of what is left to read.\<close>

definition delivers :: "'w kernel \<Rightarrow> ffbase \<Rightarrow> int \<Rightarrow> ('w \<Rightarrow> input_record list) \<Rightarrow> ffstd_ev \<Rightarrow> 'w sys \<Rightarrow> bool" where
  "delivers K B fd waiting ev s \<longleftrightarrow> (\<exists>r d ev' s'. ffstd_keyread_win K B fd ev s = Some ((r, d, ev'), s') \<and> ev_ok ev' \<and>
    (d, held ev' @ waiting (world s')) = next_pressed (held ev @ waiting (world s)) \<and>
    r = (if d = None then 0 else 16))"

abbreviation keys_left :: "('w \<Rightarrow> input_record list) \<Rightarrow> ffstd_ev \<Rightarrow> 'w sys \<Rightarrow> nat" where
  "keys_left waiting ev s \<equiv> 2 * length (held ev @ waiting (world s)) + ev_state ev"

lemma delivers_take:
  assumes f: "ffstd_keyread_win K B fd ev s =
      (let t = keyread_take eu in case fst t of
          None \<Rightarrow> ffstd_keyread_win K B fd (snd t) su | Some k \<Rightarrow> Some ((16, Some k, snd t), su))"
    and ok: "ev_ok eu" "ev_state eu = 1"
    and same: "held eu @ waiting (world su) = held ev @ waiting (world s)"
    and m: "ev_state ev = 0 \<Longrightarrow> ev_irec eu \<noteq> ev_nrec eu"
    and IH: "\<And>ev' s'. keys_left waiting ev' s' < keys_left waiting ev s \<Longrightarrow> ev_ok ev' \<Longrightarrow> delivers K B fd waiting ev' s'"
  shows "delivers K B fd waiting ev s"
proof (cases "ev_irec eu = ev_nrec eu")
  case True
  let ?e = "eu\<lparr>ev_state := 0\<rparr>"
  have h: "held eu = []" "held ?e = []" using ok True by (simp_all add: held_def)
  have "keys_left waiting ?e su < keys_left waiting ev s" using m True same h by fastforce
  moreover have "ev_ok ?e" by (simp add: ev_ok_def)
  ultimately show ?thesis using IH [of ?e su] f True h same by (simp add: delivers_def keyread_take_def Let_def)
next
  case False
  let ?e = "eu\<lparr>ev_irec := ev_irec eu + 1\<rparr>"
  note t = held_take [OF ok False]
  have "keys_left waiting ?e su < keys_left waiting ev s" using same [symmetric] t(1) ok(2) by simp
  then show ?thesis using IH [of ?e su] f False t same [symmetric]
    by (cases "ir_keydown (ev_rec eu ! ev_irec eu)") (simp_all add: delivers_def keyread_take_def Let_def next_pressed_def)
qed

lemma delivers_fill:
  assumes "console_laws K fd waiting" "ffbase_ok B" "ev_state ev = 0"
    and IH: "\<And>ev' s'. keys_left waiting ev' s' < keys_left waiting ev s \<Longrightarrow> ev_ok ev' \<Longrightarrow> delivers K B fd waiting ev' s'"
  shows "delivers K B fd waiting ev s"
proof -
  let ?f = "run_state (keyread_fill K B fd ev) s"
  note fill = wpD [OF keyread_fill_spec [OF assms(1,2), of ev s]]
  have h: "held ev = []" "ev_ok ev" using assms(3) by (simp_all add: held_def ev_ok_def)
  show ?thesis
  proof (cases "waiting (world s) = []")
    case True
    then show ?thesis using fill assms(3) h
      unfolding delivers_def by (subst ffstd_keyread_win.simps) (simp add: Let_def next_pressed_def)
  next
    case False
    then obtain xs where xs: "xs \<noteq> []" "waiting (world s) = xs @ waiting (world (snd ?f))"
      "fst ?f = Inr (ev\<lparr>ev_rec := xs, ev_nrec := length xs, ev_irec := 0, ev_state := 1\<rparr>)"
      using fill by blast
    show ?thesis
      by (rule delivers_take [where eu = "ev\<lparr>ev_rec := xs, ev_nrec := length xs, ev_irec := 0, ev_state := 1\<rparr>" and su = "snd ?f"])
        (use assms(3) xs h in \<open>subst ffstd_keyread_win.simps, simp add: Let_def\<close>,
          use IH in \<open>simp_all add: ev_ok_def held_def xs assms(3)\<close>)
  qed
qed

lemma keyread_full:
  assumes "console_laws K fd waiting" "ffbase_ok B"
  shows "ev_ok ev \<Longrightarrow> delivers K B fd waiting ev s"
proof (induction "keys_left waiting ev s" arbitrary: ev s rule: less_induct)
  case less
  show ?case
  proof (cases "ev_state ev = 0")
    case True
    show ?thesis by (rule delivers_fill [OF assms True less.hyps])
  next
    case False
    then have 1: "ev_state ev = 1" using less.prems by (simp add: ev_ok_def)
    show ?thesis
      by (rule delivers_take [OF _ less.prems 1 refl _ less.hyps])
        (use 1 in \<open>subst ffstd_keyread_win.simps, simp_all add: Let_def cong: option.case_cong\<close>)
  qed
qed

text \<open>
  Claim C25.  \<open>ffstd_keyread\<close> on Windows returns, and what it delivers are the key-down events in the
  order they were made: it skips the records of other events, returns the first key with the size of
  its record or \<open>0\<close> when none is left, and loses none of the records behind it, whether they are
  already in its array or still in the console.
\<close>

theorem keyread_win_delivers:
  assumes "console_laws K fd waiting" "ffbase_ok B" "ev_ok ev"
  shows "\<exists>r d ev' s'. ffstd_keyread_win K B fd ev s = Some ((r, d, ev'), s') \<and> ev_ok ev' \<and>
    (d, held ev' @ waiting (world s')) = next_pressed (held ev @ waiting (world s)) \<and>
    r = (if d = None then 0 else 16)"
  using keyread_full [OF assms] unfolding delivers_def .

definition consoleK :: "call \<Rightarrow> input_record list \<Rightarrow> reply \<times> input_record list" where
  "consoleK c w = (case c of
      Term (GetNumberOfConsoleInputEvents h) \<Rightarrow> (\<lparr>rv = 1, rerr = None, rout = OInts [int (length w)]\<rparr>, w)
    | Term (ReadConsoleInput h n) \<Rightarrow> (\<lparr>rv = 1, rerr = None, rout = OInput (take n w)\<rparr>, drop n w)
    | _ \<Rightarrow> (\<lparr>rv = 0, rerr = None, rout = NoOut\<rparr>, w))"

lemma consoleK_laws: "console_laws consoleK fd (\<lambda>w. w)"
  by (simp add: console_laws_def consoleK_def Let_def)

definition key_up :: input_record where
  "key_up = \<lparr>ir_keydown = False, ir_ascii = 97, ir_vkey = 65, ir_ctl = 0\<rparr>"

definition key_down :: input_record where
  "key_down = \<lparr>ir_keydown = True, ir_ascii = 98, ir_vkey = 66, ir_ctl = 0\<rparr>"

theorem keyread_win_delivers_witness:
  "\<exists>ev' s'. ffstd_keyread_win consoleK ffbase_ref 3 \<lparr>ev_state = 0, ev_rec = [], ev_irec = 0, ev_nrec = 0\<rparr>
      (start [key_up, key_down, key_up] 0) = Some ((16, Some key_down, ev'), s') \<and> held ev' @ world s' = [key_up]"
proof -
  let ?ev = "\<lparr>ev_state = 0, ev_rec = [], ev_irec = 0, ev_nrec = 0\<rparr>"
  have "ev_ok ?ev" by (simp add: ev_ok_def)
  from keyread_win_delivers [OF consoleK_laws ffbase_ref_ok this, of 3 "start [key_up, key_down, key_up] 0"]
  show ?thesis by (fastforce simp: next_pressed_def held_def [of \<open>?ev\<close>] key_up_def key_down_def)
qed

subsection \<open>Properties: attributes\<close>

lemma set_bits_bit:
  "bit (set_bits sel on m f) i \<longleftrightarrow> (if sel \<and> bit m i then on else bit f i)" if "i < 32"
  using that by (simp add: set_bits_def bit_simps)

text \<open>
  \<open>ffstd_attr\<close> on UNIX changes of the flags of the terminal exactly those that \<open>attr\<close>
  names, each to what \<open>val\<close> says, and the control characters only when it turns line input off;
  it returns \<open>0\<close> also when the system refuses the new flags.
\<close>

theorem std_attr_changes:
  assumes "attr \<noteq> FFSTD_VTERM"
  shows "wp (ffstd_attr K fd attr val) (\<lambda>v s. \<exists>r.
     (if rv r \<noteq> 0 then v = -1 \<and> trace s = [(Term (Tcgetattr fd), r)]
      else v = 0 \<and> (\<exists>f c r'. trace s = [(Term (Tcgetattr fd), r), (Term (Tcsetattr fd f c), r')] \<and>
        (\<forall>i < 32. bit f i = (if i = 3 \<and> tst attr FFSTD_ECHO then tst val FFSTD_ECHO
           else if i = 1 \<and> tst attr FFSTD_LINEINPUT then tst val FFSTD_LINEINPUT
           else bit (fst (out_termios r)) i)) \<and>
        (\<not> (tst attr FFSTD_LINEINPUT \<and> \<not> tst val FFSTD_LINEINPUT) \<longrightarrow> c = snd (out_termios r))))) (start w e)"
proof -
  have b: "bit (8 :: u32) i \<longleftrightarrow> i = 3" "bit (2 :: u32) i \<longleftrightarrow> i = 1" for i
    using bit_exp_iff [where 'a = "32 word", of 3 i] bit_exp_iff [where 'a = "32 word", of 1 i]
    by (auto simp: possible_bit_def)
  have f: "bit (fst (termios_change attr val t)) i = (if i = 3 \<and> tst attr FFSTD_ECHO then tst val FFSTD_ECHO
           else if i = 1 \<and> tst attr FFSTD_LINEINPUT then tst val FFSTD_LINEINPUT else bit (fst t) i)"
    if "i < 32" for i t
    using that by (simp only: termios_change_def Let_def fst_conv set_bits_bit b) auto
  have c: "snd (termios_change attr val t) = snd t" if "\<not> (tst attr FFSTD_LINEINPUT \<and> \<not> tst val FFSTD_LINEINPUT)" for t
    using that by (auto simp: termios_change_def Let_def)
  show ?thesis
    using assms unfolding ffstd_attr_def
    apply (simp only: if_False)
    apply (intro wp_intros)
     apply (auto simp: f c simp del: out_termios.simps)
    done
qed

definition termK :: "call \<Rightarrow> nat \<Rightarrow> reply \<times> nat" where
  "termK c w = (\<lparr>rv = 0, rerr = None, rout = OTermios 0x8a3b (replicate 32 0)\<rparr>, w)"

theorem std_attr_changes_witness:
  "fst (run_state (ffstd_attr termK 0 FFSTD_ECHO 0) (start 0 0)) \<in> {-1, 0}"
proof -
  have "FFSTD_ECHO \<noteq> FFSTD_VTERM" by (simp add: flag_simps)
  from std_attr_changes [OF this, of termK 0 0 0 0] show ?thesis
    by (auto simp: wp_def split: if_splits simp del: out_termios.simps)
qed

text \<open>
  The results of \<open>ffstd_keyparse\<close> that are not errors can be negative: every arrow key is, since
  its code has bit 31, and so is every byte above 127; the byte \<open>0xff\<close> gives \<open>-1\<close>, the error.
\<close>

lemma arrow_code_negative: "k < 4 \<Longrightarrow> sint (arrow_code shift alt ctrl k) < 0"
  unfolding less_4_cases
  by (cases shift; cases alt; cases ctrl) (auto simp: arrow_code_def flag_simps)

lemma keyparse_negative_success:
  "k < 4 \<Longrightarrow> \<exists>v. ffstd_keyparse (arrow_seq shift alt ctrl k) = Some (v, []) \<and> v < 0"
  "ffstd_keyparse [CHR 0xFF] = Some (-1, [])"
  using keyparse_arrow_seq [of k shift alt ctrl "[]"] arrow_code_negative [of k]
  by (auto simp: ffstd_keyparse_def rd_at_def schar_def uchar_def)

text \<open>
  Reading and writing leave no memory behind: the buffer of a conversion for the Windows console is
  freed on every way out, and so is the text of the formatted output.
\<close>

lemma wp_alloc_buf_utow:
  assumes "heap_after (trace s) = Some h"
    and "\<And>r s'. heap_after (trace s') = Some (h + w_heap (fst r)) \<Longrightarrow> fds_after (trace s') = fds_after (trace s) \<Longrightarrow> Q r s'"
  shows "wp (ffs_alloc_buf_utow K U dst n t) Q s"
  unfolding ffs_alloc_buf_utow_def using assms(1)
  by (intro wp_intros assms(2)) auto

lemma std_fmt_neutral:
  assumes "\<And>b. heap_neutral (out b)"
  shows "heap_neutral (std_fmt K out text)"
  unfolding std_fmt_def Let_def
  by (intro heap_neutralI wp_intros wp_mono [OF heap_neutralD [OF assms]]) (auto split: if_splits)

lemma ffstd_write_neutral: "heap_neutral (ffstd_write K U h data)"
  unfolding ffstd_write_def
  by (intro heap_neutralI wp_intros wp_alloc_buf_utow wp_free_res) auto

lemma std_write_neutral:
  "heap_neutral (ffstdout_write K b)" "heap_neutral (ffstderr_write K b)"
  "heap_neutral (ffstdout_write_win K U d)" "heap_neutral (ffstderr_write_win K U d)"
  unfolding ffstdout_write_def ffstderr_write_def ffstdout_write_win_def ffstderr_write_win_def
  by (intro heap_neutralI wp_intros wp_mono [OF heap_neutralD [OF ffstd_write_neutral]]; auto simp: heap_step_def)+

theorem std_memory:
  "wp (ffstdin_read_win K B U cap) (\<lambda>r s. heap_clean (trace s)) (start w e)"
  "wp (ffstdout_write_win K U data) (\<lambda>r s. heap_clean (trace s)) (start w e)"
  "wp (ffstderr_write_win K U data) (\<lambda>r s. heap_clean (trace s)) (start w e)"
  "wp (ffstdout_fmt K text) (\<lambda>r s. heap_clean (trace s)) (start w e)"
  "wp (ffstderr_fmt K text) (\<lambda>r s. heap_clean (trace s)) (start w e)"
  "wp (ffstdout_fmt_win K U text) (\<lambda>r s. heap_clean (trace s)) (start w e)"
  "wp (ffstderr_fmt_win K U text) (\<lambda>r s. heap_clean (trace s)) (start w e)"
proof -
  show "wp (ffstdin_read_win K B U cap) (\<lambda>r s. heap_clean (trace s)) (start w e)"
    unfolding ffstdin_read_win_def heap_clean_def
    by (intro wp_intros wp_free_res) (auto split: if_splits)
qed (unfold ffstdout_fmt_def ffstderr_fmt_def ffstdout_fmt_win_def ffstderr_fmt_win_def,
  (intro heap_neutral_clean std_fmt_neutral std_write_neutral)+)

text \<open>Every colour in every style is a sequence of its own.\<close>

lemma colour_text_inj: "inj colour_text"
proof (rule injI)
  show "colour_text c = colour_text d \<Longrightarrow> c = d" for c d by (cases c; cases d) simp_all
qed

lemma colours_differ:
  "inj FFSTD_CLR" "inj FFSTD_CLR_I" "inj FFSTD_CLR_B" "inj FFSTD_CLRBG" "inj FFSTD_CLRBG_I"
  "distinct [FFSTD_CLR_RESET, FFSTD_CLR c, FFSTD_CLR_I c, FFSTD_CLR_B c, FFSTD_CLRBG c, FFSTD_CLRBG_I c]"
  by (auto simp: FFSTD_CLR_def FFSTD_CLR_I_def FFSTD_CLR_B_def FFSTD_CLRBG_def FFSTD_CLRBG_I_def FFSTD_CLR_RESET_def
    inj_def inj_eq [OF colour_text_inj])

end
