(* ===== verification/Flags.thy ===== *)
theory Flags
  imports File File_Win Sock_Win Std
begin

text \<open>
  The constants that callers combine: attributes and types of files, the flags of opening, positions
  of seeking (\<open>FFOS/file.h\<close>), what \<open>ffsock_init\<close> prepares (\<open>FFOS/socket.h\<close>), modifier keys and
  attributes of a terminal (\<open>FFOS/std.h\<close>).  A combination is the union of the bits; the locale
  \<open>flag_set\<close> says when it tells which constants are in it, and every such set is an instance.
\<close>

subsection \<open>File types and attributes\<close>

datatype unix_type = UNIX_FIFO | UNIX_CHAR | UNIX_DIR | UNIX_BLOCK | UNIX_REG | UNIX_LINK | UNIX_SOCKET

definition FFFILE_UNIX_TYPEMASK :: u32 where "FFFILE_UNIX_TYPEMASK = 0xF000"

fun FFFILE_UNIX :: "unix_type \<Rightarrow> u32" where
  "FFFILE_UNIX UNIX_FIFO = 0x1000"
| "FFFILE_UNIX UNIX_CHAR = 0x2000"
| "FFFILE_UNIX UNIX_DIR = 0x4000"
| "FFFILE_UNIX UNIX_BLOCK = 0x6000"
| "FFFILE_UNIX UNIX_REG = 0x8000"
| "FFFILE_UNIX UNIX_LINK = 0xA000"
| "FFFILE_UNIX UNIX_SOCKET = 0xC000"

definition FFFILEATTR_UNIX_TYPEMASK :: u32 where "FFFILEATTR_UNIX_TYPEMASK = 0xF000"

fun FFFILEATTR_UNIX :: "unix_type \<Rightarrow> u32" where
  "FFFILEATTR_UNIX UNIX_FIFO = 0x1000"
| "FFFILEATTR_UNIX UNIX_CHAR = 0x2000"
| "FFFILEATTR_UNIX UNIX_DIR = 0x4000"
| "FFFILEATTR_UNIX UNIX_BLOCK = 0x6000"
| "FFFILEATTR_UNIX UNIX_REG = 0x8000"
| "FFFILEATTR_UNIX UNIX_LINK = 0xA000"
| "FFFILEATTR_UNIX UNIX_SOCKET = 0xC000"

datatype win_attr = READONLY | HIDDEN | SYSTEM | DIRECTORY | ARCHIVE | DEVICE | NORMAL

fun FFFILEATTR_WIN :: "win_attr \<Rightarrow> u32" where
  "FFFILEATTR_WIN READONLY = 1"
| "FFFILEATTR_WIN HIDDEN = 2"
| "FFFILEATTR_WIN SYSTEM = 4"
| "FFFILEATTR_WIN DIRECTORY = 0x10"
| "FFFILEATTR_WIN ARCHIVE = 0x20"
| "FFFILEATTR_WIN DEVICE = 0x40"
| "FFFILEATTR_WIN NORMAL = 0x80"

text \<open>The older enumeration has the first five only.\<close>

fun FFFILE_WIN :: "win_attr \<Rightarrow> u32 option" where
  "FFFILE_WIN READONLY = Some 1"
| "FFFILE_WIN HIDDEN = Some 2"
| "FFFILE_WIN SYSTEM = Some 4"
| "FFFILE_WIN DIRECTORY = Some 0x10"
| "FFFILE_WIN ARCHIVE = Some 0x20"
| "FFFILE_WIN _ = None"

subsection \<open>Opening and seeking\<close>

text \<open>The flags besides creation and access; 0 where a system has none.\<close>

datatype open_flag = TRUNCATE | NODOSNAME | APPEND | NONBLOCK | NOATIME | DIRECT

fun FFFILE_OPEN :: "os \<Rightarrow> open_flag \<Rightarrow> u32" where
  "FFFILE_OPEN os TRUNCATE = FFFILE_TRUNCATE"
| "FFFILE_OPEN os NODOSNAME = 0"
| "FFFILE_OPEN os APPEND = 0x400"
| "FFFILE_OPEN os NONBLOCK = 0x800"
| "FFFILE_OPEN os NOATIME = (if ff_linux os then O_NOATIME else 0)"
| "FFFILE_OPEN os DIRECT = (if os = Apple then 0 else 0x4000)"

fun FFFILE_OPEN_WIN :: "open_flag \<Rightarrow> u32" where
  "FFFILE_OPEN_WIN TRUNCATE = FFFILE_TRUNCATE_WIN"
| "FFFILE_OPEN_WIN NODOSNAME = FFFILE_NODOSNAME_WIN"
| "FFFILE_OPEN_WIN APPEND = FFFILE_APPEND_WIN"
| "FFFILE_OPEN_WIN NONBLOCK = 0"
| "FFFILE_OPEN_WIN NOATIME = 0"
| "FFFILE_OPEN_WIN DIRECT = 0x20000000 OR 0x40000000"

definition FFFILE_READWRITE_WIN :: u32 where
  "FFFILE_READWRITE_WIN = drop_bit 20 (0x80000000 OR 0x40000000)"

datatype seek_method = SEEK_BEGIN | SEEK_CURRENT | SEEK_END

fun FFFILE_SEEK :: "seek_method \<Rightarrow> int" where
  "FFFILE_SEEK SEEK_BEGIN = 0"
| "FFFILE_SEEK SEEK_CURRENT = 1"
| "FFFILE_SEEK SEEK_END = 2"

fun FFFILE_SEEK_WIN :: "seek_method \<Rightarrow> int" where
  "FFFILE_SEEK_WIN SEEK_BEGIN = 0"
| "FFFILE_SEEK_WIN SEEK_CURRENT = 1"
| "FFFILE_SEEK_WIN SEEK_END = 2"

subsection \<open>Sockets and terminals\<close>

datatype sock_init = SIGPIPE | WSA | WSAFUNCS

fun FFSOCK_INIT :: "sock_init \<Rightarrow> u32" where
  "FFSOCK_INIT SIGPIPE = 1"
| "FFSOCK_INIT WSA = 2"
| "FFSOCK_INIT WSAFUNCS = 4"

datatype key_mod = CTRL | SHIFT | ALT

fun FFKEY_MOD :: "key_mod \<Rightarrow> u32" where
  "FFKEY_MOD CTRL = FFKEY_CTRL"
| "FFKEY_MOD SHIFT = FFKEY_SHIFT"
| "FFKEY_MOD ALT = FFKEY_ALT"

definition FFKEY_MODMASK :: u32 where "FFKEY_MODMASK = FFKEY_CTRL OR FFKEY_SHIFT OR FFKEY_ALT"

subsection \<open>Combinations\<close>

definition flags_of :: "('a \<Rightarrow> u32) \<Rightarrow> 'a list \<Rightarrow> u32" where
  "flags_of val xs = foldr (\<lambda>a w. val a OR w) xs 0"

lemma flags_of_simps [simp]: "flags_of val [] = 0" "flags_of val (a # xs) = val a OR flags_of val xs"
  by (simp_all add: flags_of_def)

locale flag_set =
  fixes val :: "'a \<Rightarrow> u32"
  assumes disjoint: "a \<noteq> b \<Longrightarrow> val a AND val b = 0"
begin

lemma flags_and: "flags_of val xs AND val a = (if a \<in> set xs then val a else 0)"
proof (induction xs)
  case (Cons b xs)
  then show ?case using disjoint [of b a] by (auto simp: bit.conj_disj_distrib2)
qed simp

lemma member: "val a \<noteq> 0 \<Longrightarrow> tst (flags_of val xs) (val a) \<longleftrightarrow> a \<in> set xs"
  by (simp add: tst_def flags_and)

lemma without: "val a \<noteq> 0 \<Longrightarrow> tst (flags_of val xs AND NOT (val a)) (val b) \<longleftrightarrow> tst (flags_of val xs) (val b) \<and> a \<noteq> b"
proof -
  have "NOT (val a) AND val b = (if a = b then 0 else val b)"
    using disjoint [of a b] by (auto intro!: bit_word_eqI simp: bit_simps) (auto simp: bit_eq_iff bit_simps)
  then show ?thesis by (simp add: tst_def and.assoc)
qed

lemma order: "set xs = set ys \<Longrightarrow> flags_of val xs = flags_of val ys"
proof -
  have "bit (flags_of val zs) n \<longleftrightarrow> (\<exists>a \<in> set zs. bit (val a) n)" for zs n
    by (induction zs) (auto simp: bit_simps)
  then show "set xs = set ys \<Longrightarrow> flags_of val xs = flags_of val ys" by (intro bit_word_eqI) simp
qed

end

interpretation win_attrs: flag_set FFFILEATTR_WIN
proof
  show "FFFILEATTR_WIN a AND FFFILEATTR_WIN b = 0" if "a \<noteq> b" for a b using that by (cases a; cases b) simp_all
qed

interpretation open_flags: flag_set "FFFILE_OPEN os" for os
proof
  show "FFFILE_OPEN os a AND FFFILE_OPEN os b = 0" if "a \<noteq> b" for a b using that by (cases a; cases b) (simp_all add: flag_simps)
qed

interpretation open_flags_win: flag_set FFFILE_OPEN_WIN
proof
  show "FFFILE_OPEN_WIN a AND FFFILE_OPEN_WIN b = 0" if "a \<noteq> b" for a b using that by (cases a; cases b) (simp_all add: flag_simps)
qed

interpretation init_flags: flag_set FFSOCK_INIT
proof
  show "FFSOCK_INIT a AND FFSOCK_INIT b = 0" if "a \<noteq> b" for a b using that by (cases a; cases b) simp_all
qed

interpretation key_mods: flag_set FFKEY_MOD
proof
  show "FFKEY_MOD a AND FFKEY_MOD b = 0" if "a \<noteq> b" for a b using that by (cases a; cases b) (simp_all add: flag_simps)
qed

subsection \<open>Properties\<close>

text \<open>The type of a file is read off its mode whatever the permission bits, in both enumerations.\<close>

lemma type_field:
  fixes p :: u32
  assumes "p AND FFFILE_UNIX_TYPEMASK = 0"
  shows "(FFFILE_UNIX t OR p) AND FFFILE_UNIX_TYPEMASK = FFFILE_UNIX t"
  using assms by (cases t) (simp_all add: FFFILE_UNIX_TYPEMASK_def bit.conj_disj_distrib2)

lemma FFFILE_UNIX_inj: "FFFILE_UNIX t = FFFILE_UNIX u \<longleftrightarrow> t = u"
  by (cases t; cases u) simp_all

theorem isdir_of_type:
  assumes "p AND FFFILE_UNIX_TYPEMASK = 0"
  shows "fffile_isdir (FFFILE_UNIX t OR p) \<longleftrightarrow> t = UNIX_DIR"
    and "FFFILEATTR_UNIX t = FFFILE_UNIX t" "FFFILEATTR_UNIX_TYPEMASK = FFFILE_UNIX_TYPEMASK"
proof -
  have "fffile_isdir m \<longleftrightarrow> m AND FFFILE_UNIX_TYPEMASK = FFFILE_UNIX UNIX_DIR" for m
    by (simp add: fffile_isdir_def flag_simps FFFILE_UNIX_TYPEMASK_def)
  then show "fffile_isdir (FFFILE_UNIX t OR p) \<longleftrightarrow> t = UNIX_DIR" by (simp only: type_field [OF assms] FFFILE_UNIX_inj)
  show "FFFILEATTR_UNIX t = FFFILE_UNIX t" by (cases t) simp_all
qed (simp add: FFFILEATTR_UNIX_TYPEMASK_def FFFILE_UNIX_TYPEMASK_def)

theorem isdir_win_of_attrs: "fffile_isdir_win (flags_of FFFILEATTR_WIN xs) \<longleftrightarrow> DIRECTORY \<in> set xs"
  using win_attrs.member [of DIRECTORY xs] by (simp add: fffile_isdir_win_def)

text \<open>What \<open>ffsock_init\<close> does for a set of requests: the signal is ignored, the library is started.\<close>

theorem sock_init_requests:
  "calls_of (snd (run_state (ffsock_init K (flags_of FFSOCK_INIT xs)) (start w e))) =
     (if SIGPIPE \<in> set xs then [Sock (Sigaction_ignore 13)] else [])"
  using init_flags.member [of SIGPIPE xs] by (simp add: ffsock_init_def run_simps calls_of_def)

text \<open>Every other way to change a mask is unique: the modifiers of a key are those of its mask.\<close>

lemma key_mods_mask: "flags_of FFKEY_MOD [CTRL, SHIFT, ALT] = FFKEY_MODMASK"
  by (simp add: FFKEY_MODMASK_def flag_simps)

text \<open>
  The flags of Windows keep to their fields: a combination of them changes neither the creation nor the
  access that the caller gave, and the access for reading and writing is both.
\<close>

theorem open_win_fields:
  "flags_of FFFILE_OPEN_WIN xs AND 0xff0 = 0" "FFFILE_READWRITE_WIN = FFFILE_READONLY_WIN OR FFFILE_WRITEONLY_WIN"
proof -
  have "FFFILE_OPEN_WIN a AND 0xff0 = 0" for a by (cases a) (simp_all add: flag_simps)
  then show "flags_of FFFILE_OPEN_WIN xs AND 0xff0 = 0" by (induction xs) (simp_all add: bit.conj_disj_distrib2)
  show "FFFILE_READWRITE_WIN = FFFILE_READONLY_WIN OR FFFILE_WRITEONLY_WIN"
    by (simp add: FFFILE_READWRITE_WIN_def flag_simps)
qed

lemma seek_methods: "FFFILE_SEEK_WIN m = FFFILE_SEEK m"
  by (cases m) simp_all

end
