(* ===== verification/Fftest.thy ===== *)
theory Fftest
  imports Std
begin

text \<open>
  The checks of the test program (\<open>FFOS/test.h\<close>): a check counts, or prints a message and ends the
  process.  \<open>F\<close> is ffbase's formatting; comparisons of strings are ffbase's and are arguments.
\<close>

record ffos_test =
  checks_success :: u32
  keep_running :: bool
  log_all_checks :: bool

text \<open>Appending to an \<open>ffstr\<close> (its block and its text) that grows: without memory it stays as it is.\<close>

definition str_grow :: "'w kernel \<Rightarrow> bytes option \<Rightarrow> int \<times> bytes \<Rightarrow> ('w, int \<times> bytes) prog" where
  "str_grow K text s = (case text of None \<Rightarrow> State_Monad.return s
     | Some t \<Rightarrow> do {
         p \<leftarrow> sysi K (Mem (MRealloc (fst s) (length (snd s) + length t)));
         State_Monad.return (if p = 0 then s else (p, snd s @ t))
       })"

text \<open>The place of a check.\<close>

record place =
  at_file :: string
  at_line :: u32
  at_func :: string

definition test_log :: "'w kernel \<Rightarrow> fmt \<Rightarrow> place \<Rightarrow> ('w, unit) prog" where
  "test_log K F p = do {
     e \<leftarrow> fferr_last;
     ffstderr_fmt K (F (''%s:%d'' @ [CHR 0x0A]) [AStr (at_file p), AInt (uint (at_line p))]);
     fferr_set e
   }"

definition test_fail :: "'w kernel \<Rightarrow> fmt \<Rightarrow> place \<Rightarrow> string \<Rightarrow> arg list \<Rightarrow> ('w, unit) prog" where
  "test_fail K F p fmt va = do {
     s \<leftarrow> str_grow K (F ''FAIL: %s:%u: %s: '' [AStr (at_file p), AInt (uint (at_line p)), AStr (at_func p)]) (0, []);
     s \<leftarrow> str_grow K (F fmt va) s;
     s \<leftarrow> str_grow K (Some [10]) s;
     ffstderr_write K (snd s);
     sysi K (Mem (MFree (fst s)));
     State_Monad.return ()
   }"

text \<open>The result is \<open>None\<close> if the process was ended.\<close>

definition test_check :: "'w kernel \<Rightarrow> fmt \<Rightarrow> ffos_test \<Rightarrow> bool \<Rightarrow> place \<Rightarrow> string \<Rightarrow> arg list \<Rightarrow> ('w, ffos_test option) prog" where
  "test_check K F fftest ok p fmt va = do {
     (if log_all_checks fftest then test_log K F p else State_Monad.return ());
     if ok then State_Monad.return (Some (fftest\<lparr>checks_success := checks_success fftest + 1\<rparr>))
     else do {
       test_fail K F p fmt va;
       if \<not> keep_running fftest then do { sysi K (Proc Abort); State_Monad.return None }
       else State_Monad.return (Some fftest)
     }
   }"

definition x_check :: "'w kernel \<Rightarrow> fmt \<Rightarrow> ffos_test \<Rightarrow> place \<Rightarrow> bool \<Rightarrow> string \<Rightarrow> ('w, ffos_test option) prog" where
  "x_check K F t p b expr = test_check K F t b p ''%s'' [AStr expr]"

definition xieq :: "'w kernel \<Rightarrow> fmt \<Rightarrow> ffos_test \<Rightarrow> place \<Rightarrow> u64 \<Rightarrow> u64 \<Rightarrow> ('w, ffos_test option) prog" where
  "xieq K F t p i1 i2 = test_check K F t (i1 = i2) p ''%D != %D'' [AInt (sint i1), AInt (sint i2)]"

definition xstr :: "'w kernel \<Rightarrow> fmt \<Rightarrow> (string \<Rightarrow> string \<Rightarrow> bool) \<Rightarrow> ffos_test \<Rightarrow> place \<Rightarrow> string \<Rightarrow> string \<Rightarrow> ('w, ffos_test option) prog" where
  "xstr K F ffstr_eqz t p s sz = test_check K F t (ffstr_eqz s sz) p (CHR 0x27 # ''%S' != '%s'' @ [CHR 0x27]) [AStr s, AStr sz]"

definition xsz :: "'w kernel \<Rightarrow> fmt \<Rightarrow> (string \<Rightarrow> string \<Rightarrow> bool) \<Rightarrow> ffos_test \<Rightarrow> place \<Rightarrow> string \<Rightarrow> string \<Rightarrow> ('w, ffos_test option) prog" where
  "xsz K F ffsz_eq t p sz1 sz2 = test_check K F t (ffsz_eq sz1 sz2) p (CHR 0x27 # ''%s' != '%s'' @ [CHR 0x27]) [AStr sz1, AStr sz2]"

text \<open>
  The order in which the arguments of a call are evaluated is up to the compiler: \<open>ltr\<close> tells whether
  the expression is evaluated before the error code is read.
\<close>

definition x_sys :: "'w kernel \<Rightarrow> fmt \<Rightarrow> bool \<Rightarrow> ffos_test \<Rightarrow> place \<Rightarrow> ('w, bool) prog \<Rightarrow> string \<Rightarrow> ('w, ffos_test option) prog" where
  "x_sys K F ltr t p m expr = do {
     a \<leftarrow> (if ltr then do { b \<leftarrow> m; e \<leftarrow> fferr_last; State_Monad.return (b, e) }
          else do { e \<leftarrow> fferr_last; b \<leftarrow> m; State_Monad.return (b, e) });
     test_check K F t (fst a) p ''%s: %E'' [AStr expr, AInt (snd a)]
   }"

definition xint_sys :: "'w kernel \<Rightarrow> fmt \<Rightarrow> ffos_test \<Rightarrow> place \<Rightarrow> ('w, u64) prog \<Rightarrow> ('w, u64) prog \<Rightarrow> ('w, ffos_test option) prog" where
  "xint_sys K F t p m1 m2 = do {
     i1 \<leftarrow> m1;
     i2 \<leftarrow> m2;
     e \<leftarrow> fferr_last;
     test_check K F t (i1 = i2) p ''%D != %D: %E'' [AInt (sint i1), AInt (sint i2), AInt e]
   }"

subsection \<open>Properties\<close>

lemma wp_str_grow:
  assumes "heap_after (trace s) = Some (h + block (fst a))"
  shows "wp (str_grow K text a) (\<lambda>r s'. heap_after (trace s') = Some (h + block (fst r)) \<and>
    (mem_available K \<longrightarrow> snd r = snd a @ (case text of None \<Rightarrow> [] | Some t \<Rightarrow> t))) s"
  unfolding str_grow_def using assms
  by (intro wp_intros) (auto simp: block_def mem_availableD)

definition fail_text :: "fmt \<Rightarrow> place \<Rightarrow> string \<Rightarrow> arg list \<Rightarrow> bytes" where
  "fail_text F p fmt va = (case F ''FAIL: %s:%u: %s: '' [AStr (at_file p), AInt (uint (at_line p)), AStr (at_func p)] of
      None \<Rightarrow> [] | Some t \<Rightarrow> t) @ (case F fmt va of None \<Rightarrow> [] | Some t \<Rightarrow> t) @ [10]"

definition check_result :: "ffos_test \<Rightarrow> bool \<Rightarrow> ffos_test option" where
  "check_result t ok = (if ok then Some (t\<lparr>checks_success := checks_success t + 1\<rparr>)
     else if keep_running t then Some t else None)"

lemma ffstderr_fmt_neutral: "heap_neutral (ffstderr_fmt K text)"
  unfolding ffstderr_fmt_def by (intro std_fmt_neutral std_write_neutral)

lemma wp_test_log:
  "wp (test_log K F p)
     (\<lambda>r s'. lasterr s' = lasterr s \<and> (\<forall>h. heap_after (trace s) = Some h \<longrightarrow> heap_after (trace s') = Some h)) s"
  unfolding test_log_def by (intro wp_intros wp_mono [OF heap_neutralD [OF ffstderr_fmt_neutral]]) auto

lemma wp_test_fail:
  assumes "heap_after (trace s) = Some h"
  shows "wp (test_fail K F p fmt va) (\<lambda>r s'. heap_after (trace s') = Some h \<and>
    (mem_available K \<longrightarrow> FileC (Write 2 (fail_text F p fmt va)) \<in> set (calls_of s'))) s"
  unfolding test_fail_def ffstderr_write_def
  by (intro wp_bind wp_return wp_sysi wp_mono [OF wp_str_grow [where h = h]])
    (auto simp: assms fail_text_def block_def heap_step_def calls_of_def)

lemma wp_test_check:
  assumes "heap_after (trace s) = Some h"
  shows "wp (test_check K F t ok p fmt va) (\<lambda>r s'. r = check_result t ok \<and> heap_after (trace s') = Some h \<and>
    (ok \<longrightarrow> lasterr s' = lasterr s) \<and>
    (\<not> ok \<and> mem_available K \<longrightarrow> FileC (Write 2 (fail_text F p fmt va)) \<in> set (calls_of s'))) s"
proof -
  have l: "wp (if log_all_checks t then test_log K F p else State_Monad.return ())
    (\<lambda>r s'. lasterr s' = lasterr s \<and> heap_after (trace s') = Some h) s"
    using assms by (intro wp_if wp_return wp_mono [OF wp_test_log]) auto
  show ?thesis
  proof (cases ok)
    case True
    show ?thesis
      unfolding test_check_def if_P [OF True]
      by (intro wp_bind wp_mono [OF l] wp_return) (use True in \<open>simp add: check_result_def\<close>)
  next
    case False
    have f: "wp (if \<not> keep_running t then do { sysi K (Proc Abort); State_Monad.return None } else State_Monad.return (Some t))
      (\<lambda>r s'. r = check_result t ok \<and> heap_after (trace s') = heap_after (trace s) \<and> set (calls_of s) \<subseteq> set (calls_of s')) s" for s
      using False by (intro wp_intros) (auto simp: check_result_def heap_step_def calls_of_def split: option.splits)
    show ?thesis
      unfolding test_check_def if_not_P [OF False]
      by (intro wp_bind wp_mono [OF l] wp_mono [OF wp_test_fail [where h = h]] wp_mono [OF f]) (use False in auto)
  qed
qed

subsection \<open>A run of the test program\<close>

text \<open>A run is a sequence of checks with their outcomes; what it does between them is not part of it.\<close>

record check =
  c_ok :: bool
  c_at :: place
  c_fmt :: string
  c_va :: "arg list"

fun run_checks :: "'w kernel \<Rightarrow> fmt \<Rightarrow> ffos_test \<Rightarrow> check list \<Rightarrow> ('w, ffos_test option) prog" where
  "run_checks K F t [] = State_Monad.return (Some t)"
| "run_checks K F t (c # cs) = do {
     r \<leftarrow> test_check K F t (c_ok c) (c_at c) (c_fmt c) (c_va c);
     case r of None \<Rightarrow> State_Monad.return None | Some t' \<Rightarrow> run_checks K F t' cs
   }"

lemma wp_run_checks:
  assumes "heap_after (trace s) = Some h"
  shows "wp (run_checks K F t cs) (\<lambda>r s'.
     r = (if (\<forall>c \<in> set cs. c_ok c) \<or> keep_running t
          then Some (t\<lparr>checks_success := checks_success t + of_nat (length (filter c_ok cs))\<rparr>) else None) \<and>
     heap_after (trace s') = Some h \<and> ((\<forall>c \<in> set cs. c_ok c) \<longrightarrow> lasterr s' = lasterr s)) s"
  using assms
proof (induction cs arbitrary: t s)
  case Nil
  then show ?case by (auto intro!: wp_return)
next
  case (Cons c cs)
  have r: "wp (case r of None \<Rightarrow> State_Monad.return None | Some t' \<Rightarrow> run_checks K F t' cs) (\<lambda>r s'.
     r = (if (\<forall>c \<in> set (c # cs). c_ok c) \<or> keep_running t
          then Some (t\<lparr>checks_success := checks_success t + of_nat (length (filter c_ok (c # cs)))\<rparr>) else None) \<and>
     heap_after (trace s') = Some h \<and> ((\<forall>c \<in> set (c # cs). c_ok c) \<longrightarrow> lasterr s' = lasterr s)) s2"
    if "r = check_result t (c_ok c)" "heap_after (trace s2) = Some h" "c_ok c \<longrightarrow> lasterr s2 = lasterr s" for r s2
    using that by (cases "c_ok c") (auto simp: check_result_def add.assoc intro!: wp_return wp_mono [OF Cons.IH])
  show ?case
    unfolding run_checks.simps by (intro wp_bind wp_mono [OF wp_test_check [OF Cons.prems]] r) simp_all
qed

text \<open>
  The test program counts its checks right: without a failed check it goes on to the end, has
  counted every one (modulo \<open>2^32\<close>) and the error code is untouched, also when every check is
  logged; a failed check ends it unless \<open>keep_running\<close> is set, and then counts nothing.  Nothing stays
  allocated.
\<close>

theorem test_checks_counted:
  "wp (run_checks K F t cs) (\<lambda>r s'.
     r = (if (\<forall>c \<in> set cs. c_ok c) \<or> keep_running t
          then Some (t\<lparr>checks_success := checks_success t + of_nat (length (filter c_ok cs))\<rparr>) else None) \<and>
     heap_clean (trace s') \<and> ((\<forall>c \<in> set cs. c_ok c) \<longrightarrow> lasterr s' = e)) (start w e)"
  unfolding heap_clean_def by (rule wp_mono [OF wp_run_checks [where h = "{#}"]]) auto

text \<open>
  With arguments evaluated from right to left \<open>x_sys\<close> reads the error code before the expression sets
  it, and the message has an older code.
\<close>

definition failing :: "('w, bool) prog" where
  "failing = do { fferr_set 5; State_Monad.return False }"

definition quietK :: "call \<Rightarrow> unit \<Rightarrow> reply \<times> unit" where
  "quietK c w = (\<lparr>rv = (case c of Mem (MRealloc p n) \<Rightarrow> 1 | _ \<Rightarrow> 0), rerr = None, rout = NoOut\<rparr>, w)"

fun show_code :: "string \<Rightarrow> arg list \<Rightarrow> bytes option" where
  "show_code f [AStr s, AInt e] = Some [of_int e]"
| "show_code f _ = Some []"

lemma x_sys_stale_error:
  "calls_of (snd (run_state (x_sys quietK show_code ltr \<lparr>checks_success = 0, keep_running = True, log_all_checks = False\<rparr>
      \<lparr>at_file = [], at_line = 1, at_func = []\<rparr> failing ''f()'') (start () 0))) =
    [Mem (MRealloc 0 0), Mem (MRealloc 1 1), Mem (MRealloc 1 2), FileC (Write 2 [if ltr then 5 else 0, 10]), Mem (MFree 1)]"
  by (simp add: x_sys_def failing_def test_check_def test_fail_def str_grow_def quietK_def ffstderr_write_def calls_of_def
    start_def run_simps)

end
