(* ===== verification/Semaphore.thy ===== *)
theory Semaphore
  imports Wstring
begin

text \<open>
  Semaphores (\<open>FFOS/semaphore.h\<close>): the implementations for Linux/BSD, macOS and Windows.

  On Linux and BSD a semaphore is a pointer to a heap object \<open>struct _ffsem\<close>: \<open>psem\<close> is the
  named semaphore, or \<open>NULL\<close> for an unnamed one, whose data follows in the same object.  The
  members never change after \<open>ffsem_open\<close>, so the object is carried as a value with its
  address.  The waits may block, and they repeat when a signal interrupts them: they are functions
  on the state with an optional result, \<open>None\<close> when they never return.
\<close>

datatype ffsem = SemNull | Sem (sem_ptr: int) (sem_psem: int)

text \<open>The address of the member \<open>sem\<close>, behind the pointer \<open>psem\<close>.\<close>

definition sem_data :: "int \<Rightarrow> int" where
  "sem_data p = p + 8"

definition sem_handle :: "int \<Rightarrow> int \<Rightarrow> int" where
  "sem_handle p psem = (if psem \<noteq> 0 then psem else sem_data p)"

definition FFSEM_CREATE :: u32 where [flag_simps]: "FFSEM_CREATE = 0x40"
definition FFSEM_CREATENEW :: u32 where [flag_simps]: "FFSEM_CREATENEW = 0xC0"

subsection \<open>Linux and BSD\<close>

text \<open>\<open>SEM_FAILED\<close> is the null pointer; \<open>sizeof(struct _ffsem)\<close> is 40.\<close>

definition ffsem_open :: "'w kernel \<Rightarrow> string option \<Rightarrow> u32 \<Rightarrow> u32 \<Rightarrow> ('w, ffsem) prog" where
  "ffsem_open K name flags val =
     (case name of
        None \<Rightarrow> do {
          p \<leftarrow> sysi K (Mem (MAlloc 40));
          if p = 0 then State_Monad.return SemNull
          else do {
            r \<leftarrow> sysi K (Ev (Sem_init (sem_data p) val));
            if r \<noteq> 0 then do { sysi K (Mem (MFree p)); State_Monad.return SemNull }
            else State_Monad.return (Sem p 0)
          }
        }
      | Some name \<Rightarrow> do {
          p \<leftarrow> sysi K (Mem (MAlloc 8));
          if p = 0 then State_Monad.return SemNull
          else do {
            q \<leftarrow> sysi K (Ev (Sem_open name flags 0x1B6 val));
            if q = 0 then do { sysi K (Mem (MFree p)); State_Monad.return SemNull }
            else State_Monad.return (Sem p q)
          }
        })"

definition ffsem_close :: "'w kernel \<Rightarrow> ffsem \<Rightarrow> ('w, unit) prog" where
  "ffsem_close K sem =
     (case sem of
        SemNull \<Rightarrow> State_Monad.return ()
      | Sem p psem \<Rightarrow> do {
          (if psem \<noteq> 0 then sysi K (Ev (Sem_close psem)) else sysi K (Ev (Sem_destroy (sem_data p))));
          sysi K (Mem (MFree p));
          State_Monad.return ()
        })"

text \<open>\<open>do r = c; while (r != 0 && errno == EINTR);\<close>\<close>

partial_function (option) retry_eintr :: "'w kernel \<Rightarrow> call \<Rightarrow> 'w sys \<Rightarrow> (int \<times> 'w sys) option" where
  "retry_eintr K c s =
     (let rs = run_state (sysi K c) s
      in if fst rs \<noteq> 0 \<and> lasterr (snd rs) = EINTR then retry_eintr K c (snd rs) else Some rs)"

definition sem_trywait :: "'w kernel \<Rightarrow> int \<Rightarrow> ('w, int) prog" where
  "sem_trywait K q = do {
     r \<leftarrow> sysi K (Ev (Sem_trywait q));
     e \<leftarrow> fferr_last;
     if r \<noteq> 0 \<and> fferr_again e then do { fferr_set ETIMEDOUT; State_Monad.return r }
     else State_Monad.return r
   }"

text \<open>The deadline of a timed wait: \<open>(time_ms % 1000) * 1000 * 1000\<close> is added to the
  nanoseconds, without a carry into the seconds.\<close>

definition sem_deadline :: "timespec \<Rightarrow> u32 \<Rightarrow> timespec" where
  "sem_deadline ts time_ms =
     \<lparr>ts_sec = ts_sec ts + ucast (time_ms div 1000),
      ts_nsec = ts_nsec ts + ucast ((time_ms mod 1000) * 1000 * 1000)\<rparr>"

definition ffsem_wait :: "'w kernel \<Rightarrow> ffsem \<Rightarrow> u32 \<Rightarrow> 'w sys \<Rightarrow> (int \<times> 'w sys) option" where
  "ffsem_wait K sem time_ms s =
     (case sem of
        SemNull \<Rightarrow> Some (run_state (do { fferr_set EINVAL; State_Monad.return (-1) }) s)
      | Sem p psem \<Rightarrow>
          let q = sem_handle p psem in
          if time_ms = 0 then Some (run_state (sem_trywait K q) s)
          else if time_ms = -1 then retry_eintr K (Ev (Sem_wait q)) s
          else
            let xs = run_state (sys K (Ev Clock_gettime)) s;
                ts = (case rout (fst xs) of OTime ts \<Rightarrow> ts | _ \<Rightarrow> \<lparr>ts_sec = 0, ts_nsec = 0\<rparr>)
            in retry_eintr K (Ev (Sem_timedwait q (sem_deadline ts time_ms))) (snd xs))"

definition ffsem_unlink :: "'w kernel \<Rightarrow> string \<Rightarrow> ('w, int) prog" where
  "ffsem_unlink K name = sysi K (Ev (Sem_unlink name))"

definition ffsem_post :: "'w kernel \<Rightarrow> ffsem \<Rightarrow> ('w, int) prog" where
  "ffsem_post K sem =
     (case sem of
        SemNull \<Rightarrow> do { fferr_set EINVAL; State_Monad.return (-1) }
      | Sem p psem \<Rightarrow> sysi K (Ev (Sem_post (sem_handle p psem))))"

subsection \<open>macOS\<close>

text \<open>
  A semaphore is the pointer \<open>sem_open\<close> returns (\<open>SEM_FAILED\<close> is \<open>-1\<close>); an unnamed one
  is a named one that is unlinked at once.  \<open>fmt\<close> stands for ffbase's
  \<open>ffsz_allocfmt("/tmp/ffsem-%u", pid)\<close>, whose memory is a call.
\<close>

definition ffsem_open_apple ::
  "'w kernel \<Rightarrow> (int \<Rightarrow> string) \<Rightarrow> string option \<Rightarrow> u32 \<Rightarrow> u32 \<Rightarrow> ('w, int) prog" where
  "ffsem_open_apple K fmt name flags val =
     (case name of
        Some name \<Rightarrow> do {
          sem \<leftarrow> sysi K (Ev (Sem_open name flags 0x1B6 val));
          State_Monad.return (if sem = -1 then 0 else sem)
        }
      | None \<Rightarrow> do {
          pid \<leftarrow> sysi K (Ev Getpid);
          aname \<leftarrow> sysi K (Mem (MAlloc (length (fmt pid) + 1)));
          if aname = 0 then State_Monad.return 0
          else do {
            sem \<leftarrow> sysi K (Ev (Sem_open (fmt pid) FFSEM_CREATENEW 0x1B6 val));
            if sem = -1 then do { sysi K (Mem (MFree aname)); State_Monad.return 0 }
            else do {
              sysi K (Ev (Sem_unlink (fmt pid)));
              sysi K (Mem (MFree aname));
              State_Monad.return sem
            }
          }
        })"

definition ffsem_close_apple :: "'w kernel \<Rightarrow> int \<Rightarrow> ('w, unit) prog" where
  "ffsem_close_apple K sem =
     (if sem = 0 then State_Monad.return ()
      else do { sysi K (Ev (Sem_close sem)); State_Monad.return () })"

definition ffsem_wait_apple :: "'w kernel \<Rightarrow> int \<Rightarrow> u32 \<Rightarrow> 'w sys \<Rightarrow> (int \<times> 'w sys) option" where
  "ffsem_wait_apple K sem time_ms s =
     (if sem = 0 then Some (run_state (do { fferr_set EINVAL; State_Monad.return (-1) }) s)
      else if time_ms = 0 then Some (run_state (sem_trywait K sem) s)
      else if time_ms = -1 then retry_eintr K (Ev (Sem_wait sem)) s
      else Some (run_state (do { fferr_set EINVAL; State_Monad.return (-1) }) s))"

definition ffsem_post_apple :: "'w kernel \<Rightarrow> int \<Rightarrow> ('w, int) prog" where
  "ffsem_post_apple K sem =
     (if sem = 0 then do { fferr_set EINVAL; State_Monad.return (-1) }
      else sysi K (Ev (Sem_post sem)))"

subsection \<open>Windows\<close>

definition FFSEM_CREATE_WIN :: u32 where [flag_simps]: "FFSEM_CREATE_WIN = 1"
definition FFSEM_CREATENEW_WIN :: u32 where [flag_simps]: "FFSEM_CREATENEW_WIN = 2"

definition sem_createnew_win :: "'w kernel \<Rightarrow> wstr \<Rightarrow> u32 \<Rightarrow> ('w, int) prog" where
  "sem_createnew_win K wname val = do {
     s \<leftarrow> sysi K (WinIo (OpenSemaphoreW wname));
     if s \<noteq> 0 then do {
       sysi K (WinFile (CloseHandle s));
       fferr_set ERROR_ALREADY_EXISTS;
       State_Monad.return 0
     }
     else sysi K (WinIo (CreateSemaphoreW val (Some wname)))
   }"

definition ffsem_open_win :: "'w kernel \<Rightarrow> wconv \<Rightarrow> string option \<Rightarrow> u32 \<Rightarrow> u32 \<Rightarrow> ('w, int) prog" where
  "ffsem_open_win K U name flags val =
     (case name of
        None \<Rightarrow> sysi K (WinIo (CreateSemaphoreW val None))
      | Some name \<Rightarrow> do {
          w \<leftarrow> utow256 K U name;
          if w = WNull then State_Monad.return 0
          else do {
            s \<leftarrow> (if flags = FFSEM_CREATENEW_WIN then sem_createnew_win K (w_chars w) val
                 else if flags = FFSEM_CREATE_WIN then sysi K (WinIo (CreateSemaphoreW val (Some (w_chars w))))
                 else if flags = 0 then sysi K (WinIo (OpenSemaphoreW (w_chars w)))
                 else do { fferr_set ERROR_INVALID_PARAMETER; State_Monad.return 0 });
            w_free K w;
            State_Monad.return s
          }
        })"

definition ffsem_close_win :: "'w kernel \<Rightarrow> int \<Rightarrow> ('w, unit) prog" where
  "ffsem_close_win K s = do { sysi K (WinFile (CloseHandle s)); State_Monad.return () }"

definition ffsem_wait_win :: "'w kernel \<Rightarrow> int \<Rightarrow> u32 \<Rightarrow> ('w, int) prog" where
  "ffsem_wait_win K s time_ms = do {
     r \<leftarrow> sysi K (WinIo (WaitForSingleObject s time_ms));
     if r = 0 then State_Monad.return 0
     else if r = WAIT_TIMEOUT then do { fferr_set WSAETIMEDOUT; State_Monad.return r }
     else State_Monad.return r
   }"

definition ffsem_unlink_win :: "string \<Rightarrow> ('w, int) prog" where
  "ffsem_unlink_win name = State_Monad.return 0"

definition ffsem_post_win :: "'w kernel \<Rightarrow> int \<Rightarrow> ('w, int) prog" where
  "ffsem_post_win K s = do {
     r \<leftarrow> sysi K (WinIo (ReleaseSemaphore s));
     State_Monad.return (c_bool (r = 0))
   }"

subsection \<open>Properties: resources\<close>

fun sem_heap :: "ffsem \<Rightarrow> int multiset" where
  "sem_heap SemNull = {#}"
| "sem_heap (Sem p q) = {#p#}"

text \<open>
  \<open>ffsem_open\<close> leaves allocated exactly the object it returns, named or not, also
  when the semaphore cannot be created; \<open>ffsem_close\<close> gives it back.  On Windows the only
  handle left is the one returned, and the converted name is freed.
\<close>

theorem sem_open_close_resources:
  "wp (ffsem_open K name flags val) (\<lambda>sem s. heap_after (trace s) = Some (sem_heap sem)) (start w e) \<and>
   wp (do { sem \<leftarrow> ffsem_open K name flags val; ffsem_close K sem })
     (\<lambda>r s. heap_clean (trace s)) (start w e) \<and>
   wp (ffsem_open_apple K fmt name flags val) (\<lambda>sem s. heap_clean (trace s)) (start w e) \<and>
   wp (ffsem_open_win K U name flags val)
     (\<lambda>h s. heap_clean (trace s) \<and> fds_after (trace s) = Some (if h = 0 then {#} else {#h#})) (start w e)"
proof (intro conjI)
  show o: "wp (ffsem_open K name flags val) (\<lambda>sem s. heap_after (trace s) = Some (sem_heap sem)) (start w e)"
    unfolding ffsem_open_def by (intro wp_intros) simp_all
  have "wp (ffsem_open K name flags val)
      (\<lambda>sem s. heap_after (trace s) = Some (sem_heap sem) \<and> (\<forall>p q. sem = Sem p q \<longrightarrow> p \<noteq> 0)) (start w e)"
    unfolding ffsem_open_def by (intro wp_intros) simp_all
  moreover have "wp (ffsem_close K sem) (\<lambda>r s. heap_clean (trace s)) s"
    if "heap_after (trace s) = Some (sem_heap sem) \<and> (\<forall>p q. sem = Sem p q \<longrightarrow> p \<noteq> 0)" for sem s
    using that unfolding ffsem_close_def heap_clean_def
    by (cases sem) (auto intro!: wp_intros simp: heap_step_def)
  ultimately show "wp (do { sem \<leftarrow> ffsem_open K name flags val; ffsem_close K sem })
     (\<lambda>r s. heap_clean (trace s)) (start w e)"
    by (intro wp_bind) (rule wp_mono)
  show "wp (ffsem_open_apple K fmt name flags val) (\<lambda>sem s. heap_clean (trace s)) (start w e)"
    unfolding ffsem_open_apple_def heap_clean_def by (intro wp_intros) simp_all
  show "wp (ffsem_open_win K U name flags val)
     (\<lambda>h s. heap_clean (trace s) \<and> fds_after (trace s) = Some (if h = 0 then {#} else {#h#})) (start w e)"
    unfolding ffsem_open_win_def sem_createnew_win_def heap_clean_def
    by (intro wp_intros wp_res) (simp_all add: fd_step_def closed_def)
qed

subsection \<open>Properties: waiting\<close>

text \<open>The state after \<open>n\<close> attempts, and whether the next attempt is interrupted.\<close>

primrec attempts :: "'w kernel \<Rightarrow> call \<Rightarrow> nat \<Rightarrow> 'w sys \<Rightarrow> 'w sys" where
  "attempts K c 0 s = s"
| "attempts K c (Suc n) s = attempts K c n (snd (run_state (sysi K c) s))"

definition interrupted :: "'w kernel \<Rightarrow> call \<Rightarrow> 'w sys \<Rightarrow> bool" where
  "interrupted K c s \<longleftrightarrow>
     fst (run_state (sysi K c) s) \<noteq> 0 \<and> lasterr (snd (run_state (sysi K c) s)) = EINTR"

lemma retry_returns:
  assumes "\<forall>i<n. interrupted K c (attempts K c i s)" "\<not> interrupted K c (attempts K c n s)"
  shows "retry_eintr K c s = Some (run_state (sysi K c) (attempts K c n s))"
  using assms
proof (induction n arbitrary: s)
  case 0
  then show ?case by (subst retry_eintr.simps) (auto simp: Let_def interrupted_def)
next
  case (Suc n)
  let ?s = "snd (run_state (sysi K c) s)"
  have "interrupted K c s" using Suc.prems(1) by fastforce
  then have "retry_eintr K c s = retry_eintr K c ?s"
    by (subst retry_eintr.simps) (simp add: Let_def interrupted_def)
  moreover have "\<forall>i<n. interrupted K c (attempts K c i ?s)" using Suc.prems(1) by fastforce
  ultimately show ?case using Suc.IH [of ?s] Suc.prems(2) by simp
qed

lemma retry_not_eintr:
  assumes "retry_eintr K c s = Some rs"
  shows "\<not> (fst rs \<noteq> 0 \<and> lasterr (snd rs) = EINTR)"
proof (rule retry_eintr.raw_induct [where P = "\<lambda>K c s rs. \<not> (fst rs \<noteq> 0 \<and> lasterr (snd rs) = EINTR)",
      OF _ assms])
  fix retry :: "'a kernel \<Rightarrow> call \<Rightarrow> 'a sys \<Rightarrow> (int \<times> 'a sys) option" and K c s y
  assume "\<And>K c s y. retry K c s = Some y \<Longrightarrow> \<not> (fst y \<noteq> 0 \<and> lasterr (snd y) = EINTR)"
    and "(let rs = run_state (sysi K c) s in
      if fst rs \<noteq> 0 \<and> lasterr (snd rs) = EINTR then retry K c (snd rs) else Some rs) = Some y"
  then show "\<not> (fst y \<noteq> 0 \<and> lasterr (snd y) = EINTR)"
    unfolding Let_def by (simp only: split: if_splits) blast+
qed

text \<open>
  The blocking wait of Linux and macOS repeats the system's wait as long as signals
  interrupt it and returns what the first uninterrupted attempt returned; \<open>EINTR\<close> never reaches
  the caller.  The null semaphore is refused with \<open>EINVAL\<close>, and the attempt with time
  \<open>0\<close> reports \<open>ETIMEDOUT\<close> when the semaphore is taken.
\<close>

theorem sem_wait_retries:
  fixes K :: "'w kernel" and p :: int and psem :: int
  assumes "\<forall>i<n. interrupted K (Ev (Sem_wait (sem_handle p psem))) (attempts K (Ev (Sem_wait (sem_handle p psem))) i s)"
    and "\<not> interrupted K (Ev (Sem_wait (sem_handle p psem))) (attempts K (Ev (Sem_wait (sem_handle p psem))) n s)"
  shows "ffsem_wait K (Sem p psem) (-1) s =
      Some (run_state (sysi K (Ev (Sem_wait (sem_handle p psem)))) (attempts K (Ev (Sem_wait (sem_handle p psem))) n s)) \<and>
    (\<forall>r s'. ffsem_wait K (Sem p psem) (-1) s = Some (r, s') \<longrightarrow> r = 0 \<or> lasterr s' \<noteq> EINTR) \<and>
    ffsem_wait K SemNull t s = Some (-1, s\<lparr>lasterr := EINVAL\<rparr>) \<and>
    wp (sem_trywait K q) (\<lambda>r s. r = 0 \<or> lasterr s \<noteq> EAGAIN) s"
proof (intro conjI)
  let ?c = "Ev (Sem_wait (sem_handle p psem))"
  have w: "ffsem_wait K (Sem p psem) (-1) s = retry_eintr K ?c s" by (simp add: ffsem_wait_def Let_def)
  show "ffsem_wait K (Sem p psem) (-1) s = Some (run_state (sysi K ?c) (attempts K ?c n s))"
    unfolding w by (rule retry_returns [OF assms])
  show "\<forall>r s'. ffsem_wait K (Sem p psem) (-1) s = Some (r, s') \<longrightarrow> r = 0 \<or> lasterr s' \<noteq> EINTR"
    unfolding w using retry_not_eintr [of K ?c s] by fastforce
  show "ffsem_wait K SemNull t s = Some (-1, s\<lparr>lasterr := EINVAL\<rparr>)"
    by (simp add: ffsem_wait_def run_simps)
  show "wp (sem_trywait K q) (\<lambda>r s. r = 0 \<or> lasterr s \<noteq> EAGAIN) s"
    unfolding sem_trywait_def by (intro wp_intros) (auto simp: fferr_again_def)
qed

text \<open>A system that is interrupted until the world's counter has run down.\<close>

definition signalsK :: "call \<Rightarrow> nat \<Rightarrow> reply \<times> nat" where
  "signalsK c n = (if n = 0 then (\<lparr>rv = 0, rerr = None, rout = NoOut\<rparr>, 0)
     else (\<lparr>rv = -1, rerr = Some EINTR, rout = NoOut\<rparr>, n - 1))"

theorem sem_wait_retries_witness:
  "map_option (\<lambda>x. (fst x, length (trace (snd x)))) (ffsem_wait signalsK (Sem 64 0) (-1) (start 2 0)) = Some (0, 3)"
proof -
  let ?c = "Ev (Sem_wait (sem_handle 64 0))"
  have i: "i < 2 \<Longrightarrow> i = 0 \<or> i = 1" for i :: nat by arith
  have a: "\<forall>i<2. interrupted signalsK ?c (attempts signalsK ?c i (start 2 0))"
    by (auto dest!: i simp: interrupted_def run_simps signalsK_def)
  have b: "\<not> interrupted signalsK ?c (attempts signalsK ?c 2 (start 2 0))"
    by (simp add: interrupted_def run_simps signalsK_def numeral_2_eq_2)
  show ?thesis
    using sem_wait_retries [OF a b] by (simp add: run_simps signalsK_def numeral_2_eq_2)
qed

text \<open>
  The deadline of a timed wait is off: the milliseconds are added to the nanoseconds
  of the clock without a carry, so the \<open>timespec\<close> is valid (below \<open>10^9\<close> ns) only if the
  sum stays within the second.  For a wait of \<open>ms\<close> milliseconds started late in a second the
  system is given an invalid time; the point in time it stands for is right.
\<close>

theorem sem_deadline_not_normalised:
  assumes "unat (ts_nsec ts) < 1000000000" "unat (ts_sec ts) < 2 ^ 62"
  shows "(unat (ts_nsec (sem_deadline ts ms)) < 1000000000 \<longleftrightarrow>
      unat (ts_nsec ts) + unat ms mod 1000 * 1000000 < 1000000000) \<and>
    unat (ts_sec (sem_deadline ts ms)) * 1000000000 + unat (ts_nsec (sem_deadline ts ms)) =
      unat (ts_sec ts) * 1000000000 + unat (ts_nsec ts) + unat ms * 1000000"
proof -
  have m: "unat ms mod 1000 < 1000" by simp
  have "unat ((ms mod 1000) * 1000 * 1000) = unat ms mod 1000 * 1000000"
    using m by (simp add: unat_word_ariths unat_mod mod_simps)
  then have n: "unat (ts_nsec (sem_deadline ts ms)) = unat (ts_nsec ts) + unat ms mod 1000 * 1000000"
    using assms(1) m unfolding sem_deadline_def by (simp add: unat_word_ariths unsigned_ucast_eq take_bit_eq_mod)
  have "unat ms < 4294967296" using unsigned_less [of ms, where 'a = nat] by simp
  then have "unat ms div 1000 < 4294967296" by (rule le_less_trans [OF div_le_dividend])
  then have s: "unat (ts_sec (sem_deadline ts ms)) = unat (ts_sec ts) + unat ms div 1000"
    using assms(2) unfolding sem_deadline_def
    by (simp add: unat_word_ariths unat_div unsigned_ucast_eq take_bit_eq_mod)
  have "unat ms mod 1000 * 1000000 + unat ms div 1000 * 1000000000 = unat ms * 1000000"
    using div_mult_mod_eq [of "unat ms" 1000] by linarith
  then show ?thesis unfolding n s by (simp add: algebra_simps)
qed

theorem sem_deadline_witness:
  "unat (ts_nsec (sem_deadline \<lparr>ts_sec = 7, ts_nsec = 600000000\<rparr> 500)) = 1100000000"
proof -
  have a: "unat (ts_nsec \<lparr>ts_sec = 7, ts_nsec = 600000000\<rparr>) < 1000000000"
    "unat (ts_sec \<lparr>ts_sec = 7, ts_nsec = 600000000\<rparr>) < 2 ^ 62" by simp_all
  have "ts_sec (sem_deadline \<lparr>ts_sec = 7, ts_nsec = 600000000\<rparr> 500) = 7"
    by (simp add: sem_deadline_def)
  then show ?thesis using sem_deadline_not_normalised [OF a, of 500] by simp
qed

end
