(* ===== verification/Process.thy ===== *)
theory Process
  imports Semaphore Wstring
begin

text \<open>
  Processes (\<open>FFOS/process.h\<close>): starting a program with redirected standard descriptors, the
  command line Windows programs are started with, waiting and killing, the name of the program
  and the current directory.

  After \<open>vfork\<close> the code runs twice; the reply to the call says in which process, and the result
  of \<open>ffps_exec_info\<close> says how it ended there.  \<open>execve\<close> returns only if it fails.
\<close>

record ffps_execinfo =
  ei_argv :: "string list"
  ei_workdir :: "string option"
  ei_env :: "string list"
  ei_in :: int
  ei_out :: int
  ei_err :: int

definition no_redirect :: "string list \<Rightarrow> string list \<Rightarrow> ffps_execinfo" where
  "no_redirect argv env = \<lparr>ei_argv = argv, ei_workdir = None, ei_env = env, ei_in = -1, ei_out = -1, ei_err = -1\<rparr>"

subsection \<open>UNIX: starting a program\<close>

datatype exec_end = InParent int | Replaced | Exited int

definition redirect :: "'w kernel \<Rightarrow> int \<Rightarrow> int \<Rightarrow> ('w, unit) prog" where
  "redirect K fd std =
     (if fd \<noteq> -1 then do { sysi K (Proc (Dup2 fd std)); State_Monad.return () } else State_Monad.return ())"

definition ffps_exec_info :: "'w kernel \<Rightarrow> string \<Rightarrow> ffps_execinfo \<Rightarrow> ('w, exec_end) prog" where
  "ffps_exec_info K filename info = do {
     p \<leftarrow> sysi K (Proc Vfork);
     if p \<noteq> 0 then State_Monad.return (InParent p)
     else do {
       sysi K (Proc (Sigaction_default 13));
       redirect K (ei_in info) 0;
       redirect K (ei_out info) 1;
       redirect K (ei_err info) 2;
       c \<leftarrow> (case ei_workdir info of None \<Rightarrow> State_Monad.return 0 | Some d \<Rightarrow> sysi K (Proc (Chdir d)));
       x \<leftarrow> (if c \<noteq> 0 then State_Monad.return (-1)
            else sysi K (Proc (Execve filename (ei_argv info) (ei_env info))));
       if x = 0 then State_Monad.return Replaced
       else do { sysi K (Proc (Exit_process 255)); State_Monad.return (Exited 255) }
     }
   }"

definition ffps_exec :: "'w kernel \<Rightarrow> string \<Rightarrow> string list \<Rightarrow> string list \<Rightarrow> ('w, exec_end) prog" where
  "ffps_exec K filename argv env = ffps_exec_info K filename (no_redirect argv env)"

subsection \<open>UNIX: waiting, signals\<close>

abbreviation (input) WNOHANG :: u32 where "WNOHANG \<equiv> 1"
abbreviation (input) WEXITED :: u32 where "WEXITED \<equiv> 4"
abbreviation (input) CLD_EXITED :: int where "CLD_EXITED \<equiv> 1"

text \<open>
  The structure \<open>siginfo_t\<close> is what the last attempt wrote: process id, code and status.
  \<open>want\<close>: the caller asks for the exit code.
\<close>

definition ffps_wait ::
  "'w kernel \<Rightarrow> int \<Rightarrow> u32 \<Rightarrow> bool \<Rightarrow> 'w sys \<Rightarrow> ((int \<times> int option) \<times> 'w sys) option" where
  "ffps_wait K ps timeout_ms want s =
     (let f = (if timeout_ms \<noteq> -1 then WNOHANG else 0) in
      case retry_eintr K (Proc (Waitid ps (WEXITED OR f))) s of
        None \<Rightarrow> None
      | Some (r, s) \<Rightarrow>
          if r \<noteq> 0 then Some ((-1, None), s)
          else let si = snd (last (trace s)) in
            if out_int si 0 = 0 then Some ((-1, None), s\<lparr>lasterr := ETIMEDOUT\<rparr>)
            else Some ((0, if want then Some (if out_int si 1 = CLD_EXITED then out_int si 2 else - out_int si 2)
                           else None), s))"

definition ffps_id :: "int \<Rightarrow> u32" where
  "ffps_id ps = of_int ps"

definition ffps_kill :: "'w kernel \<Rightarrow> int \<Rightarrow> ('w, int) prog" where
  "ffps_kill K ps = sysi K (Proc (Kill ps 9))"

definition ffps_sig :: "'w kernel \<Rightarrow> int \<Rightarrow> int \<Rightarrow> ('w, int) prog" where
  "ffps_sig K ps sig = sysi K (Proc (Kill ps sig))"

definition ffps_curhdl :: "'w kernel \<Rightarrow> ('w, int) prog" where
  "ffps_curhdl K = sysi K (Ev Getpid)"

definition ffps_curid :: "'w kernel \<Rightarrow> ('w, u32) prog" where
  "ffps_curid K = do { p \<leftarrow> sysi K (Ev Getpid); State_Monad.return (of_int p) }"

definition ffps_exit :: "'w kernel \<Rightarrow> int \<Rightarrow> ('w, unit) prog" where
  "ffps_exit K status = do { sysi K (Proc (Exit_process status)); State_Monad.return () }"

subsection \<open>UNIX: file name and directory\<close>

text \<open>
  The result: \<open>NULL\<close>, the name in the caller's buffer, or a write of the terminating zero behind
  the end of it.
\<close>

datatype name_result = NoName | Name string | Overrun

definition ffpath_real :: "'w kernel \<Rightarrow> nat \<Rightarrow> string \<Rightarrow> ('w, name_result) prog" where
  "ffpath_real K cap argv0 = do {
     r \<leftarrow> sys K (Proc (Realpath argv0));
     State_Monad.return
       (if rv r = 0 then NoName
        else if length (out_text r) + 1 > cap then NoName else Name (out_text r))
   }"

text \<open>\<open>name[n] = '\0'\<close> after \<open>readlink\<close> has written \<open>n\<close> bytes of \<open>cap\<close>.\<close>

definition link_name :: "nat \<Rightarrow> reply \<Rightarrow> name_result" where
  "link_name cap r = (if nat (rv r) < cap then Name (take (nat (rv r)) (out_text r)) else Overrun)"

definition ffps_filename :: "'w kernel \<Rightarrow> os \<Rightarrow> nat \<Rightarrow> string \<Rightarrow> ('w, name_result) prog" where
  "ffps_filename K os cap argv0 =
     (if ff_linux os then do {
        r \<leftarrow> sys K (Proc (Readlink ''/proc/self/exe'' cap));
        if rv r \<ge> 0 then State_Monad.return (link_name cap r) else ffpath_real K cap argv0
      }
      else if os = FreeBSD then do {
        c \<leftarrow> sys K (Proc (Sysctl_pathname cap));
        if rv c = 0 then State_Monad.return (Name (out_text c))
        else do {
          r \<leftarrow> sys K (Proc (Readlink ''/proc/curproc/file'' cap));
          if rv r \<ge> 0 then State_Monad.return (link_name cap r)
          else do {
            r \<leftarrow> sys K (Proc (Readlink ''/proc/curproc/exe'' cap));
            if rv r \<ge> 0 then State_Monad.return (link_name cap r) else ffpath_real K cap argv0
          }
        }
      }
      else do {
        r \<leftarrow> sys K (Proc (NSGetExecutablePath 4096));
        ffpath_real K cap (if rv r = 0 then out_text r else argv0)
      })"

definition ffps_curdir :: "'w kernel \<Rightarrow> nat \<Rightarrow> ('w, int \<times> string) prog" where
  "ffps_curdir K cap = do {
     r \<leftarrow> sys K (Proc (Getcwd cap));
     State_Monad.return (c_bool (rv r = 0), out_text r)
   }"

subsection \<open>Windows: the command line\<close>

abbreviation (input) w_quote :: u16 where "w_quote \<equiv> 34"
abbreviation (input) w_space :: u16 where "w_space \<equiv> 32"

text \<open>
  The characters for all arguments, their terminators and quotes, or an error: the conversion to
  no buffer gives the length with the terminator.  (\<open>ffsz_findchar\<close> of a C string is
  \<open>ffstr_findchar\<close> of its characters.)
\<close>

fun cmdln_cap :: "wconv \<Rightarrow> string list \<Rightarrow> nat \<Rightarrow> nat option" where
  "cmdln_cap U [] cap = Some cap"
| "cmdln_cap U (a # as) cap =
     (let r = fst (ffsz_utow U 0 a) in
      if 0 \<ge> r then None else cmdln_cap U as (cap + nat r + 3))"

text \<open>What the second loop makes of the block: a quote was found, a write left the block, or the text.\<close>

datatype cmdln = HasQuote | Outside | Text wstr

definition put_w :: "nat \<Rightarrow> wstr \<Rightarrow> u16 \<Rightarrow> wstr option" where
  "put_w sz w x = (if length w < sz then Some (w @ [x]) else None)"

definition put_if :: "bool \<Rightarrow> nat \<Rightarrow> wstr \<Rightarrow> u16 \<Rightarrow> wstr option" where
  "put_if b sz w x = (if b then put_w sz w x else Some w)"

definition cmdln_arg :: "wconv \<Rightarrow> nat \<Rightarrow> bool \<Rightarrow> string \<Rightarrow> wstr \<Rightarrow> wstr option" where
  "cmdln_arg U cap has_space a w = (case put_if has_space (cap + 1) w w_quote of
      None \<Rightarrow> None
    | Some w \<Rightarrow>
        let r = ffsz_utow U (cap - length w) a;
          w = take (nat (int (length w) + fst r - 1)) (w @ snd r)
        in (case put_if has_space (cap + 1) w w_quote of
              None \<Rightarrow> None
            | Some w \<Rightarrow> put_w (cap + 1) w w_space))"

fun cmdln_loop :: "ffbase \<Rightarrow> wconv \<Rightarrow> nat \<Rightarrow> string list \<Rightarrow> wstr \<Rightarrow> cmdln" where
  "cmdln_loop B U cap [] w = Text w"
| "cmdln_loop B U cap (a # as) w =
     (if 0 \<le> ffstr_findchar B a (CHR 0x22) then HasQuote
      else case cmdln_arg U cap (0 \<le> ffstr_findchar B a (CHR '' '')) a w of
        None \<Rightarrow> Outside
      | Some w \<Rightarrow> cmdln_loop B U cap as w)"

definition ffargv_to_cmdln :: "'w kernel \<Rightarrow> ffbase \<Rightarrow> wconv \<Rightarrow> string list \<Rightarrow> ('w, wbuf option) prog" where
  "ffargv_to_cmdln K B U argv = (case cmdln_cap U argv 1 of
      None \<Rightarrow> do { fferr_set ERROR_INVALID_PARAMETER; State_Monad.return (Some WNull) }
    | Some cap \<Rightarrow> do {
        p \<leftarrow> sysi K (Mem (MAlloc ((cap + 1) * 2)));
        if p = 0 then State_Monad.return (Some WNull)
        else (case cmdln_loop B U cap argv [] of
            HasQuote \<Rightarrow> do {
              sysi K (Mem (MFree p));
              fferr_set ERROR_INVALID_PARAMETER;
              State_Monad.return (Some WNull)
            }
          | Outside \<Rightarrow> State_Monad.return None
          | Text w \<Rightarrow>
              let w = butlast w in
              State_Monad.return (map_option (\<lambda>_. WHeap p w) (put_w (cap + 1) w 0)))
      })"

subsection \<open>Windows: starting a program\<close>

abbreviation (input) STARTF_USESTDHANDLES :: u32 where "STARTF_USESTDHANDLES \<equiv> 0x100"

definition set_inherit :: "'w kernel \<Rightarrow> int \<Rightarrow> int \<Rightarrow> ('w, unit) prog" where
  "set_inherit K h on =
     (if h \<noteq> -1 then do { sysi K (Proc (SetHandleInformation h on)); State_Monad.return () } else State_Monad.return ())"

definition ffps_exec_cmdln :: "'w kernel \<Rightarrow> wstr \<Rightarrow> wstr \<Rightarrow> ffps_execinfo \<Rightarrow> ('w, int) prog" where
  "ffps_exec_cmdln K filename cmdln i = do {
     let handle = (\<lambda>h. if h \<noteq> -1 then h else 0);
     set_inherit K (ei_in i) 1;
     set_inherit K (ei_out i) 1;
     set_inherit K (ei_err i) 1;
     let std = (ei_in i \<noteq> -1 \<or> ei_out i \<noteq> -1 \<or> ei_err i \<noteq> -1);
     b \<leftarrow> sys K (Proc (CreateProcessW filename cmdln [handle (ei_in i), handle (ei_out i), handle (ei_err i)]
            (if std then STARTF_USESTDHANDLES else 0) std));
     set_inherit K (ei_in i) 0;
     set_inherit K (ei_out i) 0;
     set_inherit K (ei_err i) 0;
     if rv b = 0 then State_Monad.return (-1)
     else do {
       sysi K (WinFile (CloseHandle (out_int b 1)));
       State_Monad.return (out_int b 0)
     }
   }"

text \<open>\<open>None\<close> if the command line left its block.\<close>

definition ffps_exec_info_win ::
  "'w kernel \<Rightarrow> ffbase \<Rightarrow> wconv \<Rightarrow> string \<Rightarrow> ffps_execinfo \<Rightarrow> ('w, int option) prog" where
  "ffps_exec_info_win K B U filename info = do {
     wfn \<leftarrow> utow256 K U filename;
     if wfn = WNull then State_Monad.return (Some (-1))
     else do {
       a \<leftarrow> ffargv_to_cmdln K B U (ei_argv info);
       case a of
         None \<Rightarrow> State_Monad.return None
       | Some args \<Rightarrow> do {
           ps \<leftarrow> (if args = WNull then State_Monad.return (-1)
                 else ffps_exec_cmdln K (w_chars wfn) (w_chars args) info);
           w_free K wfn;
           w_free K args;
           State_Monad.return (Some ps)
         }
     }
   }"

definition ffps_exec_win ::
  "'w kernel \<Rightarrow> ffbase \<Rightarrow> wconv \<Rightarrow> string \<Rightarrow> string list \<Rightarrow> string list \<Rightarrow> ('w, int option) prog" where
  "ffps_exec_win K B U filename argv env = ffps_exec_info_win K B U filename (no_redirect argv env)"

subsection \<open>Windows: the other functions\<close>

definition ffps_id_win :: "'w kernel \<Rightarrow> int \<Rightarrow> ('w, u32) prog" where
  "ffps_id_win K ps = do { r \<leftarrow> sysi K (Proc (GetProcessId ps)); State_Monad.return (of_int r) }"

definition ffps_wait_win :: "'w kernel \<Rightarrow> int \<Rightarrow> u32 \<Rightarrow> bool \<Rightarrow> ('w, int \<times> int option) prog" where
  "ffps_wait_win K ps timeout_ms want = do {
     r \<leftarrow> sysi K (WinIo (WaitForSingleObject ps timeout_ms));
     if r = 0 then do {
       code \<leftarrow> (if want then do {
                 x \<leftarrow> sys K (Proc (GetExitCodeProcess ps));
                 State_Monad.return (Some (out_int x 0))
               } else State_Monad.return None);
       sysi K (WinFile (CloseHandle ps));
       State_Monad.return (0, code)
     }
     else do {
       (if r = WAIT_TIMEOUT then fferr_set WSAETIMEDOUT else State_Monad.return ());
       State_Monad.return (r, None)
     }
   }"

definition ffps_kill_win :: "'w kernel \<Rightarrow> int \<Rightarrow> ('w, int) prog" where
  "ffps_kill_win K ps = do { r \<leftarrow> sysi K (Proc (TerminateProcess ps 9)); State_Monad.return (c_bool (r = 0)) }"

definition ffps_close_win :: "'w kernel \<Rightarrow> int \<Rightarrow> ('w, unit) prog" where
  "ffps_close_win K ps = do { sysi K (WinFile (CloseHandle ps)); State_Monad.return () }"

definition ffps_curhdl_win :: "'w kernel \<Rightarrow> ('w, int) prog" where
  "ffps_curhdl_win K = sysi K (WinFile GetCurrentProcess)"

definition ffps_curid_win :: "'w kernel \<Rightarrow> ('w, u32) prog" where
  "ffps_curid_win K = do { r \<leftarrow> sysi K (Proc GetCurrentProcessId); State_Monad.return (of_int r) }"

definition ffps_exit_win :: "'w kernel \<Rightarrow> int \<Rightarrow> ('w, unit) prog" where
  "ffps_exit_win K status = do { sysi K (Proc (ExitProcess status)); State_Monad.return () }"

text \<open>The name and what the conversion wrote; \<open>None\<close> is \<open>NULL\<close>.\<close>

definition ffps_filename_win :: "'w kernel \<Rightarrow> wconv \<Rightarrow> nat \<Rightarrow> ('w, string option) prog" where
  "ffps_filename_win K U cap = do {
     let conv = (\<lambda>r. if fst (ffsz_wtou U cap (out_wide r)) < 0 then None else Some (snd (ffsz_wtou U cap (out_wide r))));
     r \<leftarrow> sys K (Proc (GetModuleFileNameW 256));
     if rv r = 0 then State_Monad.return None
     else if rv r = 256 then do {
       p \<leftarrow> sysi K (Mem (MAlloc (4096 * 4)));
       if p = 0 then State_Monad.return None
       else do {
         r \<leftarrow> sys K (Proc (GetModuleFileNameW 4096));
         sysi K (Mem (MFree p));
         State_Monad.return (if rv r = 0 then None else conv r)
       }
     }
     else State_Monad.return (conv r)
   }"

definition ffps_curdir_win :: "'w kernel \<Rightarrow> wconv \<Rightarrow> nat \<Rightarrow> ('w, int \<times> string) prog" where
  "ffps_curdir_win K U cap = do {
     let conv = (\<lambda>r. let x = ffsz_wtou U cap (out_wide r) in if fst x < 0 then (-1, []) else (0, snd x));
     r \<leftarrow> sys K (Proc (GetCurrentDirectoryW 256));
     if rv r = 0 then State_Monad.return (-1, [])
     else if rv r > 256 then do {
       p \<leftarrow> sysi K (Mem (MAlloc (nat (rv r) * 4)));
       if p = 0 then State_Monad.return (-1, [])
       else do {
         r \<leftarrow> sys K (Proc (GetCurrentDirectoryW (nat (rv r))));
         sysi K (Mem (MFree p));
         State_Monad.return (if rv r = 0 then (-1, []) else conv r)
       }
     }
     else State_Monad.return (conv r)
   }"

subsection \<open>Properties: UNIX\<close>

text \<open>What the child does before the new program: the default action for \<open>SIGPIPE\<close>, the
  descriptors, the directory.\<close>

definition child_calls :: "ffps_execinfo \<Rightarrow> call list" where
  "child_calls info =
     [Proc Vfork, Proc (Sigaction_default 13)] @
     (if ei_in info \<noteq> -1 then [Proc (Dup2 (ei_in info) 0)] else []) @
     (if ei_out info \<noteq> -1 then [Proc (Dup2 (ei_out info) 1)] else []) @
     (if ei_err info \<noteq> -1 then [Proc (Dup2 (ei_err info) 2)] else []) @
     (case ei_workdir info of None \<Rightarrow> [] | Some d \<Rightarrow> [Proc (Chdir d)])"

lemma wp_redirect:
  assumes "\<And>s'. calls_of s' = calls_of s @ (if fd \<noteq> -1 then [Proc (Dup2 fd std)] else []) \<Longrightarrow> Q () s'"
  shows "wp (redirect K fd std) Q s"
  unfolding redirect_def by (intro wp_intros assms) (simp_all add: calls_of_def)

text \<open>
  \<open>ffps_exec_info\<close> on UNIX: the parent only forks.  The child prepares itself in a fixed
  order, redirecting exactly the descriptors given and changing the directory if one is given, and
  then runs the program with its arguments and environment, or leaves with status 255; it never
  returns into the caller's code.
\<close>

theorem exec_info_calls:
  "wp (ffps_exec_info K filename info) (\<lambda>r s. case r of
      InParent p \<Rightarrow> p \<noteq> 0 \<and> calls_of s = [Proc Vfork]
    | Replaced \<Rightarrow> calls_of s = child_calls info @ [Proc (Execve filename (ei_argv info) (ei_env info))]
    | Exited n \<Rightarrow> n = 255 \<and> (\<exists>x. calls_of s = child_calls info @ x @ [Proc (Exit_process 255)] \<and>
        (x = [Proc (Execve filename (ei_argv info) (ei_env info))] \<or> x = [] \<and> ei_workdir info \<noteq> None))) (start w e)"
  unfolding ffps_exec_info_def
  by (intro wp_intros wp_redirect) (auto simp: child_calls_def calls_of_def split: option.splits)

text \<open>
  Claim C34.  \<open>ffps_wait\<close> on UNIX repeats the system's wait as long as signals interrupt it and then
  returns: \<open>0\<close> if the process is gone, with its status, negated if a signal ended it; \<open>-1\<close>
  otherwise, with \<open>ETIMEDOUT\<close> if it still runs and never with \<open>EINTR\<close>.
\<close>

theorem ps_wait_retries:
  fixes K :: "'w kernel" and ps :: int and timeout :: u32
  defines "c \<equiv> Proc (Waitid ps (WEXITED OR (if timeout \<noteq> -1 then WNOHANG else 0)))"
  assumes "\<forall>i<n. interrupted K c (attempts K c i s)" "\<not> interrupted K c (attempts K c n s)"
  defines "x \<equiv> fst (K c (world (attempts K c n s)))"
  shows "\<exists>s'. ffps_wait K ps timeout True s = Some
    (if rv x \<noteq> 0 then (-1, None)
     else if out_int x 0 = 0 then (-1, None)
     else (0, Some (if out_int x 1 = CLD_EXITED then out_int x 2 else - out_int x 2)), s') \<and>
    (rv x \<noteq> 0 \<longrightarrow> lasterr s' \<noteq> EINTR) \<and> (rv x = 0 \<and> out_int x 0 = 0 \<longrightarrow> lasterr s' = ETIMEDOUT)"
proof -
  let ?a = "attempts K c n s"
  have r: "retry_eintr K c s = Some (rv x, sys_step K c ?a)"
    using retry_returns [OF assms(2,3)] by (simp add: run_simps x_def)
  have l: "snd (last (trace (sys_step K c ?a))) = x" by (simp add: x_def)
  have e: "rv x \<noteq> 0 \<longrightarrow> lasterr (sys_step K c ?a) \<noteq> EINTR"
    using assms(3) by (auto simp: interrupted_def run_simps x_def)
  have "ffps_wait K ps timeout True s = Some
    (if rv x \<noteq> 0 then ((-1, None), sys_step K c ?a)
     else if out_int x 0 = 0 then ((-1, None), (sys_step K c ?a)\<lparr>lasterr := ETIMEDOUT\<rparr>)
     else ((0, Some (if out_int x 1 = CLD_EXITED then out_int x 2 else - out_int x 2)), sys_step K c ?a))"
    unfolding ffps_wait_def Let_def c_def [symmetric] r option.case prod.case l by (simp del: out_int.simps)
  then show ?thesis using e by (simp del: out_int.simps sys_step_sel)
qed

theorem ps_wait_retries_witness:
  "\<exists>s'. ffps_wait signalsK 77 0 True (start 2 0) = Some ((-1, None), s') \<and> lasterr s' = ETIMEDOUT"
proof -
  let ?c = "Proc (Waitid 77 (WEXITED OR (if (0 :: u32) \<noteq> -1 then WNOHANG else 0)))"
  have i: "i < 2 \<Longrightarrow> i = 0 \<or> i = 1" for i :: nat by arith
  have a: "\<forall>i<2. interrupted signalsK ?c (attempts signalsK ?c i (start 2 0))"
    by (auto dest!: i simp: interrupted_def run_simps signalsK_def)
  have b: "\<not> interrupted signalsK ?c (attempts signalsK ?c 2 (start 2 0))"
    by (simp add: interrupted_def run_simps signalsK_def numeral_2_eq_2)
  show ?thesis using ps_wait_retries [OF a b] by (auto simp: signalsK_def run_simps numeral_2_eq_2)
qed

text \<open>
  \<open>ffps_filename\<close> ends the name of the program with a zero outside the caller's buffer when the
  link is as long as the buffer: \<open>readlink\<close> may fill it completely.
\<close>

lemma filename_overruns:
  assumes "rv (fst (K (Proc (Readlink ''/proc/self/exe'' cap)) w)) = int cap"
  shows "wp (ffps_filename K Linux cap argv0) (\<lambda>r s. r = Overrun) (start w e)"
  using assms unfolding ffps_filename_def by (intro wp_intros) (auto simp: link_name_def)

lemma filename_fits:
  assumes "\<And>p w. rv (fst (K (Proc (Readlink p cap)) w)) < int cap"
  shows "wp (ffps_filename K os cap argv0) (\<lambda>r s. r \<noteq> Overrun) (start w e)"
proof -
  have ok: "link_name cap r \<noteq> Overrun" if "K (Proc (Readlink p cap)) w = (r, w')" "0 \<le> rv r" for p w r w'
    using assms [of p w] that by (auto simp: link_name_def)
  show ?thesis unfolding ffps_filename_def ffpath_real_def by (intro wp_intros) (auto dest: ok)
qed

subsection \<open>Properties: the command line of Windows\<close>

text \<open>
  What the code relies on of the conversion to UTF-16, \<open>enc\<close>: without a buffer it returns the
  length with the terminator, with a buffer that is large enough it writes the text; ASCII
  characters are kept.
\<close>

definition utow_ok :: "wconv \<Rightarrow> (string \<Rightarrow> wstr) \<Rightarrow> bool" where
  "utow_ok U enc \<longleftrightarrow>
     (\<forall>a. fst (ffsz_utow U 0 a) = int (length (enc a)) + 1) \<and>
     (\<forall>cap a. length (enc a) + 1 \<le> cap \<longrightarrow> ffsz_utow U cap a = (int (length (enc a)) + 1, enc a)) \<and>
     (\<forall>a c. uchar c < 128 \<longrightarrow> (of_nat (uchar c) \<in> set (enc a) \<longleftrightarrow> c \<in> set a) \<and>
        (a \<noteq> [] \<longrightarrow> (last (enc a) = of_nat (uchar c) \<longleftrightarrow> last a = c))) \<and>
     (\<forall>a. enc a = [] \<longleftrightarrow> a = [])"

definition quoted :: "(string \<Rightarrow> wstr) \<Rightarrow> string \<Rightarrow> wstr" where
  "quoted enc a = (if CHR '' '' \<in> set a then w_quote # enc a @ [w_quote] else enc a)"

fun cmdline :: "(string \<Rightarrow> wstr) \<Rightarrow> string list \<Rightarrow> wstr" where
  "cmdline enc [] = []"
| "cmdline enc [a] = quoted enc a"
| "cmdline enc (a # as) = quoted enc a @ w_space # cmdline enc as"

lemma cmdline_butlast: "butlast (concat (map (\<lambda>a. quoted enc a @ [w_space]) argv)) = cmdline enc argv"
proof (induction enc argv rule: cmdline.induct)
  case (3 enc a b as)
  moreover have "concat (map (\<lambda>a. quoted enc a @ [w_space]) (b # as)) \<noteq> []" by simp
  ultimately show ?case by (simp only: list.map concat.simps butlast_append append_assoc) simp
qed simp_all

lemma cmdln_cap_eq:
  "utow_ok U enc \<Longrightarrow> cmdln_cap U argv cap = Some (cap + sum_list (map (\<lambda>a. length (enc a) + 4) argv))"
  by (induction argv arbitrary: cap) (simp_all add: utow_ok_def Let_def nat_add_distrib)

lemma findchar_mem: "ffbase_ok B \<Longrightarrow> 0 \<le> ffstr_findchar B a c \<longleftrightarrow> c \<in> set a"
  using find_pos_neg [of "\<lambda>x. x = c" a] by (auto simp: ffbase_okD(4) not_less)

lemma cmdln_arg_eq:
  assumes "utow_ok U enc" "length w + length (enc a) + 4 < cap"
  shows "cmdln_arg U cap (CHR '' '' \<in> set a) a w = Some (w @ quoted enc a @ [w_space])"
proof -
  have u: "ffsz_utow U k a = (int (length (enc a)) + 1, enc a)" if "length (enc a) + 1 \<le> k" for k
    using assms(1) that by (simp add: utow_ok_def)
  have "ffsz_utow U (cap - length w) a = (int (length (enc a)) + 1, enc a)"
    "ffsz_utow U (cap - Suc (length w)) a = (int (length (enc a)) + 1, enc a)"
    using assms(2) by (intro u, simp)+
  then show ?thesis using assms(2)
    by (simp add: cmdln_arg_def put_if_def put_w_def quoted_def Let_def nat_add_distrib)
qed

lemma cmdln_loop_eq:
  assumes "ffbase_ok B" "utow_ok U enc"
  shows "length w + sum_list (map (\<lambda>a. length (enc a) + 4) argv) < cap \<Longrightarrow>
    cmdln_loop B U cap argv w = (if \<exists>a\<in>set argv. CHR 0x22 \<in> set a then HasQuote
      else Text (w @ concat (map (\<lambda>a. quoted enc a @ [w_space]) argv)))"
proof (induction argv arbitrary: w)
  case (Cons a as)
  have l: "length (quoted enc a) \<le> length (enc a) + 2" by (simp add: quoted_def)
  have "cmdln_arg U cap (CHR '' '' \<in> set a) a w = Some (w @ quoted enc a @ [w_space])"
    by (rule cmdln_arg_eq [OF assms(2)]) (use Cons.prems in simp)
  then show ?case using Cons.IH [of "w @ quoted enc a @ [w_space]"] Cons.prems l
    by (simp add: findchar_mem [OF assms(1)])
qed simp

subsubsection \<open>How a Windows program splits it\<close>

text \<open>
  The documented rules: arguments are separated by spaces and tabs outside quotes; a quote after
  \<open>2n\<close> backslashes gives \<open>n\<close> of them and begins or ends a quoted part, after \<open>2n+1\<close> it
  gives \<open>n\<close> and itself; other backslashes are themselves.  \<open>b\<close> counts the backslashes before
  the current character, \<open>cur\<close> is the argument so far, \<open>st\<close> whether it has begun.
\<close>

fun cl_split :: "bool \<Rightarrow> nat \<Rightarrow> wstr \<Rightarrow> bool \<Rightarrow> wstr \<Rightarrow> wstr list" where
  "cl_split inq b cur st [] = (if st then [cur @ replicate b 92] else [])"
| "cl_split inq b cur st (c # cs) =
     (if c = 92 then cl_split inq (b + 1) cur True cs
      else if c = 34 then
        (if even b then cl_split (\<not> inq) 0 (cur @ replicate (b div 2) 92) True cs
         else cl_split inq 0 (cur @ replicate (b div 2) 92 @ [34]) True cs)
      else if (c = 32 \<or> c = 9) \<and> \<not> inq
      then (if st then [cur @ replicate b 92] else []) @ cl_split False 0 [] False cs
      else cl_split inq 0 (cur @ replicate b 92 @ [c]) True cs)"

definition split_cmdline :: "wstr \<Rightarrow> wstr list" where
  "split_cmdline w = cl_split False 0 [] False w"






text \<open>The handles a sequence of calls has made inheritable.\<close>

definition inherit_step :: "int set \<Rightarrow> call \<Rightarrow> int set" where
  "inherit_step H c = (case c of
      Proc (SetHandleInformation h on) \<Rightarrow> if on \<noteq> 0 then insert h H else H - {h}
    | _ \<Rightarrow> H)"

definition inherited :: "'w sys \<Rightarrow> int set" where
  "inherited s = foldl inherit_step {} (calls_of s)"

lemma inherited_snoc: "trace s' = trace s @ [(c, r)] \<Longrightarrow> inherited s' = inherit_step (inherited s) c"
  by (simp add: inherited_def calls_of_def)

text \<open>The resources of a state: blocks, handles, inheritable handles.\<close>

definition holds :: "'w sys \<Rightarrow> int multiset \<Rightarrow> int multiset \<Rightarrow> int set \<Rightarrow> bool" where
  "holds s h d i \<longleftrightarrow> heap_after (trace s) = Some h \<and> fds_after (trace s) = Some d \<and> inherited s = i"

lemma holds_start: "holds (start w e) {#} {#} {}"
  by (simp add: holds_def inherited_def)

lemma inherited_mem:
  assumes "trace s' = trace s @ t" "\<forall>c\<in>set (map fst t). \<exists>m. c = Mem m"
  shows "inherited s' = inherited s"
proof -
  have "foldl inherit_step I (map fst t) = I" for I
    using assms(2) by (induction t arbitrary: I) (auto simp: inherit_step_def)
  then show ?thesis by (simp add: inherited_def calls_of_def assms(1))
qed

lemma wp_utow_holds:
  fixes K :: "'w kernel"
  assumes "holds s h d i" and "\<And>wb s'. holds s' (h + w_heap wb) d i \<Longrightarrow> Q wb s'"
  shows "wp (utow256 K U sz) Q s"
proof (rule wp_utow256 [where h = h])
  show "heap_after (trace s) = Some h" using assms(1) by (simp add: holds_def)
  fix wb and s' :: "'w sys"
  assume "\<exists>t. trace s' = trace s @ t \<and> set (map fst t) \<subseteq> {Mem (MAllocUtow sz)}"
  then obtain t where t: "trace s' = trace s @ t" "set (map fst t) \<subseteq> {Mem (MAllocUtow sz)}" by blast
  have "inherited s' = inherited s" by (rule inherited_mem [OF t(1)]) (use t(2) in auto)
  moreover assume "heap_after (trace s') = Some (h + w_heap wb)" "fds_after (trace s') = fds_after (trace s)"
  ultimately show "Q wb s'" using assms(1) by (intro assms(2)) (simp add: holds_def)
qed

lemma wp_free_holds:
  fixes K :: "'w kernel"
  assumes "holds s (h + w_heap wb) d i" and "\<And>s'. holds s' h d i \<Longrightarrow> Q () s'"
  shows "wp (w_free K wb) Q s"
proof (rule wp_w_free [where h = h])
  show "heap_after (trace s) = Some (h + w_heap wb)" using assms(1) by (simp add: holds_def)
  fix s' :: "'w sys"
  assume "\<exists>t. trace s' = trace s @ t \<and> (\<forall>c\<in>set (map fst t). \<exists>p. c = Mem (MFree p))"
  then obtain t where t: "trace s' = trace s @ t" "\<forall>c\<in>set (map fst t). \<exists>p. c = Mem (MFree p)" by blast
  have "inherited s' = inherited s" by (rule inherited_mem [OF t(1)]) (use t(2) in blast)
  moreover assume "heap_after (trace s') = Some h" "fds_after (trace s') = fds_after (trace s)"
  ultimately show "Q () s'" using assms(1) by (intro assms(2)) (simp add: holds_def)
qed

lemma wp_cmdln:
  assumes B: "ffbase_ok B" and U: "utow_ok U enc" and s: "holds s h d i"
    and Q: "\<And>wb s'. holds s' (h + w_heap wb) d i \<Longrightarrow>
      wb = WNull \<and> ((\<exists>a\<in>set argv. CHR 0x22 \<in> set a) \<or> \<not> mem_available K) \<or>
      wb \<noteq> WNull \<and> \<not> (\<exists>a\<in>set argv. CHR 0x22 \<in> set a) \<and> w_chars wb = cmdline enc argv \<Longrightarrow> Q (Some wb) s'"
  shows "wp (ffargv_to_cmdln K B U argv) Q s"
proof -
  let ?n = "sum_list (map (\<lambda>a. length (enc a) + 4) argv)"
  let ?t = "concat (map (\<lambda>a. quoted enc a @ [w_space]) argv)"
  have cap: "cmdln_cap U argv 1 = Some (1 + ?n)" by (rule cmdln_cap_eq [OF U])
  have l: "cmdln_loop B U (1 + ?n) argv [] =
      (if \<exists>a\<in>set argv. CHR 0x22 \<in> set a then HasQuote else Text ?t)"
    using cmdln_loop_eq [OF B U, of "[]" argv "1 + ?n"] by simp
  have "length ?t \<le> ?n"
    by (simp add: length_concat o_def, rule sum_list_mono) (simp add: quoted_def)
  then have p: "put_w (1 + ?n + 1) (butlast ?t) 0 = Some (butlast ?t @ [0])" by (simp add: put_w_def)
  have mem: "inherited s' = inherited s1" if "trace s' = trace s1 @ [(Mem m, r)]" for s' s1 :: "'a sys" and m r
    using that by (simp add: inherited_snoc inherit_step_def)
  show ?thesis
  proof (cases "\<exists>a\<in>set argv. CHR 0x22 \<in> set a")
    case True
    then have q: "cmdln_loop B U (1 + ?n) argv [] = HasQuote" unfolding l by simp
    show ?thesis
      using s True unfolding ffargv_to_cmdln_def cap option.case q cmdln.case
      by (intro wp_intros Q) (auto simp: holds_def inherited_def inherit_step_def calls_of_def)
  next
    case False
    then have q: "cmdln_loop B U (1 + ?n) argv [] = Text ?t" unfolding l by simp
    show ?thesis
      using s False unfolding ffargv_to_cmdln_def cap option.case q cmdln.case Let_def p option.map
      by (intro wp_intros Q)
        (auto simp: holds_def inherited_def inherit_step_def calls_of_def cmdline_butlast [simplified] dest: mem_availableD)
  qed
qed


text \<open>The conversion of Latin-1 text.\<close>

definition latin_enc :: "string \<Rightarrow> wstr" where
  "latin_enc a = map (\<lambda>c. of_nat (uchar c)) a"

definition latinU :: wconv where
  "latinU = \<lparr>ffsz_utow = (\<lambda>cap a. (int (length a) + 1, if length a + 1 \<le> cap then latin_enc a else [])),
     ffutf8_to_utf16 = (\<lambda>cap a. (int (2 * length a), latin_enc a)),
     ffsz_wtou = (\<lambda>cap w. (0, [])), ffs_wtou = (\<lambda>cap w. (0, [])), wcsicmp = (\<lambda>a b. 0)\<rparr>"

lemma uchar_less: "uchar c < 256"
  by (simp add: uchar_def)

lemma latin_char_inj: "(of_nat (uchar c) :: u16) = of_nat (uchar d) \<longleftrightarrow> c = d"
proof -
  have u: "unat (of_nat (uchar x) :: u16) = uchar x" for x
    using uchar_less [of x] by (simp add: unat_of_nat)
  show ?thesis using u [of c] u [of d] uchar_inj [of c d] by metis
qed

lemma latinU_ok: "utow_ok latinU latin_enc"
  by (auto simp: utow_ok_def latinU_def latin_enc_def image_iff latin_char_inj last_map)

definition heapK :: "call \<Rightarrow> nat \<Rightarrow> reply \<times> nat" where
  "heapK c w = (\<lparr>rv = 4096, rerr = None, rout = NoOut\<rparr>, w)"


text \<open>An empty argument is lost, and a backslash at the end of a quoted one joins it to the next.\<close>

lemma cmdline_loses_arguments:
  "split_cmdline (cmdline latin_enc [''a'', [], ''b'']) = map latin_enc [''a'', ''b'']"
  "length (split_cmdline (cmdline latin_enc [[CHR ''a'', CHR '' '', CHR 0x5C], ''b''])) = 1"
  by (simp_all add: split_cmdline_def latin_enc_def quoted_def uchar_def)

lemma wp_set_inherit:
  assumes "holds s h d i"
  shows "(\<And>s'. holds s' h d (i \<union> ({x} - {-1})) \<Longrightarrow> Q () s') \<Longrightarrow> wp (set_inherit K x 1) Q s"
    "(\<And>s'. holds s' h d (i - ({x} - {-1})) \<Longrightarrow> Q () s') \<Longrightarrow> wp (set_inherit K x 0) Q s"
proof -
  show "wp (set_inherit K x 1) Q s" if q: "\<And>s'. holds s' h d (i \<union> ({x} - {-1})) \<Longrightarrow> Q () s'"
    using assms unfolding set_inherit_def
    by (intro wp_intros q) (auto simp: holds_def inherited_snoc inherit_step_def fd_step_def closed_def)
  show "wp (set_inherit K x 0) Q s" if q: "\<And>s'. holds s' h d (i - ({x} - {-1})) \<Longrightarrow> Q () s'"
    using assms unfolding set_inherit_def
    by (intro wp_intros q) (auto simp: holds_def inherited_snoc inherit_step_def fd_step_def closed_def)
qed

lemma wp_create_process:
  fixes K :: "'w kernel" and s :: "'w sys"
  assumes "holds s h {#} I" "\<And>b s'. rv b = 0 \<Longrightarrow> holds s' h {#} I \<Longrightarrow> R b s'"
    "\<And>b s'. rv b \<noteq> 0 \<Longrightarrow> holds s' h {#out_int b 0, out_int b 1#} I \<Longrightarrow> R b s'"
  shows "wp (sys K (Proc (CreateProcessW f c l fl inh))) R s"
proof (rule wp_sys)
  fix r and s' :: "'w sys"
  assume t: "trace s' = trace s @ [(Proc (CreateProcessW f c l fl inh), r)]"
  have "inherited s' = I" "heap_after (trace s') = Some h"
    using assms(1) by (simp_all add: holds_def inherited_snoc [OF t] inherit_step_def t)
  moreover have "fds_after (trace s') = Some (if rv r = 0 then {#} else {#out_int r 0, out_int r 1#})"
    using assms(1) by (simp add: holds_def t fd_step_def closed_def del: out_int.simps)
  ultimately show "R r s'" using assms(2,3) [of r s'] by (cases "rv r = 0") (simp_all add: holds_def)
qed

lemma wp_close_second:
  assumes "holds s h {#y, x#} {}" "\<And>r s'. holds s' h {#y#} {} \<Longrightarrow> R r s'"
  shows "wp (sysi K (WinFile (CloseHandle x))) R s"
  using assms(1) by (intro wp_intros assms(2))
    (auto simp: holds_def inherited_snoc inherit_step_def fd_step_def closed_def)

lemma exec_cmdln_spec:
  fixes K :: "'w kernel" and s :: "'w sys"
  assumes "holds s h {#} {}"
    and "\<And>ps s'. holds s' h {#} {} \<Longrightarrow> ps = -1 \<Longrightarrow> Q ps s'" "\<And>ps s'. holds s' h {#ps#} {} \<Longrightarrow> Q ps s'"
  shows "wp (ffps_exec_cmdln K filename cmdln i) Q s"
proof -
  let ?I = "{ei_in i, ei_out i, ei_err i} - {-1}"
  have on: "{} \<union> ({ei_in i} - {-1}) \<union> ({ei_out i} - {-1}) \<union> ({ei_err i} - {-1}) = ?I"
    and off: "?I - ({ei_in i} - {-1}) - ({ei_out i} - {-1}) - ({ei_err i} - {-1}) = {}" by auto
  show ?thesis
    unfolding ffps_exec_cmdln_def Let_def
    apply (rule wp_bind, rule wp_set_inherit(1) [OF assms(1)])
    apply (rule wp_bind, erule wp_set_inherit(1))
    apply (rule wp_bind, erule wp_set_inherit(1))
    apply (rule wp_bind, erule wp_create_process)
     apply (rule wp_bind, erule wp_set_inherit(2))
     apply (rule wp_bind, erule wp_set_inherit(2))
     apply (rule wp_bind, erule wp_set_inherit(2))
     apply (simp only: on off if_True simp_thms)
     apply (rule wp_return, erule assms(2), rule refl)
    apply (rule wp_bind, erule wp_set_inherit(2))
    apply (rule wp_bind, erule wp_set_inherit(2))
    apply (rule wp_bind, erule wp_set_inherit(2))
    apply (simp only: on off if_False simp_thms)
    apply (rule wp_bind, erule wp_close_second)
    apply (rule wp_return, erule assms(3))
    done
qed

text \<open>
  Claim C35.  \<open>ffps_exec_info\<close> on Windows frees the converted name and the command line on every way
  out and closes the handle of the new process's first thread, so that the handle it returns is all
  that is left; every handle made inheritable for the start is made private again.
\<close>

theorem exec_win_resources:
  assumes "ffbase_ok B" "utow_ok U enc"
  shows "wp (ffps_exec_info_win K B U filename info) (\<lambda>r s. \<exists>ps. r = Some ps \<and> heap_clean (trace s) \<and> inherited s = {} \<and>
    (ps = -1 \<and> fds_after (trace s) = Some {#} \<or> fds_after (trace s) = Some {#ps#})) (start w e)"
proof -
  define Q where "Q r s \<longleftrightarrow> (\<exists>ps. r = Some ps \<and> heap_clean (trace s) \<and> inherited s = {} \<and>
    (ps = -1 \<and> fds_after (trace s) = Some {#} \<or> fds_after (trace s) = Some {#ps#}))"
    for r :: "int option" and s :: "'a sys"
  have Q: "holds s {#} {#} {} \<Longrightarrow> ps = -1 \<Longrightarrow> Q (Some ps) s" "holds s {#} {#ps#} {} \<Longrightarrow> Q (Some ps) s"
    for s :: "'a sys" and ps
    by (simp_all add: Q_def holds_def heap_clean_def)
  have fin: "wp (do { w_free K a; w_free K b; State_Monad.return (Some ps) }) Q s"
    if "holds s ({#} + w_heap a + w_heap b) d {}" "d = {#} \<and> ps = -1 \<or> d = {#ps#}" for a b ps s d
    using that(2) by (intro wp_bind wp_return wp_free_holds [where h = "w_heap b"] wp_free_holds [where h = "{#}"])
      (use that(1) in \<open>auto simp: ac_simps intro: Q\<close>)
  show ?thesis
    unfolding ffps_exec_info_win_def Q_def [symmetric]
    apply (rule wp_bind, rule wp_utow_holds [OF holds_start])
    apply (rule wp_if)
     apply (rule wp_return, rule Q(1), simp, simp)
    apply (rule wp_bind, erule wp_cmdln [OF assms])
    apply (simp only: option.case, rule wp_bind, rule wp_if)
     apply (rule wp_return, erule fin, simp)
    apply (erule exec_cmdln_spec [where h = "{#} + w_heap wfn + w_heap args" for wfn args])
     apply (erule fin, simp)
    apply (erule fin, simp)
    done
qed

theorem exec_win_resources_witness:
  "\<exists>ps. fst (run_state (ffps_exec_info_win heapK ffbase_ref latinU ''a.exe'' (no_redirect [''a.exe'', ''b''] [])) (start 0 0)) = Some ps"
  using exec_win_resources [OF ffbase_ref_ok latinU_ok, of heapK "''a.exe''" "no_redirect [''a.exe'', ''b''] []" 0 0]
  unfolding wp_def by blast

text \<open>The names are converted in a local buffer or in a block that is freed on every way out.\<close>

lemma ps_names_win_memory:
  "wp (ffps_filename_win K U cap) (\<lambda>r s. heap_clean (trace s)) (start w e)"
  "wp (ffps_curdir_win K U cap) (\<lambda>r s. heap_clean (trace s)) (start w e)"
  unfolding ffps_filename_win_def ffps_curdir_win_def heap_clean_def
  by (intro wp_intros; auto)+

end
