(* ===== verification/Server.thy ===== *)
theory Server
  imports Errstr Process Std Sock
begin

text \<open>
  What the two example servers (\<open>examples/tcp-echo-server.c\<close>, \<open>examples/tcp-msg-router.c\<close>) share:
  messages, the exit on a fatal error, and the loop that waits for an event and calls the handler
  of its task.  They are programs over the library's sockets, event queues and standard output;
  the models are those of their UNIX build.

  A handler may return, end the process, or access memory that is not there.
\<close>

datatype 'a outcome = Ret 'a | Exit | Fault

lemma wp_outcome [wp_intros]:
  "(\<And>x. r = Ret x \<Longrightarrow> wp (f x) Q s) \<Longrightarrow> (r = Exit \<Longrightarrow> wp m Q s) \<Longrightarrow> (r = Fault \<Longrightarrow> wp n Q s)
   \<Longrightarrow> wp (case r of Ret x \<Rightarrow> f x | Exit \<Rightarrow> m | Fault \<Rightarrow> n) Q s"
  by (cases r) simp_all

subsection \<open>Messages and fatal errors\<close>

definition srv_log :: "'w kernel \<Rightarrow> fmt \<Rightarrow> string \<Rightarrow> string \<Rightarrow> arg list \<Rightarrow> ('w, unit) prog" where
  "srv_log K F level text args = fflog K F (level @ text) args"

text \<open>\<open>DIE(ex)\<close>: whether the process goes on.  The name of the file is a constant of \<open>F\<close>.\<close>

definition srv_die :: "'w kernel \<Rightarrow> fmt \<Rightarrow> bool \<Rightarrow> string \<Rightarrow> int \<Rightarrow> ('w, bool) prog" where
  "srv_die K F ex func line =
     (if \<not> ex then State_Monad.return True
      else do {
        e \<leftarrow> fferr_last;
        err \<leftarrow> fferr_strptr K e;
        srv_log K F ''ERR : '' ''fatal error in %s(), %s:%d: (%d) %s'' [AStr func, AInt line, AInt e, AStr err];
        ffps_exit K 1;
        State_Monad.return False
      })"

subsection \<open>The event loop\<close>

text \<open>
  Waiting for one event without a time limit; the result is whether the process goes on, and the
  task of the event.  Without an event the object on the stack keeps what was there: \<open>junk\<close>.
\<close>

definition srv_wait :: "'w kernel \<Rightarrow> fmt \<Rightarrow> os \<Rightarrow> int \<Rightarrow> string \<Rightarrow> int \<Rightarrow> int \<Rightarrow> ('w, bool \<times> int) prog" where
  "srv_wait K F os kq func line junk = do {
     x \<leftarrow> ffkq_wait K kq 1 (ffkq_time_set os (-1));
     ok \<leftarrow> srv_die K F (rv x < 0) func line;
     State_Monad.return (ok, if rv x > 0 then out_int x 0 else junk)
   }"

text \<open>One round, and the first \<open>n\<close> rounds of the endless loop; \<open>None\<close> if a handler never returns.\<close>

definition srv_round :: "('st \<Rightarrow> ('w, bool \<times> int) prog) \<Rightarrow> (int \<Rightarrow> 'st \<Rightarrow> 'w sys \<Rightarrow> ('st outcome \<times> 'w sys) option)
    \<Rightarrow> 'st \<Rightarrow> 'w sys \<Rightarrow> ('st outcome \<times> 'w sys) option" where
  "srv_round wait handler st s =
     (let a = run_state (wait st) s
      in if fst (fst a) then handler (snd (fst a)) st (snd a) else Some (Exit, snd a))"

fun srv_rounds :: "nat \<Rightarrow> ('st \<Rightarrow> ('w, bool \<times> int) prog) \<Rightarrow> (int \<Rightarrow> 'st \<Rightarrow> 'w sys \<Rightarrow> ('st outcome \<times> 'w sys) option)
    \<Rightarrow> 'st \<Rightarrow> 'w sys \<Rightarrow> ('st outcome \<times> 'w sys) option" where
  "srv_rounds 0 wait handler st s = Some (Ret st, s)"
| "srv_rounds (Suc n) wait handler st s =
     (case srv_round wait handler st s of
        Some (Ret st', s') \<Rightarrow> srv_rounds n wait handler st' s'
      | r \<Rightarrow> r)"

text \<open>
  The contract of such a loop: whatever holds of the state before and after a round, the ends of the
  process included, holds after any number of rounds; and if every round returns, they all do.
\<close>

locale server_loop =
  fixes wait :: "'st \<Rightarrow> ('w, bool \<times> int) prog"
    and handler :: "int \<Rightarrow> 'st \<Rightarrow> 'w sys \<Rightarrow> ('st outcome \<times> 'w sys) option"
    and inv :: "'st outcome \<Rightarrow> 'w sys \<Rightarrow> bool" and task_ok :: "'st \<Rightarrow> 'w sys \<Rightarrow> int \<Rightarrow> bool"
  assumes waits: "inv (Ret st) s \<Longrightarrow>
      wp (wait st) (\<lambda>r s'. if fst r then inv (Ret st) s' \<and> task_ok st s' (snd r) else inv Exit s') s"
    and handles: "inv (Ret st) s \<Longrightarrow> task_ok st s t \<Longrightarrow> handler t st s = Some (r, s') \<Longrightarrow> inv r s'"
begin

lemma round_inv:
  assumes "inv (Ret st) s" "srv_round wait handler st s = Some (r, s')"
  shows "inv r s'"
  using wpD [OF waits [OF assms(1)]] handles assms(2)
  by (auto simp: srv_round_def Let_def split: if_splits)

lemma rounds_inv:
  "inv (Ret st) s \<Longrightarrow> srv_rounds n wait handler st s = Some (r, s') \<Longrightarrow> inv r s'"
proof (induction n arbitrary: st s)
  case 0
  then show ?case by simp
next
  case (Suc n)
  then show ?case
    using round_inv [OF Suc.prems(1)] by (auto split: option.splits outcome.splits)
qed

end

subsection \<open>The objects of the connections\<close>

text \<open>
  The objects of a server's connections are a list of addresses with their members.  Freeing one
  takes it out.
\<close>

fun drop_conn :: "int \<Rightarrow> (int \<times> 'a) list \<Rightarrow> (int \<times> 'a) list" where
  "drop_conn c [] = []"
| "drop_conn c (x # xs) = (if fst x = c then xs else x # drop_conn c xs)"

lemma drop_conn_mset:
  assumes "map_of xs c = Some v"
  shows "mset xs = add_mset (c, v) (mset (drop_conn c xs))" "set (drop_conn c xs) \<subseteq> set xs"
  using assms by (induction xs) (auto split: if_splits)

lemma set_drop_conn: "distinct (map fst xs) \<Longrightarrow> set (drop_conn c xs) = {x \<in> set xs. fst x \<noteq> c}"
  by (induction xs) (auto simp: rev_image_eqI)

lemma distinct_drop_conn: "distinct (map fst xs) \<Longrightarrow> distinct (map fst (drop_conn c xs))"
  by (induction xs) (auto simp: set_drop_conn)

lemma drop_conn_map: "drop_conn c (map (apsnd f) xs) = map (apsnd f) (drop_conn c xs)"
  by (induction xs) auto

subsection \<open>What the log says of a socket\<close>

text \<open>The bytes handed to \<open>send\<close> and the bytes that \<open>recv\<close> gave, in order.\<close>

definition sent :: "int \<Rightarrow> (call \<times> reply) list \<Rightarrow> bytes" where
  "sent sk t = concat (map (\<lambda>x. case fst x of
      Sock f \<Rightarrow> (case f of Send k d _ \<Rightarrow> if k = sk then d else [] | _ \<Rightarrow> [])
    | _ \<Rightarrow> []) t)"

definition recvd :: "int \<Rightarrow> (call \<times> reply) list \<Rightarrow> bytes" where
  "recvd sk t = concat (map (\<lambda>x. case fst x of
      Sock f \<Rightarrow> (case f of Recv k _ _ \<Rightarrow> if k = sk then take (nat (rv (snd x))) (out_bytes (snd x)) else [] | _ \<Rightarrow> [])
    | _ \<Rightarrow> []) t)"

lemma sent_simps [simp]:
  "sent sk [] = []" "sent sk (t @ u) = sent sk t @ sent sk u"
  "sent sk ((c, r) # t) = (case c of Sock f \<Rightarrow> (case f of Send k d _ \<Rightarrow> if k = sk then d else [] | _ \<Rightarrow> []) | _ \<Rightarrow> []) @ sent sk t"
  by (simp_all add: sent_def)

lemma recvd_simps [simp]:
  "recvd sk [] = []" "recvd sk (t @ u) = recvd sk t @ recvd sk u"
  "recvd sk ((c, r) # t) = (case c of Sock f \<Rightarrow> (case f of Recv k _ _ \<Rightarrow>
      if k = sk then take (nat (rv r)) (out_bytes r) else [] | _ \<Rightarrow> []) | _ \<Rightarrow> []) @ recvd sk t"
  by (simp_all add: recvd_def split: call.split sock_call.split)

text \<open>The transfers in the log: what was handed to \<open>send\<close> and what \<open>recv\<close> gave, with the socket.\<close>

definition sends :: "(call \<times> reply) list \<Rightarrow> (int \<times> bytes) list" where
  "sends t = concat (map (\<lambda>x. case fst x of
      Sock f \<Rightarrow> (case f of Send k d _ \<Rightarrow> [(k, d)] | _ \<Rightarrow> [])
    | _ \<Rightarrow> []) t)"

lemma sends_simps [simp]:
  "sends [] = []" "sends (t @ u) = sends t @ sends u"
  "sends ((c, r) # t) = (case c of Sock f \<Rightarrow> (case f of Send k d _ \<Rightarrow> [(k, d)] | _ \<Rightarrow> []) | _ \<Rightarrow> []) @ sends t"
  by (simp_all add: sends_def)

definition recvs :: "(call \<times> reply) list \<Rightarrow> (int \<times> bytes) list" where
  "recvs t = concat (map (\<lambda>x. case fst x of
      Sock f \<Rightarrow> (case f of Recv k _ _ \<Rightarrow> if 0 < rv (snd x) then [(k, take (nat (rv (snd x))) (out_bytes (snd x)))] else [] | _ \<Rightarrow> [])
    | _ \<Rightarrow> []) t)"

lemma recvs_simps [simp]:
  "recvs [] = []" "recvs (t @ u) = recvs t @ recvs u"
  "recvs ((c, r) # t) = (case c of Sock f \<Rightarrow> (case f of Recv k _ _ \<Rightarrow>
      if 0 < rv r then [(k, take (nat (rv r)) (out_bytes r))] else [] | _ \<Rightarrow> []) | _ \<Rightarrow> []) @ recvs t"
  by (simp_all add: recvs_def split: call.split sock_call.split)

text \<open>The number of calls that accept a connection.\<close>

definition n_accepts :: "(call \<times> reply) list \<Rightarrow> nat" where
  "n_accepts t = length (filter (\<lambda>x. case fst x of
      Sock f \<Rightarrow> (case f of Accept _ \<Rightarrow> True | Accept4 _ _ \<Rightarrow> True | _ \<Rightarrow> False)
    | _ \<Rightarrow> False) t)"

lemma n_accepts_simps [simp]:
  "n_accepts [] = 0" "n_accepts (t @ u) = n_accepts t + n_accepts u"
  "n_accepts ((c, r) # t) = (case c of Sock f \<Rightarrow> (case f of Accept _ \<Rightarrow> 1 | Accept4 _ _ \<Rightarrow> 1 | _ \<Rightarrow> 0) | _ \<Rightarrow> 0) + n_accepts t"
  by (simp_all add: n_accepts_def split: call.split sock_call.split)

text \<open>
  Messages leave the memory, the descriptors and the sockets as they are.  \<open>quiet\<close> says so of two
  states; the rules give it for a message and for the test for a fatal error.
\<close>

definition quiet :: "'w sys \<Rightarrow> 'w sys \<Rightarrow> bool" where
  "quiet s s' \<longleftrightarrow> heap_after (trace s') = heap_after (trace s) \<and> fds_after (trace s') = fds_after (trace s) \<and>
     n_accepts (trace s') = n_accepts (trace s) \<and> sends (trace s') = sends (trace s) \<and> recvs (trace s') = recvs (trace s) \<and>
     (\<forall>sk. sent sk (trace s') = sent sk (trace s) \<and> recvd sk (trace s') = recvd sk (trace s))"

lemma quiet_refl [simp]: "quiet s s"
  by (simp add: quiet_def)

lemma quiet_trans: "quiet s s' \<Longrightarrow> quiet s' s'' \<Longrightarrow> quiet s s''"
  by (simp add: quiet_def)

lemma fd_step_simps [simp]:
  "fd_step d (FileC (Write n b), r) = d" "fd_step d (Lib (Strerror n), r) = d" "fd_step d (Proc (Exit_process n), r) = d"
  "fd_step d (Sock (Send sk b n), r) = d" "fd_step d (Sock (Recv sk m n), r) = d"
  "fd_step d (Ev (Epoll_wait n m t), r) = d" "fd_step d (Ev (Kevent_wait n m u), r) = d"
  "fd_step d (Ev (Epoll_ctl_add n fd ev), r) = d" "fd_step d (Ev (Kevent_change n evs), r) = d"
  "fd_step (Some h) (FileC (Close n), r) = (if n \<in># h then Some (h - {#n#}) else None)"
  by (cases d; simp add: fd_step_def closed_def)+

lemma wp_srv_log:
  assumes "heap_after (trace s) \<noteq> None"
  shows "wp (srv_log K F level text args) (\<lambda>r s'. quiet s s') s"
  using assms unfolding srv_log_def fflog_def ffstdout_fmt_def std_fmt_def ffstdout_write_def Let_def quiet_def
  by (intro wp_intros) (auto split: option.splits)

lemma wp_srv_die:
  assumes "heap_after (trace s) \<noteq> None"
  shows "wp (srv_die K F ex func line) (\<lambda>ok s'. quiet s s' \<and> (ok \<longleftrightarrow> \<not> ex)) s"
  using assms unfolding srv_die_def fferr_strptr_def ffps_exit_def
  by (intro wp_intros wp_mono [OF wp_srv_log]) (auto simp: quiet_def)

text \<open>
  The wait ends the process also when a signal interrupted it.  Elsewhere than on Linux, \<open>-1\<close> is no
  wait without a limit but one of 4294967.295 seconds; after it the servers take what is on the
  stack for the event.
\<close>

lemma srv_wait_interrupted:
  assumes "fst (K (Ev (Epoll_wait kq 1 (-1))) (world s)) = \<lparr>rv = -1, rerr = Some EINTR, rout = out\<rparr>" "heap_after (trace s) \<noteq> None"
  shows "\<not> fst (fst (run_state (srv_wait K F Linux kq func line junk) s))"
proof -
  have "wp (srv_wait K F Linux kq func line junk) (\<lambda>r s'. \<not> fst r) s"
    using assms unfolding srv_wait_def ffkq_wait_defs ffkq_time_set_defs
    by (simp only: ff_linux_simps if_True ffkq_time.simps, intro wp_intros wp_mono [OF wp_srv_die]) auto
  then show ?thesis by (simp add: wp_def)
qed

lemma srv_wait_times_out:
  assumes "rv (fst (K (Ev (Kevent_wait kq 1 \<lparr>ts_sec = 4294967, ts_nsec = 295000000\<rparr>)) (world s))) = 0"
  shows "fst (run_state (srv_wait K F FreeBSD kq func line junk) s) = (True, junk)"
proof -
  have "ffkq_time_set FreeBSD (-1) = TimeSpec \<lparr>ts_sec = 4294967, ts_nsec = 295000000\<rparr>"
    by (simp add: ffkq_time_set_defs)
  then show ?thesis using assms by (simp add: srv_wait_def ffkq_wait_defs srv_die_def run_simps)
qed

text \<open>Waiting, accepting and creating a socket.\<close>

lemma wp_srv_wait:
  assumes "heap_after (trace s) \<noteq> None"
  shows "wp (srv_wait K F os kq func line junk) (\<lambda>r s'. quiet s s') s"
  using assms unfolding srv_wait_def ffkq_wait_defs
  by (cases "ffkq_time_set os (-1)"; simp only: ffkq_time.simps; intro wp_intros wp_mono [OF wp_srv_die])
    (auto simp: quiet_def)

lemma wp_accept:
  assumes "fds_after (trace s) = Some d" "heap_after (trace s) \<noteq> None"
  shows "wp (ffsock_accept K os lsk addr flags) (\<lambda>r s'. heap_after (trace s') = heap_after (trace s) \<and>
      fds_after (trace s') = Some (if fst r = -1 then d else add_mset (fst r) d) \<and>
      n_accepts (trace s') = Suc (n_accepts (trace s)) \<and> sends (trace s') = sends (trace s) \<and> recvs (trace s') = recvs (trace s) \<and>
      (\<forall>sk. sent sk (trace s') = sent sk (trace s) \<and> recvd sk (trace s') = recvd sk (trace s))) s"
  using assms unfolding ffsock_accept_def set_nonblock_or_close_def ffsock_nonblock_def ffsock_close_def
  by (intro wp_intros) (auto simp: fd_step_def closed_def)

lemma wp_create_tcp:
  assumes "fds_after (trace s) = Some d" "heap_after (trace s) \<noteq> None"
  shows "wp (ffsock_create_tcp K os domain flags) (\<lambda>r s'. heap_after (trace s') = heap_after (trace s) \<and>
      fds_after (trace s') = Some (if r = -1 then d else add_mset r d) \<and> sends (trace s') = sends (trace s) \<and> recvs (trace s') = recvs (trace s) \<and>
      (\<forall>sk. sent sk (trace s') = sent sk (trace s) \<and> recvd sk (trace s') = recvd sk (trace s))) s"
  using assms unfolding ffsock_create_tcp_def ffsock_create_def set_nonblock_or_close_def ffsock_nonblock_def ffsock_close_def
  by (intro wp_intros) (auto simp: fd_step_def closed_def)

subsection \<open>A system that keeps track\<close>

text \<open>
  What a server may rely on, on Linux: \<open>att\<close> are the descriptors attached to its event queue with
  their tasks, \<open>blocks\<close> the blocks of memory in use.  Closing a descriptor detaches it, a new
  block is not in use, an event has the task of something attached, and a wait without a
  time limit does not end without an event.
\<close>

definition att_after :: "call \<Rightarrow> reply \<Rightarrow> (int \<times> int) set \<Rightarrow> (int \<times> int) set" where
  "att_after c r A = (case c of
      Ev f \<Rightarrow> (case f of Epoll_ctl_add _ fd ev \<Rightarrow> if rv r = 0 then insert (fd, ep_data ev) A else A | _ \<Rightarrow> A)
    | FileC f \<Rightarrow> (case f of Close fd \<Rightarrow> {p \<in> A. fst p \<noteq> fd} | _ \<Rightarrow> A)
    | _ \<Rightarrow> A)"

definition blocks_after :: "call \<Rightarrow> reply \<Rightarrow> int set \<Rightarrow> int set" where
  "blocks_after c r B = (case c of
      Mem m \<Rightarrow> (case m of
          MFree p \<Rightarrow> B - {p}
        | MRealloc p n \<Rightarrow> if rv r = 0 then B else insert (rv r) (B - {p})
        | _ \<Rightarrow> if rv r = 0 then B else insert (rv r) B)
    | _ \<Rightarrow> B)"

definition reply_ok :: "call \<Rightarrow> reply \<Rightarrow> (int \<times> int) set \<Rightarrow> int set \<Rightarrow> bool" where
  "reply_ok c r A B = (case c of
      Mem m \<Rightarrow> (case m of MFree _ \<Rightarrow> True | MRealloc p _ \<Rightarrow> rv r = p \<or> rv r \<notin> B | _ \<Rightarrow> rv r \<notin> B)
    | Ev f \<Rightarrow> (case f of Epoll_wait _ _ _ \<Rightarrow> rv r \<noteq> 0 \<and> (0 < rv r \<longrightarrow> out_int r 0 \<in> snd ` A) | _ \<Rightarrow> True)
    | _ \<Rightarrow> True)"

definition net_laws :: "'w kernel \<Rightarrow> ('w \<Rightarrow> (int \<times> int) set) \<Rightarrow> ('w \<Rightarrow> int set) \<Rightarrow> bool" where
  "net_laws K att blocks \<longleftrightarrow> (\<forall>c w r w'. K c w = (r, w') \<longrightarrow>
     att w' = att_after c r (att w) \<and> blocks w' = blocks_after c r (blocks w) \<and> reply_ok c r (att w) (blocks w) \<and>
     0 \<notin> blocks w')"

lemma net_lawsD:
  assumes "net_laws K att blocks" "K c w = (r, w')"
  shows "att w' = att_after c r (att w)" "blocks w' = blocks_after c r (blocks w)" "reply_ok c r (att w) (blocks w)"
  using assms unfolding net_laws_def by blast+

text \<open>Messages change nothing of this either.\<close>

definition calm :: "('w \<Rightarrow> (int \<times> int) set) \<Rightarrow> ('w \<Rightarrow> int set) \<Rightarrow> 'w sys \<Rightarrow> 'w sys \<Rightarrow> bool" where
  "calm att blocks s s' \<longleftrightarrow> att (world s') = att (world s) \<and> blocks (world s') = blocks (world s)"

lemmas net_simps = att_after_def blocks_after_def reply_ok_def

lemma wp_net:
  assumes "net_laws K att blocks"
  shows "(\<And>r s'. K c (world s) = (r, world s') \<Longrightarrow> att (world s') = att_after c r (att (world s))
      \<Longrightarrow> blocks (world s') = blocks_after c r (blocks (world s)) \<Longrightarrow> reply_ok c r (att (world s)) (blocks (world s))
      \<Longrightarrow> lasterr s' = err_after r (lasterr s) \<Longrightarrow> Q r s') \<Longrightarrow> wp (sys K c) Q s"
    and "(\<And>r s'. K c (world s) = (r, world s') \<Longrightarrow> att (world s') = att_after c r (att (world s))
      \<Longrightarrow> blocks (world s') = blocks_after c r (blocks (world s)) \<Longrightarrow> reply_ok c r (att (world s)) (blocks (world s))
      \<Longrightarrow> lasterr s' = err_after r (lasterr s) \<Longrightarrow> P (rv r) s') \<Longrightarrow> wp (sysi K c) P s"
  using net_lawsD [OF assms] by (auto intro!: wp_sys wp_sysi)

lemmas wp_pure = wp_return wp_bind wp_if wp_let wp_prod wp_option wp_fferr_last wp_fferr_set

lemma wp_srv_log_calm:
  assumes "net_laws K att blocks" "0 \<notin> blocks (world s)"
  shows "wp (srv_log K F level text args) (\<lambda>r s'. calm att blocks s s') s"
  using assms(2) unfolding srv_log_def fflog_def ffstdout_fmt_def std_fmt_def ffstdout_write_def Let_def calm_def
  by (intro wp_pure wp_net [OF assms(1)]) (auto simp: net_simps)

lemma wp_srv_die_calm:
  assumes "net_laws K att blocks" "0 \<notin> blocks (world s)"
  shows "wp (srv_die K F ex func line) (\<lambda>ok s'. (ok \<longrightarrow> calm att blocks s s') \<and> (ok \<longleftrightarrow> \<not> ex)) s"
  using assms(2) unfolding srv_die_def
  by (intro wp_intros wp_mono [OF wp_any]) (auto simp: calm_def)

text \<open>
  Every task attached to the queue belongs to an object that is there: \<open>addr\<close> is the server's, with
  the listening socket, \<open>objs\<close> are those of the connections with their sockets.  They and the other
  blocks \<open>own\<close> are different blocks.
\<close>

definition live :: "('w \<Rightarrow> (int \<times> int) set) \<Rightarrow> ('w \<Rightarrow> int set) \<Rightarrow> int \<Rightarrow> int \<Rightarrow> int list \<Rightarrow> (int \<times> int) list \<Rightarrow> 'w sys \<Rightarrow> bool" where
  "live att blocks lsk addr own objs s \<longleftrightarrow> 0 \<notin> blocks (world s) \<and> distinct (addr # own @ map fst objs) \<and>
     set (addr # own @ map fst objs) \<subseteq> blocks (world s) \<and> (\<forall>x\<in>set objs. snd x \<noteq> -1) \<and>
     (\<forall>fd t. (fd, t) \<in> att (world s) \<longrightarrow> fd = lsk \<and> t = addr \<or> (t, fd) \<in> set objs)"

lemma live_calm: "live att blocks lsk addr own objs s \<Longrightarrow> calm att blocks s s' \<Longrightarrow> live att blocks lsk addr own objs s'"
  by (simp add: live_def calm_def)

lemma live_no_null: "live att blocks lsk addr own objs s \<Longrightarrow> 0 \<notin> blocks (world s)"
  by (simp add: live_def)

lemma live_task:
  "live att blocks lsk addr own objs s \<Longrightarrow> t \<in> snd ` att (world s) \<Longrightarrow> t \<noteq> addr \<Longrightarrow> t \<in> fst ` set objs"
  unfolding live_def by (force simp: image_iff)

lemma live_insert:
  assumes "live att blocks lsk addr own objs s" "c \<notin> blocks (world s)" "sk \<noteq> -1" "c \<noteq> 0"
    "att (world s') = insert (sk, c) (att (world s))" "blocks (world s') = insert c (blocks (world s))"
  shows "live att blocks lsk addr own ((c, sk) # objs) s'"
  using assms unfolding live_def by auto

lemma live_close:
  assumes "live att blocks lsk addr own objs s" "(c, sk) \<in> set objs"
    "att (world s') = {p \<in> att (world s). fst p \<noteq> sk}" "blocks (world s') = blocks (world s) - {c}"
  shows "live att blocks lsk addr own (drop_conn c objs) s'"
proof -
  have c: "c \<in> set (map fst objs)" using assms(2) by force
  have d: "distinct (map fst objs)" "c \<noteq> addr" "c \<notin> set own" using assms(1) c by (auto simp: live_def)
  have u: "snd x = sk" if "x \<in> set objs" "fst x = c" for x
    using that d(1) assms(2) by (metis map_of_is_SomeI option.inject prod.collapse)
  have t: "fd = lsk \<and> t = addr \<or> (t, fd) \<in> set (drop_conn c objs)" if "(fd, t) \<in> att (world s')" for fd t
  proof -
    have "fd \<noteq> sk" "fd = lsk \<and> t = addr \<or> (t, fd) \<in> set objs" using that assms(1,3) by (auto simp: live_def)
    then show ?thesis using u [of "(t, fd)"] by (auto simp: set_drop_conn [OF d(1)])
  qed
  have "distinct (addr # own @ map fst (drop_conn c objs))" "set (addr # own @ map fst (drop_conn c objs)) \<subseteq> blocks (world s')"
    "\<forall>x\<in>set (drop_conn c objs). snd x \<noteq> -1"
    using assms(1,4) d by (auto simp: live_def set_drop_conn distinct_drop_conn)
  then show ?thesis using t assms(1,4) unfolding live_def by auto
qed

lemma wp_srv_wait_live:
  assumes "net_laws K att blocks" "0 \<notin> blocks (world s)"
  shows "wp (srv_wait K F Linux kq func line junk) (\<lambda>r s'. fst r \<longrightarrow> calm att blocks s s' \<and> snd r \<in> snd ` att (world s')) s"
  using assms(2) unfolding srv_wait_def ffkq_wait_defs ffkq_time_set_defs
  by (simp only: ff_linux_simps if_True ffkq_time.simps, intro wp_pure wp_net [OF assms(1)] wp_mono [OF wp_srv_die_calm [OF assms(1)]])
    (auto simp: calm_def net_simps)

text \<open>Peers of an IPv4 socket have IPv4 addresses.\<close>

definition ip4_peers :: "'w kernel \<Rightarrow> (u16 \<Rightarrow> u16) \<Rightarrow> bool" where
  "ip4_peers K be \<longleftrightarrow> (\<forall>lsk f w. \<exists>d n. rout (fst (K (Sock (Accept4 lsk f)) w)) = OAddr d n \<and> u16_of d = AF_INET \<and> 8 \<le> length d)"

lemma ip4_peersD:
  assumes "ip4_peers K be" "K (Sock (Accept4 lsk f)) w = (r, w')"
  shows "\<not> length (fst (ffsockaddr_ip_port be \<lparr>sa_len = of_nat (snd (out_addr addr r)), sa_data = fst (out_addr addr r)\<rparr> 0)) < 4"
proof -
  obtain d n where "rout r = OAddr d n" "u16_of d = AF_INET" "8 \<le> length d"
    using assms(1) [unfolded ip4_peers_def, THEN spec, of lsk, THEN spec, of f, THEN spec, of w] assms(2) by auto
  then show ?thesis by (simp add: ffsockaddr_ip_port_def out_addr_def)
qed

subsection \<open>An instance\<close>

text \<open>
  A system with a client that sends two bytes: the world has what is attached, the blocks in use
  and how often data was received.
\<close>

definition sa4 :: bytes where
  "sa4 = [2, 0, 0, 80, 127, 0, 0, 1, 0, 0, 0, 0, 0, 0, 0, 0]"

definition rep :: "int \<Rightarrow> reply" where
  "rep n = \<lparr>rv = n, rerr = None, rout = NoOut\<rparr>"

definition clientR :: "call \<Rightarrow> (int \<times> int) list \<times> int list \<times> nat \<Rightarrow> reply" where
  "clientR c w = (case c of
      Mem m \<Rightarrow> (case m of MFree _ \<Rightarrow> rep 0 | _ \<Rightarrow> rep (1 + sum_list (map abs (fst (snd w)))))
    | Sock f \<Rightarrow> (case f of
          Accept4 _ _ \<Rightarrow> \<lparr>rv = 6, rerr = None, rout = OAddr sa4 16\<rparr>
        | Recv _ _ _ \<Rightarrow> if snd (snd w) = 0 then \<lparr>rv = 2, rerr = None, rout = OBytes [104, 105]\<rparr>
            else \<lparr>rv = -1, rerr = Some EAGAIN, rout = NoOut\<rparr>
        | Send _ d _ \<Rightarrow> rep (int (length d))
        | Socket _ _ _ \<Rightarrow> rep 5
        | Getsockname _ \<Rightarrow> \<lparr>rv = 0, rerr = None, rout = OAddr sa4 16\<rparr>
        | _ \<Rightarrow> rep 0)
    | Ev f \<Rightarrow> (case f of
          Epoll_create _ \<Rightarrow> rep 3
        | Epoll_wait _ _ _ \<Rightarrow> (case fst w of [] \<Rightarrow> rep (-1) | x # _ \<Rightarrow> \<lparr>rv = 1, rerr = None, rout = OInts [snd x]\<rparr>)
        | _ \<Rightarrow> rep 0)
    | _ \<Rightarrow> rep 0)"

definition clientK :: "call \<Rightarrow> (int \<times> int) list \<times> int list \<times> nat \<Rightarrow> reply \<times> (int \<times> int) list \<times> int list \<times> nat" where
  "clientK c w = (let r = clientR c w in (r,
     (case c of
        Ev f \<Rightarrow> (case f of Epoll_ctl_add _ fd ev \<Rightarrow> fst w @ [(fd, ep_data ev)] | _ \<Rightarrow> fst w)
      | FileC f \<Rightarrow> (case f of Close fd \<Rightarrow> filter (\<lambda>p. fst p \<noteq> fd) (fst w) | _ \<Rightarrow> fst w)
      | _ \<Rightarrow> fst w),
     (case c of
        Mem m \<Rightarrow> (case m of
            MFree p \<Rightarrow> filter (\<lambda>b. b \<noteq> p) (fst (snd w))
          | MRealloc p n \<Rightarrow> rv r # filter (\<lambda>b. b \<noteq> p) (fst (snd w))
          | _ \<Rightarrow> rv r # fst (snd w))
      | _ \<Rightarrow> fst (snd w)),
     (case c of Sock f \<Rightarrow> (case f of Recv _ _ _ \<Rightarrow> snd (snd w) + 1 | _ \<Rightarrow> snd (snd w)) | _ \<Rightarrow> snd (snd w))))"

lemma fresh_block: "1 + sum_list (map abs bs) \<notin> set (bs :: int list)" "1 + sum_list (map abs (bs :: int list)) \<noteq> 0"
proof -
  have "\<bar>b\<bar> \<le> sum_list (map abs bs)" if "b \<in> set bs" for b
    using that by (intro member_le_sum_list) auto
  then show "1 + sum_list (map abs bs) \<notin> set bs" by force
  have "0 \<le> sum_list (map abs bs)" by (intro sum_list_nonneg) auto
  then show "1 + sum_list (map abs bs) \<noteq> 0" by linarith
qed

lemma clientK_laws:
  "net_laws clientK (set \<circ> fst) (\<lambda>w. set (fst (snd w)) - {0})" "ip4_peers clientK be"
  "mem_available clientK"
proof -
  show "net_laws clientK (set \<circ> fst) (\<lambda>w. set (fst (snd w)) - {0})"
    unfolding net_laws_def clientK_def Let_def
    by (auto simp: fresh_block net_simps clientR_def rep_def split: call.split mem_call.split ev_call.split file_call.split list.split)
  show "ip4_peers clientK be"
    by (simp add: ip4_peers_def clientK_def clientR_def Let_def sa4_def u16_of_def AF_INET_def)
  show "mem_available clientK"
    using fresh_block(2) by (simp add: mem_available_def clientK_def clientR_def Let_def rep_def)
qed

end
