(* ===== verification/Router.thy ===== *)
theory Router
  imports Server
begin

text \<open>
  The message router (\<open>examples/tcp-msg-router.c\<close>): what it receives from a client it sends to its
  clients.  \<open>m_vec\<close> is the vector \<open>srv->conns\<close> of pointers, in the block \<open>m_ptr\<close>; \<open>m_objs\<close> are the
  objects of the connections with their addresses.  As everywhere, ffbase's vector grows by one call
  that gives a block, new or the same.
\<close>

record mrt_conn =
  mc_sk :: int
  mc_id :: string

record mrt_srv =
  m_conf :: int
  m_addr :: int
  m_kq :: int
  m_lsk :: int
  m_port :: u32
  m_ptr :: int
  m_vec :: "int list"
  m_objs :: "(int \<times> mrt_conn) list"

definition mrt_dbg :: "'w kernel \<Rightarrow> fmt \<Rightarrow> string \<Rightarrow> arg list \<Rightarrow> ('w, unit) prog" where
  "mrt_dbg K F text args = srv_log K F ''DBG : '' text args"

definition mrt_warn :: "'w kernel \<Rightarrow> fmt \<Rightarrow> string \<Rightarrow> arg list \<Rightarrow> ('w, unit) prog" where
  "mrt_warn K F text args = srv_log K F ''WARN: '' text args"

definition mrt_die :: "'w kernel \<Rightarrow> fmt \<Rightarrow> bool \<Rightarrow> string \<Rightarrow> int \<Rightarrow> ('w, bool) prog" where
  "mrt_die K F ex func line = srv_die K F ex func line"

text \<open>
  \<open>rmswap\<close> is ffbase's removal of one element of a slice, which moves the last one into its place.
  The first pointer to the connection is removed.
\<close>

definition mrt_srv_unlink_conn :: "(int list \<Rightarrow> nat \<Rightarrow> int list) \<Rightarrow> int \<Rightarrow> int list \<Rightarrow> int list" where
  "mrt_srv_unlink_conn rmswap c v =
     (let i = length (takeWhile (\<lambda>x. x \<noteq> c) v) in if i < length v then rmswap v i else v)"

definition mrt_conn_free :: "'w kernel \<Rightarrow> int \<Rightarrow> int \<Rightarrow> ('w, unit) prog" where
  "mrt_conn_free K c sk = do {
     ffsock_close K sk;
     sysi K (Mem (MFree c));
     State_Monad.return ()
   }"

definition mrt_conn_send :: "'w kernel \<Rightarrow> fmt \<Rightarrow> mrt_conn \<Rightarrow> bytes \<Rightarrow> ('w, bool) prog" where
  "mrt_conn_send K F c data = do {
     r \<leftarrow> ffsock_send K (mc_sk c) data 0;
     e \<leftarrow> fferr_last;
     if r < 0 \<and> fferr_again e then do {
       mrt_warn K F ''%s: client doesn't accept more data'' [AStr (mc_id c)];
       State_Monad.return True
     }
     else do {
       ok \<leftarrow> mrt_die K F (r < 0) ''mrt_conn_send'' 97;
       if \<not> ok then State_Monad.return False
       else do {
         mrt_dbg K F ''%s: sent %L bytes'' [AStr (mc_id c), AInt r];
         State_Monad.return True
       }
     }
   }"

fun mrt_srv_send :: "'w kernel \<Rightarrow> fmt \<Rightarrow> (int \<times> mrt_conn) list \<Rightarrow> int list \<Rightarrow> bytes \<Rightarrow> ('w, unit outcome) prog" where
  "mrt_srv_send K F objs [] data = State_Monad.return (Ret ())"
| "mrt_srv_send K F objs (c # cs) data = (case map_of objs c of
      None \<Rightarrow> State_Monad.return Fault
    | Some v \<Rightarrow> do {
        ok \<leftarrow> mrt_conn_send K F v data;
        if \<not> ok then State_Monad.return Exit else mrt_srv_send K F objs cs data
      })"

text \<open>One round of the loop of \<open>mrt_conn_recv\<close>: \<open>Inl\<close> goes on, \<open>Inr\<close> returns or ends.\<close>

definition mrt_recv_round :: "'w kernel \<Rightarrow> fmt \<Rightarrow> (int list \<Rightarrow> nat \<Rightarrow> int list) \<Rightarrow> int \<Rightarrow> mrt_conn \<Rightarrow> mrt_srv
    \<Rightarrow> ('w, unit + mrt_srv outcome) prog" where
  "mrt_recv_round K F rmswap c v st = do {
     x \<leftarrow> ffsock_recv K (mc_sk v) 1024 0;
     if fst x < 0 then do {
       e \<leftarrow> fferr_last;
       if fferr_again e then State_Monad.return (Inr (Ret st))
       else do { mrt_die K F True ''mrt_conn_recv'' 120; State_Monad.return (Inr Exit) }
     }
     else if fst x = 0 then do {
       mrt_dbg K F ''%s: peer closed connection'' [AStr (mc_id v)];
       mrt_conn_free K c (mc_sk v);
       State_Monad.return (Inr (Ret (st\<lparr>m_vec := mrt_srv_unlink_conn rmswap c (m_vec st), m_objs := drop_conn c (m_objs st)\<rparr>)))
     }
     else do {
       mrt_dbg K F ''%s: received %L bytes'' [AStr (mc_id v), AInt (fst x)];
       r \<leftarrow> mrt_srv_send K F (m_objs st) (m_vec st) (take (nat (fst x)) (snd x));
       State_Monad.return (case r of Ret _ \<Rightarrow> Inl () | Exit \<Rightarrow> Inr Exit | Fault \<Rightarrow> Inr Fault)
     }
   }"

partial_function (option) mrt_recv_loop :: "'w kernel \<Rightarrow> fmt \<Rightarrow> (int list \<Rightarrow> nat \<Rightarrow> int list) \<Rightarrow> int \<Rightarrow> mrt_conn \<Rightarrow> mrt_srv
    \<Rightarrow> 'w sys \<Rightarrow> (mrt_srv outcome \<times> 'w sys) option" where
  "mrt_recv_loop K F rmswap c v st s =
     (let a = run_state (mrt_recv_round K F rmswap c v st) s
      in case fst a of Inl _ \<Rightarrow> mrt_recv_loop K F rmswap c v st (snd a) | Inr r \<Rightarrow> Some (r, snd a))"

definition mrt_conn_recv :: "'w kernel \<Rightarrow> fmt \<Rightarrow> (int list \<Rightarrow> nat \<Rightarrow> int list) \<Rightarrow> int \<Rightarrow> mrt_srv
    \<Rightarrow> 'w sys \<Rightarrow> (mrt_srv outcome \<times> 'w sys) option" where
  "mrt_conn_recv K F rmswap c st s = (case map_of (m_objs st) c of
      None \<Rightarrow> Some (Fault, s)
    | Some v \<Rightarrow> mrt_recv_loop K F rmswap c v st s)"

definition mrt_accept_conn :: "'w kernel \<Rightarrow> fmt \<Rightarrow> os \<Rightarrow> (u16 \<Rightarrow> u16) \<Rightarrow> (bytes \<Rightarrow> string) \<Rightarrow> ffsockaddr \<Rightarrow> mrt_srv
    \<Rightarrow> ('w, mrt_srv outcome + int \<times> mrt_srv) prog" where
  "mrt_accept_conn K F os be ipfmt addr st = do {
     a \<leftarrow> ffsock_accept K os (m_lsk st) addr (FFSOCK_NONBLOCK os);
     if fst a = FFSOCK_NULL then do {
       e \<leftarrow> fferr_last;
       if fferr_again e then State_Monad.return (Inl (Ret st))
       else do { mrt_die K F True ''mrt_srv_accept1'' 141; State_Monad.return (Inl Exit) }
     }
     else do {
       c \<leftarrow> sysi K (Mem (MAlloc 32));
       if c = 0 then State_Monad.return (Inl Fault)
       else do {
         p \<leftarrow> sysi K (Mem (MRealloc (m_ptr st) ((length (m_vec st) + 1) * 8)));
         let ip = ffsockaddr_ip_port be (snd a) 0;
         if p = 0 \<or> length (fst ip) < 4 then State_Monad.return (Inl Fault)
         else do {
           let id = ipfmt (take 4 (fst ip));
           let st = st\<lparr>m_ptr := p, m_vec := m_vec st @ [c], m_objs := (c, \<lparr>mc_sk = fst a, mc_id = id\<rparr>) # m_objs st\<rparr>;
           mrt_dbg K F ''%p: accepted connection from %s:%u'' [AInt c, AStr id, AInt (uint (snd ip))];
           r \<leftarrow> ffkq_attach K os (m_kq st) (fst a) c (FFKQ_READWRITE os);
           ok \<leftarrow> mrt_die K F (0 \<noteq> r) ''mrt_srv_accept1'' 157;
           State_Monad.return (if ok then Inr (c, st) else Inl Exit)
         }
       }
     }
   }"

definition mrt_srv_accept1 :: "'w kernel \<Rightarrow> fmt \<Rightarrow> os \<Rightarrow> (u16 \<Rightarrow> u16) \<Rightarrow> (bytes \<Rightarrow> string) \<Rightarrow> (int list \<Rightarrow> nat \<Rightarrow> int list)
    \<Rightarrow> ffsockaddr \<Rightarrow> mrt_srv \<Rightarrow> 'w sys \<Rightarrow> (mrt_srv outcome \<times> 'w sys) option" where
  "mrt_srv_accept1 K F os be ipfmt rmswap addr st s =
     (let a = run_state (mrt_accept_conn K F os be ipfmt addr st) s
      in case fst a of
         Inl r \<Rightarrow> Some (r, snd a)
       | Inr (c, st') \<Rightarrow> mrt_conn_recv K F rmswap c st' (snd a))"

text \<open>The loop is left after its first round, as in the echo server.\<close>

definition mrt_srv_accept :: "'w kernel \<Rightarrow> fmt \<Rightarrow> os \<Rightarrow> (u16 \<Rightarrow> u16) \<Rightarrow> (bytes \<Rightarrow> string) \<Rightarrow> (int list \<Rightarrow> nat \<Rightarrow> int list)
    \<Rightarrow> ffsockaddr \<Rightarrow> mrt_srv \<Rightarrow> 'w sys \<Rightarrow> (mrt_srv outcome \<times> 'w sys) option" where
  "mrt_srv_accept K F os be ipfmt rmswap addr st s = mrt_srv_accept1 K F os be ipfmt rmswap addr st s"

abbreviation (input) SOMAXCONN :: int where "SOMAXCONN \<equiv> 4096"

definition mrt_srv_listen :: "'w kernel \<Rightarrow> fmt \<Rightarrow> os \<Rightarrow> (u16 \<Rightarrow> u16) \<Rightarrow> ffsockaddr \<Rightarrow> mrt_srv \<Rightarrow> ('w, mrt_srv outcome) prog" where
  "mrt_srv_listen K F os be addr st = do {
     lsk \<leftarrow> ffsock_create_tcp K os (uint AF_INET) (FFSOCK_NONBLOCK os);
     let st = st\<lparr>m_lsk := lsk\<rparr>;
     ok \<leftarrow> mrt_die K F (lsk = FFSOCK_NULL) ''mrt_srv_listen'' 172;
     if \<not> ok then State_Monad.return Exit else do {
       r \<leftarrow> ffkq_attach K os (m_kq st) lsk (m_addr st) (FFKQ_READ os);
       ok \<leftarrow> mrt_die K F (0 \<noteq> r) ''mrt_srv_listen'' 175;
       if \<not> ok then State_Monad.return Exit
       else if m_conf st = 0 then State_Monad.return Fault
       else do {
         let addr = ffsockaddr_set_ipv4 be addr None (m_port st);
         r \<leftarrow> ffsock_bind K lsk addr;
         ok \<leftarrow> mrt_die K F (0 \<noteq> r) ''mrt_srv_listen'' 179;
         if \<not> ok then State_Monad.return Exit else do {
           r \<leftarrow> ffsock_listen K lsk SOMAXCONN;
           ok \<leftarrow> mrt_die K F (0 \<noteq> r) ''mrt_srv_listen'' 180;
           if \<not> ok then State_Monad.return Exit else do {
             l \<leftarrow> ffsock_localaddr K lsk addr;
             ok \<leftarrow> mrt_die K F (0 \<noteq> fst l) ''mrt_srv_listen'' 181;
             if \<not> ok then State_Monad.return Exit else do {
               let st = st\<lparr>m_port := snd (ffsockaddr_ip_port be (snd l) (m_port st))\<rparr>;
               mrt_dbg K F ''listening on port %d'' [AInt (sint (m_port st))];
               State_Monad.return (Ret st)
             }
           }
         }
       }
     }
   }"

definition mrt_handler :: "'w kernel \<Rightarrow> fmt \<Rightarrow> os \<Rightarrow> (u16 \<Rightarrow> u16) \<Rightarrow> (bytes \<Rightarrow> string) \<Rightarrow> (int list \<Rightarrow> nat \<Rightarrow> int list)
    \<Rightarrow> ffsockaddr \<Rightarrow> int \<Rightarrow> mrt_srv \<Rightarrow> 'w sys \<Rightarrow> (mrt_srv outcome \<times> 'w sys) option" where
  "mrt_handler K F os be ipfmt rmswap addr t st s =
     (if t = m_addr st then mrt_srv_accept K F os be ipfmt rmswap addr st s else mrt_conn_recv K F rmswap t st s)"

definition mrt_run :: "nat \<Rightarrow> 'w kernel \<Rightarrow> fmt \<Rightarrow> os \<Rightarrow> (u16 \<Rightarrow> u16) \<Rightarrow> (bytes \<Rightarrow> string) \<Rightarrow> (int list \<Rightarrow> nat \<Rightarrow> int list)
    \<Rightarrow> ffsockaddr \<Rightarrow> int \<Rightarrow> mrt_srv \<Rightarrow> 'w sys \<Rightarrow> (mrt_srv outcome \<times> 'w sys) option" where
  "mrt_run n K F os be ipfmt rmswap addr junk st s =
     srv_rounds n (\<lambda>st. srv_wait K F os (m_kq st) ''mrt_run'' 193 junk) (mrt_handler K F os be ipfmt rmswap addr) st s"

definition mrt_destroy :: "'w kernel \<Rightarrow> mrt_srv \<Rightarrow> ('w, unit) prog" where
  "mrt_destroy K st = do {
     ffsock_close K (m_lsk st);
     ffkq_close K (m_kq st)
   }"

text \<open>\<open>main\<close> up to \<open>mrt_run\<close>, which never returns; \<open>port\<close> as in the echo server.\<close>

definition mrt_main :: "'w kernel \<Rightarrow> fmt \<Rightarrow> os \<Rightarrow> (u16 \<Rightarrow> u16) \<Rightarrow> ffsockaddr \<Rightarrow> u32 option option \<Rightarrow> ('w, mrt_srv outcome) prog" where
  "mrt_main K F os be addr port = do {
     conf \<leftarrow> sysi K (Mem (MAlloc 4));
     srv \<leftarrow> sysi K (Mem (MAlloc 40));
     if srv = 0 \<or> port \<noteq> None \<and> conf = 0 then State_Monad.return Fault
     else do {
       ok \<leftarrow> mrt_die K F (port = Some None) ''main'' 216;
       if \<not> ok then State_Monad.return Exit
       else do {
         kq \<leftarrow> ffkq_create K os;
         ok \<leftarrow> mrt_die K F (kq = FFKQ_NULL) ''main'' 219;
         if \<not> ok then State_Monad.return Exit
         else mrt_srv_listen K F os be addr \<lparr>m_conf = conf, m_addr = srv, m_kq = kq, m_lsk = FFSOCK_NULL,
           m_port = (case port of Some (Some p) \<Rightarrow> p | _ \<Rightarrow> 0), m_ptr = 0, m_vec = [], m_objs = []\<rparr>
       }
     }
   }"

subsection \<open>Properties\<close>

text \<open>
  The state owns the memory and the descriptors that are there, and the vector holds the addresses
  of exactly the connections.
\<close>

definition rmswap_ok :: "(int list \<Rightarrow> nat \<Rightarrow> int list) \<Rightarrow> bool" where
  "rmswap_ok rmswap \<longleftrightarrow> (\<forall>v i. i < length v \<longrightarrow> mset (rmswap v i) = mset v - {#v ! i#})"

fun mrt_inv :: "mrt_srv outcome \<Rightarrow> 'w sys \<Rightarrow> bool" where
  "mrt_inv (Ret st) s \<longleftrightarrow>
     heap_after (trace s) = Some ({#m_conf st, m_addr st#} + block (m_ptr st) + mset (map fst (m_objs st))) \<and>
     fds_after (trace s) = Some ({#m_kq st, m_lsk st#} + mset (map (mc_sk \<circ> snd) (m_objs st))) \<and>
     mset (m_vec st) = mset (map fst (m_objs st)) \<and>
     (\<forall>x\<in>set (m_objs st). fst x \<noteq> 0 \<and> mc_sk (snd x) \<noteq> -1)"
| "mrt_inv _ s \<longleftrightarrow> True"

lemma unlink_mset:
  assumes "rmswap_ok rmswap" "c \<in> set v"
  shows "mset (mrt_srv_unlink_conn rmswap c v) = mset v - {#c#}"
proof -
  let ?i = "length (takeWhile (\<lambda>x. x \<noteq> c) v)"
  have "?i < length v" using assms(2) by (metis (full_types) length_takeWhile_le nat_less_le takeWhile_eq_all_conv takeWhile_eq_take take_all_iff le_refl)
  moreover from this have "v ! ?i = c" using nth_length_takeWhile by blast
  ultimately show ?thesis using assms(1) by (simp add: mrt_srv_unlink_conn_def Let_def rmswap_ok_def)
qed

text \<open>Sending to all: each client once, in the order of the vector.\<close>

definition obj_sk :: "mrt_srv \<Rightarrow> int \<Rightarrow> int" where
  "obj_sk st c = mc_sk (the (map_of (m_objs st) c))"

lemma wp_conn_send:
  assumes "heap_after (trace s) \<noteq> None"
  shows "wp (mrt_conn_send K F v d) (\<lambda>ok s'. heap_after (trace s') = heap_after (trace s) \<and> fds_after (trace s') = fds_after (trace s) \<and>
      n_accepts (trace s') = n_accepts (trace s) \<and> recvs (trace s') = recvs (trace s) \<and>
      sends (trace s') = sends (trace s) @ [(mc_sk v, d)]) s"
  using assms unfolding mrt_conn_send_def ffsock_send_def mrt_warn_def mrt_die_def mrt_dbg_def
  by (intro wp_intros wp_mono [OF wp_srv_log] wp_mono [OF wp_srv_die]) (auto simp: quiet_def)

lemma wp_srv_send:
  assumes "heap_after (trace s) \<noteq> None" "set cs \<subseteq> fst ` set (m_objs st)"
  shows "wp (mrt_srv_send K F (m_objs st) cs d) (\<lambda>r s'. r \<noteq> Fault \<and>
      heap_after (trace s') = heap_after (trace s) \<and> fds_after (trace s') = fds_after (trace s) \<and>
      n_accepts (trace s') = n_accepts (trace s) \<and> recvs (trace s') = recvs (trace s) \<and>
      (r = Ret () \<longrightarrow> sends (trace s') = sends (trace s) @ map (\<lambda>c. (obj_sk st c, d)) cs)) s"
  using assms
proof (induction cs arbitrary: s)
  case Nil
  then show ?case by (simp add: wp_return)
next
  case (Cons c cs)
  obtain v where v: "map_of (m_objs st) c = Some v" using Cons.prems(2) by (auto simp: map_of_eq_None_iff dest: weak_map_of_SomeI)
  show ?case
    unfolding mrt_srv_send.simps v option.simps
    by (intro wp_bind wp_mono [OF wp_conn_send] wp_if wp_return wp_mono [OF Cons.IH]) (use Cons.prems v in \<open>auto simp: obj_sk_def\<close>)
qed

text \<open>A round passes one message to every client, or closes the connection, or leaves all as it is.\<close>

definition passed_on :: "mrt_srv \<Rightarrow> int \<Rightarrow> bytes list \<Rightarrow> 'w sys \<Rightarrow> 'w sys \<Rightarrow> bool" where
  "passed_on st sk ds s s' \<longleftrightarrow> recvs (trace s') = recvs (trace s) @ map (Pair sk) ds \<and>
     sends (trace s') = sends (trace s) @ concat (map (\<lambda>d. map (\<lambda>c. (obj_sk st c, d)) (m_vec st)) ds)"

lemma passed_on_Cons: "passed_on st sk [d] s s' \<Longrightarrow> passed_on st sk ds s' s'' \<Longrightarrow> passed_on st sk (d # ds) s s''"
  by (simp add: passed_on_def)

lemma wp_mrt_round:
  assumes "rmswap_ok rmswap" "mrt_inv (Ret st) s" "map_of (m_objs st) c = Some v"
  shows "wp (mrt_recv_round K F rmswap c v st) (\<lambda>r s'. n_accepts (trace s') = n_accepts (trace s) \<and> (case r of
      Inl _ \<Rightarrow> mrt_inv (Ret st) s' \<and> (\<exists>d. passed_on st (mc_sk v) [d] s s')
    | Inr q \<Rightarrow> q \<noteq> Fault \<and> mrt_inv q s' \<and> (q \<noteq> Exit \<longrightarrow> passed_on st (mc_sk v) [] s s'))) s"
proof -
  let ?st = "st\<lparr>m_vec := mrt_srv_unlink_conn rmswap c (m_vec st), m_objs := drop_conn c (m_objs st)\<rparr>"
  have h: "heap_after (trace s) \<noteq> None" using assms(2) by auto
  have c: "c \<noteq> 0" "mc_sk v \<noteq> -1" "set (m_vec st) \<subseteq> fst ` set (m_objs st)" "c \<in> set (m_vec st)"
    using assms(2) map_of_SomeD [OF assms(3)] mset_eq_setD [of "m_vec st" "map fst (m_objs st)"] by force+
  have f: "mrt_inv (Ret ?st) s'"
    if "heap_after (trace s') = map_option (\<lambda>m. m - {#c#}) (heap_after (trace s))"
      "fds_after (trace s') = map_option (\<lambda>m. m - {#mc_sk v#}) (fds_after (trace s))" for s' :: "'a sys"
    using that assms(2) drop_conn_mset [OF assms(3)] unlink_mset [OF assms(1) c(4)] by auto
  have m: "c \<in># the (heap_after (trace s))" "mc_sk v \<in># the (fds_after (trace s))"
    using assms(2) map_of_SomeD [OF assms(3)] by force+
  obtain H where H: "heap_after (trace s) = Some H" "c \<in># H" using h m by auto
  obtain D where D: "fds_after (trace s) = Some D" "mc_sk v \<in># D" using assms(2) m by auto
  have fr: "wp (mrt_conn_free K c (mc_sk v)) (\<lambda>r s'. heap_after (trace s') = Some (H - {#c#}) \<and> fds_after (trace s') = Some (D - {#mc_sk v#}) \<and>
      n_accepts (trace s') = n_accepts (trace s1) \<and> sends (trace s') = sends (trace s1) \<and> recvs (trace s') = recvs (trace s1)) s1"
    if "heap_after (trace s1) = Some H" "fds_after (trace s1) = Some D" for s1
    using that c(1,2) H(2) D(2) unfolding mrt_conn_free_def ffsock_close_def by (intro wp_intros) auto
  have i: "mrt_inv (Ret st) s'" if "heap_after (trace s') = Some H" "fds_after (trace s') = Some D" for s' :: "'a sys"
    using that assms(2) H D by simp
  show ?thesis
    unfolding mrt_recv_round_def ffsock_recv_def mrt_die_def mrt_dbg_def
    by (intro wp_bind wp_sys wp_if wp_return wp_fferr_last wp_mono [OF wp_srv_log] wp_mono [OF wp_srv_die] wp_mono [OF fr]
        wp_mono [OF wp_srv_send [OF _ c(3)]])
      (use H D f i in \<open>auto simp: quiet_def passed_on_def simp del: mrt_inv.simps(1) split: outcome.splits\<close>)
qed

lemma mrt_loop_inv:
  assumes "mrt_recv_loop K F rmswap c v st s = Some (r, s')" "rmswap_ok rmswap" "mrt_inv (Ret st) s" "map_of (m_objs st) c = Some v"
  shows "r \<noteq> Fault \<and> mrt_inv r s' \<and> n_accepts (trace s') = n_accepts (trace s) \<and>
    (r \<noteq> Exit \<longrightarrow> (\<exists>ds. passed_on st (mc_sk v) ds s s'))"
  using assms
proof (induction K F rmswap c v st s "(r, s')" rule: mrt_recv_loop.raw_induct [rotated 1, consumes 1, case_names step])
  case (step loop K F rmswap c v st s)
  let ?a = "run_state (mrt_recv_round K F rmswap c v st) s"
  note w = wpD [OF wp_mrt_round [OF step.prems, of K F]]
  show ?case
  proof (cases "fst ?a")
    case (Inl u)
    then obtain d where i: "mrt_inv (Ret st) (snd ?a)" "passed_on st (mc_sk v) [d] s (snd ?a)"
      "n_accepts (trace (snd ?a)) = n_accepts (trace s)" using w by auto
    have "loop K F rmswap c v st (snd ?a) = Some (r, s')" using step.hyps(2) Inl by (simp add: Let_def)
    from step.hyps(1) [OF this step.prems(1) i(1) step.prems(3)] show ?thesis
      using i(2,3) passed_on_Cons [OF i(2)] by metis
  next
    case (Inr q)
    then have "q = r" "snd ?a = s'" using step.hyps(2) by (simp_all add: Let_def)
    then show ?thesis using w Inr by auto
  qed
qed

lemma mrt_conn_recv_inv:
  assumes "mrt_conn_recv K F rmswap c st s = Some (r, s')" "rmswap_ok rmswap" "mrt_inv (Ret st) s"
  shows "mrt_inv r s' \<and> n_accepts (trace s') = n_accepts (trace s)"
  using assms mrt_loop_inv [of K F rmswap c _ st s r s'] by (auto simp: mrt_conn_recv_def split: option.splits)

lemma wp_mrt_accept_conn:
  assumes "mrt_inv (Ret st) s"
  shows "wp (mrt_accept_conn K F os be ipfmt addr st)
    (\<lambda>r s'. n_accepts (trace s') = Suc (n_accepts (trace s)) \<and>
      (case r of Inl q \<Rightarrow> mrt_inv q s' | Inr (c, st') \<Rightarrow> mrt_inv (Ret st') s')) s"
proof -
  have h: "heap_after (trace s) \<noteq> None" using assms by auto
  have f: "fds_after (trace s) = Some ({#m_kq st, m_lsk st#} + mset (map (mc_sk \<circ> snd) (m_objs st)))" using assms by simp
  show ?thesis
    using assms unfolding mrt_accept_conn_def mrt_die_def mrt_dbg_def ffkq_attach_defs
    by (intro wp_bind wp_mono [OF wp_accept [OF f h]] wp_intros wp_mono [OF wp_srv_log] wp_mono [OF wp_srv_die])
      (auto simp: quiet_def block_def split: if_splits)
qed

lemma mrt_accept_inv:
  assumes "mrt_srv_accept K F os be ipfmt rmswap addr st s = Some (r, s')" "rmswap_ok rmswap" "mrt_inv (Ret st) s"
  shows "mrt_inv r s' \<and> n_accepts (trace s') = Suc (n_accepts (trace s))"
proof -
  let ?a = "run_state (mrt_accept_conn K F os be ipfmt addr st) s"
  note w = wpD [OF wp_mrt_accept_conn [OF assms(3), of K F os be ipfmt addr]]
  show ?thesis
  proof (cases "fst ?a")
    case (Inl q)
    then show ?thesis using w assms(1) by (auto simp: mrt_srv_accept_def mrt_srv_accept1_def Let_def)
  next
    case (Inr p)
    then have "mrt_conn_recv K F rmswap (fst p) (snd p) (snd ?a) = Some (r, s')" "mrt_inv (Ret (snd p)) (snd ?a)"
      using w assms(1) by (simp_all add: mrt_srv_accept_def mrt_srv_accept1_def Let_def split_beta del: mrt_inv.simps)
    from mrt_conn_recv_inv [OF this(1) assms(2) this(2)] show ?thesis using w by simp
  qed
qed

lemma mrt_server_loop:
  assumes "rmswap_ok rmswap"
  shows "server_loop (\<lambda>st. srv_wait K F os (m_kq st) ''mrt_run'' 193 junk) (mrt_handler K F os be ipfmt rmswap addr) mrt_inv (\<lambda>st s t. True)"
proof
  fix st and s :: "'a sys"
  assume i: "mrt_inv (Ret st) s"
  then have "heap_after (trace s) \<noteq> None" by auto
  then show "wp (srv_wait K F os (m_kq st) ''mrt_run'' 193 junk)
      (\<lambda>r s'. if fst r then mrt_inv (Ret st) s' \<and> True else mrt_inv Exit s') s"
    by (rule wp_mono [OF wp_srv_wait]) (use i in \<open>auto simp: quiet_def\<close>)
next
  fix st t r and s s' :: "'a sys"
  assume "mrt_inv (Ret st) s" "mrt_handler K F os be ipfmt rmswap addr t st s = Some (r, s')"
  then show "mrt_inv r s'"
    using mrt_accept_inv [OF _ assms] mrt_conn_recv_inv [OF _ assms] unfolding mrt_handler_def by metis
qed

lemma wp_mrt_listen:
  assumes "heap_after (trace s) = Some (block (m_conf st) + {#m_addr st#})" "fds_after (trace s) = Some {#m_kq st#}"
    "m_objs st = []" "m_vec st = []" "m_ptr st = 0"
  shows "wp (mrt_srv_listen K F os be addr st) mrt_inv s"
proof -
  have h: "heap_after (trace s) \<noteq> None" using assms by simp
  have fd: "fd_step d (Sock (Setsockopt a b c v), r) = d" "fd_step d (Sock (Bind a x), r) = d"
    "fd_step d (Sock (Listen a b), r) = d" "fd_step d (Sock (Getsockname a), r) = d" for d a b c v x r
    by (cases d; simp add: fd_step_def closed_def)+
  show ?thesis
    using assms
    unfolding mrt_srv_listen_def mrt_die_def mrt_dbg_def ffkq_attach_defs ffsock_bind_def ffsock_setopt_def ffsock_listen_def
      ffsock_localaddr_def
    by (intro wp_bind wp_mono [OF wp_create_tcp [OF assms(2) h]] wp_intros wp_mono [OF wp_srv_log] wp_mono [OF wp_srv_die])
      (auto simp: quiet_def fd block_def split: if_splits)
qed

lemma wp_mrt_main: "wp (mrt_main K F os be addr port) mrt_inv (start w e)"
proof -
  have r: "wp (State_Monad.return r) mrt_inv s" if "\<not> (\<exists>st. r = Ret st)" for r s
    using that by (cases r) (auto intro!: wp_return)
  show ?thesis
    unfolding mrt_main_def mrt_die_def ffkq_create_defs
    by (intro wp_bind wp_if wp_sysi r wp_mono [OF wp_srv_die] wp_mrt_listen)
      (auto simp: quiet_def block_def fd_step_def closed_def)
qed

text \<open>
  However many rounds the router makes and whatever the system answers, its memory and its
  descriptors are those of its objects and connections, and its vector lists the connections.
\<close>

theorem router_invariant:
  assumes "rmswap_ok rmswap" "run_state (mrt_main K F os be addr port) (start w e) = (Ret st, s)"
    "mrt_run n K F os be ipfmt rmswap addr junk st s = Some (r, s')"
  shows "mrt_inv r s'"
proof (rule server_loop.rounds_inv [OF mrt_server_loop [OF assms(1)]])
  show "mrt_inv (Ret st) s" using wpD [OF wp_mrt_main [of K F os be addr port w e]] assms(2) by simp
  show "srv_rounds n (\<lambda>st. srv_wait K F os (m_kq st) ''mrt_run'' 193 junk) (mrt_handler K F os be ipfmt rmswap addr) st s = Some (r, s')"
    using assms(3) by (simp add: mrt_run_def)
qed


subsection \<open>No access to freed objects\<close>

text \<open>
  On Linux: every task attached to the queue belongs to an object that is there, the block of the
  vector is none of them, and the vector lists the connections.
\<close>

definition mrt_objs :: "mrt_srv \<Rightarrow> (int \<times> int) list" where
  "mrt_objs st = map (apsnd mc_sk) (m_objs st)"

definition mrt_blocks :: "mrt_srv \<Rightarrow> int list" where
  "mrt_blocks st = (if m_ptr st = 0 then [] else [m_ptr st])"

fun mrt_live :: "('w \<Rightarrow> (int \<times> int) set) \<Rightarrow> ('w \<Rightarrow> int set) \<Rightarrow> mrt_srv outcome \<Rightarrow> 'w sys \<Rightarrow> bool" where
  "mrt_live att blocks (Ret st) s \<longleftrightarrow> live att blocks (m_lsk st) (m_addr st) (mrt_blocks st) (mrt_objs st) s \<and>
     mset (m_vec st) = mset (map fst (m_objs st))"
| "mrt_live att blocks Exit s \<longleftrightarrow> True"
| "mrt_live att blocks Fault s \<longleftrightarrow> False"

lemma mrt_objs_fst: "fst ` set (mrt_objs st) = fst ` set (m_objs st)"
  by (force simp: mrt_objs_def)

lemma mrt_objs_simps:
  "mrt_blocks (st\<lparr>m_vec := v, m_objs := objs\<rparr>) = mrt_blocks st"
  "mrt_objs (st\<lparr>m_vec := v, m_objs := drop_conn c (m_objs st)\<rparr>) = drop_conn c (mrt_objs st)"
  "mrt_objs (st\<lparr>m_ptr := p, m_vec := v, m_objs := (c, \<lparr>mc_sk = sk, mc_id = i\<rparr>) # m_objs st\<rparr>) = (c, sk) # mrt_objs st"
  by (simp_all add: mrt_objs_def mrt_blocks_def drop_conn_map)

lemma mrt_live_calm: "mrt_live att blocks (Ret st) s \<Longrightarrow> calm att blocks s s' \<Longrightarrow> mrt_live att blocks (Ret st) s'"
  using live_calm by auto

lemma wp_conn_send_calm:
  assumes "net_laws K att blocks" "0 \<notin> blocks (world s)"
  shows "wp (mrt_conn_send K F v d) (\<lambda>ok s'. ok \<longrightarrow> calm att blocks s s') s"
  using assms(2) unfolding mrt_conn_send_def ffsock_send_def mrt_warn_def mrt_die_def mrt_dbg_def
  by (intro wp_pure wp_net [OF assms(1)] wp_mono [OF wp_srv_log_calm [OF assms(1)]] wp_mono [OF wp_srv_die_calm [OF assms(1)]])
    (auto simp: calm_def net_simps)

lemma wp_srv_send_calm:
  assumes "net_laws K att blocks" "0 \<notin> blocks (world s)" "set cs \<subseteq> fst ` set objs"
  shows "wp (mrt_srv_send K F objs cs d) (\<lambda>r s'. r \<noteq> Fault \<and> (r = Ret () \<longrightarrow> calm att blocks s s')) s"
  using assms(2,3)
proof (induction cs arbitrary: s)
  case Nil
  then show ?case by (simp add: wp_return calm_def)
next
  case (Cons c cs)
  obtain v where v: "map_of objs c = Some v" using Cons.prems(2) by (auto simp: map_of_eq_None_iff dest: weak_map_of_SomeI)
  show ?case
    unfolding mrt_srv_send.simps v option.simps
    by (intro wp_bind wp_mono [OF wp_conn_send_calm [OF assms(1)]] wp_if wp_return wp_mono [OF Cons.IH])
      (use Cons.prems in \<open>auto simp: calm_def\<close>)
qed

lemma mrt_live_close:
  assumes "rmswap_ok rmswap" "mrt_live att blocks (Ret st) s" "map_of (m_objs st) c = Some v"
    "att (world s') = {p \<in> att (world s). fst p \<noteq> mc_sk v}" "blocks (world s') = blocks (world s) - {c}"
  shows "mrt_live att blocks (Ret (st\<lparr>m_vec := mrt_srv_unlink_conn rmswap c (m_vec st), m_objs := drop_conn c (m_objs st)\<rparr>)) s'"
proof -
  have m: "(c, mc_sk v) \<in> set (mrt_objs st)" using map_of_SomeD [OF assms(3)] by (force simp: mrt_objs_def)
  have "live att blocks (m_lsk st) (m_addr st) (mrt_blocks st) (drop_conn c (mrt_objs st)) s'"
    using assms(2) live_close [OF _ m assms(4,5)] by simp
  moreover have "c \<in> set (m_vec st)"
    using assms(2) map_of_SomeD [OF assms(3)] mset_eq_setD [of "m_vec st" "map fst (m_objs st)"] by force
  ultimately show ?thesis
    using assms(2) unlink_mset [OF assms(1), of c "m_vec st"] drop_conn_mset(1) [OF assms(3)]
    by (simp add: mrt_objs_simps)
qed

lemma wp_mrt_round_live:
  assumes "net_laws K att blocks" "rmswap_ok rmswap" "mrt_live att blocks (Ret st) s" "map_of (m_objs st) c = Some v"
  shows "wp (mrt_recv_round K F rmswap c v st) (\<lambda>r s'. case r of
      Inl _ \<Rightarrow> mrt_live att blocks (Ret st) s'
    | Inr q \<Rightarrow> mrt_live att blocks q s') s"
proof -
  have z: "0 \<notin> blocks (world s)" "mc_sk v \<noteq> -1"
    using assms(3) map_of_SomeD [OF assms(4)] by (force simp: live_def mrt_objs_def)+
  have vs: "set (m_vec st) \<subseteq> fst ` set (m_objs st)"
    using assms(3) mset_eq_setD [of "m_vec st" "map fst (m_objs st)"] by simp
  have fr: "wp (mrt_conn_free K c (mc_sk v)) (\<lambda>r s'. att (world s') = {p \<in> att (world s1). fst p \<noteq> mc_sk v} \<and>
      blocks (world s') = blocks (world s1) - {c}) s1" for s1
    using z(2) unfolding mrt_conn_free_def ffsock_close_def by (intro wp_pure wp_net [OF assms(1)]) (auto simp: net_simps)
  have k: "mrt_live att blocks (Ret st) s'" if "att (world s') = att (world s)" "blocks (world s') = blocks (world s)" for s'
    using mrt_live_calm [OF assms(3)] that by (simp add: calm_def)
  show ?thesis
    unfolding mrt_recv_round_def ffsock_recv_def mrt_die_def mrt_dbg_def
    apply (intro wp_pure wp_net [OF assms(1)] wp_mono [OF wp_srv_log_calm [OF assms(1)]] wp_mono [OF wp_srv_die_calm [OF assms(1)]]
        wp_mono [OF fr] wp_mono [OF wp_srv_send_calm [OF assms(1) _ vs]])
    apply (auto simp: calm_def net_simps z k mrt_live_close [OF assms(2-4)] simp del: mrt_live.simps(1) split: outcome.split)
    done
qed

lemma mrt_loop_live:
  assumes "mrt_recv_loop K F rmswap c v st s = Some (r, s')" "net_laws K att blocks" "rmswap_ok rmswap" "mrt_live att blocks (Ret st) s"
    "map_of (m_objs st) c = Some v"
  shows "mrt_live att blocks r s'"
  using assms
proof (induction K F rmswap c v st s "(r, s')" rule: mrt_recv_loop.raw_induct [rotated 1, consumes 1, case_names step])
  case (step loop K F rmswap c v st s)
  note w = wpD [OF wp_mrt_round_live [OF step.prems, of F]]
  show ?case
  proof (cases "fst (run_state (mrt_recv_round K F rmswap c v st) s)")
    case (Inl u)
    then have "loop K F rmswap c v st (snd (run_state (mrt_recv_round K F rmswap c v st) s)) = Some (r, s')"
      using step.hyps(2) by (simp add: Let_def)
    from step.hyps(1) [OF this step.prems(1,2) _ step.prems(4)] show ?thesis using w Inl by simp
  next
    case (Inr q)
    then show ?thesis using w step.hyps(2) by (simp add: Let_def)
  qed
qed

lemma mrt_conn_recv_live:
  assumes "mrt_conn_recv K F rmswap c st s = Some (r, s')" "net_laws K att blocks" "rmswap_ok rmswap" "mrt_live att blocks (Ret st) s"
    "c \<in> fst ` set (mrt_objs st)"
  shows "mrt_live att blocks r s'"
proof -
  obtain v where v: "map_of (m_objs st) c = Some v"
    using assms(5) unfolding mrt_objs_fst by (metis map_of_eq_None_iff option.exhaust)
  then have "mrt_recv_loop K F rmswap c v st s = Some (r, s')" using assms(1) by (simp add: mrt_conn_recv_def)
  then show ?thesis by (rule mrt_loop_live [OF _ assms(2-4) v])
qed

lemma mrt_live_push:
  assumes "mrt_live att blocks (Ret st) s" "c \<notin> blocks (world s)" "c \<noteq> 0" "p \<noteq> 0" "sk \<noteq> -1"
    "p = m_ptr st \<or> p \<notin> insert c (blocks (world s))"
    "att (world s') = insert (sk, c) (att (world s))" "blocks (world s') = insert p (insert c (blocks (world s)) - {m_ptr st})"
  shows "mrt_live att blocks (Ret (st\<lparr>m_ptr := p, m_vec := m_vec st @ [c], m_objs := (c, \<lparr>mc_sk = sk, mc_id = i\<rparr>) # m_objs st\<rparr>)) s'"
proof -
  let ?B = "blocks (world s)" and ?C = "fst ` set (mrt_objs st)" and ?q = "m_ptr st"
  have l: "0 \<notin> ?B" "distinct (map fst (mrt_objs st))" "m_addr st \<notin> ?C" "m_addr st \<in> ?B" "?C \<subseteq> ?B" "\<forall>x\<in>set (mrt_objs st). snd x \<noteq> -1"
    "\<forall>fd t. (fd, t) \<in> att (world s) \<longrightarrow> fd = m_lsk st \<and> t = m_addr st \<or> (t, fd) \<in> set (mrt_objs st)"
    using assms(1) by (simp_all add: live_def)
  have q: "?q \<notin> insert c (insert (m_addr st) ?C)"
  proof (cases "?q = 0")
    case True
    then show ?thesis using l(1,4,5) assms(3) by auto
  next
    case False
    then have "distinct (m_addr st # ?q # map fst (mrt_objs st))" "?q \<in> ?B" using assms(1) by (simp_all add: live_def mrt_blocks_def)
    then show ?thesis using assms(2) by auto
  qed
  have n: "p \<notin> insert c (insert (m_addr st) ?C)" "c \<notin> insert (m_addr st) ?C"
    using assms(2,6) q l(4,5) by auto
  have "live att blocks (m_lsk st) (m_addr st) [p] ((c, sk) # mrt_objs st) s'"
    unfolding live_def
  proof (intro conjI)
    show "0 \<notin> blocks (world s')" using assms(3,4,8) l(1) by simp
    show "distinct (m_addr st # [p] @ map fst ((c, sk) # mrt_objs st))" using n l(2,3) by simp
    show "set (m_addr st # [p] @ map fst ((c, sk) # mrt_objs st)) \<subseteq> blocks (world s')" using assms(8) q l(4,5) by (auto simp: image_iff)
    show "\<forall>x\<in>set ((c, sk) # mrt_objs st). snd x \<noteq> -1" using assms(5) l(6) by simp
    show "\<forall>fd t. (fd, t) \<in> att (world s') \<longrightarrow> fd = m_lsk st \<and> t = m_addr st \<or> (t, fd) \<in> set ((c, sk) # mrt_objs st)"
      using assms(7) l(7) by auto
  qed
  then show ?thesis using assms(1,4) by (simp add: mrt_objs_simps) (simp add: mrt_blocks_def)
qed

lemma wp_mrt_accept_live:
  assumes "net_laws K att blocks" "ip4_peers K be" "mem_available K" "mrt_live att blocks (Ret st) s"
  shows "wp (mrt_accept_conn K F Linux be ipfmt addr st)
    (\<lambda>r s'. case r of Inl q \<Rightarrow> mrt_live att blocks q s'
      | Inr (c, st') \<Rightarrow> mrt_live att blocks (Ret st') s' \<and> c \<in> fst ` set (mrt_objs st')) s"
proof -
  note a = ip4_peersD [OF assms(2)]
  note m = mem_availableD [OF assms(3)]
  have z: "0 \<notin> blocks (world s)" using assms(4) by (simp add: live_def)
  have k: "mrt_live att blocks (Ret st) s'" if "att (world s') = att (world s)" "blocks (world s') = blocks (world s)" for s'
    using mrt_live_calm [OF assms(4)] that by (simp add: calm_def)
  show ?thesis
    unfolding mrt_accept_conn_def ffsock_accept_def mrt_die_def mrt_dbg_def ffkq_attach_defs
    apply (simp only: simp_thms if_True ff_linux_simps)
    apply (intro wp_pure wp_net [OF assms(1)] wp_mono [OF wp_srv_log_calm [OF assms(1)]] wp_mono [OF wp_srv_die_calm [OF assms(1)]])
    apply (simp_all add: calm_def net_simps a m z k mrt_objs_simps del: mrt_live.simps(1))
    apply (intro impI mrt_live_push [OF assms(4)])
    apply (simp_all add: m)
    done
qed

lemma mrt_accept_live:
  assumes "net_laws K att blocks" "ip4_peers K be" "mem_available K" "rmswap_ok rmswap"
    "mrt_live att blocks (Ret st) s" "mrt_srv_accept K F Linux be ipfmt rmswap addr st s = Some (r, s')"
  shows "mrt_live att blocks r s'"
proof -
  let ?a = "run_state (mrt_accept_conn K F Linux be ipfmt addr st) s"
  note w = wpD [OF wp_mrt_accept_live [OF assms(1-3,5), of F ipfmt addr]]
  show ?thesis
  proof (cases "fst ?a")
    case (Inl q)
    then show ?thesis using w assms(6) by (simp add: mrt_srv_accept_def mrt_srv_accept1_def Let_def)
  next
    case (Inr p)
    then show ?thesis using w assms(6) mrt_conn_recv_live [OF _ assms(1,4), of F "fst p" "snd p" "snd ?a"]
      by (simp add: mrt_srv_accept_def mrt_srv_accept1_def Let_def split_beta del: mrt_live.simps(1))
  qed
qed

lemma mrt_live_loop:
  assumes "net_laws K att blocks" "ip4_peers K be" "mem_available K" "rmswap_ok rmswap"
  shows "server_loop (\<lambda>st. srv_wait K F Linux (m_kq st) ''mrt_run'' 193 junk) (mrt_handler K F Linux be ipfmt rmswap addr)
    (mrt_live att blocks) (\<lambda>st s t. t \<in> snd ` att (world s))"
proof
  fix st s
  assume i: "mrt_live att blocks (Ret st) s"
  then have z: "0 \<notin> blocks (world s)" by (simp add: live_def)
  show "wp (srv_wait K F Linux (m_kq st) ''mrt_run'' 193 junk) (\<lambda>r s'. if fst r
      then mrt_live att blocks (Ret st) s' \<and> snd r \<in> snd ` att (world s') else mrt_live att blocks Exit s') s"
    by (rule wp_mono [OF wp_srv_wait_live [OF assms(1) z]]) (use i live_calm in auto)
next
  fix st s t r s'
  assume i: "mrt_live att blocks (Ret st) s" and t: "t \<in> snd ` att (world s)"
    and h: "mrt_handler K F Linux be ipfmt rmswap addr t st s = Some (r, s')"
  show "mrt_live att blocks r s'"
  proof (cases "t = m_addr st")
    case True
    then show ?thesis using h mrt_accept_live [OF assms i] by (simp add: mrt_handler_def)
  next
    case False
    with live_task [OF i [unfolded mrt_live.simps, THEN conjunct1] t] have "t \<in> fst ` set (mrt_objs st)" by simp
    then show ?thesis using False h mrt_conn_recv_live [OF _ assms(1,4) i] by (simp add: mrt_handler_def)
  qed
qed

lemma wp_mrt_listen_live:
  assumes "net_laws K att blocks" "att (world s) = {}" "0 \<notin> blocks (world s)" "m_addr st \<in> blocks (world s)"
    "m_objs st = []" "m_vec st = []" "m_ptr st = 0"
  shows "wp (mrt_srv_listen K F Linux be addr st) (\<lambda>r s'. r \<noteq> Fault \<longrightarrow> mrt_live att blocks r s') s"
  using assms(2-)
  unfolding mrt_srv_listen_def mrt_die_def mrt_dbg_def ffkq_attach_defs ffsock_create_tcp_def
    ffsock_create_def ffsock_bind_def ffsock_setopt_def ffsock_listen_def ffsock_localaddr_def
  apply (simp only: simp_thms if_True if_False ff_linux_simps os.distinct)
  apply (intro wp_pure wp_net [OF assms(1)] wp_mono [OF wp_srv_log_calm [OF assms(1)]] wp_mono [OF wp_srv_die_calm [OF assms(1)]])
  apply (simp_all add: calm_def net_simps live_def mrt_objs_def mrt_blocks_def)
  done

lemma wp_mrt_main_live:
  assumes "net_laws K att blocks" "att w = {}" "0 \<notin> blocks w"
  shows "wp (mrt_main K F Linux be addr port) (\<lambda>r s'. r \<noteq> Fault \<longrightarrow> mrt_live att blocks r s') (start w e)"
  using assms(2,3)
  unfolding mrt_main_def mrt_die_def ffkq_create_defs
  apply (simp only: simp_thms if_True if_False ff_linux_simps os.distinct)
  apply (intro wp_pure wp_mrt_listen_live wp_net [OF assms(1)] wp_mono [OF wp_srv_die_calm [OF assms(1)]])
  apply (simp_all add: calm_def net_simps assms(1) split: if_splits)
  done

text \<open>
  Claim C10.  As long as there is memory, the router never touches an object that is not there: neither the
  object of an event nor one that the vector lists when a message is passed on, also after
  connections were closed and their blocks used again.
\<close>

theorem router_safe:
  assumes "net_laws K att blocks" "ip4_peers K be" "mem_available K" "rmswap_ok rmswap"
    "att w = {}" "0 \<notin> blocks w" "run_state (mrt_main K F Linux be addr port) (start w e) = (Ret st, s)"
    "mrt_run n K F Linux be ipfmt rmswap addr junk st s = Some (r, s')"
  shows "r \<noteq> Fault"
proof -
  have i: "mrt_live att blocks (Ret st) s"
    using wpD [OF wp_mrt_main_live [OF assms(1,5,6), of F be addr port e]] assms(7) by simp
  have "mrt_live att blocks r s'"
    using assms(8) unfolding mrt_run_def
    by (rule server_loop.rounds_inv [OF mrt_live_loop [OF assms(1-4)] i])
  then show ?thesis by (cases r) simp_all
qed

subsection \<open>An instance\<close>

definition move_last :: "int list \<Rightarrow> nat \<Rightarrow> int list" where
  "move_last v i = butlast (v[i := last v])"

lemma move_last_ok: "rmswap_ok move_last"
  unfolding rmswap_ok_def
proof (intro allI impI)
  fix v :: "int list" and i
  assume i: "i < length v"
  then obtain xs x where v: "v = xs @ [x]" by (cases v rule: rev_cases) auto
  then show "mset (move_last v i) = mset v - {#v ! i#}"
    using i by (cases "i = length xs") (auto simp: move_last_def list_update_append nth_append mset_update)
qed



lemmas router_simps = run_simps clientK_def clientR_def rep_def srv_log_def fflog_def srv_die_def mrt_dbg_def mrt_die_def mrt_warn_def
  ffstdout_fmt_def std_fmt_def err_after_def Let_def sys_step_def mrt_conn_recv_def mrt_recv_loop.simps mrt_recv_round_def
  mrt_conn_send_def ffsock_recv_def ffsock_send_def fferr_again_def


definition router_start :: "((int \<times> int) list \<times> int list \<times> nat) sys" where
  "router_start = snd (run_state (mrt_main clientK (\<lambda>_ _. None) Linux id \<lparr>sa_len = 0, sa_data = sa4\<rparr> None) (start ([], [], 0) 0))"

definition router_srv :: mrt_srv where
  "router_srv = \<lparr>m_conf = 1, m_addr = 2, m_kq = 3, m_lsk = 5, m_port = 20480, m_ptr = 0, m_vec = [], m_objs = []\<rparr>"

lemmas router_listen = router_simps mrt_main_def mrt_srv_listen_def ffkq_create_defs ffkq_attach_defs ffsock_create_tcp_def ffsock_create_def
  ffsock_bind_def ffsock_setopt_def ffsock_listen_def ffsock_localaddr_def out_addr_def ffsockaddr_ip_port_def
  sa4_def u16_of_def AF_INET_def

lemma router_main:
  "run_state (mrt_main clientK (\<lambda>_ _. None) Linux id \<lparr>sa_len = 0, sa_data = sa4\<rparr> None) (start ([], [], 0) 0)
    = (Ret router_srv, router_start)"
  unfolding router_start_def by (simp add: router_listen router_srv_def)

lemma router_world: "world router_start = ([(5, 2)], [2, 1], 0)"
  unfolding router_start_def by (simp add: router_listen start_def)

lemma router_run:
  "\<exists>st s'. mrt_run 1 clientK (\<lambda>_ _. None) Linux id (\<lambda>_. []) move_last \<lparr>sa_len = 0, sa_data = sa4\<rparr> 0 router_srv router_start
      = Some (Ret st, s') \<and> m_vec st = [4]"
  using router_world
  by (simp add: mrt_run_def srv_round_def srv_wait_def ffkq_wait_defs ffkq_time_set_defs mrt_handler_def mrt_srv_accept_def
      mrt_srv_accept1_def mrt_accept_conn_def ffsock_accept_def router_listen router_srv_def)

theorem router_invariant_witness:
  "\<exists>st s'. mrt_run 1 clientK (\<lambda>_ _. None) Linux id (\<lambda>_. []) move_last \<lparr>sa_len = 0, sa_data = sa4\<rparr> 0 router_srv router_start
      = Some (Ret st, s') \<and> mrt_inv (Ret st) s' \<and> m_vec st = [4]"
  using router_run router_invariant [OF move_last_ok router_main] by blast

theorem router_safe_witness:
  "\<exists>r s'. mrt_run 1 clientK (\<lambda>_ _. None) Linux id (\<lambda>_. []) move_last \<lparr>sa_len = 0, sa_data = sa4\<rparr> 0 router_srv router_start
      = Some (r, s') \<and> r \<noteq> Fault"
  using router_run router_safe [OF clientK_laws(1) clientK_laws(2) [of id] clientK_laws(3) move_last_ok _ _ router_main] by fastforce

end
