(* ===== verification/Echo.thy ===== *)
theory Echo
  imports Server
begin

text \<open>
  The echo server (\<open>examples/tcp-echo-server.c\<close>): it accepts connections and sends back what it
  receives.  The objects of the connections are a list of addresses with their members; the
  task is the first member of its object, so that its address is the object's.
\<close>

record ecs_conn =
  c_sk :: int
  c_id :: string

text \<open>\<open>srv\<close> with its address, the address of \<open>conf\<close>, and \<open>conf->listen_port\<close>.\<close>

record ecs_srv =
  s_conf :: int
  s_addr :: int
  s_kq :: int
  s_lsk :: int
  s_port :: u32
  s_conns :: "(int \<times> ecs_conn) list"

definition DBG :: "'w kernel \<Rightarrow> fmt \<Rightarrow> string \<Rightarrow> arg list \<Rightarrow> ('w, unit) prog" where
  "DBG K F text args = srv_log K F ''DBG : '' text args"

definition ecs_die :: "'w kernel \<Rightarrow> fmt \<Rightarrow> bool \<Rightarrow> string \<Rightarrow> int \<Rightarrow> ('w, bool) prog" where
  "ecs_die K F ex func line = srv_die K F ex func line"

definition ecs_conn_send :: "'w kernel \<Rightarrow> fmt \<Rightarrow> int \<Rightarrow> int \<Rightarrow> bytes \<Rightarrow> ('w, bool) prog" where
  "ecs_conn_send K F c sk data = do {
     r \<leftarrow> ffsock_send K sk data 0;
     ok \<leftarrow> ecs_die K F (r < 0) ''ecs_conn_send'' 61;
     if \<not> ok then State_Monad.return False
     else do {
       DBG K F ''%p: sent %L bytes'' [AInt c, AInt (int (length data))];
       State_Monad.return True
     }
   }"

text \<open>One round of the loop: go on, return, return after closing the connection, or exit.\<close>

datatype rnd = RMore | RReturn | RClosed | RExit

definition ecs_recv_round :: "'w kernel \<Rightarrow> fmt \<Rightarrow> int \<Rightarrow> int \<Rightarrow> ('w, rnd) prog" where
  "ecs_recv_round K F c sk = do {
     x \<leftarrow> ffsock_recv K sk 1024 0;
     if fst x < 0 then do {
       e \<leftarrow> fferr_last;
       if fferr_again e then State_Monad.return RReturn
       else do { ecs_die K F True ''ecs_conn_recv'' 75; State_Monad.return RExit }
     }
     else if fst x = 0 then do {
       DBG K F ''%p: peer closed connection'' [AInt c];
       ffsock_close K sk;
       sysi K (Mem (MFree c));
       State_Monad.return RClosed
     }
     else do {
       DBG K F ''%p: received %L bytes'' [AInt c, AInt (fst x)];
       ok \<leftarrow> ecs_conn_send K F c sk (take (nat (fst x)) (snd x));
       State_Monad.return (if ok then RMore else RExit)
     }
   }"

partial_function (option) ecs_recv_loop :: "'w kernel \<Rightarrow> fmt \<Rightarrow> int \<Rightarrow> int \<Rightarrow> 'w sys \<Rightarrow> (rnd \<times> 'w sys) option" where
  "ecs_recv_loop K F c sk s =
     (let a = run_state (ecs_recv_round K F c sk) s
      in if fst a = RMore then ecs_recv_loop K F c sk (snd a) else Some a)"

definition ecs_conn_recv :: "'w kernel \<Rightarrow> fmt \<Rightarrow> int \<Rightarrow> ecs_srv \<Rightarrow> 'w sys \<Rightarrow> (ecs_srv outcome \<times> 'w sys) option" where
  "ecs_conn_recv K F c st s = (case map_of (s_conns st) c of
      None \<Rightarrow> Some (Fault, s)
    | Some obj \<Rightarrow> map_option (\<lambda>(r, s'). (case r of
          RClosed \<Rightarrow> Ret (st\<lparr>s_conns := drop_conn c (s_conns st)\<rparr>)
        | RExit \<Rightarrow> Exit
        | _ \<Rightarrow> Ret st, s')) (ecs_recv_loop K F c (c_sk obj) s))"

text \<open>
  Accepting: what is done up to the call of \<open>ecs_conn_recv\<close>.  \<open>Inl\<close> returns or ends,
  \<open>Inr\<close> is the new connection.  \<open>addr\<close> is what is on the stack, \<open>be\<close> and \<open>ipfmt\<close> are
  ffbase's.  The members of \<open>NULL\<close> and the bytes of an empty slice are not there.
\<close>

definition ecs_accept_conn :: "'w kernel \<Rightarrow> fmt \<Rightarrow> os \<Rightarrow> (u16 \<Rightarrow> u16) \<Rightarrow> (bytes \<Rightarrow> string) \<Rightarrow> ffsockaddr \<Rightarrow> ecs_srv
    \<Rightarrow> ('w, ecs_srv outcome + int \<times> ecs_srv) prog" where
  "ecs_accept_conn K F os be ipfmt addr st = do {
     a \<leftarrow> ffsock_accept K os (s_lsk st) addr (FFSOCK_NONBLOCK os);
     if fst a = FFSOCK_NULL then do {
       e \<leftarrow> fferr_last;
       if fferr_again e then State_Monad.return (Inl (Ret st))
       else do { ecs_die K F True ''ecs_accept1'' 96; State_Monad.return (Inl Exit) }
     }
     else do {
       c \<leftarrow> sysi K (Mem (MAlloc 32));
       let ip = ffsockaddr_ip_port be (snd a) 0;
       if c = 0 \<or> length (fst ip) < 4 then State_Monad.return (Inl Fault)
       else do {
         let st = st\<lparr>s_conns := (c, \<lparr>c_sk = fst a, c_id = ipfmt (take 4 (fst ip))\<rparr>) # s_conns st\<rparr>;
         DBG K F ''%p: accepted connection from %s:%u'' [AInt c, AStr (ipfmt (take 4 (fst ip))), AInt (uint (snd ip))];
         r \<leftarrow> ffkq_attach K os (s_kq st) (fst a) c (FFKQ_READWRITE os);
         ok \<leftarrow> ecs_die K F (0 \<noteq> r) ''ecs_accept1'' 111;
         State_Monad.return (if ok then Inr (c, st) else Inl Exit)
       }
     }
   }"

definition ecs_accept1 :: "'w kernel \<Rightarrow> fmt \<Rightarrow> os \<Rightarrow> (u16 \<Rightarrow> u16) \<Rightarrow> (bytes \<Rightarrow> string) \<Rightarrow> ffsockaddr \<Rightarrow> ecs_srv
    \<Rightarrow> 'w sys \<Rightarrow> (ecs_srv outcome \<times> 'w sys) option" where
  "ecs_accept1 K F os be ipfmt addr st s =
     (let a = run_state (ecs_accept_conn K F os be ipfmt addr st) s
      in case fst a of
         Inl r \<Rightarrow> Some (r, snd a)
       | Inr (c, st') \<Rightarrow> ecs_conn_recv K F c st' (snd a))"

text \<open>
  The body of the loop of \<open>ecs_accept\<close> is \<open>if (0 != ecs_accept1());\<close>, whose statement is empty, and
  \<open>break\<close>: it is run once, whatever \<open>ecs_accept1\<close> returns.
\<close>

definition ecs_accept :: "'w kernel \<Rightarrow> fmt \<Rightarrow> os \<Rightarrow> (u16 \<Rightarrow> u16) \<Rightarrow> (bytes \<Rightarrow> string) \<Rightarrow> ffsockaddr \<Rightarrow> ecs_srv
    \<Rightarrow> 'w sys \<Rightarrow> (ecs_srv outcome \<times> 'w sys) option" where
  "ecs_accept K F os be ipfmt addr st s = ecs_accept1 K F os be ipfmt addr st s"

abbreviation (input) SOMAXCONN :: int where "SOMAXCONN \<equiv> 4096"

definition ecs_listen :: "'w kernel \<Rightarrow> fmt \<Rightarrow> os \<Rightarrow> (u16 \<Rightarrow> u16) \<Rightarrow> ffsockaddr \<Rightarrow> ecs_srv \<Rightarrow> ('w, ecs_srv outcome) prog" where
  "ecs_listen K F os be addr st = do {
     lsk \<leftarrow> ffsock_create_tcp K os (uint AF_INET) (FFSOCK_NONBLOCK os);
     let st = st\<lparr>s_lsk := lsk\<rparr>;
     ok \<leftarrow> ecs_die K F (lsk = FFSOCK_NULL) ''ecs_listen'' 126;
     if \<not> ok then State_Monad.return Exit else do {
       r \<leftarrow> ffkq_attach K os (s_kq st) lsk (s_addr st) (FFKQ_READ os);
       ok \<leftarrow> ecs_die K F (0 \<noteq> r) ''ecs_listen'' 129;
       if \<not> ok then State_Monad.return Exit
       else if s_conf st = 0 then State_Monad.return Fault
       else do {
         let addr = ffsockaddr_set_ipv4 be addr None (s_port st);
         r \<leftarrow> ffsock_bind K lsk addr;
         ok \<leftarrow> ecs_die K F (0 \<noteq> r) ''ecs_listen'' 133;
         if \<not> ok then State_Monad.return Exit else do {
           r \<leftarrow> ffsock_listen K lsk SOMAXCONN;
           ok \<leftarrow> ecs_die K F (0 \<noteq> r) ''ecs_listen'' 134;
           if \<not> ok then State_Monad.return Exit else do {
             l \<leftarrow> ffsock_localaddr K lsk addr;
             ok \<leftarrow> ecs_die K F (0 \<noteq> fst l) ''ecs_listen'' 135;
             if \<not> ok then State_Monad.return Exit else do {
               let st = st\<lparr>s_port := snd (ffsockaddr_ip_port be (snd l) (s_port st))\<rparr>;
               DBG K F ''listening on port %d'' [AInt (sint (s_port st))];
               State_Monad.return (Ret st)
             }
           }
         }
       }
     }
   }"

text \<open>The handler of a task: that of \<open>srv\<close> is \<open>ecs_accept\<close>, that of a connection \<open>ecs_conn_recv\<close>.\<close>

definition ecs_handler :: "'w kernel \<Rightarrow> fmt \<Rightarrow> os \<Rightarrow> (u16 \<Rightarrow> u16) \<Rightarrow> (bytes \<Rightarrow> string) \<Rightarrow> ffsockaddr \<Rightarrow> int \<Rightarrow> ecs_srv
    \<Rightarrow> 'w sys \<Rightarrow> (ecs_srv outcome \<times> 'w sys) option" where
  "ecs_handler K F os be ipfmt addr t st s =
     (if t = s_addr st then ecs_accept K F os be ipfmt addr st s else ecs_conn_recv K F t st s)"

definition ecs_run :: "nat \<Rightarrow> 'w kernel \<Rightarrow> fmt \<Rightarrow> os \<Rightarrow> (u16 \<Rightarrow> u16) \<Rightarrow> (bytes \<Rightarrow> string) \<Rightarrow> ffsockaddr \<Rightarrow> int \<Rightarrow> ecs_srv
    \<Rightarrow> 'w sys \<Rightarrow> (ecs_srv outcome \<times> 'w sys) option" where
  "ecs_run n K F os be ipfmt addr junk st s =
     srv_rounds n (\<lambda>st. srv_wait K F os (s_kq st) ''ecs_run'' 147 junk) (ecs_handler K F os be ipfmt addr) st s"

definition ecs_init :: "'w kernel \<Rightarrow> fmt \<Rightarrow> os \<Rightarrow> ecs_srv \<Rightarrow> ('w, ecs_srv outcome) prog" where
  "ecs_init K F os st = do {
     let st = st\<lparr>s_kq := FFKQ_NULL, s_lsk := FFSOCK_NULL\<rparr>;
     kq \<leftarrow> ffkq_create K os;
     ok \<leftarrow> ecs_die K F (kq = FFKQ_NULL) ''ecs_init'' 158;
     State_Monad.return (if ok then Ret (st\<lparr>s_kq := kq\<rparr>) else Exit)
   }"

definition ecs_destroy :: "'w kernel \<Rightarrow> ecs_srv \<Rightarrow> ('w, unit) prog" where
  "ecs_destroy K st = do {
     ffsock_close K (s_lsk st);
     ffkq_close K (s_kq st)
   }"

text \<open>
  \<open>main\<close> up to \<open>ecs_run\<close>, which never returns.  \<open>port\<close> is the argument of the program, and what
  ffbase's \<open>ffstr_to_uint32\<close> makes of it (\<open>None\<close>: not a number).
\<close>

definition ecs_main :: "'w kernel \<Rightarrow> fmt \<Rightarrow> os \<Rightarrow> (u16 \<Rightarrow> u16) \<Rightarrow> ffsockaddr \<Rightarrow> u32 option option \<Rightarrow> ('w, ecs_srv outcome) prog" where
  "ecs_main K F os be addr port = do {
     conf \<leftarrow> sysi K (Mem (MAlloc 4));
     srv \<leftarrow> sysi K (Mem (MAlloc 16));
     if srv = 0 then State_Monad.return Fault
     else do {
       i \<leftarrow> ecs_init K F os \<lparr>s_conf = conf, s_addr = srv, s_kq = 0, s_lsk = 0, s_port = 0, s_conns = []\<rparr>;
       case i of
         Ret st \<Rightarrow>
           if port \<noteq> None \<and> conf = 0 then State_Monad.return Fault
           else do {
             ok \<leftarrow> ecs_die K F (port = Some None) ''main'' 176;
             if \<not> ok then State_Monad.return Exit
             else ecs_listen K F os be addr (case port of Some (Some p) \<Rightarrow> st\<lparr>s_port := p\<rparr> | _ \<Rightarrow> st)
           }
       | r \<Rightarrow> State_Monad.return r
     }
   }"

subsection \<open>Properties\<close>

text \<open>
  The objects of the server own the memory and the descriptors that are there, and what was handed
  to \<open>send\<close> on a socket is what was received on it.
\<close>

definition echoed :: "'w sys \<Rightarrow> bool" where
  "echoed s \<longleftrightarrow> (\<forall>sk. sent sk (trace s) = recvd sk (trace s))"

fun ecs_inv :: "ecs_srv outcome \<Rightarrow> 'w sys \<Rightarrow> bool" where
  "ecs_inv (Ret st) s \<longleftrightarrow> echoed s \<and>
     heap_after (trace s) = Some ({#s_conf st, s_addr st#} + mset (map fst (s_conns st))) \<and>
     fds_after (trace s) = Some ({#s_kq st, s_lsk st#} + mset (map (c_sk \<circ> snd) (s_conns st))) \<and>
     (\<forall>x\<in>set (s_conns st). fst x \<noteq> 0 \<and> c_sk (snd x) \<noteq> -1)"
| "ecs_inv _ s \<longleftrightarrow> echoed s"

lemmas echo_log = quiet_def echoed_def

lemma wp_ecs_round:
  assumes "heap_after (trace s) = Some (add_mset c h)" "fds_after (trace s) = Some (add_mset sk d)" "c \<noteq> 0" "sk \<noteq> -1"
    "echoed s"
  shows "wp (ecs_recv_round K F c sk) (\<lambda>r s'. echoed s' \<and> n_accepts (trace s') = n_accepts (trace s) \<and> (case r of
      RExit \<Rightarrow> True
    | RClosed \<Rightarrow> heap_after (trace s') = Some h \<and> fds_after (trace s') = Some d
    | _ \<Rightarrow> heap_after (trace s') = heap_after (trace s) \<and> fds_after (trace s') = fds_after (trace s))) s"
  using assms unfolding ecs_recv_round_def ecs_conn_send_def ecs_die_def DBG_def ffsock_recv_def ffsock_send_def ffsock_close_def
  by (intro wp_intros wp_mono [OF wp_srv_log] wp_mono [OF wp_srv_die]) (auto simp: echo_log)

lemma ecs_loop_inv:
  assumes "ecs_recv_loop K F c sk s = Some (r, s')"
    "heap_after (trace s) = Some (add_mset c h)" "fds_after (trace s) = Some (add_mset sk d)" "c \<noteq> 0" "sk \<noteq> -1" "echoed s"
  shows "echoed s' \<and> n_accepts (trace s') = n_accepts (trace s) \<and> (case r of
      RMore \<Rightarrow> False
    | RExit \<Rightarrow> True
    | RClosed \<Rightarrow> heap_after (trace s') = Some h \<and> fds_after (trace s') = Some d
    | RReturn \<Rightarrow> heap_after (trace s') = Some (add_mset c h) \<and> fds_after (trace s') = Some (add_mset sk d))"
  using assms
proof (induction K F c sk s "(r, s')" rule: ecs_recv_loop.raw_induct [rotated 1, consumes 1, case_names step])
  case (step loop K F c sk s)
  note w = wpD [OF wp_ecs_round [OF step.prems, of K F]]
  show ?case
  proof (cases "fst (run_state (ecs_recv_round K F c sk) s) = RMore")
    case True
    then have "loop K F c sk (snd (run_state (ecs_recv_round K F c sk) s)) = Some (r, s')"
      using step.hyps(2) by (simp add: Let_def)
    from step.hyps(1) [OF this] show ?thesis using True step.prems w by simp
  next
    case False
    then have "run_state (ecs_recv_round K F c sk) s = (r, s')" using step.hyps(2) by (simp add: Let_def)
    then show ?thesis using w False step.prems by (auto split: rnd.splits)
  qed
qed

lemma ecs_conn_recv_inv:
  assumes "ecs_conn_recv K F c st s = Some (r, s')" "ecs_inv (Ret st) s"
  shows "ecs_inv r s' \<and> n_accepts (trace s') = n_accepts (trace s)"
proof (cases "map_of (s_conns st) c")
  case None
  then show ?thesis using assms by (auto simp: ecs_conn_recv_def)
next
  case (Some v)
  let ?h = "{#s_conf st, s_addr st#} + mset (map fst (drop_conn c (s_conns st)))"
    and ?d = "{#s_kq st, s_lsk st#} + mset (map (c_sk \<circ> snd) (drop_conn c (s_conns st)))"
  obtain q where q: "ecs_recv_loop K F c (c_sk v) s = Some (q, s')"
    "r = (case q of RClosed \<Rightarrow> Ret (st\<lparr>s_conns := drop_conn c (s_conns st)\<rparr>) | RExit \<Rightarrow> Exit | _ \<Rightarrow> Ret st)"
    using assms(1) Some by (auto simp: ecs_conn_recv_def)
  have m: "heap_after (trace s) = Some (add_mset c ?h)" "fds_after (trace s) = Some (add_mset (c_sk v) ?d)"
    using assms(2) drop_conn_mset(1) [OF Some] by simp_all
  have n: "c \<noteq> 0" "c_sk v \<noteq> -1" using assms(2) map_of_SomeD [OF Some] by force+
  from ecs_loop_inv [OF q(1) m n] assms(2) show ?thesis
    using drop_conn_mset(2) [OF Some] m q(2) by (auto split: rnd.splits)
qed

lemma wp_ecs_accept_conn:
  assumes "ecs_inv (Ret st) s"
  shows "wp (ecs_accept_conn K F os be ipfmt addr st)
    (\<lambda>r s'. n_accepts (trace s') = Suc (n_accepts (trace s)) \<and>
      (case r of Inl q \<Rightarrow> ecs_inv q s' | Inr (c, st') \<Rightarrow> ecs_inv (Ret st') s')) s"
proof -
  have h: "heap_after (trace s) \<noteq> None" using assms by auto
  note f = assms [unfolded ecs_inv.simps, THEN conjunct2, THEN conjunct2, THEN conjunct1]
  show ?thesis
    using assms unfolding ecs_accept_conn_def ecs_die_def DBG_def ffkq_attach_defs
    by (intro wp_bind wp_mono [OF wp_accept [OF f h]] wp_intros wp_mono [OF wp_srv_log] wp_mono [OF wp_srv_die])
      (auto simp: echo_log split: if_splits)
qed

lemma ecs_accept_inv:
  assumes "ecs_accept K F os be ipfmt addr st s = Some (r, s')" "ecs_inv (Ret st) s"
  shows "ecs_inv r s' \<and> n_accepts (trace s') = Suc (n_accepts (trace s))"
  using assms(1) wpD [OF wp_ecs_accept_conn [OF assms(2), of K F os be ipfmt addr]]
  by (auto dest: ecs_conn_recv_inv simp: ecs_accept_def ecs_accept1_def Let_def simp del: ecs_inv.simps split: sum.splits)

lemma ecs_inv_echoed: "ecs_inv r s \<Longrightarrow> echoed s"
  by (cases r) simp_all

interpretation ecs: server_loop "\<lambda>st. srv_wait K F os (s_kq st) ''ecs_run'' 147 junk"
  "ecs_handler K F os be ipfmt addr" ecs_inv "\<lambda>st s t. True" for K F os junk be ipfmt addr
proof
  fix st and s :: "'a sys"
  assume i: "ecs_inv (Ret st) s"
  then have "heap_after (trace s) \<noteq> None" by auto
  then show "wp (srv_wait K F os (s_kq st) ''ecs_run'' 147 junk)
      (\<lambda>r s'. if fst r then ecs_inv (Ret st) s' \<and> True else ecs_inv Exit s') s"
    by (rule wp_mono [OF wp_srv_wait]) (use i in \<open>auto simp: echo_log\<close>)
next
  fix st t r and s s' :: "'a sys"
  assume "ecs_inv (Ret st) s" "ecs_handler K F os be ipfmt addr t st s = Some (r, s')"
  then show "ecs_inv r s'"
    by (auto simp: ecs_handler_def split: if_splits dest: ecs_accept_inv ecs_conn_recv_inv)
qed

text \<open>The start of the program establishes the invariant.\<close>

lemma wp_ecs_listen:
  assumes "heap_after (trace s) = Some (block (s_conf st) + {#s_addr st#})" "fds_after (trace s) = Some {#s_kq st#}"
    "echoed s" "s_conns st = []"
  shows "wp (ecs_listen K F os be addr st) ecs_inv s"
proof -
  have h: "heap_after (trace s) \<noteq> None" using assms by simp
  have fd: "fd_step d (Sock (Setsockopt a b c v), r) = d" "fd_step d (Sock (Bind a x), r) = d"
    "fd_step d (Sock (Listen a b), r) = d" "fd_step d (Sock (Getsockname a), r) = d" for d a b c v x r
    by (cases d; simp add: fd_step_def closed_def)+
  show ?thesis
    using assms
    unfolding ecs_listen_def ecs_die_def DBG_def ffkq_attach_defs ffsock_bind_def ffsock_setopt_def ffsock_listen_def
      ffsock_localaddr_def
    by (intro wp_bind wp_mono [OF wp_create_tcp [OF assms(2) h]] wp_intros wp_mono [OF wp_srv_log] wp_mono [OF wp_srv_die])
      (auto simp: echo_log fd block_def split: if_splits)
qed

lemma wp_ecs_init:
  assumes "heap_after (trace s) = Some h" "fds_after (trace s) = Some {#}" "echoed s"
  shows "wp (ecs_init K F os st) (\<lambda>r s'. echoed s' \<and> (case r of
      Ret st' \<Rightarrow> heap_after (trace s') = Some h \<and> fds_after (trace s') = Some {#s_kq st'#} \<and>
        s_conf st' = s_conf st \<and> s_addr st' = s_addr st \<and> s_conns st' = s_conns st \<and> s_port st' = s_port st
    | Exit \<Rightarrow> True
    | Fault \<Rightarrow> False)) s"
  using assms unfolding ecs_init_def ecs_die_def ffkq_create_defs
  by (intro wp_intros wp_mono [OF wp_srv_die]) (auto simp: echo_log fd_step_def closed_def)

lemma wp_ecs_main: "wp (ecs_main K F os be addr port) ecs_inv (start w e)"
proof -
  have r: "wp (State_Monad.return r) ecs_inv s" if "echoed s" "\<not> (\<exists>st. r = Ret st)" for r s
    using that by (cases r) (auto intro!: wp_return)
  show ?thesis
    unfolding ecs_main_def ecs_die_def
    apply (intro wp_bind wp_sysi wp_if)
    subgoal by (rule r) (simp_all add: echoed_def)
    subgoal for x s y s'
      apply (rule wp_mono [OF wp_ecs_init [where h = "block (rv x) + {#rv y#}"]])
      subgoal by (simp add: block_def)
      subgoal by simp
      subgoal by (simp add: echoed_def)
      apply (intro wp_outcome wp_if r wp_bind wp_mono [OF wp_srv_die] wp_ecs_listen)
      apply (auto simp: echo_log split: option.splits)
      done
    done
qed

text \<open>
  Claim C7.  However many rounds the server makes and whatever the system answers: what it handed to
  \<open>send\<close> on each socket is what it received on it, in order; its memory and descriptors are
  those of its objects and of its open connections, none lost and none released twice.
\<close>

theorem echo_server_invariant:
  assumes "run_state (ecs_main K F os be addr port) (start w e) = (Ret st, s)"
    "ecs_run n K F os be ipfmt addr junk st s = Some (r, s')"
  shows "ecs_inv r s'"
proof (rule ecs.rounds_inv)
  show "ecs_inv (Ret st) s" using wpD [OF wp_ecs_main [of K F os be addr port w e]] assms(1) by simp
  show "srv_rounds n (\<lambda>st. srv_wait K F os (s_kq st) ''ecs_run'' 147 junk) (ecs_handler K F os be ipfmt addr) st s = Some (r, s')"
    using assms(2) by (simp add: ecs_run_def)
qed

text \<open>A measure of the data that is still to be received on a socket.\<close>

definition recv_measure :: "'w kernel \<Rightarrow> int \<Rightarrow> ('w \<Rightarrow> nat) \<Rightarrow> bool" where
  "recv_measure K sk m \<longleftrightarrow> (\<forall>c w r w'. K c w = (r, w') \<longrightarrow> m w' \<le> m w \<and>
     ((\<exists>cap f. c = Sock (Recv sk cap f)) \<and> 0 < rv r \<longrightarrow> m w' < m w))"

lemma wp_measure:
  assumes "recv_measure K sk m"
  shows "wp (ecs_recv_round K F c sk) (\<lambda>r s'. r = RMore \<longrightarrow> m (world s') < m (world s)) s"
proof -
  have le: "m w' \<le> m w" if "K c w = (r, w')" for c w r w' using assms that unfolding recv_measure_def by blast
  have l: "wp (srv_log K F lv msg args) (\<lambda>r s'. m (world s') \<le> m (world s)) s" for lv msg args s
    unfolding srv_log_def fflog_def ffstdout_fmt_def std_fmt_def ffstdout_write_def Let_def
    by (intro wp_intros) (auto dest!: le)
  have d: "wp (srv_die K F ex func line) (\<lambda>ok s'. ok \<longrightarrow> m (world s') \<le> m (world s)) s" for ex func line s
    unfolding srv_die_def by (intro wp_intros wp_mono [OF wp_any]) auto
  have r: "m w' < m w" if "K (Sock (Recv sk cap f)) w = (r, w')" "0 < rv r" for cap f w r w'
    using assms that unfolding recv_measure_def by blast
  show ?thesis
    unfolding ecs_recv_round_def ecs_conn_send_def ecs_die_def DBG_def ffsock_recv_def ffsock_send_def
    by (intro wp_bind wp_sys wp_sysi wp_if wp_return wp_fferr_last wp_mono [OF l] wp_mono [OF d] wp_mono [OF wp_any])
      (use le r in fastforce)+
qed

text \<open>
  Claim C31.  The loop over the data of a connection returns when no more data arrives while it runs.
\<close>

theorem echo_recv_returns:
  assumes "recv_measure K sk m"
  shows "\<exists>r s'. ecs_recv_loop K F c sk s = Some (r, s') \<and> r \<noteq> RMore"
proof (induction "m (world s)" arbitrary: s rule: less_induct)
  case less
  let ?a = "run_state (ecs_recv_round K F c sk) s"
  show ?case
  proof (cases "fst ?a = RMore")
    case True
    then obtain r s' where "ecs_recv_loop K F c sk (snd ?a) = Some (r, s')" "r \<noteq> RMore"
      using less wpD [OF wp_measure [OF assms, of F c s]] by blast
    then show ?thesis using True by (subst ecs_recv_loop.simps) (simp add: Let_def)
  next
    case False
    then show ?thesis by (subst ecs_recv_loop.simps, simp add: Let_def) (metis prod.collapse)
  qed
qed

text \<open>
  The handler of the listening socket accepts one connection.  Its descriptor was attached with
  \<open>EPOLLET\<close>: of several connections that are ready at one event, the others wait until a further
  one comes.
\<close>

theorem echo_accepts_one:
  assumes "ecs_inv (Ret st) s" "ecs_handler K F os be ipfmt addr (s_addr st) st s = Some (r, s')"
  shows "n_accepts (trace s') = Suc (n_accepts (trace s))"
  using assms by (auto simp: ecs_handler_def simp del: ecs_inv.simps dest: ecs_accept_inv)

subsection \<open>No access to freed objects\<close>

text \<open>On Linux: every task attached to the queue belongs to an object that is there.\<close>

definition ecs_objs :: "ecs_srv \<Rightarrow> (int \<times> int) list" where
  "ecs_objs st = map (apsnd c_sk) (s_conns st)"

fun ecs_live :: "('w \<Rightarrow> (int \<times> int) set) \<Rightarrow> ('w \<Rightarrow> int set) \<Rightarrow> ecs_srv outcome \<Rightarrow> 'w sys \<Rightarrow> bool" where
  "ecs_live att blocks (Ret st) s \<longleftrightarrow> live att blocks (s_lsk st) (s_addr st) [] (ecs_objs st) s"
| "ecs_live att blocks Exit s \<longleftrightarrow> True"
| "ecs_live att blocks Fault s \<longleftrightarrow> False"

lemma ecs_objs_simps:
  "fst ` set (ecs_objs st) = fst ` set (s_conns st)"
  "ecs_objs (st\<lparr>s_conns := drop_conn c (s_conns st)\<rparr>) = drop_conn c (ecs_objs st)"
  "ecs_objs (st\<lparr>s_conns := (c, \<lparr>c_sk = sk, c_id = i\<rparr>) # s_conns st\<rparr>) = (c, sk) # ecs_objs st"
  by (force simp: ecs_objs_def drop_conn_map)+

lemma wp_ecs_round_live:
  assumes "net_laws K att blocks" "0 \<notin> blocks (world s)" "sk \<noteq> -1"
  shows "wp (ecs_recv_round K F c sk) (\<lambda>r s'. case r of
      RExit \<Rightarrow> True
    | RClosed \<Rightarrow> att (world s') = {p \<in> att (world s). fst p \<noteq> sk} \<and> blocks (world s') = blocks (world s) - {c}
    | _ \<Rightarrow> calm att blocks s s') s"
  using assms(2,3) unfolding ecs_recv_round_def ecs_conn_send_def ecs_die_def DBG_def ffsock_recv_def ffsock_send_def ffsock_close_def
  by (intro wp_pure wp_net [OF assms(1)] wp_mono [OF wp_srv_log_calm [OF assms(1)]] wp_mono [OF wp_srv_die_calm [OF assms(1)]])
    (auto simp: calm_def net_simps)

lemma ecs_loop_live:
  assumes "ecs_recv_loop K F c sk s = Some (r, s')" "net_laws K att blocks" "0 \<notin> blocks (world s)" "sk \<noteq> -1"
  shows "case r of
      RMore \<Rightarrow> False
    | RExit \<Rightarrow> True
    | RClosed \<Rightarrow> att (world s') = {p \<in> att (world s). fst p \<noteq> sk} \<and> blocks (world s') = blocks (world s) - {c}
    | RReturn \<Rightarrow> calm att blocks s s'"
  using assms
proof (induction K F c sk s "(r, s')" rule: ecs_recv_loop.raw_induct [rotated 1, consumes 1, case_names step])
  case (step loop K F c sk s)
  note w = wpD [OF wp_ecs_round_live [OF step.prems, of F c]]
  show ?case
  proof (cases "fst (run_state (ecs_recv_round K F c sk) s) = RMore")
    case True
    then have "loop K F c sk (snd (run_state (ecs_recv_round K F c sk) s)) = Some (r, s')"
      using step.hyps(2) by (simp add: Let_def)
    from step.hyps(1) [OF this] show ?thesis using True step.prems w by (auto simp: calm_def split: rnd.splits)
  next
    case False
    then have "run_state (ecs_recv_round K F c sk) s = (r, s')" using step.hyps(2) by (simp add: Let_def)
    then show ?thesis using w False by (auto split: rnd.splits)
  qed
qed

lemma ecs_conn_recv_live:
  assumes "ecs_conn_recv K F c st s = Some (r, s')" "net_laws K att blocks" "ecs_live att blocks (Ret st) s"
    "c \<in> fst ` set (ecs_objs st)"
  shows "ecs_live att blocks r s'"
proof -
  obtain v where v: "map_of (s_conns st) c = Some v"
    using assms(4) unfolding ecs_objs_simps by (metis map_of_eq_None_iff option.exhaust)
  then have m: "(c, c_sk v) \<in> set (ecs_objs st)" by (force simp: ecs_objs_def dest: map_of_SomeD)
  obtain q where q: "ecs_recv_loop K F c (c_sk v) s = Some (q, s')"
    "r = (case q of RClosed \<Rightarrow> Ret (st\<lparr>s_conns := drop_conn c (s_conns st)\<rparr>) | RExit \<Rightarrow> Exit | _ \<Rightarrow> Ret st)"
    using assms(1) v by (auto simp: ecs_conn_recv_def)
  have z: "0 \<notin> blocks (world s)" "c_sk v \<noteq> -1" using assms(3) m by (force simp: live_def)+
  note l = ecs_loop_live [OF q(1) assms(2) z]
  show ?thesis
  proof (cases q)
    case RClosed
    then have "live att blocks (s_lsk st) (s_addr st) [] (drop_conn c (ecs_objs st)) s'"
      using l live_close [OF _ m, of att blocks "s_lsk st" "s_addr st" "[]" s s'] assms(3) by simp
    then show ?thesis using RClosed q(2) by (simp add: ecs_objs_simps)
  qed (use assms(3) l q(2) live_calm in auto)
qed

lemma wp_ecs_accept_live:
  assumes "net_laws K att blocks" "ip4_peers K be" "mem_available K"
    "ecs_live att blocks (Ret st) s"
  shows "wp (ecs_accept_conn K F Linux be ipfmt addr st)
    (\<lambda>r s'. case r of Inl q \<Rightarrow> ecs_live att blocks q s'
      | Inr (c, st') \<Rightarrow> ecs_live att blocks (Ret st') s' \<and> c \<in> fst ` set (ecs_objs st')) s"
proof -
  note a = ip4_peersD [OF assms(2)]
  note m = mem_availableD [OF assms(3)]
  have z: "0 \<notin> blocks (world s)" using assms(4) by (simp add: live_no_null)
  show ?thesis
    using assms(4) unfolding ecs_accept_conn_def ffsock_accept_def ecs_die_def DBG_def ffkq_attach_defs
    apply (simp only: simp_thms if_True ff_linux_simps)
    apply (intro wp_pure wp_net [OF assms(1)] wp_mono [OF wp_srv_log_calm [OF assms(1)]] wp_mono [OF wp_srv_die_calm [OF assms(1)]])
    apply (simp_all add: calm_def net_simps a m z live_calm ecs_objs_simps)
    apply (intro impI live_insert)
    apply (simp_all add: m)
    done
qed

lemma ecs_accept_live:
  assumes "net_laws K att blocks" "ip4_peers K be" "mem_available K"
    "ecs_live att blocks (Ret st) s" "ecs_accept K F Linux be ipfmt addr st s = Some (r, s')"
  shows "ecs_live att blocks r s'"
proof -
  let ?a = "run_state (ecs_accept_conn K F Linux be ipfmt addr st) s"
  note w = wpD [OF wp_ecs_accept_live [OF assms(1-4), of F ipfmt addr]]
  show ?thesis
  proof (cases "fst ?a")
    case (Inl q)
    then show ?thesis using w assms(5) by (simp add: ecs_accept_def ecs_accept1_def Let_def)
  next
    case (Inr p)
    then show ?thesis using w assms(5) ecs_conn_recv_live [OF _ assms(1), of F "fst p" "snd p" "snd ?a"]
      by (simp add: ecs_accept_def ecs_accept1_def Let_def split_beta del: ecs_live.simps(1))
  qed
qed

lemma ecs_live_loop:
  assumes "net_laws K att blocks" "ip4_peers K be" "mem_available K"
  shows "server_loop (\<lambda>st. srv_wait K F Linux (s_kq st) ''ecs_run'' 147 junk) (ecs_handler K F Linux be ipfmt addr)
    (ecs_live att blocks) (\<lambda>st s t. t \<in> snd ` att (world s))"
proof
  fix st s
  assume i: "ecs_live att blocks (Ret st) s"
  then have z: "0 \<notin> blocks (world s)" by (simp add: live_no_null)
  show "wp (srv_wait K F Linux (s_kq st) ''ecs_run'' 147 junk) (\<lambda>r s'. if fst r
      then ecs_live att blocks (Ret st) s' \<and> snd r \<in> snd ` att (world s') else ecs_live att blocks Exit s') s"
    by (rule wp_mono [OF wp_srv_wait_live [OF assms(1) z]]) (use i live_calm in auto)
next
  fix st s t r s'
  assume i: "ecs_live att blocks (Ret st) s" and t: "t \<in> snd ` att (world s)"
    and h: "ecs_handler K F Linux be ipfmt addr t st s = Some (r, s')"
  show "ecs_live att blocks r s'"
  proof (cases "t = s_addr st")
    case True
    then show ?thesis using h ecs_accept_live [OF assms i] by (simp add: ecs_handler_def)
  next
    case False
    with live_task [OF i [unfolded ecs_live.simps] t] have "t \<in> fst ` set (ecs_objs st)" by simp
    then show ?thesis using False h ecs_conn_recv_live [OF _ assms(1) i] by (simp add: ecs_handler_def)
  qed
qed

lemma wp_ecs_listen_live:
  assumes "net_laws K att blocks" "att (world s) = {}" "0 \<notin> blocks (world s)" "s_addr st \<in> blocks (world s)" "s_conns st = []"
  shows "wp (ecs_listen K F Linux be addr st) (\<lambda>r s'. r \<noteq> Fault \<longrightarrow> ecs_live att blocks r s') s"
  using assms(2-)
  unfolding ecs_listen_def ecs_die_def DBG_def ffkq_attach_defs ffsock_create_tcp_def
    ffsock_create_def ffsock_bind_def ffsock_setopt_def ffsock_listen_def ffsock_localaddr_def
  apply (simp only: simp_thms if_True if_False ff_linux_simps os.distinct)
  apply (intro wp_pure wp_net [OF assms(1)] wp_mono [OF wp_srv_log_calm [OF assms(1)]] wp_mono [OF wp_srv_die_calm [OF assms(1)]])
  apply (simp_all add: calm_def net_simps live_def ecs_objs_def)
  done

lemma wp_ecs_main_live:
  assumes "net_laws K att blocks" "att w = {}" "0 \<notin> blocks w"
  shows "wp (ecs_main K F Linux be addr port) (\<lambda>r s'. r \<noteq> Fault \<longrightarrow> ecs_live att blocks r s') (start w e)"
  using assms(2,3)
  unfolding ecs_main_def ecs_init_def ecs_die_def ffkq_create_defs
  apply (simp only: simp_thms if_True if_False ff_linux_simps os.distinct)
  apply (intro wp_pure wp_outcome wp_ecs_listen_live wp_net [OF assms(1)] wp_mono [OF wp_srv_die_calm [OF assms(1)]])
  apply (simp_all add: calm_def net_simps assms(1) split: if_splits option.split)
  apply auto
  done

text \<open>
  Claim C8.  As long as there is memory, the server never touches an object that is not there: every event
  has the task of an object in use, also after connections were closed and their blocks used again.
\<close>

theorem echo_server_safe:
  assumes "net_laws K att blocks" "ip4_peers K be" "mem_available K"
    "att w = {}" "0 \<notin> blocks w" "run_state (ecs_main K F Linux be addr port) (start w e) = (Ret st, s)"
    "ecs_run n K F Linux be ipfmt addr junk st s = Some (r, s')"
  shows "r \<noteq> Fault"
proof -
  have i: "ecs_live att blocks (Ret st) s"
    using wpD [OF wp_ecs_main_live [OF assms(1,4,5), of F be addr port e]] assms(6) by simp
  have "ecs_live att blocks r s'"
    using assms(7) unfolding ecs_run_def
    by (rule server_loop.rounds_inv [OF ecs_live_loop [OF assms(1-3)] i])
  then show ?thesis by (cases r) simp_all
qed

subsection \<open>An instance\<close>

definition client_start :: "((int \<times> int) list \<times> int list \<times> nat) sys" where
  "client_start = snd (run_state (ecs_main clientK (\<lambda>_ _. None) Linux id \<lparr>sa_len = 0, sa_data = sa4\<rparr> None) (start ([], [], 0) 0))"

definition client_srv :: ecs_srv where
  "client_srv = \<lparr>s_conf = 1, s_addr = 2, s_kq = 3, s_lsk = 5, s_port = 20480, s_conns = []\<rparr>"

lemmas client_simps = run_simps clientK_def clientR_def rep_def srv_log_def fflog_def srv_die_def DBG_def ecs_die_def ffstdout_fmt_def
  std_fmt_def ffkq_attach_defs err_after_def Let_def

lemmas client_handler = ecs_handler_def ecs_accept_def ecs_accept1_def ecs_accept_conn_def ffsock_accept_def out_addr_def
  client_srv_def client_simps ffsockaddr_ip_port_def sa4_def u16_of_def AF_INET_def ecs_conn_recv_def ecs_recv_loop.simps
  ecs_recv_round_def ffsock_recv_def ecs_conn_send_def ffsock_send_def fferr_again_def sys_step_def

lemmas client_listen = client_simps ecs_main_def ecs_init_def ecs_listen_def ffkq_create_defs ffsock_create_tcp_def ffsock_create_def
  ffsock_bind_def ffsock_setopt_def ffsock_listen_def ffsock_localaddr_def out_addr_def ffsockaddr_ip_port_def
  sa4_def u16_of_def AF_INET_def ffps_exit_def

lemma client_main:
  "run_state (ecs_main clientK (\<lambda>_ _. None) Linux id \<lparr>sa_len = 0, sa_data = sa4\<rparr> None) (start ([], [], 0) 0)
    = (Ret client_srv, client_start)"
  unfolding client_start_def
  by (simp add: client_listen client_srv_def)

lemma client_run:
  assumes "world s = ([(5, 2)], [2, 1], 0)"
  shows "\<exists>st s'. ecs_run 1 clientK (\<lambda>_ _. None) Linux id (\<lambda>_. []) \<lparr>sa_len = 0, sa_data = sa4\<rparr> 0 client_srv s = Some (Ret st, s') \<and>
    sent 6 (trace s') = sent 6 (trace s) @ [104, 105] \<and> map fst (s_conns st) = [4]"
  using assms
  by (simp add: ecs_run_def srv_round_def srv_wait_def ffkq_wait_defs ffkq_time_set_defs client_handler)

lemma client_world: "world client_start = ([(5, 2)], [2, 1], 0)" "sent 6 (trace client_start) = []"
  unfolding client_start_def
  by (simp_all add: client_listen sys_step_def start_def)

theorem echo_server_invariant_witness:
  "\<exists>r s'. ecs_run 1 clientK (\<lambda>_ _. None) Linux id (\<lambda>_. []) \<lparr>sa_len = 0, sa_data = sa4\<rparr> 0 client_srv client_start = Some (r, s') \<and>
    ecs_inv r s' \<and> sent 6 (trace s') = [104, 105]"
proof -
  obtain st s' where "ecs_run 1 clientK (\<lambda>_ _. None) Linux id (\<lambda>_. []) \<lparr>sa_len = 0, sa_data = sa4\<rparr> 0 client_srv client_start = Some (Ret st, s')"
    "sent 6 (trace s') = [104, 105]"
    using client_run [OF client_world(1)] client_world(2) by auto
  then show ?thesis using echo_server_invariant [OF client_main] by blast
qed

theorem echo_server_safe_witness:
  "\<exists>r s'. ecs_run 1 clientK (\<lambda>_ _. None) Linux id (\<lambda>_. []) \<lparr>sa_len = 0, sa_data = sa4\<rparr> 0 client_srv client_start = Some (r, s') \<and>
    r \<noteq> Fault"
  using client_run [OF client_world(1)]
    echo_server_safe [OF clientK_laws(1) clientK_laws(2) [of id] clientK_laws(3) _ _ client_main] by fastforce

theorem echo_recv_returns_witness:
  "\<exists>r s'. ecs_recv_loop clientK (\<lambda>_ _. None) 4 6 client_start = Some (r, s') \<and> r \<noteq> RMore"
proof -
  have "recv_measure clientK 6 (\<lambda>w. 1 - snd (snd w))"
    by (auto simp: recv_measure_def clientK_def clientR_def rep_def Let_def split: call.splits sock_call.splits)
  then show ?thesis by (rule echo_recv_returns)
qed

theorem echo_accepts_one_witness:
  "\<exists>r s'. ecs_handler clientK (\<lambda>_ _. None) Linux id (\<lambda>_. []) \<lparr>sa_len = 0, sa_data = sa4\<rparr> 2 client_srv client_start = Some (r, s') \<and>
    n_accepts (trace s') = Suc (n_accepts (trace client_start))"
proof -
  have "ecs_inv (Ret client_srv) client_start"
    using wpD [OF wp_ecs_main [of clientK "\<lambda>_ _. None" Linux id "\<lparr>sa_len = 0, sa_data = sa4\<rparr>" None "([], [], 0)" 0]] client_main by simp
  moreover have "\<exists>r s'. ecs_handler clientK (\<lambda>_ _. None) Linux id (\<lambda>_. []) \<lparr>sa_len = 0, sa_data = sa4\<rparr> (s_addr client_srv) client_srv client_start
      = Some (r, s')"
    using client_world(1)
    by (simp add: client_handler)
  ultimately show ?thesis using echo_accepts_one by (fastforce simp: client_srv_def)
qed

end
