(* ===== verification/Backtrace.thy ===== *)
theory Backtrace
  imports File File_Win
begin

text \<open>
  Stack traces (\<open>FFOS/backtrace.h\<close>).  The frames are what the system finds on the stack; the module
  of a frame is asked for once and kept until another frame is asked for.
\<close>

subsection \<open>UNIX\<close>

text \<open>\<open>bt_i\<close> is \<open>i_info\<close>, \<open>bt_base\<close> and \<open>bt_name\<close> are \<open>dli_fbase\<close> and \<open>dli_fname\<close> of \<open>info\<close>.\<close>

record ffthread_bt =
  bt_frames :: "int list"
  bt_n :: u32
  bt_base :: int
  bt_name :: string
  bt_i :: u32

definition out_frames :: "reply \<Rightarrow> int list" where
  "out_frames x = (case rout x of OInts l \<Rightarrow> l | _ \<Rightarrow> [])"

definition ffthread_backtrace :: "'w kernel \<Rightarrow> ffthread_bt \<Rightarrow> ('w, u32 \<times> ffthread_bt) prog" where
  "ffthread_backtrace K bt = do {
     x \<leftarrow> sys K (Lib (Backtrace 64));
     let n = of_int (rv x);
     State_Monad.return (n, bt\<lparr>bt_frames := out_frames x, bt_n := n, bt_i := -1\<rparr>)
   }"

definition ffthread_backtrace_frame :: "ffthread_bt \<Rightarrow> u32 \<Rightarrow> int" where
  "ffthread_backtrace_frame bt i = bt_frames bt ! unat i"

text \<open>The common part of the two functions: the module of the frame, if the system knows it.\<close>

definition bt_find :: "'w kernel \<Rightarrow> ffthread_bt \<Rightarrow> u32 \<Rightarrow> ('w, bool \<times> ffthread_bt) prog" where
  "bt_find K bt i =
     (if i \<noteq> bt_i bt then do {
        x \<leftarrow> sys K (Lib (Dladdr (ffthread_backtrace_frame bt i)));
        State_Monad.return (if rv x = 0 then (False, bt)
          else (True, case rout x of OSym b f \<Rightarrow> bt\<lparr>bt_base := b, bt_name := f, bt_i := i\<rparr> | _ \<Rightarrow> bt\<lparr>bt_i := i\<rparr>))
      } else State_Monad.return (True, bt))"

definition ffthread_backtrace_modbase :: "'w kernel \<Rightarrow> ffthread_bt \<Rightarrow> u32 \<Rightarrow> ('w, int \<times> ffthread_bt) prog" where
  "ffthread_backtrace_modbase K bt i =
     (if i \<ge> bt_n bt then State_Monad.return (0, bt)
      else do {
        r \<leftarrow> bt_find K bt i;
        State_Monad.return (if fst r then bt_base (snd r) else 0, snd r)
      })"

definition ffthread_backtrace_modname :: "'w kernel \<Rightarrow> ffthread_bt \<Rightarrow> u32 \<Rightarrow> ('w, string option \<times> ffthread_bt) prog" where
  "ffthread_backtrace_modname K bt i =
     (if i \<ge> bt_n bt \<or> ffthread_backtrace_frame bt i = 0 then State_Monad.return (None, bt)
      else do {
        r \<leftarrow> bt_find K bt i;
        State_Monad.return (if fst r then Some (bt_name (snd r)) else None, snd r)
      })"

subsection \<open>Windows\<close>

record ffthread_bt_win =
  wbt_frames :: "int list"
  wbt_n :: u32
  wbt_i_mod :: u32
  wbt_base :: int
  wbt_wname :: wstr

text \<open>\<open>xp\<close>: built for Windows XP, where at most 62 frames may be asked for.\<close>

definition ffthread_backtrace_win :: "'w kernel \<Rightarrow> ffbase \<Rightarrow> bool \<Rightarrow> ffthread_bt_win \<Rightarrow> ('w, u32 \<times> ffthread_bt_win) prog" where
  "ffthread_backtrace_win K B xp bt = do {
     x \<leftarrow> sys K (Lib (CaptureStackBackTrace (if xp then ffmin B 62 64 else 64)));
     let n = of_int (rv x);
     State_Monad.return (n, bt\<lparr>wbt_frames := out_frames x, wbt_n := n, wbt_i_mod := -1\<rparr>)
   }"

definition bt_find_win :: "'w kernel \<Rightarrow> ffthread_bt_win \<Rightarrow> u32 \<Rightarrow> ('w, bool \<times> ffthread_bt_win) prog" where
  "bt_find_win K bt i =
     (if i \<noteq> wbt_i_mod bt then do {
        x \<leftarrow> sys K (Lib (GetModuleHandleExW (wbt_frames bt ! unat i)));
        State_Monad.return (if rv x = 0 then (False, bt)
          else (True, bt\<lparr>wbt_base := out_int x 0, wbt_i_mod := i\<rparr>))
      } else State_Monad.return (True, bt))"

definition ffthread_backtrace_modbase_win :: "'w kernel \<Rightarrow> ffthread_bt_win \<Rightarrow> u32 \<Rightarrow> ('w, int \<times> ffthread_bt_win) prog" where
  "ffthread_backtrace_modbase_win K bt i =
     (if i \<ge> wbt_n bt then State_Monad.return (0, bt)
      else do {
        r \<leftarrow> bt_find_win K bt i;
        State_Monad.return (if fst r then wbt_base (snd r) else 0, snd r)
      })"

definition ffthread_backtrace_modname_win :: "'w kernel \<Rightarrow> ffthread_bt_win \<Rightarrow> u32 \<Rightarrow> ('w, wstr option \<times> ffthread_bt_win) prog" where
  "ffthread_backtrace_modname_win K bt i =
     (if i \<ge> wbt_n bt \<or> wbt_frames bt ! unat i = 0 then State_Monad.return (None, bt)
      else do {
        r \<leftarrow> bt_find_win K bt i;
        if \<not> fst r then State_Monad.return (None, snd r)
        else do {
          x \<leftarrow> sys K (Lib (GetModuleFileNameW_of (wbt_base (snd r)) 1024));
          State_Monad.return (Some (out_wide x), (snd r)\<lparr>wbt_wname := out_wide x\<rparr>)
        }
      })"

subsection \<open>Printing\<close>

text \<open>
  The function is shared: \<open>base\<close>, \<open>name\<close> and \<open>frame\<close> are the functions of the platform.  The
  arguments are evaluated from left to right.  \<open>fmt\<close> is ffbase's formatting of one line; appending it
  grows the block \<open>p\<close>, and the line is left out if there is no memory.
\<close>

type_synonym 'n bt_line = "nat \<Rightarrow> int \<Rightarrow> int \<Rightarrow> 'n option \<Rightarrow> int \<Rightarrow> bytes"

type_synonym ('w, 'b, 'a) bt_fn = "'b \<Rightarrow> u32 \<Rightarrow> ('w, 'a \<times> 'b) prog"

definition bt_print_line :: "'w kernel \<Rightarrow> ('w, 'b, int) bt_fn \<Rightarrow> ('w, 'b, 'n option) bt_fn \<Rightarrow> ('b \<Rightarrow> u32 \<Rightarrow> int) \<Rightarrow> 'n bt_line
    \<Rightarrow> 'b \<Rightarrow> nat \<Rightarrow> int \<Rightarrow> bytes \<Rightarrow> ('w, int \<times> bytes \<times> 'b) prog" where
  "bt_print_line K base name frame fmt bt i p s = do {
     a \<leftarrow> base bt (of_nat i);
     let f = frame bt (of_nat i);
     m \<leftarrow> name (snd a) (of_nat i);
     b \<leftarrow> base (snd m) (of_nat i);
     let line = fmt i f (f - fst a) (fst m) (fst b);
     q \<leftarrow> sysi K (Mem (MRealloc p (length s + length line)));
     State_Monad.return (if q = 0 then (p, s, snd b) else (q, s @ line, snd b))
   }"

fun bt_print_lines :: "'w kernel \<Rightarrow> ('w, 'b, int) bt_fn \<Rightarrow> ('w, 'b, 'n option) bt_fn \<Rightarrow> ('b \<Rightarrow> u32 \<Rightarrow> int) \<Rightarrow> 'n bt_line
    \<Rightarrow> 'b \<Rightarrow> nat list \<Rightarrow> int \<Rightarrow> bytes \<Rightarrow> ('w, int \<times> bytes) prog" where
  "bt_print_lines K base name frame fmt bt [] p s = State_Monad.return (p, s)"
| "bt_print_lines K base name frame fmt bt (i # is) p s = do {
     r \<leftarrow> bt_print_line K base name frame fmt bt i p s;
     bt_print_lines K base name frame fmt (snd (snd r)) is (fst r) (fst (snd r))
   }"

definition bt_zero :: ffthread_bt where
  "bt_zero = \<lparr>bt_frames = [], bt_n = 0, bt_base = 0, bt_name = [], bt_i = 0\<rparr>"

definition ffthread_backtrace_print :: "'w kernel \<Rightarrow> string bt_line \<Rightarrow> int \<Rightarrow> u32 \<Rightarrow> ('w, unit) prog" where
  "ffthread_backtrace_print K fmt fd limit = do {
     r \<leftarrow> ffthread_backtrace K bt_zero;
     let n = (if limit \<noteq> 0 \<and> limit < fst r then limit else fst r);
     p \<leftarrow> sysi K (Mem (MAlloc (unat (n * 80))));
     s \<leftarrow> bt_print_lines K (ffthread_backtrace_modbase K) (ffthread_backtrace_modname K) ffthread_backtrace_frame fmt
       (snd r) [0..<unat n] p [];
     fffile_write K fd (snd s);
     sysi K (Mem (MFree (fst s)));
     State_Monad.return ()
   }"

definition bt_zero_win :: ffthread_bt_win where
  "bt_zero_win = \<lparr>wbt_frames = [], wbt_n = 0, wbt_i_mod = 0, wbt_base = 0, wbt_wname = []\<rparr>"

definition ffthread_backtrace_frame_win :: "ffthread_bt_win \<Rightarrow> u32 \<Rightarrow> int" where
  "ffthread_backtrace_frame_win bt i = wbt_frames bt ! unat i"

definition ffthread_backtrace_print_win :: "'w kernel \<Rightarrow> ffbase \<Rightarrow> bool \<Rightarrow> wstr bt_line \<Rightarrow> int \<Rightarrow> u32 \<Rightarrow> ('w, unit) prog" where
  "ffthread_backtrace_print_win K B xp fmt fd limit = do {
     r \<leftarrow> ffthread_backtrace_win K B xp bt_zero_win;
     let n = (if limit \<noteq> 0 \<and> limit < fst r then limit else fst r);
     p \<leftarrow> sysi K (Mem (MAlloc (unat (n * 80))));
     s \<leftarrow> bt_print_lines K (ffthread_backtrace_modbase_win K) (ffthread_backtrace_modname_win K) ffthread_backtrace_frame_win fmt
       (snd r) [0..<unat n] p [];
     fffile_write_win K B fd (snd s);
     sysi K (Mem (MFree (fst s)));
     State_Monad.return ()
   }"

subsection \<open>Properties\<close>

text \<open>
  The module of an address is a function \<open>syms\<close> of it, \<open>None\<close> if the system does not know it.  The
  kept module is always that of the frame it was asked for.
\<close>

definition sym_laws :: "'w kernel \<Rightarrow> (int \<Rightarrow> (int \<times> string) option) \<Rightarrow> bool" where
  "sym_laws K syms \<longleftrightarrow> (\<forall>a w. let x = fst (K (Lib (Dladdr a)) w) in case syms a of
      None \<Rightarrow> rv x = 0
    | Some (b, f) \<Rightarrow> rv x \<noteq> 0 \<and> rout x = OSym b f)"

definition bt_inv :: "(int \<Rightarrow> (int \<times> string) option) \<Rightarrow> ffthread_bt \<Rightarrow> bool" where
  "bt_inv syms bt \<longleftrightarrow> unat (bt_n bt) \<le> length (bt_frames bt) \<and> unat (bt_n bt) \<le> 64 \<and>
     (bt_i bt = -1 \<or> bt_i bt < bt_n bt \<and> syms (bt_frames bt ! unat (bt_i bt)) = Some (bt_base bt, bt_name bt))"

datatype bt_query = ModBase u32 | ModName u32

definition bt_ask :: "'w kernel \<Rightarrow> ffthread_bt \<Rightarrow> bt_query \<Rightarrow> ('w, (int + string option) \<times> ffthread_bt) prog" where
  "bt_ask K bt q = (case q of
      ModBase i \<Rightarrow> do { r \<leftarrow> ffthread_backtrace_modbase K bt i; State_Monad.return (Inl (fst r), snd r) }
    | ModName i \<Rightarrow> do { r \<leftarrow> ffthread_backtrace_modname K bt i; State_Monad.return (Inr (fst r), snd r) })"

fun bt_asks :: "'w kernel \<Rightarrow> ffthread_bt \<Rightarrow> bt_query list \<Rightarrow> ('w, (int + string option) list) prog" where
  "bt_asks K bt [] = State_Monad.return []"
| "bt_asks K bt (q # qs) = do {
     r \<leftarrow> bt_ask K bt q;
     rs \<leftarrow> bt_asks K (snd r) qs;
     State_Monad.return (fst r # rs)
   }"

definition bt_answer :: "(int \<Rightarrow> (int \<times> string) option) \<Rightarrow> int list \<Rightarrow> bt_query \<Rightarrow> int + string option" where
  "bt_answer syms fs q = (case q of
      ModBase i \<Rightarrow> Inl (if unat i < length fs then case syms (fs ! unat i) of None \<Rightarrow> 0 | Some (b, f) \<Rightarrow> b else 0)
    | ModName i \<Rightarrow> Inr (if unat i < length fs \<and> fs ! unat i \<noteq> 0 then map_option snd (syms (fs ! unat i)) else None))"

lemma wp_bt_find:
  assumes "sym_laws K syms" "bt_inv syms bt" "i < bt_n bt"
  shows "wp (bt_find K bt i) (\<lambda>r s. bt_inv syms (snd r) \<and> bt_frames (snd r) = bt_frames bt \<and> bt_n (snd r) = bt_n bt \<and>
      (case syms (bt_frames bt ! unat i) of None \<Rightarrow> \<not> fst r
       | Some (b, f) \<Rightarrow> fst r \<and> bt_base (snd r) = b \<and> bt_name (snd r) = f)) s"
proof -
  let ?a = "ffthread_backtrace_frame bt i"
  have "case syms ?a of None \<Rightarrow> rv x = 0 | Some (b, f) \<Rightarrow> rv x \<noteq> 0 \<and> rout x = OSym b f"
    if "K (Lib (Dladdr ?a)) w = (x, w')" for x w w'
    using assms(1) that unfolding sym_laws_def Let_def by (metis fst_conv)
  moreover have "i \<noteq> -1" using assms(2,3) by (auto simp: bt_inv_def word_less_nat_alt unsigned_minus_1_eq_mask mask_eq_exp_minus_1)
  ultimately show ?thesis
    using assms(2,3) unfolding bt_find_def
    by (intro wp_intros) (fastforce simp: bt_inv_def ffthread_backtrace_frame_def split: option.splits)+
qed

lemma wp_bt_ask:
  assumes "sym_laws K syms" "bt_inv syms bt"
  shows "wp (bt_ask K bt q) (\<lambda>r s. bt_inv syms (snd r) \<and> bt_frames (snd r) = bt_frames bt \<and> bt_n (snd r) = bt_n bt \<and>
      fst r = bt_answer syms (take (unat (bt_n bt)) (bt_frames bt)) q) s"
proof -
  have n: "take (unat (bt_n bt)) (bt_frames bt) ! unat i = bt_frames bt ! unat i" if "i < bt_n bt" for i
    using that by (simp add: word_less_nat_alt)
  show ?thesis
    unfolding bt_ask_def ffthread_backtrace_modbase_def ffthread_backtrace_modname_def
    using assms(2)
    by (cases q; simp only: bt_query.simps; intro wp_intros wp_mono [OF wp_bt_find [OF assms]])
      (auto simp: bt_answer_def n ffthread_backtrace_frame_def bt_inv_def word_less_nat_alt word_le_nat_alt not_le
        split: option.splits)
qed

text \<open>
  Claim C32.  The answers to any sequence of questions for the base and the name of the modules of frames are
  those of \<open>syms\<close>, whatever was asked before.
\<close>

theorem backtrace_answers:
  assumes "sym_laws K syms" "bt_inv syms bt"
  shows "wp (bt_asks K bt qs) (\<lambda>r s. r = map (bt_answer syms (take (unat (bt_n bt)) (bt_frames bt))) qs) s"
  using assms(2)
proof (induction qs arbitrary: bt s)
  case Nil
  then show ?case by (simp add: wp_return)
next
  case (Cons q qs)
  show ?case
    unfolding bt_asks.simps
    by (intro wp_bind wp_mono [OF wp_bt_ask [OF assms(1) Cons.prems]])
      (auto intro!: wp_return wp_mono [OF Cons.IH])
qed

text \<open>The trace itself establishes the invariant, for a system that writes the frames it counts.\<close>

definition frames_laws :: "'w kernel \<Rightarrow> bool" where
  "frames_laws K \<longleftrightarrow> (\<forall>n w. let x = fst (K (Lib (Backtrace n)) w) in
     \<exists>l. rout x = OInts l \<and> rv x = int (length l) \<and> length l \<le> n)"

lemma wp_backtrace:
  assumes "frames_laws K"
  shows "wp (ffthread_backtrace K bt) (\<lambda>r s. bt_inv syms (snd r) \<and> fst r = bt_n (snd r)) s"
proof -
  have f: "\<exists>l. rout x = OInts l \<and> rv x = int (length l) \<and> length l \<le> 64"
    if "K (Lib (Backtrace 64)) w = (x, w')" for x w w'
    using assms that unfolding frames_laws_def Let_def by (metis fst_conv)
  have "bt_inv syms (bt\<lparr>bt_frames := out_frames x, bt_n := of_int (rv x), bt_i := -1\<rparr>)"
    if "K (Lib (Backtrace 64)) w = (x, w')" for x w w'
    using f [OF that] by (auto simp: bt_inv_def out_frames_def unat_of_nat)
  then show ?thesis unfolding ffthread_backtrace_def by (intro wp_intros) auto
qed

text \<open>Printing gives back its memory, whatever fails.\<close>

locale bt_modules =
  fixes base :: "('w, 'b, int) bt_fn" and name :: "('w, 'b, 'n option) bt_fn"
  assumes base_heap: "wp (base bt i) (\<lambda>r s'. heap_after (trace s') = heap_after (trace s)) s"
    and name_heap: "wp (name bt i) (\<lambda>r s'. heap_after (trace s') = heap_after (trace s)) s"
begin

lemma wp_print_line:
  assumes "heap_after (trace s) = Some (block p)"
  shows "wp (bt_print_line K base name frame fmt bt i p t) (\<lambda>r s'. heap_after (trace s') = Some (block (fst r))) s"
  unfolding bt_print_line_def Let_def using assms
  by (intro wp_bind wp_mono [OF base_heap] wp_mono [OF name_heap] wp_sysi wp_return) (auto simp: block_def)

lemma wp_print_lines:
  "heap_after (trace s) = Some (block p) \<Longrightarrow>
     wp (bt_print_lines K base name frame fmt bt is p t) (\<lambda>r s'. heap_after (trace s') = Some (block (fst r))) s"
proof (induction "is" arbitrary: bt p t s)
  case Nil
  then show ?case by (simp add: wp_return)
next
  case (Cons i "is")
  show ?case
    unfolding bt_print_lines.simps by (intro wp_bind wp_mono [OF wp_print_line [OF Cons.prems]] Cons.IH)
qed

end

lemma heap_step_other [simp]:
  "heap_step a (Lib l, r) = a" "heap_step a (FileC f, r) = a" "heap_step a (WinFile g, r) = a"
  by (cases a; simp add: heap_step_def)+

interpretation bt_unix: bt_modules "ffthread_backtrace_modbase K" "ffthread_backtrace_modname K" for K
  by unfold_locales
    (unfold ffthread_backtrace_modbase_def ffthread_backtrace_modname_def bt_find_def, (intro wp_intros; simp)+)

interpretation bt_win: bt_modules "ffthread_backtrace_modbase_win K" "ffthread_backtrace_modname_win K" for K
  by unfold_locales
    (unfold ffthread_backtrace_modbase_win_def ffthread_backtrace_modname_win_def bt_find_win_def, (intro wp_intros; simp)+)

theorem backtrace_print_memory:
  "wp (ffthread_backtrace_print K fmt fd limit) (\<lambda>r s. heap_clean (trace s)) (start w e)"
  unfolding ffthread_backtrace_print_def ffthread_backtrace_def Let_def heap_clean_def fffile_write_def
  by (intro wp_bind wp_sys wp_sysi wp_return wp_mono [OF bt_unix.wp_print_lines]) (auto simp: block_def)

theorem backtrace_print_win_memory:
  "wp (ffthread_backtrace_print_win K B xp fmt fd limit) (\<lambda>r s. heap_clean (trace s)) (start w e)"
  unfolding ffthread_backtrace_print_win_def ffthread_backtrace_win_def Let_def heap_clean_def fffile_write_win_def win_write_def
  by (intro wp_bind wp_sys wp_sysi wp_return wp_mono [OF bt_win.wp_print_lines]) (auto simp: block_def)

definition oneSymK :: "call \<Rightarrow> unit \<Rightarrow> reply \<times> unit" where
  "oneSymK c w = (case c of
      Lib (Dladdr a) \<Rightarrow> (if a = 7 then \<lparr>rv = 1, rerr = None, rout = OSym 4 ''lib''\<rparr> else \<lparr>rv = 0, rerr = None, rout = NoOut\<rparr>, w)
    | _ \<Rightarrow> (\<lparr>rv = 0, rerr = None, rout = NoOut\<rparr>, w))"

theorem backtrace_answers_witness:
  "fst (run_state (bt_asks oneSymK \<lparr>bt_frames = [7, 9], bt_n = 2, bt_base = 0, bt_name = [], bt_i = -1\<rparr>
     [ModBase 0, ModName 0, ModName 1, ModBase 5]) (start () 0)) = [Inl 4, Inr (Some ''lib''), Inr None, Inl 0]"
proof -
  let ?syms = "\<lambda>a. if a = 7 then Some (4, ''lib'') else None"
  have "sym_laws oneSymK ?syms" by (simp add: sym_laws_def oneSymK_def)
  moreover have "bt_inv ?syms \<lparr>bt_frames = [7, 9], bt_n = 2, bt_base = 0, bt_name = [], bt_i = -1\<rparr>"
    by (simp add: bt_inv_def)
  ultimately show ?thesis
    using backtrace_answers [of oneSymK ?syms _ "[ModBase 0, ModName 0, ModName 1, ModBase 5]" "start () 0"]
    by (fastforce simp: wp_def bt_answer_def)
qed

end
