(* ===== verification/Volume.thy ===== *)
theory Volume
  imports Wstring
begin

text \<open>
  Volumes of Windows (\<open>FFOS/volume.h\<close>): enumeration, information and mount points.
\<close>

abbreviation (input) ERROR_MORE_DATA :: int where "ERROR_MORE_DATA \<equiv> 234"

text \<open>The name of the volume is what the call wrote to the caller's buffer.\<close>

definition ffvol_open :: "'w kernel \<Rightarrow> nat \<Rightarrow> ('w, int \<times> wstr) prog" where
  "ffvol_open K cap = do {
     x \<leftarrow> sys K (Lib (FindFirstVolumeW cap));
     State_Monad.return (rv x, out_wide x)
   }"

definition ffvol_close :: "'w kernel \<Rightarrow> int \<Rightarrow> ('w, unit) prog" where
  "ffvol_close K h = do { sysi K (Lib (FindVolumeClose h)); State_Monad.return () }"

definition ffvol_next :: "'w kernel \<Rightarrow> int \<Rightarrow> nat \<Rightarrow> ('w, int \<times> wstr) prog" where
  "ffvol_next K h cap = do {
     x \<leftarrow> sys K (Lib (FindNextVolumeW h cap));
     State_Monad.return (if rv x = 0 then 1 else 0, out_wide x)
   }"

record vol_info =
  vi_type :: u32
  vi_sectors_cluster :: u32
  vi_bytes_sector :: u32
  vi_clusters_free :: u32
  vi_clusters_total :: u32
  vi_fs :: wstr
  vi_paths_ptr :: int
  vi_paths :: wstr

definition ffvol_info_destroy :: "'w kernel \<Rightarrow> vol_info \<Rightarrow> ('w, vol_info) prog" where
  "ffvol_info_destroy K vi = do {
     sysi K (Mem (MFree (vi_paths_ptr vi)));
     State_Monad.return (vi\<lparr>vi_paths_ptr := 0, vi_paths := []\<rparr>)
   }"

text \<open>
  One round of the loop for the paths: \<open>Inl\<close> is the part of the result, the block and its text
  after \<open>break\<close>, \<open>Inr\<close> is the new size after \<open>continue\<close>.  A vector that could not be allocated
  has no capacity.
\<close>

definition vol_paths_round :: "'w kernel \<Rightarrow> wstr \<Rightarrow> u32 \<Rightarrow> ('w, (int \<times> int \<times> wstr) + u32) prog" where
  "vol_paths_round K name sz = do {
     p \<leftarrow> sysi K (Mem (MAlloc (unat sz * 2)));
     x \<leftarrow> sys K (Lib (GetVolumePathNamesForVolumeNameW name (if p = 0 then 0 else unat sz)));
     if rv x = 0 then do {
       e \<leftarrow> fferr_last;
       if e = ERROR_MORE_DATA
       then do { sysi K (Mem (MFree p)); State_Monad.return (Inr (of_int (out_int x 0))) }
       else State_Monad.return (Inl (4, p, []))
     }
     else State_Monad.return (Inl (0, p, out_wide x))
   }"

partial_function (option) vol_paths :: "'w kernel \<Rightarrow> wstr \<Rightarrow> u32 \<Rightarrow> 'w sys \<Rightarrow> ((int \<times> int \<times> wstr) \<times> 'w sys) option" where
  "vol_paths K name sz s =
     (let a = run_state (vol_paths_round K name sz) s
      in case fst a of Inl r \<Rightarrow> Some (r, snd a) | Inr sz' \<Rightarrow> vol_paths K name sz' (snd a))"

text \<open>What is read before the loop, \<open>r\<close> so far, with \<open>MAX_PATH = 260\<close>.\<close>

definition vol_info_basic :: "'w kernel \<Rightarrow> wstr \<Rightarrow> vol_info \<Rightarrow> u32 \<Rightarrow> ('w, int \<times> vol_info) prog" where
  "vol_info_basic K name vi flags = do {
     t \<leftarrow> sysi K (Lib (GetDriveTypeW name));
     let vi = vi\<lparr>vi_type := of_int t\<rparr>;
     a \<leftarrow> (if tst flags 1 then do {
             x \<leftarrow> sys K (WinFile (GetDiskFreeSpaceW name));
             State_Monad.return (if rv x = 0 then (1, vi)
               else (0, vi\<lparr>vi_sectors_cluster := of_int (out_int x 0), vi_bytes_sector := of_int (out_int x 1),
                 vi_clusters_free := of_int (out_int x 2), vi_clusters_total := of_int (out_int x 3)\<rparr>))
           } else State_Monad.return (0, vi));
     if tst flags 2 then do {
       x \<leftarrow> sys K (Lib (GetVolumeInformationW name 64));
       State_Monad.return (if rv x = 0 then (fst a OR 2, snd a) else (fst a, (snd a)\<lparr>vi_fs := out_wide x\<rparr>))
     } else State_Monad.return a
   }"

definition ffvol_info :: "'w kernel \<Rightarrow> wstr \<Rightarrow> vol_info \<Rightarrow> u32 \<Rightarrow> 'w sys \<Rightarrow> ((int \<times> vol_info) \<times> 'w sys) option" where
  "ffvol_info K name vi flags s =
     (let flags = (if flags = 0 then 0xff else flags);
          a = run_state (vol_info_basic K name vi flags) s
      in if tst flags 4
         then map_option (\<lambda>((r, p, t), s'). ((fst (fst a) OR r, (snd (fst a))\<lparr>vi_paths_ptr := p, vi_paths := t\<rparr>), s'))
           (vol_paths K name 261 (snd a))
         else Some a)"

subsection \<open>Mount points\<close>

text \<open>
  \<open>_ffs_utow_bslash\<close>: the text is indexed with the number of UTF-16 units; \<open>None\<close> is an access
  outside it.  The character after the text is its terminator.
\<close>

definition ffs_utow_bslash :: "'w kernel \<Rightarrow> wconv \<Rightarrow> string \<Rightarrow> ('w, wbuf option) prog" where
  "ffs_utow_bslash K U s = do {
     r \<leftarrow> ffs_alloc_utow_addcap K U s 2;
     State_Monad.return (case fst r of
        WHeap p w \<Rightarrow>
          (let n = unat (snd r) in
           if n = 0 then Some (WHeap p [92])
           else if n - 1 > length s then None
           else if (s @ [CHR 0x00]) ! (n - 1) \<noteq> CHR 0x5C then Some (WHeap p (take n w @ [92]))
           else Some (WHeap p (take n w)))
      | b \<Rightarrow> Some WNull)
   }"

text \<open>\<open>ffmem_free\<close> of a pointer that may be \<open>NULL\<close>.\<close>

definition wbuf_ptr :: "wbuf \<Rightarrow> int" where
  "wbuf_ptr w = (case w of WHeap p _ \<Rightarrow> p | _ \<Rightarrow> 0)"

definition mount_end :: "'w kernel \<Rightarrow> wbuf \<Rightarrow> wbuf \<Rightarrow> int \<Rightarrow> ('w, int) prog" where
  "mount_end K wdisk wmount r = do {
     sysi K (Mem (MFree (wbuf_ptr wdisk)));
     sysi K (Mem (MFree (wbuf_ptr wmount)));
     State_Monad.return r
   }"

definition ffvol_mount :: "'w kernel \<Rightarrow> wconv \<Rightarrow> string option \<Rightarrow> string \<Rightarrow> ('w, int option) prog" where
  "ffvol_mount K U disk mount = do {
     m \<leftarrow> ffs_utow_bslash K U mount;
     case m of
       None \<Rightarrow> State_Monad.return None
     | Some wmount \<Rightarrow> do {
         r \<leftarrow> (if wmount = WNull then mount_end K WNull WNull (-1)
              else case disk of
                None \<Rightarrow> do {
                  r \<leftarrow> sysi K (Lib (DeleteVolumeMountPointW (w_chars wmount)));
                  mount_end K WNull wmount (if r = 0 then -1 else 0)
                }
              | Some d \<Rightarrow> do {
                  wdisk \<leftarrow> ffsz_alloc_buf_utow K U None d;
                  if wdisk = WNull then mount_end K WNull wmount (-1)
                  else do {
                    r \<leftarrow> sysi K (Lib (SetVolumeMountPointW (w_chars wmount) (w_chars wdisk)));
                    mount_end K wdisk wmount (if r = 0 then -1 else 0)
                  }
                });
         State_Monad.return (Some r)
       }
   }"

subsection \<open>Properties\<close>

text \<open>
  What is documented of \<open>GetVolumePathNamesForVolumeNameW\<close>: it writes the names if the buffer has
  room for them, and otherwise fails with \<open>ERROR_MORE_DATA\<close> and gives the size needed.
\<close>

definition volnames_laws :: "'w kernel \<Rightarrow> wstr \<Rightarrow> wstr \<Rightarrow> bool" where
  "volnames_laws K name names \<longleftrightarrow> length names < 2 ^ 32 \<and>
     (\<forall>cap w. let x = fst (K (Lib (GetVolumePathNamesForVolumeNameW name cap)) w)
       in if length names \<le> cap then rv x \<noteq> 0 \<and> rout x = OWide names
          else rv x = 0 \<and> rerr x = Some ERROR_MORE_DATA \<and> rout x = OInts [int (length names)])"

definition alloc_works :: "'w kernel \<Rightarrow> bool" where
  "alloc_works K \<longleftrightarrow> (\<forall>n w. rv (fst (K (Mem (MAlloc n)) w)) \<noteq> 0)"

lemma volnames_round:
  assumes "volnames_laws K name names" "alloc_works K"
  shows "length names \<le> unat sz \<Longrightarrow>
      \<exists>p. p \<noteq> 0 \<and> fst (run_state (vol_paths_round K name sz) s) = Inl (0, p, names)"
    and "unat sz < length names \<Longrightarrow>
      fst (run_state (vol_paths_round K name sz) s) = Inr (of_nat (length names))"
proof -
  let ?s1 = "sys_step K (Mem (MAlloc (unat sz * 2))) s"
  let ?x = "fst (K (Lib (GetVolumePathNamesForVolumeNameW name (unat sz))) (world ?s1))"
  have p: "rv (fst (K (Mem (MAlloc (unat sz * 2))) (world s))) \<noteq> 0" using assms(2) by (simp add: alloc_works_def)
  have x: "if length names \<le> unat sz then rv ?x \<noteq> 0 \<and> rout ?x = OWide names
      else rv ?x = 0 \<and> rerr ?x = Some ERROR_MORE_DATA \<and> rout ?x = OInts [int (length names)]"
    using assms(1) unfolding volnames_laws_def Let_def by blast
  show "\<exists>p. p \<noteq> 0 \<and> fst (run_state (vol_paths_round K name sz) s) = Inl (0, p, names)" if "length names \<le> unat sz"
    using that p x by (simp add: vol_paths_round_def run_simps)
  show "fst (run_state (vol_paths_round K name sz) s) = Inr (of_nat (length names))" if "unat sz < length names"
    using that p x by (simp add: vol_paths_round_def run_simps err_after_def)
qed

text \<open>The loop ends after two rounds at most and gives the names.\<close>

theorem volume_paths_returns:
  assumes "volnames_laws K name names" "alloc_works K"
  shows "\<exists>p s'. vol_paths K name sz s = Some ((0, p, names), s') \<and> p \<noteq> 0"
proof (cases "length names \<le> unat sz")
  case True
  obtain p where "p \<noteq> 0" "fst (run_state (vol_paths_round K name sz) s) = Inl (0, p, names)"
    using volnames_round(1) [OF assms True] by blast
  then show ?thesis by (subst vol_paths.simps) (simp add: Let_def)
next
  case False
  let ?n = "of_nat (length names) :: u32" and ?s = "snd (run_state (vol_paths_round K name sz) s)"
  have "unat ?n = length names" using assms(1) by (simp add: volnames_laws_def unat_of_nat)
  then obtain p where "p \<noteq> 0" "fst (run_state (vol_paths_round K name ?n) ?s) = Inl (0, p, names)"
    using volnames_round(1) [OF assms, of ?n ?s] by auto
  moreover have "fst (run_state (vol_paths_round K name sz) s) = Inr ?n"
    using volnames_round(2) [OF assms] False by simp
  ultimately show ?thesis
    by (subst vol_paths.simps, simp add: Let_def) (subst vol_paths.simps, simp add: Let_def)
qed

text \<open>
  Without memory it has no end: the vector has no capacity, the system answers that it needs more,
  and the loop starts again.
\<close>

definition noMemVolK :: "call \<Rightarrow> unit \<Rightarrow> reply \<times> unit" where
  "noMemVolK c w = (case c of
      Lib _ \<Rightarrow> (\<lparr>rv = 0, rerr = Some ERROR_MORE_DATA, rout = OInts [5]\<rparr>, w)
    | _ \<Rightarrow> (\<lparr>rv = 0, rerr = None, rout = NoOut\<rparr>, w))"

theorem volume_paths_endless: "vol_paths noMemVolK name sz s = None"
proof -
  have r: "fst (run_state (vol_paths_round noMemVolK name sz) s) = Inr 5" for name sz s
    by (simp add: vol_paths_round_def run_simps noMemVolK_def err_after_def)
  have "vol_paths K name sz s = Some y \<Longrightarrow> K = noMemVolK \<Longrightarrow> False" for K sz s y
    by (induction rule: vol_paths.raw_induct [rotated 1, consumes 1, case_names step]) (clarsimp simp: Let_def r, blast)
  then show ?thesis by (cases "vol_paths noMemVolK name sz s") blast+
qed

text \<open>Mounting keeps no memory, on every way out.\<close>

theorem volume_mount_memory:
  "wp (ffvol_mount K U disk mount) (\<lambda>r s. r \<noteq> None \<longrightarrow> heap_clean (trace s)) (start w e)"
proof -
  have h: "heap_step a (Lib l, r) = a" for a l r by (cases a) (simp_all add: heap_step_def)
  have m: "wp (mount_end K d m r) (\<lambda>r s. heap_after (trace s) = Some {#}) s"
    if "heap_after (trace s) = Some (block (wbuf_ptr d) + block (wbuf_ptr m))" for d m r s
    using that unfolding mount_end_def by (intro wp_intros) (auto simp: block_def)
  have b: "wp (ffs_utow_bslash K U mount) (\<lambda>m s. \<forall>b. m = Some b \<longrightarrow> heap_after (trace s) = Some (block (wbuf_ptr b))
      \<and> (b = WNull \<longrightarrow> wbuf_ptr b = 0)) (start w e)"
    unfolding ffs_utow_bslash_def ffs_alloc_utow_addcap_def
    by (intro wp_intros) (auto simp: wbuf_ptr_def block_def Let_def split: if_splits)
  have u: "wp (ffsz_alloc_buf_utow K U None d) (\<lambda>b s'. heap_after (trace s') = Some (block (wbuf_ptr b) + h)) s"
    if "heap_after (trace s) = Some h" for d s h
    using that unfolding ffsz_alloc_buf_utow_def by (intro wp_intros) (auto simp: wbuf_ptr_def block_def)
  have W: "wp (do { r \<leftarrow> X; State_Monad.return (Some r) }) (\<lambda>r s. r \<noteq> None \<longrightarrow> heap_after (trace s) = Some {#}) s"
    if "wp X (\<lambda>r s. heap_after (trace s) = Some {#}) s" for X :: "('a, int) prog" and s
    using that by (intro wp_bind) (auto elim!: wp_mono intro!: wp_return)
  show ?thesis
    unfolding ffvol_mount_def heap_clean_def
    apply (rule wp_bind, rule wp_mono [OF b], rule wp_option)
    subgoal by (intro wp_return) simp
    subgoal for m s wmount
      apply (rule W, rule wp_if, rule m)
      subgoal by (simp add: wbuf_ptr_def block_def)
      apply (rule wp_option)
      subgoal by (intro wp_bind wp_sysi, rule m) (simp add: h wbuf_ptr_def block_def)
      subgoal for d
        apply (rule wp_bind, rule wp_mono [OF u], simp, rule wp_if, rule m)
        subgoal by (simp add: wbuf_ptr_def block_def)
        subgoal by (intro wp_bind wp_sysi, rule m) (simp add: h)
        done
      done
    done
qed

text \<open>
  A path of one UTF-16 unit per byte gets a backslash unless it has one.  With other characters
  the test looks at the wrong byte: a name of a letter of two bytes, a backslash and another letter gets none.
\<close>

definition unit_conv :: "wconv \<Rightarrow> string \<Rightarrow> wstr \<Rightarrow> bool" where
  "unit_conv U s w \<longleftrightarrow> length w < 2 ^ 32 \<and> fst (ffutf8_to_utf16 U None s) = int (2 * length w) \<and>
     (\<forall>cap. 2 * length w \<le> cap \<longrightarrow> ffutf8_to_utf16 U (Some cap) s = (int (2 * length w), w))"

theorem volume_bslash:
  assumes "unit_conv U s w" "length w = length s" "alloc_works K"
  shows "\<exists>p. fst (run_state (ffs_utow_bslash K U s) (start v e)) =
    Some (WHeap p (w @ (if s \<noteq> [] \<and> last s = CHR 0x5C then [] else [92])))"
proof -
  have u: "unat (of_nat (length w) :: u64) = length w"
    using assms(1) less_trans [of "length w" "2 ^ 32" "2 ^ 64"] by (simp add: unit_conv_def unat_of_nat)
  have c: "ffutf8_to_utf16 U (Some ((length w + 2) * 2)) s = (int (2 * length w), w)"
    "fst (ffutf8_to_utf16 U None s) = int (2 * length w)"
    using assms(1) by (simp_all add: unit_conv_def)
  let ?p = "rv (fst (K (Mem (MAlloc ((length w + 2) * 2))) v))"
  have p: "?p \<noteq> 0" using assms(3) by (simp add: alloc_works_def)
  have n: "nat (int (2 * length w) div 2) = length w" "int (2 * length w) div 2 = int (length w)" by simp_all
  have a: "fst (run_state (ffs_alloc_utow_addcap K U s 2) (start v e)) = (WHeap ?p w, of_nat (length w))"
  proof (cases "w = []")
    case True
    then show ?thesis using p c by (simp add: ffs_alloc_utow_addcap_def ffs_utow_n_def run_simps)
  next
    case False
    then show ?thesis using p c n by (simp add: ffs_alloc_utow_addcap_def ffs_utow_n_def run_simps)
  qed
  obtain t where t: "run_state (ffs_alloc_utow_addcap K U s 2) (start v e) = ((WHeap ?p w, of_nat (length w)), t)"
    using a by (metis prod.collapse)
  show ?thesis
  proof (cases "s = []")
    case True
    then show ?thesis using assms(2) t by (simp add: ffs_utow_bslash_def run_simps)
  next
    case False
    then have "(s @ [CHR 0x00]) ! (length s - 1) = last s" by (simp add: last_conv_nth nth_append)
    then show ?thesis
      using False assms(2) t u by (auto simp: ffs_utow_bslash_def run_simps Let_def)
  qed
qed

definition latinU :: wconv where
  "latinU = \<lparr>ffsz_utow = (\<lambda>_ _. (0, [])),
     ffutf8_to_utf16 = (\<lambda>_ s. if s = [CHR 0xC3, CHR 0xA9, CHR 0x5C, CHR 0x78] then (6, [0xE9, 0x5C, 0x78])
       else (int (2 * length s), map (\<lambda>c. of_nat (of_char c)) s)),
     ffsz_wtou = (\<lambda>_ _. (0, [])), ffs_wtou = (\<lambda>_ _. (0, [])), wcsicmp = (\<lambda>_ _. 0)\<rparr>"

definition memK :: "call \<Rightarrow> unit \<Rightarrow> reply \<times> unit" where
  "memK c w = (case c of
      Lib _ \<Rightarrow> (case c of Lib (GetVolumePathNamesForVolumeNameW _ cap) \<Rightarrow>
          if 300 \<le> cap then (\<lparr>rv = 1, rerr = None, rout = OWide (replicate 300 65)\<rparr>, w)
          else (\<lparr>rv = 0, rerr = Some ERROR_MORE_DATA, rout = OInts [300]\<rparr>, w)
        | _ \<Rightarrow> (\<lparr>rv = 1, rerr = None, rout = NoOut\<rparr>, w))
    | _ \<Rightarrow> (\<lparr>rv = 5, rerr = None, rout = NoOut\<rparr>, w))"

lemma memK_laws: "alloc_works memK" "volnames_laws memK name (replicate 300 65)"
  by (simp_all add: alloc_works_def volnames_laws_def memK_def)

theorem volume_paths_returns_witness:
  "\<exists>p s'. vol_paths memK [86] 261 (start () 0) = Some ((0, p, replicate 300 65), s') \<and> p \<noteq> 0"
  by (rule volume_paths_returns [OF memK_laws(2,1)])

theorem volume_bslash_witness:
  "\<exists>p. fst (run_state (ffs_utow_bslash memK latinU ''C:'') (start () 0)) = Some (WHeap p [67, 58, 92])"
proof -
  have "unit_conv latinU ''C:'' [67, 58]" by (simp add: unit_conv_def latinU_def)
  from volume_bslash [OF this _ memK_laws(1), of "()" 0] show ?thesis by simp
qed

lemma volume_bslash_lost:
  "fst (run_state (ffs_utow_bslash memK latinU [CHR 0xC3, CHR 0xA9, CHR 0x5C, CHR 0x78]) (start () 0)) =
    Some (WHeap 5 [0xE9, 0x5C, 0x78])"
  by (simp add: ffs_utow_bslash_def ffs_alloc_utow_addcap_def ffs_utow_n_def run_simps latinU_def memK_def)

end
