(* ===== verification/Filemap.thy ===== *)
theory Filemap
  imports File_Win
begin

text \<open>
  File mappings (\<open>FFOS/filemap.h\<close>).  On UNIX a mapping object is the descriptor itself.  On Windows
  an empty file has no mapping object: \<open>-2\<close> stands for it.
\<close>

abbreviation (input) ERROR_FILE_INVALID :: int where "ERROR_FILE_INVALID \<equiv> 1006"

definition MMAP_EMPTY :: int where [flag_simps]: "MMAP_EMPTY = -2"

definition ffmmap_create_win :: "'w kernel \<Rightarrow> int \<Rightarrow> u64 \<Rightarrow> u32 \<Rightarrow> ('w, int) prog" where
  "ffmmap_create_win K fd max_size access = do {
     fmap \<leftarrow> sysi K (Lib (CreateFileMapping fd access (ucast (drop_bit 32 max_size)) (ucast max_size)));
     e \<leftarrow> fferr_last;
     State_Monad.return (if fmap = 0 \<and> e = ERROR_FILE_INVALID then MMAP_EMPTY else fmap)
   }"

definition ffmmap_open_win :: "'w kernel \<Rightarrow> int \<Rightarrow> u64 \<Rightarrow> nat \<Rightarrow> int \<Rightarrow> int \<Rightarrow> ('w, int) prog" where
  "ffmmap_open_win K fmap offset sz prot flags =
     sysi K (Lib (MapViewOfFile fmap prot (ucast (drop_bit 32 offset)) (ucast offset) sz))"

definition ffmmap_unmap_win :: "'w kernel \<Rightarrow> int \<Rightarrow> nat \<Rightarrow> ('w, int) prog" where
  "ffmmap_unmap_win K p sz = do {
     r \<leftarrow> sysi K (Lib (UnmapViewOfFile p));
     State_Monad.return (c_bool (r = 0))
   }"

definition ffmmap_close_win :: "'w kernel \<Rightarrow> int \<Rightarrow> ('w, unit) prog" where
  "ffmmap_close_win K fmap =
     (if fmap \<noteq> MMAP_EMPTY then do { sysi K (WinFile (CloseHandle fmap)); State_Monad.return () }
      else State_Monad.return ())"

definition ffmmap_create :: "int \<Rightarrow> u64 \<Rightarrow> u32 \<Rightarrow> int" where
  "ffmmap_create fd max_size access = fd"

abbreviation (input) MAP_FAILED :: int where "MAP_FAILED \<equiv> -1"

definition ffmmap_open :: "'w kernel \<Rightarrow> int \<Rightarrow> u64 \<Rightarrow> nat \<Rightarrow> int \<Rightarrow> int \<Rightarrow> ('w, int) prog" where
  "ffmmap_open K fd offset sz prot flags = do {
     h \<leftarrow> sysi K (Lib (Mmap sz prot flags fd offset));
     State_Monad.return (if h \<noteq> MAP_FAILED then h else 0)
   }"

definition ffmmap_unmap :: "'w kernel \<Rightarrow> int \<Rightarrow> nat \<Rightarrow> ('w, int) prog" where
  "ffmmap_unmap K p sz = sysi K (Lib (Munmap p sz))"

definition ffmmap_close :: "int \<Rightarrow> ('w, unit) prog" where
  "ffmmap_close fmap = State_Monad.return ()"

subsection \<open>Properties\<close>

text \<open>
  Mapping objects of Windows: after \<open>create\<close> and, if it succeeded, \<open>close\<close>, none is left; an empty
  file makes \<open>close\<close> do nothing.
\<close>

lemma filemap_closes:
  assumes "rv (fst (K (Lib (CreateFileMapping fd access (ucast (drop_bit 32 n)) (ucast n))) w)) \<noteq> MMAP_EMPTY"
  shows "wp (do { m \<leftarrow> ffmmap_create_win K fd n access; if m = 0 then State_Monad.return () else ffmmap_close_win K m })
    (\<lambda>r s. fds_after (trace s) = Some {#}) (start w e)"
proof -
  have "wp (ffmmap_create_win K fd n access) (\<lambda>m s. fds_after (trace s) = Some (if m = MMAP_EMPTY then {#} else block m)) (start w e)"
    using assms unfolding ffmmap_create_win_def
    by (intro wp_intros) (simp add: fd_step_def closed_def MMAP_EMPTY_def block_def)
  then show ?thesis
    unfolding ffmmap_close_win_def
    by (intro wp_intros, elim wp_mono) (intro wp_intros, auto simp: fd_step_def closed_def MMAP_EMPTY_def block_def)
qed

text \<open>The sizes and offsets that are cut in two words are those of the caller.\<close>

lemma filemap_words:
  "wp (ffmmap_create_win K fd n access) (\<lambda>r s. \<exists>hi lo. calls_of s = [Lib (CreateFileMapping fd access hi lo)] \<and>
      push_bit 32 (ucast hi) OR ucast lo = n) (start w e)"
  "wp (ffmmap_open_win K m n sz prot flags) (\<lambda>r s. \<exists>hi lo. calls_of s = [Lib (MapViewOfFile m prot hi lo sz)] \<and>
      push_bit 32 (ucast hi) OR ucast lo = n) (start w e)"
  unfolding ffmmap_create_win_def ffmmap_open_win_def
  by (intro wp_intros; auto simp: calls_of_def join_split)+

end
