(* ===== verification/Sysinfo.thy ===== *)
theory Sysinfo
  imports Wstring
begin

text \<open>
  Settings of the system (\<open>FFOS/sysconf.h\<close>), random numbers (\<open>FFOS/random.h\<close>) and parameters of a file
  system (\<open>ffpath_info\<close> and \<open>ffpath_islong\<close> of \<open>FFOS/path.h\<close>).
\<close>

subsection \<open>Settings\<close>

text \<open>\<open>SYSTEM_INFO\<close>: the members that are read.  On UNIX the object is not used.\<close>

record system_info =
  dwAllocationGranularity :: u32
  dwNumberOfProcessors :: u32

abbreviation (input) FFSYSCONF_PAGESIZE_WIN :: int where "FFSYSCONF_PAGESIZE_WIN \<equiv> 1"
abbreviation (input) FFSYSCONF_NPROCESSORS_ONLN_WIN :: int where "FFSYSCONF_NPROCESSORS_ONLN_WIN \<equiv> 2"

definition ffsysconf_init_win :: "'w kernel \<Rightarrow> ('w, system_info) prog" where
  "ffsysconf_init_win K = do {
     x \<leftarrow> sys K (Perf GetNativeSystemInfo);
     State_Monad.return \<lparr>dwAllocationGranularity = of_int (out_int x 0), dwNumberOfProcessors = of_int (out_int x 1)\<rparr>
   }"

definition ffsysconf_get_win :: "system_info \<Rightarrow> int \<Rightarrow> int" where
  "ffsysconf_get_win sc n =
     (if n = FFSYSCONF_PAGESIZE_WIN then sint (dwAllocationGranularity sc)
      else if n = FFSYSCONF_NPROCESSORS_ONLN_WIN then sint (dwNumberOfProcessors sc)
      else 0)"

text \<open>\<open>sysconf\<close> returns a \<open>long\<close>; the function returns an \<open>int\<close>.\<close>

definition ffsysconf_get :: "'w kernel \<Rightarrow> int \<Rightarrow> ('w, int) prog" where
  "ffsysconf_get K n = do {
     r \<leftarrow> sysi K (Perf (Sysconf n));
     State_Monad.return (sint (of_int r :: u32))
   }"

subsection \<open>Random numbers\<close>

text \<open>\<open>rand_s\<close> writes a number of 32 bits; if it fails the variable keeps what the stack had, \<open>junk\<close>.\<close>

definition ffrand_seed_win :: "u32 \<Rightarrow> ('w, unit) prog" where
  "ffrand_seed_win seed = State_Monad.return ()"

definition ffrand_get_win :: "'w kernel \<Rightarrow> u32 \<Rightarrow> ('w, int) prog" where
  "ffrand_get_win K junk = do {
     x \<leftarrow> sys K (Perf Rand_s);
     State_Monad.return (sint (if rv x = 0 then ucast (out_word x) else junk))
   }"

definition ffrand_seed :: "'w kernel \<Rightarrow> u32 \<Rightarrow> ('w, unit) prog" where
  "ffrand_seed K seed = do { sysi K (Perf (Srandom seed)); State_Monad.return () }"

definition ffrand_get :: "'w kernel \<Rightarrow> ('w, int) prog" where
  "ffrand_get K = do {
     r \<leftarrow> sysi K (Perf Random);
     State_Monad.return (sint (of_int r :: u32))
   }"

subsection \<open>Parameters of a file system\<close>

text \<open>
  \<open>ffpathinfo\<close>: the size of a block.  The enumeration has one member, \<open>FFPATH_BLOCKSIZE = 0\<close>.
  The name is in a buffer of \<open>4096\<close> characters, which is left as it was (\<open>junk\<close>) if it is too
  small: then the call returns the size needed.
\<close>

record ffpathinfo =
  f_bsize :: u64

definition ffpath_islong :: "'w kernel \<Rightarrow> wconv \<Rightarrow> wstr \<Rightarrow> wstr \<Rightarrow> ('w, bool) prog" where
  "ffpath_islong K U junk fnw = do {
     x \<leftarrow> sys K (WinFile (GetLongPathNameW fnw 4096));
     State_Monad.return (if rv x = 0 then False
       else if wcsicmp U (if rv x > 4096 then junk else out_wide x) fnw \<noteq> 0 then False
       else True)
   }"

definition ffpath_infoinit_win :: "'w kernel \<Rightarrow> wconv \<Rightarrow> string \<Rightarrow> ffpathinfo \<Rightarrow> ('w, int \<times> ffpathinfo) prog" where
  "ffpath_infoinit_win K U path st = do {
     w \<leftarrow> utow256 K U path;
     if w = WNull then State_Monad.return (1, st)
     else do {
       b \<leftarrow> sys K (WinFile (GetDiskFreeSpaceW (w_chars w)));
       w_free K w;
       State_Monad.return (if rv b = 0 then (1, st)
         else (0, st\<lparr>f_bsize := ucast (of_int (out_int b 0) * of_int (out_int b 1) :: u32)\<rparr>))
     }
   }"

definition ffpath_infoinit :: "'w kernel \<Rightarrow> string \<Rightarrow> ffpathinfo \<Rightarrow> ('w, int \<times> ffpathinfo) prog" where
  "ffpath_infoinit K path st = do {
     x \<leftarrow> sys K (FileC (Statfs path));
     State_Monad.return (rv x, if rv x = 0 then \<lparr>f_bsize = out_word x\<rparr> else st)
   }"

definition ffpath_info :: "ffpathinfo \<Rightarrow> u32 \<Rightarrow> u64" where
  "ffpath_info st name = (if name = 0 then f_bsize st else 0)"

subsection \<open>Properties\<close>

text \<open>
  The block size of Windows is the product of two numbers of 32 bits in 32 bits: it is exact
  as long as it is less than 4 GB, and the memory of the name is given back on every way out.
\<close>

lemma pathinfo_win_memory:
  "wp (ffpath_infoinit_win K U path st) (\<lambda>r s. heap_clean (trace s)) (start w e)"
proof -
  have h: "heap_step a (WinFile l, r) = a" for a l r by (cases a) (simp_all add: heap_step_def)
  show ?thesis
    unfolding ffpath_infoinit_win_def heap_clean_def
    by (rule wp_bind, rule wp_utow_res, simp, intro wp_if wp_return wp_bind wp_sys, simp, rule wp_free_res)
      (auto simp: h intro!: wp_return)
qed

lemma pathinfo_win_block_size:
  assumes "0 \<le> a" "0 \<le> b" "a * b < 2 ^ 32"
  shows "uint (ucast (of_int a * of_int b :: u32) :: u64) = a * b"
proof -
  have "uint (of_int (a * b) :: u32) = a * b"
    using assms by (simp only: uint_word_of_int) (simp add: take_bit_int_eq_self)
  then show ?thesis using assms by (simp add: unsigned_ucast_eq take_bit_int_eq_self_iff)
qed

text \<open>The number of processors is what the system says, on both systems.\<close>

lemma sysconf_processors:
  assumes "rout (fst (K (Perf GetNativeSystemInfo) w)) = OInts [g, n]" "0 \<le> n" "n < 2 ^ 31"
    and "rv (fst (K (Perf (Sysconf 84)) w)) = n"
  shows "ffsysconf_get_win (fst (run_state (ffsysconf_init_win K) (start w e))) FFSYSCONF_NPROCESSORS_ONLN_WIN = n \<and>
    fst (run_state (ffsysconf_get K 84) (start w e)) = n"
proof -
  have "sint (of_int n :: u32) = n"
    unfolding sint_sbintrunc' using assms(2,3) by (intro signed_take_bit_int_eq_self) simp_all
  then show ?thesis
    using assms by (simp add: ffsysconf_init_win_def ffsysconf_get_win_def ffsysconf_get_def run_simps)
qed

end
