(* ===== verification/Dylib.thy ===== *)
theory Dylib
  imports Errstr
begin

text \<open>
  Dynamic libraries (\<open>FFOS/dylib.h\<close>).  The variable \<open>_ffdl_open_supports_flags\<close> (\<open>0\<close>: not known
  yet) is an argument of \<open>ffdl_open\<close> and part of its result.
\<close>

definition FFDL_SELFDIR_WIN :: u32 where [flag_simps]: "FFDL_SELFDIR_WIN = 0x900"
definition FFDL_SELFDIR :: u32 where [flag_simps]: "FFDL_SELFDIR = 0"

abbreviation (input) LOAD_WITH_ALTERED_SEARCH_PATH :: u32 where "LOAD_WITH_ALTERED_SEARCH_PATH \<equiv> 8"
abbreviation (input) RTLD_LAZY :: u32 where "RTLD_LAZY \<equiv> 1"

definition kernel32 :: wstr where "kernel32 = [107, 101, 114, 110, 101, 108, 51, 50, 46, 100, 108, 108]"

definition ffdl_init_flags :: "'w kernel \<Rightarrow> ('w, int) prog" where
  "ffdl_init_flags K = do {
     dl \<leftarrow> sysi K (Lib (LoadLibraryExW kernel32 0));
     if dl = 0 then State_Monad.return (-1)
     else do {
       p \<leftarrow> sysi K (Lib (GetProcAddress dl ''AddDllDirectory''));
       sysi K (Lib (FreeLibrary dl));
       State_Monad.return (if p = 0 then -1 else 1)
     }
   }"

text \<open>The flags that are passed on, and the new value of the variable.\<close>

definition dl_flags :: "'w kernel \<Rightarrow> u32 \<Rightarrow> int \<Rightarrow> ('w, u32 \<times> int) prog" where
  "dl_flags K flags supports =
     (if flags \<noteq> 0 then do {
        f \<leftarrow> (if supports = 0 then ffdl_init_flags K else State_Monad.return supports);
        State_Monad.return (if f < 0 then LOAD_WITH_ALTERED_SEARCH_PATH else flags, f)
      } else State_Monad.return (flags, supports))"

definition ffdl_open_win :: "'w kernel \<Rightarrow> wconv \<Rightarrow> string \<Rightarrow> u32 \<Rightarrow> int \<Rightarrow> ('w, int \<times> int) prog" where
  "ffdl_open_win K U filename flags supports = do {
     w \<leftarrow> utow256 K U filename;
     if w = WNull then State_Monad.return (0, supports)
     else do {
       f \<leftarrow> dl_flags K flags supports;
       dl \<leftarrow> sysi K (Lib (LoadLibraryExW (w_chars w) (fst f)));
       w_free K w;
       State_Monad.return (dl, snd f)
     }
   }"

definition ffdl_close_win :: "'w kernel \<Rightarrow> int \<Rightarrow> ('w, unit) prog" where
  "ffdl_close_win K dl = do { sysi K (Lib (FreeLibrary dl)); State_Monad.return () }"

definition ffdl_addr_win :: "'w kernel \<Rightarrow> int \<Rightarrow> string \<Rightarrow> ('w, int) prog" where
  "ffdl_addr_win K dl proc_name = sysi K (Lib (GetProcAddress dl proc_name))"

definition ffdl_errstr_win :: "'w kernel \<Rightarrow> wtou \<Rightarrow> copyz \<Rightarrow> string \<Rightarrow> ('w, string) prog" where
  "ffdl_errstr_win K wtou copyz fferr_buffer = do {
     e \<leftarrow> fferr_last;
     fferr_strptr_win K wtou copyz e fferr_buffer
   }"

definition ffdl_open :: "'w kernel \<Rightarrow> string \<Rightarrow> u32 \<Rightarrow> ('w, int) prog" where
  "ffdl_open K filename flags = sysi K (Lib (Dlopen filename (flags OR RTLD_LAZY)))"

definition ffdl_close :: "'w kernel \<Rightarrow> int \<Rightarrow> ('w, unit) prog" where
  "ffdl_close K dl = do { sysi K (Lib (Dlclose dl)); State_Monad.return () }"

definition ffdl_addr :: "'w kernel \<Rightarrow> int \<Rightarrow> string \<Rightarrow> ('w, int) prog" where
  "ffdl_addr K dl proc_name = sysi K (Lib (Dlsym dl proc_name))"

definition ffdl_errstr :: "'w kernel \<Rightarrow> ('w, string) prog" where
  "ffdl_errstr K = do { x \<leftarrow> sys K (Lib Dlerror); State_Monad.return (out_text x) }"

subsection \<open>Properties\<close>

text \<open>
  Opening a library keeps no memory and no library but the one it returns, whatever the flags; and
  the variable is known afterwards if any flag was given and the name could be converted.
\<close>

lemma wp_dl_flags:
  assumes "fds_after (trace s) = Some {#}"
    and "\<And>f s'. heap_after (trace s') = heap_after (trace s) \<Longrightarrow> fds_after (trace s') = Some {#}
      \<Longrightarrow> (fst f = flags \<or> fst f = LOAD_WITH_ALTERED_SEARCH_PATH \<and> flags \<noteq> 0) \<Longrightarrow> (flags \<noteq> 0 \<longrightarrow> snd f \<noteq> 0)
      \<Longrightarrow> (flags = 0 \<or> supports \<noteq> 0 \<longrightarrow> snd f = supports \<and> trace s' = trace s) \<Longrightarrow> Q f s'"
  shows "wp (dl_flags K flags supports) Q s"
proof -
  have h: "heap_step a (Lib l, r) = a" for a l r by (cases a) (simp_all add: heap_step_def)
  show ?thesis
    unfolding dl_flags_def ffdl_init_flags_def using assms(1)
    by (intro wp_intros assms(2)) (auto simp: h fd_step_def closed_def)
qed

theorem dylib_resources:
  "wp (ffdl_open_win K U filename flags supports)
     (\<lambda>r s. heap_clean (trace s) \<and> fds_after (trace s) = Some (if fst r = 0 then {#} else {#fst r#})) (start w e)"
proof -
  have h: "heap_step a (Lib l, r) = a" for a l r by (cases a) (simp_all add: heap_step_def)
  show ?thesis
    unfolding ffdl_open_win_def heap_clean_def
    apply (rule wp_bind, rule wp_utow_res, simp, rule wp_if)
    subgoal by (intro wp_return) auto
    subgoal for x s
      apply (rule wp_bind, rule wp_dl_flags, simp)
      apply (intro wp_bind wp_sysi, rule wp_free_res)
        apply (auto simp: h fd_step_def closed_def intro!: wp_return)
      done
    done
qed

text \<open>
  The check of the system is made once: with the variable set, the library is loaded by a single
  call, with the flags if the system supports them and the old search path if not.
\<close>

lemma dylib_checks_once:
  assumes "supports \<noteq> 0"
  shows "wp (ffdl_open_win K U filename flags supports)
    (\<lambda>r s. snd r = supports \<and> (\<forall>c\<in>set (calls_of s). \<forall>n f. c = Lib (LoadLibraryExW n f) \<longrightarrow>
      f = (if flags \<noteq> 0 \<and> supports < 0 then LOAD_WITH_ALTERED_SEARCH_PATH else flags)) \<and>
      length (filter (\<lambda>c. \<exists>l. c = Lib l) (calls_of s)) \<le> 1) (start w e)"
  using assms unfolding ffdl_open_win_def dl_flags_def utow256_def ffsz_alloc_buf_utow_def w_free_def calls_of_def
  by (intro wp_intros) (auto split!: wbuf.split intro!: wp_intros)

end
