(* ===== verification/Perf.thy ===== *)
theory Perf
  imports Time Wstring "HOL-Library.Signed_Division"
begin

text \<open>
  Performance counters (\<open>FFOS/perf.h\<close>).  Adding and subtracting times is ffbase's: \<open>tadd\<close> and
  \<open>tsub\<close>.  On Windows the pointers to functions and the frequency of the clock are cached in global
  variables; the definitions take their values and give the new ones.
\<close>

record ffps_perf =
  pf_realtime :: fftime
  pf_cputime :: fftime
  pf_usertime :: fftime
  pf_systime :: fftime
  pf_pagefaults :: u32
  pf_maxrss :: u32
  pf_inblock :: u32
  pf_outblock :: u32
  pf_vctxsw :: u32
  pf_ivctxsw :: u32

definition FFPS_PERF_REALTIME :: u32 where [flag_simps]: "FFPS_PERF_REALTIME = 1"
definition FFPS_PERF_CPUTIME :: u32 where [flag_simps]: "FFPS_PERF_CPUTIME = 2"
definition FFPS_PERF_SEPTIME :: u32 where [flag_simps]: "FFPS_PERF_SEPTIME = 4"
definition FFPS_PERF_RUSAGE :: u32 where [flag_simps]: "FFPS_PERF_RUSAGE = 12"

abbreviation (input) CLOCK_MONOTONIC :: int where "CLOCK_MONOTONIC \<equiv> 1"
abbreviation (input) CLOCK_PROCESS_CPUTIME_ID :: int where "CLOCK_PROCESS_CPUTIME_ID \<equiv> 2"
abbreviation (input) CLOCK_THREAD_CPUTIME_ID :: int where "CLOCK_THREAD_CPUTIME_ID \<equiv> 3"
abbreviation (input) RUSAGE_SELF :: int where "RUSAGE_SELF \<equiv> 0"
abbreviation (input) RUSAGE_THREAD :: int where "RUSAGE_THREAD \<equiv> 1"

subsection \<open>UNIX\<close>

definition out_ts :: "reply \<Rightarrow> timespec" where
  "out_ts x = (case rout x of OTime t \<Rightarrow> t | _ \<Rightarrow> \<lparr>ts_sec = 0, ts_nsec = 0\<rparr>)"

definition fftime_monotonic :: "'w kernel \<Rightarrow> ('w, fftime) prog" where
  "fftime_monotonic K = do {
     x \<leftarrow> sys K (Perf (Clock_gettime_id CLOCK_MONOTONIC));
     State_Monad.return (if rv x = 0 then fftime_from_timespec (out_ts x) else \<lparr>sec = 0, nsec = 0\<rparr>)
   }"

text \<open>
  The members of \<open>struct rusage\<close> in the order in which the function reads them: \<open>ru_utime\<close>,
  \<open>ru_stime\<close> (two numbers each), \<open>ru_minflt\<close>, \<open>ru_majflt\<close>, \<open>ru_maxrss\<close>, \<open>ru_inblock\<close>,
  \<open>ru_oublock\<close>, \<open>ru_nvcsw\<close>, \<open>ru_nivcsw\<close>.
\<close>

definition out_nth :: "reply \<Rightarrow> nat \<Rightarrow> u64" where
  "out_nth x i = (case rout x of OWords l \<Rightarrow> (if i < length l then l ! i else 0) | _ \<Rightarrow> 0)"

definition perf_rusage :: "reply \<Rightarrow> ffps_perf \<Rightarrow> ffps_perf" where
  "perf_rusage x p = p\<lparr>
     pf_usertime := fftime_from_timeval \<lparr>tv_sec = out_nth x 0, tv_usec = out_nth x 1\<rparr>,
     pf_systime := fftime_from_timeval \<lparr>tv_sec = out_nth x 2, tv_usec = out_nth x 3\<rparr>,
     pf_pagefaults := ucast (out_nth x 4 + out_nth x 5),
     pf_maxrss := ucast (out_nth x 6),
     pf_inblock := ucast (out_nth x 7),
     pf_outblock := ucast (out_nth x 8),
     pf_vctxsw := ucast (out_nth x 9),
     pf_ivctxsw := ucast (out_nth x 10)\<rparr>"

definition ffps_perf_who :: "'w kernel \<Rightarrow> int \<Rightarrow> ffps_perf \<Rightarrow> u32 \<Rightarrow> ('w, int \<times> ffps_perf) prog" where
  "ffps_perf_who K who p flags = do {
     a \<leftarrow> (if tst flags FFPS_PERF_REALTIME then do {
             x \<leftarrow> sys K (Perf (Clock_gettime_id CLOCK_MONOTONIC));
             State_Monad.return (rv x, if rv x = 0 then p\<lparr>pf_realtime := fftime_from_timespec (out_ts x)\<rparr> else p)
           } else State_Monad.return (0, p));
     b \<leftarrow> (if tst flags FFPS_PERF_RUSAGE then do {
             x \<leftarrow> sys K (Perf (Getrusage who));
             State_Monad.return (fst a OR rv x, if rv x = 0 then perf_rusage x (snd a) else snd a)
           } else State_Monad.return a);
     if tst flags FFPS_PERF_CPUTIME then do {
       x \<leftarrow> sys K (Perf (Clock_gettime_id
              (if who = RUSAGE_SELF then CLOCK_PROCESS_CPUTIME_ID else CLOCK_THREAD_CPUTIME_ID)));
       State_Monad.return (fst b OR rv x,
         if rv x = 0 then (snd b)\<lparr>pf_cputime := fftime_from_timespec (out_ts x)\<rparr> else snd b)
     } else State_Monad.return b
   }"

definition ffps_perf_get :: "'w kernel \<Rightarrow> ffps_perf \<Rightarrow> u32 \<Rightarrow> ('w, int \<times> ffps_perf) prog" where
  "ffps_perf_get K p flags = ffps_perf_who K RUSAGE_SELF p flags"

definition ffthread_perf :: "'w kernel \<Rightarrow> os \<Rightarrow> ffps_perf \<Rightarrow> u32 \<Rightarrow> ('w, int \<times> ffps_perf) prog" where
  "ffthread_perf K os p flags =
     (if os = Apple then do {
        r \<leftarrow> ffps_perf_who K (RUSAGE_SELF + 1) p (flags AND NOT FFPS_PERF_RUSAGE);
        if fst r = 0 \<and> tst flags FFPS_PERF_RUSAGE
        then do { fferr_set ENOSYS; State_Monad.return (-1, snd r) }
        else State_Monad.return r
      }
      else ffps_perf_who K RUSAGE_THREAD p flags)"

subsection \<open>Differences and sums\<close>

definition ffps_perf_diff :: "(fftime \<Rightarrow> fftime \<Rightarrow> fftime) \<Rightarrow> ffps_perf \<Rightarrow> ffps_perf \<Rightarrow> ffps_perf" where
  "ffps_perf_diff tsub beg stop = \<lparr>
     pf_realtime = tsub (pf_realtime stop) (pf_realtime beg),
     pf_cputime = tsub (pf_cputime stop) (pf_cputime beg),
     pf_usertime = tsub (pf_usertime stop) (pf_usertime beg),
     pf_systime = tsub (pf_systime stop) (pf_systime beg),
     pf_pagefaults = pf_pagefaults stop - pf_pagefaults beg,
     pf_maxrss = pf_maxrss stop - pf_maxrss beg,
     pf_inblock = pf_inblock stop - pf_inblock beg,
     pf_outblock = pf_outblock stop - pf_outblock beg,
     pf_vctxsw = pf_vctxsw stop - pf_vctxsw beg,
     pf_ivctxsw = pf_ivctxsw stop - pf_ivctxsw beg\<rparr>"

definition ffps_perf_add :: "(fftime \<Rightarrow> fftime \<Rightarrow> fftime) \<Rightarrow> ffps_perf \<Rightarrow> ffps_perf \<Rightarrow> ffps_perf" where
  "ffps_perf_add tadd dst src = \<lparr>
     pf_realtime = tadd (pf_realtime dst) (pf_realtime src),
     pf_cputime = tadd (pf_cputime dst) (pf_cputime src),
     pf_usertime = tadd (pf_usertime dst) (pf_usertime src),
     pf_systime = tadd (pf_systime dst) (pf_systime src),
     pf_pagefaults = pf_pagefaults dst + pf_pagefaults src,
     pf_maxrss = pf_maxrss dst + pf_maxrss src,
     pf_inblock = pf_inblock dst + pf_inblock src,
     pf_outblock = pf_outblock dst + pf_outblock src,
     pf_vctxsw = pf_vctxsw dst + pf_vctxsw src,
     pf_ivctxsw = pf_ivctxsw dst + pf_ivctxsw src\<rparr>"

subsection \<open>Windows\<close>

text \<open>
  The cached values: the frequency (\<open>0\<close>: not known yet) and the two pointers (\<open>0\<close>: not loaded).
\<close>

record perf_cache =
  pc_freq :: u64
  pc_ntquery :: int
  pc_meminfo :: int

definition fftime_from_filetime :: "filetime \<Rightarrow> fftime" where
  "fftime_from_filetime ft =
     (let n = (push_bit 32 (ucast (ft_hi ft)) OR ucast (ft_lo ft) :: u64)
      in \<lparr>sec = n div 10000000, nsec = ucast ((n mod 10000000) * 100)\<rparr>)"

text \<open>The division by the frequency; \<open>None\<close> when it is zero.  The numbers are signed.\<close>

definition ticks_to_time :: "u64 \<Rightarrow> u64 \<Rightarrow> fftime option" where
  "ticks_to_time v freq =
     (if freq = 0 then None
      else let f = sint freq; r = sint v smod f
        in Some \<lparr>sec = of_int (sint v sdiv f), nsec = of_int (sint (of_int (r * 1000000000) :: u64) sdiv f)\<rparr>)"

definition fftime_monotonic_win :: "'w kernel \<Rightarrow> u64 \<Rightarrow> ('w, fftime option \<times> u64) prog" where
  "fftime_monotonic_win K freq = do {
     f \<leftarrow> (if freq = 0 then do { x \<leftarrow> sys K (Perf QueryPerformanceFrequency); State_Monad.return (out_word x) }
          else State_Monad.return freq);
     x \<leftarrow> sys K (Perf QueryPerformanceCounter);
     State_Monad.return (ticks_to_time (out_word x) f, f)
   }"

text \<open>
  \<open>_ffps_info_get\<close>: the list of the processes with their threads, each thread with its count of
  context switches; an empty list is a reply shorter than one object.  \<open>cap0\<close> is the size of the
  first buffer, room for fifty processes with ten threads; \<open>align\<close> is ffbase's rounding up.  The
  third component of the result is the pointer to \<open>NtQuerySystemInformation\<close>.
\<close>

abbreviation (input) STATUS_INFO_LENGTH_MISMATCH :: int where "STATUS_INFO_LENGTH_MISMATCH \<equiv> -1073741820"

type_synonym procs = "(int \<times> (int \<times> u32) list) list"

definition out_procs :: "reply \<Rightarrow> procs" where
  "out_procs x = (case rout x of OProcs l \<Rightarrow> l | _ \<Rightarrow> [])"

definition load_proc :: "'w kernel \<Rightarrow> wstr \<Rightarrow> string \<Rightarrow> int \<Rightarrow> ('w, int) prog" where
  "load_proc K dll name ptr =
     (if ptr \<noteq> 0 then State_Monad.return ptr
      else do {
        dl \<leftarrow> sysi K (Lib (LoadLibraryExW dll 0));
        if dl = 0 then State_Monad.return 0 else sysi K (Lib (GetProcAddress dl name))
      })"

definition ntdll :: wstr where "ntdll = [110, 116, 100, 108, 108, 46, 100, 108, 108]"
definition psapi :: wstr where "psapi = [112, 115, 97, 112, 105, 46, 100, 108, 108]"

text \<open>One round of the loop: \<open>Inl\<close> is the block and the reply after \<open>break\<close>, \<open>Inr\<close> the next capacity.\<close>

definition info_round :: "'w kernel \<Rightarrow> (nat \<Rightarrow> nat) \<Rightarrow> nat \<Rightarrow> ('w, (int \<times> int \<times> procs) + nat) prog" where
  "info_round K align cap = do {
     d \<leftarrow> sysi K (Mem (MAlloc cap));
     if d = 0 then State_Monad.return (Inl (0, -1, []))
     else do {
       x \<leftarrow> sys K (Perf (NtQuerySystemInformation cap));
       if rv x \<noteq> STATUS_INFO_LENGTH_MISMATCH then State_Monad.return (Inl (d, rv x, out_procs x))
       else do { sysi K (Mem (MFree d)); State_Monad.return (Inr (align (nat (out_int x 0)))) }
     }
   }"

definition ffps_info_get :: "'w kernel \<Rightarrow> (nat \<Rightarrow> nat) \<Rightarrow> nat \<Rightarrow> int \<Rightarrow> ('w, int \<times> procs \<times> int) prog" where
  "ffps_info_get K align cap0 nt = do {
     nt \<leftarrow> load_proc K ntdll ''NtQuerySystemInformation'' nt;
     if nt = 0 then State_Monad.return (0, [], 0)
     else do {
       x \<leftarrow> info_round K align cap0;
       y \<leftarrow> (case x of Inl r \<Rightarrow> State_Monad.return r
            | Inr cap \<Rightarrow> do {
                z \<leftarrow> info_round K align cap;
                State_Monad.return (case z of Inl r \<Rightarrow> r | Inr _ \<Rightarrow> (0, STATUS_INFO_LENGTH_MISMATCH, []))
              });
       if fst (snd y) \<noteq> 0 \<or> snd (snd y) = [] then do {
         sysi K (Mem (MFree (fst y))); State_Monad.return (0, [], nt)
       }
       else State_Monad.return (fst y, snd (snd y), nt)
     }
   }"

text \<open>The context switches of the threads of the first entry of the process, and of one thread.\<close>

definition ps_switches :: "int \<Rightarrow> procs \<Rightarrow> u32 \<Rightarrow> u32" where
  "ps_switches pid l v = (case find (\<lambda>e. fst e = pid) l of
      None \<Rightarrow> v
    | Some e \<Rightarrow> foldl (\<lambda>v t. v + snd t) v (snd e))"

definition thread_switches :: "int \<Rightarrow> int \<Rightarrow> procs \<Rightarrow> u32 \<Rightarrow> u32" where
  "thread_switches pid tid l v = (case find (\<lambda>e. fst e = pid) l of
      None \<Rightarrow> v
    | Some e \<Rightarrow> (case find (\<lambda>t. fst t = tid) (snd e) of None \<Rightarrow> v | Some t \<Rightarrow> v + snd t))"

text \<open>\<open>rc |= !r\<close>\<close>

definition rc_or :: "int \<Rightarrow> int \<Rightarrow> int" where
  "rc_or rc r = rc OR c_bool (r = 0)"

definition perf_times :: "(fftime \<Rightarrow> fftime \<Rightarrow> fftime) \<Rightarrow> reply \<Rightarrow> u32 \<Rightarrow> ffps_perf \<Rightarrow> ffps_perf" where
  "perf_times tadd x flags p =
     (let w = (\<lambda>i. \<lparr>ft_lo = ucast (out_nth x i), ft_hi = ucast (drop_bit 32 (out_nth x i))\<rparr>);
          p = p\<lparr>pf_systime := fftime_from_filetime (w 0), pf_usertime := fftime_from_filetime (w 1)\<rparr>
      in if tst flags FFPS_PERF_CPUTIME then p\<lparr>pf_cputime := tadd (pf_systime p) (pf_usertime p)\<rparr> else p)"

definition perf_realtime_win :: "'w kernel \<Rightarrow> u32 \<Rightarrow> perf_cache \<Rightarrow> ffps_perf \<Rightarrow> ('w, (ffps_perf \<times> perf_cache) option) prog" where
  "perf_realtime_win K flags c p =
     (if tst flags FFPS_PERF_REALTIME then do {
        t \<leftarrow> fftime_monotonic_win K (pc_freq c);
        State_Monad.return (map_option (\<lambda>t'. (p\<lparr>pf_realtime := t'\<rparr>, c\<lparr>pc_freq := snd t\<rparr>)) (fst t))
      } else State_Monad.return (Some (p, c)))"

text \<open>
  \<open>ffps_perf\<close>: \<open>r\<close> keeps its value from one part to the next, as in the code.
  \<open>None\<close>: division by a frequency of zero.
\<close>

definition ffps_perf_win :: "'w kernel \<Rightarrow> (fftime \<Rightarrow> fftime \<Rightarrow> fftime) \<Rightarrow> (nat \<Rightarrow> nat) \<Rightarrow> nat \<Rightarrow> perf_cache
    \<Rightarrow> ffps_perf \<Rightarrow> u32 \<Rightarrow> ('w, (int \<times> ffps_perf \<times> perf_cache) option) prog" where
  "ffps_perf_win K tadd align cap0 c p flags = do {
     ps \<leftarrow> sysi K (WinFile GetCurrentProcess);
     a \<leftarrow> perf_realtime_win K flags c p;
     case a of None \<Rightarrow> State_Monad.return None | Some pc \<Rightarrow> do {
       t \<leftarrow> (if tst flags (FFPS_PERF_SEPTIME OR FFPS_PERF_CPUTIME) then do {
               x \<leftarrow> sys K (Perf (GetProcessTimes ps));
               State_Monad.return (rc_or 0 (rv x), if rv x \<noteq> 0 then perf_times tadd x flags (fst pc) else fst pc)
             } else State_Monad.return (0, fst pc));
       if \<not> tst flags FFPS_PERF_RUSAGE
       then State_Monad.return (Some (fst t, (snd t)\<lparr>pf_ivctxsw := 0\<rparr>, snd pc))
       else do {
         io \<leftarrow> sys K (Perf (GetProcessIoCounters ps));
         let p = (if rv io \<noteq> 0 then (snd t)\<lparr>pf_inblock := ucast (out_nth io 0), pf_outblock := ucast (out_nth io 1)\<rparr> else snd t);
         let rc = rc_or (fst t) (rv io);
         mi \<leftarrow> load_proc K psapi ''GetProcessMemoryInfo'' (pc_meminfo (snd pc));
         m \<leftarrow> (if mi \<noteq> 0 then do {
                 x \<leftarrow> sys K (Perf (GetProcessMemoryInfo ps));
                 State_Monad.return (rv x, if rv x \<noteq> 0
                   then p\<lparr>pf_pagefaults := ucast (out_nth x 0), pf_maxrss := ucast (out_nth x 1 div 1024)\<rparr> else p)
               } else State_Monad.return (rv io, p));
         let rc = rc_or rc (fst m);
         i \<leftarrow> ffps_info_get K align cap0 (pc_ntquery (snd pc));
         let c = (snd pc)\<lparr>pc_meminfo := mi, pc_ntquery := snd (snd i)\<rparr>;
         if fst i = 0 then State_Monad.return (Some (rc OR 1, (snd m)\<lparr>pf_ivctxsw := 0\<rparr>, c))
         else do {
           pid \<leftarrow> sysi K (Proc GetCurrentProcessId);
           sysi K (Mem (MFree (fst i)));
           State_Monad.return (Some (rc, (snd m)\<lparr>pf_vctxsw := ps_switches pid (fst (snd i)) (pf_vctxsw (snd m)),
             pf_ivctxsw := 0\<rparr>, c))
         }
       }
     }
   }"

definition ffthread_perf_win :: "'w kernel \<Rightarrow> (fftime \<Rightarrow> fftime \<Rightarrow> fftime) \<Rightarrow> (nat \<Rightarrow> nat) \<Rightarrow> nat \<Rightarrow> perf_cache
    \<Rightarrow> ffps_perf \<Rightarrow> u32 \<Rightarrow> ('w, (int \<times> ffps_perf \<times> perf_cache) option) prog" where
  "ffthread_perf_win K tadd align cap0 c p flags =
     (let fin = (\<lambda>p. p\<lparr>pf_maxrss := 0, pf_inblock := 0, pf_outblock := 0, pf_ivctxsw := 0\<rparr>) in do {
        th \<leftarrow> sysi K (Perf GetCurrentThread);
        a \<leftarrow> perf_realtime_win K flags c p;
        case a of None \<Rightarrow> State_Monad.return None | Some pc \<Rightarrow> do {
          t \<leftarrow> (if tst flags (FFPS_PERF_SEPTIME OR FFPS_PERF_CPUTIME) then do {
                  x \<leftarrow> sys K (Perf (GetThreadTimes th));
                  State_Monad.return (rc_or 0 (rv x), if rv x \<noteq> 0 then perf_times tadd x flags (fst pc) else fst pc)
                } else State_Monad.return (0, fst pc));
          if \<not> tst flags FFPS_PERF_RUSAGE then State_Monad.return (Some (fst t, fin (snd t), snd pc))
          else do {
            i \<leftarrow> ffps_info_get K align cap0 (pc_ntquery (snd pc));
            let c = (snd pc)\<lparr>pc_ntquery := snd (snd i)\<rparr>;
            if fst i = 0 then State_Monad.return (Some (fst t OR 1, fin (snd t), c))
            else do {
              pid \<leftarrow> sysi K (Proc GetCurrentProcessId);
              tid \<leftarrow> sysi K (Thr GetCurrentThreadId);
              sysi K (Mem (MFree (fst i)));
              State_Monad.return (Some (fst t, fin ((snd t)\<lparr>pf_vctxsw :=
                thread_switches pid tid (fst (snd i)) (pf_vctxsw (snd t))\<rparr>), c))
            }
          }
        }
      })"

subsection \<open>Properties\<close>

text \<open>
  What ffbase documents of adding and subtracting times: the values of normalised times add up
  and the results are normalised, unless the seconds leave their range.
\<close>

definition tval :: "fftime \<Rightarrow> nat" where
  "tval t = unat (sec t) * 10 ^ 9 + unat (nsec t)"

definition tnorm :: "fftime \<Rightarrow> bool" where
  "tnorm t \<longleftrightarrow> unat (nsec t) < 10 ^ 9"

definition time_ops_ok :: "(fftime \<Rightarrow> fftime \<Rightarrow> fftime) \<Rightarrow> (fftime \<Rightarrow> fftime \<Rightarrow> fftime) \<Rightarrow> bool" where
  "time_ops_ok tadd tsub \<longleftrightarrow>
     (\<forall>a b. tnorm a \<and> tnorm b \<and> tval a + tval b < 2 ^ 63 * 10 ^ 9 \<longrightarrow> tnorm (tadd a b) \<and> tval (tadd a b) = tval a + tval b) \<and>
     (\<forall>a b. tnorm a \<and> tnorm b \<and> tval b \<le> tval a \<longrightarrow> tnorm (tsub a b) \<and> tval (tsub a b) = tval a - tval b)"

lemma tval_inj:
  assumes "tnorm a" "tnorm b" "tval a = tval b"
  shows "a = b"
proof -
  have "unat (sec a) = tval a div 10 ^ 9" "unat (nsec a) = tval a mod 10 ^ 9"
    "unat (sec b) = tval b div 10 ^ 9" "unat (nsec b) = tval b mod 10 ^ 9"
    using assms(1,2) by (simp_all add: tval_def tnorm_def)
  then have "unat (sec a) = unat (sec b)" "unat (nsec a) = unat (nsec b)" using assms(3) by simp_all
  then have "sec a = sec b" "nsec a = nsec b" by (simp_all add: word_unat_eq_iff)
  then show ?thesis by simp
qed

definition perf_times_of :: "ffps_perf \<Rightarrow> fftime list" where
  "perf_times_of p = [pf_realtime p, pf_cputime p, pf_usertime p, pf_systime p]"

text \<open>
  The difference of two counters undoes their sum, also when the 32-bit counters wrap around.
\<close>

theorem perf_diff_undoes_add:
  assumes "time_ops_ok tadd tsub" "\<forall>t\<in>set (perf_times_of p) \<union> set (perf_times_of q). tnorm t \<and> tval t < 2 ^ 62 * 10 ^ 9"
  shows "ffps_perf_diff tsub p (ffps_perf_add tadd p q) = q"
proof -
  have t: "tsub (tadd a b) a = b"
    if "tnorm a" "tnorm b" "tval a < 2 ^ 62 * 10 ^ 9" "tval b < 2 ^ 62 * 10 ^ 9" for a b
  proof -
    have "tval a + tval b < 2 ^ 63 * 10 ^ 9" using that(3,4) by simp
    then have "tnorm (tadd a b) \<and> tval (tadd a b) = tval a + tval b"
      using assms(1) that unfolding time_ops_ok_def by blast
    moreover from this have "tnorm (tsub (tadd a b) a) \<and> tval (tsub (tadd a b) a) = tval (tadd a b) - tval a"
      using assms(1) that unfolding time_ops_ok_def by (metis le_add1)
    ultimately show ?thesis using that by (intro tval_inj) simp_all
  qed
  show ?thesis
    using assms(2) by (simp add: ffps_perf_diff_def ffps_perf_add_def perf_times_of_def t)
qed

text \<open>Operations with these laws: through the number of nanoseconds.\<close>

definition time_of :: "nat \<Rightarrow> fftime" where
  "time_of n = \<lparr>sec = of_nat (n div 10 ^ 9), nsec = of_nat (n mod 10 ^ 9)\<rparr>"

lemma time_of_exact:
  assumes "n < 2 ^ 64 * 10 ^ 9"
  shows "tnorm (time_of n)" "tval (time_of n) = n"
proof -
  have "n div 10 ^ 9 < 2 ^ 64" using assms by (simp add: less_mult_imp_div_less)
  then have s: "unat (of_nat (n div 10 ^ 9) :: u64) = n div 10 ^ 9" by (simp add: unat_of_nat)
  have n: "unat (of_nat (n mod 10 ^ 9) :: u32) = n mod 10 ^ 9"
    using less_trans [OF mod_less_divisor [of "10 ^ 9" n], of "2 ^ 32"] by (simp add: unat_of_nat)
  show "tnorm (time_of n)" unfolding tnorm_def time_of_def by (simp only: fftime.simps n) simp
  show "tval (time_of n) = n" unfolding tval_def time_of_def by (simp only: fftime.simps s n div_mult_mod_eq)
qed

lemma tval_less: "tnorm a \<Longrightarrow> tval a < 2 ^ 64 * 10 ^ 9"
  using unsigned_less [of "sec a", where 'a = nat] by (simp add: tval_def tnorm_def)

lemma time_ops_exist: "time_ops_ok (\<lambda>a b. time_of (tval a + tval b)) (\<lambda>a b. time_of (tval a - tval b))"
proof -
  have "tval a + tval b < 2 ^ 64 * 10 ^ 9" if "tval a + tval b < 2 ^ 63 * 10 ^ 9" for a b using that by simp
  moreover have "tval a - tval b < 2 ^ 64 * 10 ^ 9" if "tnorm a" for a b using tval_less [OF that] by simp
  ultimately show ?thesis unfolding time_ops_ok_def by (simp add: time_of_exact)
qed

definition perf_of :: "fftime \<Rightarrow> u32 \<Rightarrow> ffps_perf" where
  "perf_of t n = \<lparr>pf_realtime = t, pf_cputime = t, pf_usertime = t, pf_systime = t, pf_pagefaults = n,
     pf_maxrss = n, pf_inblock = n, pf_outblock = n, pf_vctxsw = n, pf_ivctxsw = n\<rparr>"

theorem perf_diff_undoes_add_witness:
  "(let tadd = (\<lambda>a b. time_of (tval a + tval b)); tsub = (\<lambda>a b. time_of (tval a - tval b));
        p = perf_of \<lparr>sec = 7, nsec = 900000000\<rparr> 4294967295; q = perf_of \<lparr>sec = 1, nsec = 200000000\<rparr> 3
    in ffps_perf_diff tsub p (ffps_perf_add tadd p q) = q)"
  unfolding Let_def
  by (rule perf_diff_undoes_add [OF time_ops_exist]) (simp add: perf_times_of_def perf_of_def tnorm_def tval_def)

text \<open>
  The \<open>FILETIME\<close> of a duration is converted exactly.  So is a reading of the performance
  counter of any frequency below \<open>9.2\<close> GHz, rounded down to nanoseconds, and the nanoseconds are
  less than a second.
\<close>

lemma perf_filetime_exact:
  "tnorm (fftime_from_filetime ft) \<and> tval (fftime_from_filetime ft) = (unat (ft_hi ft) * 2 ^ 32 + unat (ft_lo ft)) * 100"
proof -
  let ?n = "push_bit 32 (ucast (ft_hi ft)) OR ucast (ft_lo ft) :: u64"
  have n: "unat ?n = unat (ft_hi ft) * 2 ^ 32 + unat (ft_lo ft)" by (rule unat_join)
  have m: "unat ((?n mod 10000000) * 100) = unat ?n mod 10000000 * 100"
    by (simp add: unat_word_ariths unat_mod)
  have e: "x div 10000000 * 1000000000 + x mod 10000000 * 100 = x * 100" for x :: nat
    using div_mult_mod_eq [of x 10000000] by linarith
  from m have "unat (ucast ((?n mod 10000000) * 100) :: u32) = unat ?n mod 10000000 * 100"
    by (simp add: unat_down)
  then show ?thesis
    unfolding n [symmetric]
    by (simp add: fftime_from_filetime_def Let_def tnorm_def tval_def unat_div e)
qed

lemma c_div_mod_pos:
  assumes "0 \<le> a" "0 < (b :: int)"
  shows "a sdiv b = a div b" "a smod b = a mod b"
proof -
  show "a sdiv b = a div b" using assms by (cases "a = 0") (simp_all add: signed_divide_int_def)
  show "a smod b = a mod b" using assms by (cases "a = 0") (simp_all add: signed_modulo_int_def)
qed

lemma unat_of_int: "0 \<le> k \<Longrightarrow> k < 2 ^ LENGTH('a) \<Longrightarrow> int (unat (of_int k :: 'a :: len word)) = k"
  by (simp add: uint_nat [symmetric] uint_word_of_int)

lemma ticks_exact:
  assumes "0 \<le> sint v" "0 < sint f" "sint f \<le> 9223372036"
  shows "\<exists>t. ticks_to_time v f = Some t \<and> tnorm t \<and>
    int (unat (sec t)) = sint v div sint f \<and> int (unat (nsec t)) = sint v mod sint f * 10 ^ 9 div sint f"
proof -
  let ?v = "sint v" and ?f = "sint f"
  have r: "0 \<le> ?v mod ?f" "?v mod ?f < ?f" using assms(2) by simp_all
  then have b: "?v mod ?f * 1000000000 < 2 ^ 63" using assms(3) by simp
  have s: "sint (of_int (?v mod ?f * 1000000000) :: u64) = ?v mod ?f * 1000000000"
    unfolding sint_sbintrunc' using r b by (intro signed_take_bit_int_eq_self) simp_all
  have n: "0 \<le> ?v mod ?f * 1000000000 div ?f" "?v mod ?f * 1000000000 div ?f < 1000000000"
  proof -
    let ?a = "?v mod ?f * 1000000000"
    show "0 \<le> ?a div ?f" using r assms(2) by (simp add: pos_imp_zdiv_nonneg_iff)
    have "?a div ?f * ?f \<le> ?a" using div_mult_mod_eq [of ?a ?f] pos_mod_sign [OF assms(2), of ?a] by linarith
    also have "\<dots> < 1000000000 * ?f" using r by simp
    finally show "?a div ?f < 1000000000" using assms(2) by (simp add: mult_less_cancel_right)
  qed
  have q: "0 \<le> ?v div ?f" "?v div ?f < 2 ^ 64"
  proof -
    show "0 \<le> ?v div ?f" using assms by (simp add: pos_imp_zdiv_nonneg_iff)
    have "?v div ?f \<le> ?v" using zdiv_mono2 [of ?v 1 ?f] assms by simp
    then show "?v div ?f < 2 ^ 64" using sint_lt [of v] by simp
  qed
  have u: "int (unat (of_int (?v div ?f) :: u64)) = ?v div ?f"
    "int (unat (of_int (?v mod ?f * 1000000000 div ?f) :: u32)) = ?v mod ?f * 1000000000 div ?f"
    using q n by (intro unat_of_int; simp del: of_int_mult)+
  have f: "f \<noteq> 0" using assms(2) by auto
  have "ticks_to_time v f = Some \<lparr>sec = of_int (?v div ?f), nsec = of_int (?v mod ?f * 1000000000 div ?f)\<rparr>"
    unfolding ticks_to_time_def Let_def c_div_mod_pos [OF assms(1,2)] s
    using f c_div_mod_pos(1) [of "?v mod ?f * 1000000000" ?f] r assms(2) by (simp del: of_int_mult)
  moreover have "unat (of_int (?v mod ?f * 1000000000 div ?f) :: u32) < 10 ^ 9"
    unfolding of_nat_less_iff [where 'a = int, symmetric] u(2) using n(2) by simp
  ultimately show ?thesis using u by (simp add: tnorm_def del: of_int_mult)
qed

text \<open>
  On UNIX the calls made are those the flags ask for, in order, and the result is \<open>0\<close> exactly if
  all of them succeeded.
\<close>

definition perf_calls :: "int \<Rightarrow> u32 \<Rightarrow> call list" where
  "perf_calls who flags =
     (if tst flags FFPS_PERF_REALTIME then [Perf (Clock_gettime_id CLOCK_MONOTONIC)] else []) @
     (if tst flags FFPS_PERF_RUSAGE then [Perf (Getrusage who)] else []) @
     (if tst flags FFPS_PERF_CPUTIME then [Perf (Clock_gettime_id (if who = RUSAGE_SELF then CLOCK_PROCESS_CPUTIME_ID
        else CLOCK_THREAD_CPUTIME_ID))] else [])"

lemma perf_unix_calls:
  "wp (ffps_perf_who K who p flags)
     (\<lambda>r s. calls_of s = perf_calls who flags \<and> (fst r = 0 \<longleftrightarrow> (\<forall>x\<in>set (trace s). rv (snd x) = 0))) (start w e)"
  unfolding ffps_perf_who_def perf_calls_def calls_of_def
  by (intro wp_intros) (auto simp: or_eq_0_iff)

text \<open>On Windows the list of the processes is freed on every way out.\<close>

lemma wp_load_proc:
  "wp (load_proc K dll name ptr) (\<lambda>r s'. heap_after (trace s') = heap_after (trace s)) s"
proof -
  have h: "heap_step a (Lib l, r) = a" for a l r by (cases a) (simp_all add: heap_step_def)
  show ?thesis unfolding load_proc_def by (intro wp_intros) (simp_all add: h)
qed

lemma wp_info_get:
  assumes "heap_after (trace s) = Some {#}"
  shows "wp (ffps_info_get K align cap0 nt) (\<lambda>x s'. heap_after (trace s') = Some (block (fst x))) s"
proof -
  have R: "wp (info_round K align cap)
      (\<lambda>x s'. heap_after (trace s') = Some (case x of Inl r \<Rightarrow> block (fst r) | Inr _ \<Rightarrow> {#})) s1"
    if "heap_after (trace s1) = Some {#}" for s1 cap
    unfolding info_round_def using that by (intro wp_intros) (auto simp: block_def)
  have E: "wp (if fst (snd y) \<noteq> 0 \<or> snd (snd y) = [] then do { sysi K (Mem (MFree (fst y))); State_Monad.return (0, [], n) }
       else State_Monad.return (fst y, snd (snd y), n)) (\<lambda>x s'. heap_after (trace s') = Some (block (fst x))) s1"
    if "heap_after (trace s1) = Some (block (fst y))" for y :: "int \<times> int \<times> procs" and n s1
    using that by (intro wp_intros) (auto simp: block_def split: if_splits)
  have L: "wp (case x of Inl r \<Rightarrow> State_Monad.return r
      | Inr cap \<Rightarrow> do {
          z \<leftarrow> info_round K align cap;
          State_Monad.return (case z of Inl r \<Rightarrow> r | Inr _ \<Rightarrow> (0, STATUS_INFO_LENGTH_MISMATCH, []))
        }) (\<lambda>y s'. heap_after (trace s') = Some (block (fst y))) s1"
    if "heap_after (trace s1) = Some (case x of Inl r \<Rightarrow> block (fst r) | Inr _ \<Rightarrow> {#})" for x s1
  proof (cases x)
    case (Inl r)
    then show ?thesis using that by (auto intro: wp_return)
  next
    case (Inr c)
    then have "heap_after (trace s1) = Some {#}" using that by simp
    from R [OF this, of c] show ?thesis
      unfolding Inr by (auto intro!: wp_bind wp_return elim!: wp_mono simp: block_def split: sum.splits)
  qed
  show ?thesis
    unfolding ffps_info_get_def
    apply (rule wp_bind, rule wp_mono [OF wp_load_proc], rule wp_if)
    subgoal using assms by (auto intro!: wp_return simp: block_def)
    subgoal for n s1
      apply (rule wp_bind, rule wp_mono [OF R])
      subgoal using assms by simp
      by (rule wp_bind, rule wp_mono [OF L], assumption, rule E)
    done
qed

lemma wp_realtime_win:
  "wp (perf_realtime_win K flags c p) (\<lambda>r s'. heap_after (trace s') = heap_after (trace s)) s"
proof -
  have h: "heap_step a (Perf l, r) = a" for a l r by (cases a) (simp_all add: heap_step_def)
  show ?thesis
    unfolding perf_realtime_win_def fftime_monotonic_win_def by (intro wp_intros) (simp_all add: h)
qed

text \<open>
  The functions of Windows give back all memory they allocate, on every way out.
\<close>

theorem perf_win_memory:
  "wp (ffps_perf_win K tadd align cap0 c p flags) (\<lambda>r s. heap_clean (trace s)) (start w e) \<and>
   wp (ffthread_perf_win K tadd align cap0 c p flags) (\<lambda>r s. heap_clean (trace s)) (start w e)"
  unfolding ffps_perf_win_def ffthread_perf_win_def Let_def heap_clean_def
  by (intro conjI wp_intros wp_mono [OF wp_realtime_win] wp_mono [OF wp_load_proc] wp_mono [OF wp_info_get])
    (auto simp: block_def split: if_splits)

text \<open>
  When \<open>GetProcessMemoryInfo\<close> cannot be found its part is skipped, but \<open>r\<close> still has the result
  of the call before it, so the failure is not reported.
\<close>

definition noMemInfoK :: "call \<Rightarrow> unit \<Rightarrow> reply \<times> unit" where
  "noMemInfoK c w = (case c of
      Lib f \<Rightarrow> (case f of
          LoadLibraryExW d _ \<Rightarrow> (\<lparr>rv = if d = psapi then 0 else 7, rerr = None, rout = NoOut\<rparr>, w)
        | _ \<Rightarrow> (\<lparr>rv = 8, rerr = None, rout = NoOut\<rparr>, w))
    | Perf f \<Rightarrow> (case f of
          NtQuerySystemInformation n \<Rightarrow> (\<lparr>rv = 0, rerr = None, rout = OProcs [(0, [])]\<rparr>, w)
        | _ \<Rightarrow> (\<lparr>rv = 1, rerr = None, rout = NoOut\<rparr>, w))
    | _ \<Rightarrow> (\<lparr>rv = 5, rerr = None, rout = NoOut\<rparr>, w))"

lemma perf_win_stale_result:
  "map_option fst (fst (run_state (ffps_perf_win noMemInfoK tadd align cap0
      \<lparr>pc_freq = 1, pc_ntquery = 0, pc_meminfo = 0\<rparr> p 8) (start () 0))) = Some 0"
  by (simp add: ffps_perf_win_def perf_realtime_win_def run_simps tst_def flag_simps noMemInfoK_def load_proc_def
      ffps_info_get_def info_round_def out_procs_def rc_or_def psapi_def ntdll_def Let_def)

end
