(* ===== verification/Netconf.thy ===== *)
theory Netconf
  imports Wstring Bytes
begin

text \<open>
  Network configuration (\<open>FFOS/netconf.h\<close>): the addresses of the DNS servers, from
  \<open>/etc/resolv.conf\<close> on UNIX and from \<open>GetNetworkParams\<close> on Windows.  The result is one block with
  an array of pointers followed by the null-terminated addresses: \<open>dns_ptrs\<close> are the pointers as
  offsets from the start of the block, \<open>dns_data\<close> is what follows the array.
\<close>

record ffnetconf =
  dns_addrs :: int
  dns_ptrs :: "nat list"
  dns_data :: string
  dns_addrs_num :: nat

text \<open>The loop that fills the block: \<open>data\<close> is the offset at which the next address goes.\<close>

fun dns_fill :: "nat \<Rightarrow> string list \<Rightarrow> nat list \<times> string" where
  "dns_fill data [] = ([], [])"
| "dns_fill data (el # els) =
     (let (ps, ds) = dns_fill (data + length el + 1) els in (data # ps, el @ [NUL] @ ds))"

definition dns_cap :: "string list \<Rightarrow> nat" where
  "dns_cap els = sum_list (map (\<lambda>s. length s + 1) els)"

definition dns_store :: "'w kernel \<Rightarrow> ffnetconf \<Rightarrow> string list \<Rightarrow> ('w, int \<times> ffnetconf) prog" where
  "dns_store K nc els = do {
     p \<leftarrow> sysi K (Mem (MAlloc (dns_cap els + length els * 8)));
     State_Monad.return (if p = 0 then (-1, nc\<lparr>dns_addrs := 0\<rparr>)
       else let (ps, ds) = dns_fill (length els * 8) els
         in (0, \<lparr>dns_addrs = p, dns_ptrs = ps, dns_data = ds, dns_addrs_num = length els\<rparr>))
   }"

subsection \<open>UNIX\<close>

text \<open>The words of one line: the first one, and the server if it is \<open>nameserver\<close>.\<close>

definition dns_line :: "ffbase \<Rightarrow> string \<Rightarrow> string option" where
  "dns_line B line =
     (let line = ffstr_skipany B line [CHR '' '', CHR 0x09, CHR 0x0D];
          (_, word, line) = ffstr_splitbyany B line [CHR '' '', CHR 0x09]
      in if word = ''nameserver''
         then Some (fst (snd (ffstr_splitbyany B line [CHR '' '', CHR 0x09]))) else None)"

text \<open>
  The loop over the lines.  The vector of servers grows by one call that gives a block, new or the
  same; the result is the servers and the block of the vector, and whether the loop was completed.
\<close>

partial_function (option) dns_loop :: "'w kernel \<Rightarrow> ffbase \<Rightarrow> string \<Rightarrow> string list \<Rightarrow> int \<Rightarrow> 'w sys
    \<Rightarrow> ((bool \<times> string list \<times> int) \<times> 'w sys) option" where
  "dns_loop K B inp servers vec s =
     (if length inp = 0 then Some ((True, servers, vec), s)
      else let (_, line, rest) = ffstr_splitby B inp (CHR 0x0A) in
        case dns_line B line of
          None \<Rightarrow> dns_loop K B rest servers vec s
        | Some word \<Rightarrow>
            (let x = run_state (sysi K (Mem (MRealloc vec ((length servers + 1) * 16)))) s
             in if fst x = 0 then Some ((False, servers, vec), snd x)
                else dns_loop K B rest (servers @ [word]) (fst x) (snd x)))"

text \<open>From \<open>end\<close> on; \<open>close(fd)\<close> is called also when \<open>fd\<close> is \<open>-1\<close>.\<close>

definition dns_end :: "'w kernel \<Rightarrow> int \<Rightarrow> int \<Rightarrow> int \<Rightarrow> ('w, unit) prog" where
  "dns_end K fd servers fdata = do {
     sysi K (FileC (Close fd));
     sysi K (Mem (MFree servers));
     sysi K (Mem (MFree fdata));
     State_Monad.return ()
   }"

definition resolv_conf :: string where
  "resolv_conf = ''/etc/resolv.conf''"

text \<open>Opening and reading the file: the block, the descriptor, and the text if there is some.\<close>

definition dns_read :: "'w kernel \<Rightarrow> ('w, int \<times> int \<times> string option) prog" where
  "dns_read K = do {
     p \<leftarrow> sysi K (Mem (MAlloc 4096));
     if p = 0 then State_Monad.return (0, -1, None)
     else do {
       fd \<leftarrow> sysi K (FileC (Open resolv_conf 0 0));
       if fd = -1 then State_Monad.return (p, -1, None)
       else do {
         n \<leftarrow> sys K (FileC (Read fd 4096));
         State_Monad.return (p, fd, if rv n \<le> 0 then None else Some (chars_of (take (nat (rv n)) (out_bytes n))))
       }
     }
   }"

definition ffnetconf_dns :: "'w kernel \<Rightarrow> ffbase \<Rightarrow> ffnetconf \<Rightarrow> 'w sys \<Rightarrow> ((int \<times> ffnetconf) \<times> 'w sys) option" where
  "ffnetconf_dns K B nc s =
     (let ((fdata, fd, text), s1) = run_state (dns_read K) s in
      case text of
        None \<Rightarrow> Some ((-1, nc), snd (run_state (dns_end K fd 0 fdata) s1))
      | Some t \<Rightarrow> (case dns_loop K B t [] 0 s1 of
            None \<Rightarrow> None
          | Some ((ok, servers, vec), s2) \<Rightarrow>
              (let (r, s3) = (if ok then run_state (dns_store K nc servers) s2 else ((-1, nc), s2))
               in Some (r, snd (run_state (dns_end K fd vec fdata) s3)))))"

definition ffnetconf_get :: "'w kernel \<Rightarrow> ffbase \<Rightarrow> ffnetconf \<Rightarrow> u32 \<Rightarrow> 'w sys \<Rightarrow> ((int \<times> ffnetconf) \<times> 'w sys) option" where
  "ffnetconf_get K B nc flags s = (if flags = 1 then ffnetconf_dns K B nc s else Some ((-1, nc), s))"

definition ffnetconf_destroy :: "'w kernel \<Rightarrow> ffnetconf \<Rightarrow> ('w, ffnetconf) prog" where
  "ffnetconf_destroy K nc = do { sysi K (Mem (MFree (dns_addrs nc))); State_Monad.return (nc\<lparr>dns_addrs := 0\<rparr>) }"

subsection \<open>Windows\<close>

abbreviation (input) ERROR_BUFFER_OVERFLOW :: int where "ERROR_BUFFER_OVERFLOW \<equiv> 111"

text \<open>
  \<open>GetNetworkParams\<close> is called at most twice: the second failure for lack of room ends the loop.
  The reply has the list of the addresses or, if the buffer is too small, the size needed.
\<close>

definition out_size :: "reply \<Rightarrow> nat" where
  "out_size x = nat (out_int x 0)"

definition ffnetconf_info_round :: "'w kernel \<Rightarrow> nat \<Rightarrow> ('w, (int \<times> string list) + nat) prog" where
  "ffnetconf_info_round K sz = do {
     info \<leftarrow> sysi K (Mem (MAlloc sz));
     if info = 0 then State_Monad.return (Inl (0, []))
     else do {
       x \<leftarrow> sys K (Perf (GetNetworkParams sz));
       if rv x = ERROR_BUFFER_OVERFLOW then do { sysi K (Mem (MFree info)); State_Monad.return (Inr (out_size x)) }
       else if rv x \<noteq> 0 then do { sysi K (Mem (MFree info)); State_Monad.return (Inl (0, [])) }
       else State_Monad.return (Inl (info, case rout x of OStrs l \<Rightarrow> l | _ \<Rightarrow> [[]]))
     }
   }"

definition ffnetconf_info :: "'w kernel \<Rightarrow> ('w, int \<times> string list) prog" where
  "ffnetconf_info K = do {
     x \<leftarrow> ffnetconf_info_round K 584;
     case x of
       Inl r \<Rightarrow> State_Monad.return r
     | Inr sz \<Rightarrow> do {
         y \<leftarrow> ffnetconf_info_round K sz;
         State_Monad.return (case y of Inl r \<Rightarrow> r | Inr _ \<Rightarrow> (0, []))
       }
   }"

definition ffnetconf_get_win :: "'w kernel \<Rightarrow> ffnetconf \<Rightarrow> u32 \<Rightarrow> ('w, int \<times> ffnetconf) prog" where
  "ffnetconf_get_win K nc flags =
     (if flags = 1 then do {
        info \<leftarrow> ffnetconf_info K;
        if fst info = 0 then State_Monad.return (-1, nc)
        else do {
          r \<leftarrow> dns_store K nc (snd info);
          sysi K (Mem (MFree (fst info)));
          State_Monad.return r
        }
      }
      else State_Monad.return (-1, nc))"

subsection \<open>The block\<close>

lemma dns_fill_length:
  "length (fst (dns_fill d els)) = length els" "length (snd (dns_fill d els)) = dns_cap els"
  by (induction d els rule: dns_fill.induct) (simp_all add: split_beta Let_def dns_cap_def)

lemma dns_fill_nth:
  "i < length els \<Longrightarrow> \<exists>k. fst (dns_fill d els) ! i = d + k \<and> k + length (els ! i) < dns_cap els \<and>
     take (length (els ! i) + 1) (drop k (snd (dns_fill d els))) = els ! i @ [NUL]"
proof (induction d els arbitrary: i rule: dns_fill.induct)
  case (2 d el els)
  show ?case
  proof (cases i)
    case 0
    then show ?thesis by (simp add: split_beta Let_def dns_cap_def)
  next
    case (Suc j)
    then obtain k where "fst (dns_fill (d + length el + 1) els) ! j = d + length el + 1 + k"
        "k + length (els ! j) < dns_cap els"
        "take (length (els ! j) + 1) (drop k (snd (dns_fill (d + length el + 1) els))) = els ! j @ [NUL]"
      using 2 by fastforce
    then show ?thesis
      using Suc by (intro exI [of _ "length el + 1 + k"]) (simp add: split_beta Let_def dns_cap_def)
  qed
qed simp

text \<open>
  The addresses a pointer array and its data stand for: the C string at every pointer, which lies
  in the block of \<open>size\<close> bytes.
\<close>

definition dns_list :: "ffnetconf \<Rightarrow> string list" where
  "dns_list nc = map (\<lambda>p. c_str (drop (p - dns_addrs_num nc * 8) (dns_data nc))) (dns_ptrs nc)"

lemma c_str_prefix:
  assumes "NUL \<notin> set t" "take (length t + 1) d = t @ [NUL]"
  shows "c_str d = t"
proof -
  have "d = take (length t + 1) d @ drop (length t + 1) d" by simp
  then have "d = t @ NUL # drop (length t + 1) d" by (simp only: assms(2)) simp
  then show ?thesis using c_str_app [OF assms(1)] by metis
qed

lemma wp_dns_store:
  assumes "heap_after (trace s) = Some h"
  shows "wp (dns_store K nc els)
    (\<lambda>r s'. fds_after (trace s') = fds_after (trace s) \<and>
       (\<exists>u. trace s' = trace s @ u) \<and> (mem_available K \<longrightarrow> fst r = 0) \<and>
       (fst r = -1 \<and> heap_after (trace s') = Some h \<or>
        fst r = 0 \<and> dns_addrs (snd r) \<noteq> 0 \<and> heap_after (trace s') = Some (add_mset (dns_addrs (snd r)) h) \<and>
        ((\<forall>t\<in>set els. NUL \<notin> set t) \<longrightarrow> dns_list (snd r) = els) \<and>
        (\<exists>q n. trace s' = trace s @ [(Mem (MAlloc n), q)] \<and> length els * 8 + length (dns_data (snd r)) = n \<and>
          (\<forall>p\<in>set (dns_ptrs (snd r)). length els * 8 \<le> p \<and> p < n)))) s"
proof -
  let ?f = "dns_fill (length els * 8) els"
  have nth: "NUL \<notin> set (els ! i) \<Longrightarrow> c_str (drop (fst ?f ! i - length els * 8) (snd ?f)) = els ! i"
    "length els * 8 \<le> fst ?f ! i \<and> fst ?f ! i < dns_cap els + length els * 8" if "i < length els" for i
    using dns_fill_nth [OF that, of "length els * 8"] by (auto intro!: c_str_prefix)
  have l: "map (\<lambda>p. c_str (drop (p - length els * 8) (snd ?f))) (fst ?f) = els" if "\<forall>t\<in>set els. NUL \<notin> set t"
    by (rule nth_equalityI) (use that in \<open>simp_all add: dns_fill_length nth\<close>)
  have b: "\<forall>p\<in>set (fst ?f). length els * 8 \<le> p \<and> p < dns_cap els + length els * 8"
    using nth(2) by (auto simp: in_set_conv_nth dns_fill_length)
  show ?thesis
    unfolding dns_store_def using assms
    by (intro wp_intros) (auto simp: split_beta Let_def dns_list_def l b dns_fill_length dest: mem_availableD)
qed

subsection \<open>The servers in a configuration\<close>

text \<open>
  What the file means: of every line, blanks before it dropped, the text up to the first blank is
  the keyword, and the text from there to the next blank is the address.
\<close>

definition is_blank :: "char \<Rightarrow> bool" where
  "is_blank c \<longleftrightarrow> c = CHR '' '' \<or> c = CHR 0x09"

definition line_server :: "string \<Rightarrow> string option" where
  "line_server line =
     (let l = dropWhile (\<lambda>c. is_blank c \<or> c = CHR 0x0D) line
      in if takeWhile (\<lambda>c. \<not> is_blank c) l = ''nameserver''
         then Some (takeWhile (\<lambda>c. \<not> is_blank c) (tl (dropWhile (\<lambda>c. \<not> is_blank c) l))) else None)"

lemma tl_dropWhile_less: "t \<noteq> [] \<Longrightarrow> length (tl (dropWhile P t)) < length t"
proof -
  assume "t \<noteq> []"
  then have "0 < length t" by simp
  moreover have "length (tl (dropWhile P t)) = length (dropWhile P t) - 1" by (rule length_tl)
  ultimately show ?thesis using length_dropWhile_le [of P t] by linarith
qed

function lines_of :: "string \<Rightarrow> string list" where
  "lines_of [] = []"
| "lines_of (c # cs) = takeWhile (\<lambda>x. x \<noteq> CHR 0x0A) (c # cs) # lines_of (tl (dropWhile (\<lambda>x. x \<noteq> CHR 0x0A) (c # cs)))"
  by pat_completeness auto

termination
proof (relation "measure length")
  show "(tl (dropWhile (\<lambda>x. x \<noteq> CHR 0x0A) (c # cs)), c # cs) \<in> measure length" for c cs
    using tl_dropWhile_less [of "c # cs" "\<lambda>x. x \<noteq> CHR 0x0A"] by (simp only: in_measure) simp
qed simp

declare lines_of.simps [simp del]

lemma lines_of_nonempty:
  "t \<noteq> [] \<Longrightarrow> lines_of t = takeWhile (\<lambda>x. x \<noteq> CHR 0x0A) t # lines_of (tl (dropWhile (\<lambda>x. x \<noteq> CHR 0x0A) t))"
  by (cases t) (simp_all add: lines_of.simps)

lemma split_first_parts:
  "snd (split_first P t) = (takeWhile (\<lambda>x. \<not> P x) t, tl (dropWhile (\<lambda>x. \<not> P x) t))"
proof (cases rule: split_first_cases [where P = P and s = t])
  case none
  then have "takeWhile (\<lambda>x. \<not> P x) t = t" "dropWhile (\<lambda>x. \<not> P x) t = []"
    by (simp_all add: takeWhile_eq_all_conv)
  then show ?thesis unfolding none(2) snd_conv by (simp only: list.sel)
next
  case (hit a c b)
  then show ?thesis by (simp add: takeWhile_append2 dropWhile_append2)
qed

lemma dns_line_eq:
  assumes "ffbase_ok B"
  shows "dns_line B line = line_server line"
proof -
  have b: "(\<lambda>x. x \<in> set [CHR '' '', CHR 0x09]) = is_blank" "(\<lambda>x. x \<in> set [CHR '' '', CHR 0x09, CHR 0x0D]) =
      (\<lambda>c. is_blank c \<or> c = CHR 0x0D)"
    by (auto simp: is_blank_def)
  have sp: "ffstr_splitbyany B t [CHR '' '', CHR 0x09] = (fst (ffstr_splitbyany B t [CHR '' '', CHR 0x09]),
      takeWhile (\<lambda>x. \<not> is_blank x) t, tl (dropWhile (\<lambda>x. \<not> is_blank x) t))" for t
    using split_first_parts [of is_blank t] unfolding ffbase_okD(6) [OF assms] b by (metis prod.collapse)
  show ?thesis
    unfolding dns_line_def line_server_def ffbase_okD(10) [OF assms] b Let_def
    by (subst sp) (simp add: sp [THEN arg_cong [where f = "\<lambda>x. fst (snd x)"]])
qed

lemma line_server_chars: "line_server line = Some w \<Longrightarrow> set w \<subseteq> set line"
proof -
  have t: "set (takeWhile P xs) \<subseteq> set xs" "set (dropWhile P xs) \<subseteq> set xs" "set (tl xs) \<subseteq> set xs"
    for P and xs :: string
    by (auto dest: set_takeWhileD set_dropWhileD) (metis list.sel(2) list.set_sel(2))
  assume "line_server line = Some w"
  then show ?thesis
    unfolding line_server_def Let_def by (auto split: if_splits dest!: subsetD [OF t(1)] subsetD [OF t(2)] subsetD [OF t(3)])
qed

lemma dns_loop_servers:
  fixes s :: "'w sys"
  assumes B: "ffbase_ok B"
  shows "heap_after (trace s) = Some (block vec + h) \<Longrightarrow>
    \<exists>ok sv vec' s'. dns_loop K B t servers vec s = Some ((ok, sv, vec'), s') \<and>
      (ok \<longrightarrow> sv = servers @ List.map_filter line_server (lines_of t)) \<and> (mem_available K \<longrightarrow> ok) \<and>
      heap_after (trace s') = Some (block vec' + h) \<and> fds_after (trace s') = fds_after (trace s) \<and>
      (\<exists>u. trace s' = trace s @ u)"
proof (induction "length t" arbitrary: t servers vec s rule: less_induct)
  case less
  show ?case
  proof (cases "t = []")
    case True
    then show ?thesis using less.prems
      by (subst dns_loop.simps) (auto simp: lines_of.simps map_filter_simps)
  next
    case False
    let ?l = "takeWhile (\<lambda>x. x \<noteq> CHR 0x0A) t" and ?r = "tl (dropWhile (\<lambda>x. x \<noteq> CHR 0x0A) t)"
    obtain i where sp: "ffstr_splitby B t (CHR 0x0A) = (i, ?l, ?r)"
      using split_first_parts [of "\<lambda>x. x = CHR 0x0A" t] unfolding ffbase_okD(5) [OF B] by (metis prod.collapse)
    have r: "length ?r < length t" by (rule tl_dropWhile_less [OF False])
    show ?thesis
    proof (cases "line_server ?l")
      case None
      then have "dns_loop K B t servers vec s = dns_loop K B ?r servers vec s"
        using False by (subst dns_loop.simps) (simp add: sp dns_line_eq [OF B])
      then show ?thesis
        using less.hyps [OF r less.prems, of servers] None lines_of_nonempty [OF False] by (simp add: map_filter_simps)
    next
      case (Some w)
      let ?x = "run_state (sysi K (Mem (MRealloc vec ((length servers + 1) * 16)))) s"
      have u: "dns_loop K B t servers vec s = (if fst ?x = 0 then Some ((False, servers, vec), snd ?x)
          else dns_loop K B ?r (servers @ [w]) (fst ?x) (snd ?x))"
        using False by (subst dns_loop.simps) (simp add: sp dns_line_eq [OF B] Some Let_def)
      have m: "heap_after (trace (snd ?x)) = Some (block (if fst ?x = 0 then vec else fst ?x) + h)"
        "fds_after (trace (snd ?x)) = fds_after (trace s)"
        "\<exists>u. trace (snd ?x) = trace s @ u" "mem_available K \<longrightarrow> fst ?x \<noteq> 0"
        using less.prems by (auto simp: run_simps block_def mem_available_def)
      show ?thesis
        using u m less.hyps [OF r, of "snd ?x" "fst ?x" "servers @ [w]"] Some lines_of_nonempty [OF False]
        by (cases "fst ?x = 0") (auto simp: map_filter_simps)
    qed
  qed
qed

lemma map_filter_server_chars:
  "w \<in> set (List.map_filter line_server (lines_of t)) \<Longrightarrow> set w \<subseteq> set t"
proof (induction "length t" arbitrary: t rule: less_induct)
  case less
  show ?case
  proof (cases "t = []")
    case True
    then show ?thesis using less.prems by (simp add: lines_of.simps map_filter_simps)
  next
    case False
    let ?l = "takeWhile (\<lambda>x. x \<noteq> CHR 0x0A) t" and ?r = "tl (dropWhile (\<lambda>x. x \<noteq> CHR 0x0A) t)"
    have sub: "set ?l \<subseteq> set t" "set ?r \<subseteq> set t"
      by (auto dest: set_takeWhileD) (metis list.sel(2) list.set_sel(2) set_dropWhileD)
    have "line_server ?l = Some w \<or> w \<in> set (List.map_filter line_server (lines_of ?r))"
      using less.prems lines_of_nonempty [OF False] by (auto simp: map_filter_simps split: option.splits)
    then show ?thesis
      using line_server_chars [of ?l w] less.hyps [OF tl_dropWhile_less [OF False]] sub by blast
  qed
qed

lemma wp_dns_read:
  "wp (dns_read K) (\<lambda>x s. heap_after (trace s) = Some (block (fst x)) \<and>
     (case snd (snd x) of
        None \<Rightarrow> fds_after (trace s) = Some (if fst (snd x) = -1 then {#} else {#fst (snd x)#}) \<and>
          (fst (snd x) = -1 \<longrightarrow> (\<forall>y\<in>set (trace s). opened (fst y) (snd y) = {#})) \<and>
          (\<forall>fd q. (FileC (Read fd 4096), q) \<in> set (trace s) \<longrightarrow> rv q \<le> 0)
      | Some t \<Rightarrow> fds_after (trace s) = Some {#fst (snd x)#} \<and>
          (\<exists>fd q. (FileC (Read fd 4096), q) \<in> set (trace s) \<and> 0 < rv q \<and>
             t = chars_of (take (nat (rv q)) (out_bytes q))))) (start w e)"
  unfolding dns_read_def
  by (intro wp_intros) (auto simp: block_def fd_step_def closed_def)

lemma wp_dns_end:
  assumes "heap_after (trace s) = Some (block vec + (block p + h))"
  shows "wp (dns_end K fd vec p) (\<lambda>r s'. heap_after (trace s') = Some h \<and>
     (fds_after (trace s) = Some {#fd#} \<longrightarrow> fds_after (trace s') = Some {#}) \<and>
     (\<exists>u. trace s' = trace s @ u \<and> (\<forall>y\<in>set u. opened (fst y) (snd y) = {#} \<and> (\<forall>g n. fst y \<noteq> FileC (Read g n))))) s"
  unfolding dns_end_def using assms
  by (intro wp_intros) (auto simp: block_def fd_step_def closed_def split: if_splits)

text \<open>Without a text nothing is left.\<close>

lemma dns_no_text:
  assumes "run_state (dns_read K) (start w e) = ((p, fd, None), s1)"
  shows "\<exists>s'. ffnetconf_get K B nc 1 (start w e) = Some ((-1, nc), s') \<and> heap_clean (trace s') \<and>
    (\<forall>g q. (FileC (Read g 4096), q) \<in> set (trace s') \<longrightarrow> rv q \<le> 0) \<and>
    (fds_after (trace s') = Some {#} \<or> (\<forall>y\<in>set (trace s'). opened (fst y) (snd y) = {#}))"
proof -
  note r = wpD [OF wp_dns_read, of K w e, unfolded assms fst_conv snd_conv]
  have h: "heap_after (trace s1) = Some (block 0 + (block p + {#}))" using r by (simp add: block_def)
  obtain s2 where d: "run_state (dns_end K fd 0 p) s1 = ((), s2)" by (metis (full_types) surj_pair unit.exhaust)
  note w2 = wpD [OF wp_dns_end [OF h], of K fd, unfolded d fst_conv snd_conv]
  have "ffnetconf_get K B nc 1 (start w e) = Some ((-1, nc), s2)"
    using assms d by (simp add: ffnetconf_get_def ffnetconf_dns_def)
  moreover have "heap_clean (trace s2)" "\<forall>g q. (FileC (Read g 4096), q) \<in> set (trace s2) \<longrightarrow> rv q \<le> 0"
    using w2 r by (fastforce simp: heap_clean_def simp del: opened_simps)+
  moreover have "fds_after (trace s2) = Some {#} \<or> (\<forall>y\<in>set (trace s2). opened (fst y) (snd y) = {#})"
    using w2 r by (cases "fd = -1") (fastforce simp del: opened_simps)+
  ultimately show ?thesis by blast
qed

text \<open>With a text the list is made of its lines.\<close>

lemma dns_text:
  assumes B: "ffbase_ok B" and rd: "run_state (dns_read K) (start w e) = ((p, fd, Some t), s1)"
  shows "\<exists>rc nc' s' u. ffnetconf_get K B nc 1 (start w e) = Some ((rc, nc'), s') \<and> trace s' = trace s1 @ u \<and>
    fds_after (trace s') = Some {#} \<and> (mem_available K \<longrightarrow> rc = 0) \<and>
    (rc = 0 \<and> heap_after (trace s') = Some {#dns_addrs nc'#} \<and>
       (NUL \<notin> set t \<longrightarrow> dns_list nc' = List.map_filter line_server (lines_of t)) \<or>
     rc = -1 \<and> heap_clean (trace s'))"
proof -
  note r = wpD [OF wp_dns_read, of K w e, unfolded rd fst_conv snd_conv]
  have h: "heap_after (trace s1) = Some (block 0 + block p)" using r by (simp add: block_def)
  obtain ok sv vec s2 where l: "dns_loop K B t [] 0 s1 = Some ((ok, sv, vec), s2)"
    "ok \<Longrightarrow> sv = List.map_filter line_server (lines_of t)" "heap_after (trace s2) = Some (block vec + block p)"
    "fds_after (trace s2) = fds_after (trace s1)" "\<exists>u. trace s2 = trace s1 @ u" "mem_available K \<longrightarrow> ok"
    using dns_loop_servers [OF B h, of K t "[]"] by auto
  obtain x s3 where st: "(if ok then run_state (dns_store K nc sv) s2 else ((-1, nc), s2)) = (x, s3)" by fastforce
  have x: "fds_after (trace s3) = fds_after (trace s1)" "\<exists>u. trace s3 = trace s1 @ u" "mem_available K \<longrightarrow> fst x = 0"
    "fst x = -1 \<and> heap_after (trace s3) = Some (block vec + (block p + {#})) \<or>
     fst x = 0 \<and> ok \<and> heap_after (trace s3) = Some (block vec + (block p + {#dns_addrs (snd x)#})) \<and>
       ((\<forall>t\<in>set sv. NUL \<notin> set t) \<longrightarrow> dns_list (snd x) = sv)"
    using wpD [OF wp_dns_store [OF l(3)], of K nc sv] st l(3-6) by (cases ok; auto)+
  define h where "h = (if fst x = 0 then {#dns_addrs (snd x)#} else {#})"
  have h3: "heap_after (trace s3) = Some (block vec + (block p + h))" using x(4) by (auto simp: h_def)
  obtain s4 where d: "run_state (dns_end K fd vec p) s3 = ((), s4)" by (metis (full_types) surj_pair unit.exhaust)
  have f: "ffnetconf_get K B nc 1 (start w e) = Some (x, s4)"
    using rd l(1) st d by (auto simp: ffnetconf_get_def ffnetconf_dns_def Let_def split: if_splits prod.splits)
  have e4: "heap_after (trace s4) = Some h" "fds_after (trace s4) = Some {#}" "\<exists>u. trace s4 = trace s1 @ u"
    using wpD [OF wp_dns_end [OF h3], of K fd, unfolded d fst_conv snd_conv] x(1,2) r by (auto simp del: opened_simps)
  have z: "NUL \<notin> set t \<Longrightarrow> \<forall>v\<in>set (List.map_filter line_server (lines_of t)). NUL \<notin> set v"
    using map_filter_server_chars by blast
  then have "fst x = 0 \<and> h = {#dns_addrs (snd x)#} \<and> (NUL \<notin> set t \<longrightarrow> dns_list (snd x) = List.map_filter line_server (lines_of t)) \<or>
      fst x = -1 \<and> h = {#}" using x(4) l(2) by (auto simp: h_def)
  then show ?thesis using f e4 x(3) unfolding heap_clean_def by (metis prod.collapse)
qed

text \<open>
  Claim C30.  \<open>ffnetconf_get\<close> on UNIX returns for every content of the file.  When it returns \<open>0\<close>
  the list has the addresses of the \<open>nameserver\<close> lines of the text it read, in order, each as a C
  string in the one block that is left allocated; when it fails nothing is left, and it does not
  fail if text was read and there is memory.  A file that was opened is closed once.
\<close>

theorem netconf_dns_servers:
  assumes B: "ffbase_ok B"
  shows "\<exists>rc nc' s'. ffnetconf_get K B nc 1 (start w e) = Some ((rc, nc'), s') \<and>
    (rc = 0 \<and> heap_after (trace s') = Some {#dns_addrs nc'#} \<and>
       (\<exists>fd q t. (FileC (Read fd 4096), q) \<in> set (trace s') \<and> t = chars_of (take (nat (rv q)) (out_bytes q)) \<and>
          (NUL \<notin> set t \<longrightarrow> dns_list nc' = List.map_filter line_server (lines_of t))) \<or>
     rc = -1 \<and> heap_clean (trace s') \<and>
       (mem_available K \<longrightarrow> (\<forall>fd q. (FileC (Read fd 4096), q) \<in> set (trace s') \<longrightarrow> rv q \<le> 0))) \<and>
    (fds_after (trace s') = Some {#} \<or> (\<forall>y\<in>set (trace s'). opened (fst y) (snd y) = {#}))"
proof -
  obtain p fd tx s1 where rd: "run_state (dns_read K) (start w e) = ((p, fd, tx), s1)" by (metis surj_pair)
  show ?thesis
  proof (cases tx)
    case None
    then show ?thesis using dns_no_text [OF rd [unfolded None]] by (metis (full_types))
  next
    case (Some t)
    note r = wpD [OF wp_dns_read, of K w e, unfolded rd fst_conv snd_conv Some option.simps]
    then obtain g q where q: "(FileC (Read g 4096), q) \<in> set (trace s1)" "t = chars_of (take (nat (rv q)) (out_bytes q))" by blast
    from dns_text [OF B rd [unfolded Some], of nc] obtain rc nc' s' u where
      x: "ffnetconf_get K B nc 1 (start w e) = Some ((rc, nc'), s')" "trace s' = trace s1 @ u" "fds_after (trace s') = Some {#}"
      "mem_available K \<longrightarrow> rc = 0" "rc = 0 \<and> heap_after (trace s') = Some {#dns_addrs nc'#} \<and>
       (NUL \<notin> set t \<longrightarrow> dns_list nc' = List.map_filter line_server (lines_of t)) \<or> rc = -1 \<and> heap_clean (trace s')" by blast
    have "(FileC (Read g 4096), q) \<in> set (trace s')" using q(1) x(2) by simp
    then show ?thesis using x(1,3-5) q(2) by (metis zero_neq_neg_one)
  qed
qed

text \<open>A resolver configuration with two servers, and a system that has it.\<close>

definition resolv_text :: string where
  "resolv_text = ''# dns'' @ [CHR 0x0A] @ ''nameserver 1.1.1.1'' @ [CHR 0x0A] @ '' nameserver 9.9.9.9 x''"

definition resolvK :: "call \<Rightarrow> nat \<Rightarrow> reply \<times> nat" where
  "resolvK c w = (case c of
      FileC f \<Rightarrow> (case f of
          Read _ _ \<Rightarrow> \<lparr>rv = int (length resolv_text), rerr = None, rout = OBytes (bytes_of resolv_text)\<rparr>
        | _ \<Rightarrow> \<lparr>rv = 3, rerr = None, rout = NoOut\<rparr>)
    | _ \<Rightarrow> \<lparr>rv = int w + 1, rerr = None, rout = NoOut\<rparr>, w + 1)"

lemma resolv_servers: "List.map_filter line_server (lines_of resolv_text) = [''1.1.1.1'', ''9.9.9.9'']"
  by (simp add: resolv_text_def lines_of_nonempty lines_of.simps line_server_def is_blank_def Let_def map_filter_simps)

theorem netconf_dns_servers_witness:
  "\<exists>nc' s'. ffnetconf_get resolvK ffbase_ref \<lparr>dns_addrs = 0, dns_ptrs = [], dns_data = [], dns_addrs_num = 0\<rparr> 1 (start 5 0) =
      Some ((0, nc'), s') \<and> dns_list nc' = [''1.1.1.1'', ''9.9.9.9''] \<and> heap_after (trace s') = Some {#dns_addrs nc'#}"
proof -
  let ?nc = "\<lparr>dns_addrs = 0, dns_ptrs = [], dns_data = [], dns_addrs_num = 0\<rparr>"
  have m: "mem_available resolvK" by (simp add: mem_available_def resolvK_def)
  have n: "NUL \<notin> set resolv_text" by (simp add: resolv_text_def)
  have "length (bytes_of resolv_text) = length resolv_text" "resolv_text \<noteq> []"
    by (simp_all add: bytes_of_def resolv_text_def)
  then obtain p fd s1 where rd: "run_state (dns_read resolvK) (start 5 0) = ((p, fd, Some resolv_text), s1)"
    by (simp add: dns_read_def run_simps resolvK_def)
  show ?thesis
    using dns_text [OF ffbase_ref_ok rd, of ?nc] netconf_dns_servers [OF ffbase_ref_ok, of resolvK ?nc 5 0] m n
    by (auto simp: resolv_servers)
qed

text \<open>Two blanks between the keyword and the address give an empty address.\<close>

lemma netconf_double_blank: "line_server ''nameserver  1.1.1.1'' = Some []"
  by (simp add: line_server_def is_blank_def Let_def)

subsection \<open>Windows: memory\<close>

text \<open>On Windows all that is left is the block of the list; \<open>ffnetconf_destroy\<close> frees it.\<close>

lemma netconf_win_resources:
  "wp (ffnetconf_get_win K nc flags)
     (\<lambda>r s. heap_after (trace s) = Some (if fst r = 0 then block (dns_addrs (snd r)) else {#})) (start w e) \<and>
   wp (do { r \<leftarrow> ffnetconf_get_win K nc flags;
            if fst r = 0 then ffnetconf_destroy K (snd r) else State_Monad.return (snd r) })
     (\<lambda>r s. heap_clean (trace s)) (start w e)"
proof -
  have R: "wp (ffnetconf_info_round K sz)
      (\<lambda>x s'. heap_after (trace s') = Some (case x of Inl r \<Rightarrow> block (fst r) | Inr _ \<Rightarrow> {#})) s"
    if "heap_after (trace s) = Some {#}" for s sz
    unfolding ffnetconf_info_round_def using that by (intro wp_intros) (auto simp: block_def)
  have I: "wp (ffnetconf_info K) (\<lambda>x s. heap_after (trace s) = Some (block (fst x))) (start w e)"
    unfolding ffnetconf_info_def
    by (intro wp_bind, rule wp_mono [OF R], simp)
      (auto split!: sum.split intro!: wp_intros wp_mono [OF R] simp: block_def)
  have G: "wp (ffnetconf_get_win K nc flags)
     (\<lambda>r s. fst r \<in> {0, -1} \<and> heap_after (trace s) = Some (if fst r = 0 then block (dns_addrs (snd r)) else {#})) (start w e)"
    unfolding ffnetconf_get_win_def dns_store_def
    by (intro wp_intros wp_mono [OF I]) (auto simp: block_def split_beta Let_def split: if_splits)
  have "wp (do { r \<leftarrow> ffnetconf_get_win K nc flags;
            if fst r = 0 then ffnetconf_destroy K (snd r) else State_Monad.return (snd r) })
     (\<lambda>r s. heap_clean (trace s)) (start w e)"
    unfolding ffnetconf_destroy_def heap_clean_def
    by (rule wp_bind, rule wp_mono [OF G], intro wp_intros) (auto simp: block_def split: if_splits)
  with G show ?thesis by (auto elim: wp_mono)
qed

end
