(* ===== verification/Winreg.thy ===== *)
theory Winreg
  imports Wstring Bytes
begin

text \<open>
  The Windows registry (\<open>FFOS/winreg.h\<close>).  The functions of the system return an error code,
  \<open>0\<close> for success, and do not set the last error.  \<open>wlen\<close> is ffbase's conversion to UTF-8
  with a \<open>NULL\<close> destination, which gives the size needed; vectors grow by one call that gives a
  block, new or the same, and \<open>gr\<close> is the capacity ffbase chooses for it.
\<close>

abbreviation (input) FFWINREG_NULL :: int where "FFWINREG_NULL \<equiv> -1"
abbreviation (input) ERROR_MORE_DATA :: int where "ERROR_MORE_DATA \<equiv> 234"
abbreviation (input) ERROR_NO_MORE_ITEMS :: int where "ERROR_NO_MORE_ITEMS \<equiv> 259"

definition FFWINREG_CREATE :: u32 where [flag_simps]: "FFWINREG_CREATE = 1"
definition FFWINREG_CREATENEW :: u32 where [flag_simps]: "FFWINREG_CREATENEW = 2"
definition FFWINREG_READONLY :: u32 where [flag_simps]: "FFWINREG_READONLY = 0x80"
definition FFWINREG_WRITEONLY :: u32 where [flag_simps]: "FFWINREG_WRITEONLY = 0x40"
definition FFWINREG_READWRITE :: u32 where [flag_simps]: "FFWINREG_READWRITE = 0xc0"
definition KEY_READ :: u32 where [flag_simps]: "KEY_READ = 0x20019"
definition KEY_WRITE :: u32 where [flag_simps]: "KEY_WRITE = 0x20006"
definition KEY_ALL_ACCESS :: u32 where [flag_simps]: "KEY_ALL_ACCESS = 0xf003f"
definition REG_SZ :: u32 where [flag_simps]: "REG_SZ = 1"
definition REG_EXPAND_SZ :: u32 where [flag_simps]: "REG_EXPAND_SZ = 2"
definition REG_BINARY :: u32 where [flag_simps]: "REG_BINARY = 3"
definition REG_DWORD :: u32 where [flag_simps]: "REG_DWORD = 4"
definition REG_QWORD :: u32 where [flag_simps]: "REG_QWORD = 11"

subsection \<open>Keys\<close>

definition reg_access :: "u32 \<Rightarrow> u32" where
  "reg_access flags =
     (if flags AND FFWINREG_READWRITE = FFWINREG_READWRITE then KEY_ALL_ACCESS
      else if tst flags FFWINREG_WRITEONLY then KEY_WRITE else KEY_READ)"

text \<open>The reply to \<open>RegCreateKeyExW\<close> has the key and whether it is new (\<open>1\<close>).\<close>

definition ffwinreg_open :: "'w kernel \<Rightarrow> wconv \<Rightarrow> int \<Rightarrow> string \<Rightarrow> u32 \<Rightarrow> ('w, int) prog" where
  "ffwinreg_open K U hk path flags = do {
     let mode = flags AND 0xf;
     w \<leftarrow> ffsz_alloc_buf_utow K U (Some 255) path;
     if w = WNull then State_Monad.return FFWINREG_NULL
     else do {
       k \<leftarrow> (if mode = FFWINREG_CREATE \<or> mode = FFWINREG_CREATENEW then do {
               x \<leftarrow> sys K (Reg (RegCreateKeyExW hk (w_chars w) (reg_access flags)));
               if rv x \<noteq> 0 then do { fferr_set (rv x); State_Monad.return FFWINREG_NULL }
               else if mode = FFWINREG_CREATENEW \<and> out_int x 1 \<noteq> 1
               then do { fferr_set ERROR_ALREADY_EXISTS; State_Monad.return FFWINREG_NULL }
               else State_Monad.return (out_int x 0)
             }
             else do {
               x \<leftarrow> sys K (Reg (RegOpenKeyExW hk (w_chars w) (reg_access flags)));
               if rv x \<noteq> 0 then do { fferr_set (rv x); State_Monad.return FFWINREG_NULL }
               else State_Monad.return (out_int x 0)
             });
       w_free K w;
       State_Monad.return k
     }
   }"

definition ffwinreg_close :: "'w kernel \<Rightarrow> int \<Rightarrow> ('w, unit) prog" where
  "ffwinreg_close K k = do { sysi K (Reg (RegCloseKey k)); State_Monad.return () }"

text \<open>The numbers that \<open>RegQueryInfoKeyW\<close> gives: subkeys, their longest name, values, their
  longest name, the longest value.\<close>

record ffwinreg_info =
  subkeys :: int
  max_subkey_len :: int
  reg_values :: int
  max_valname_len :: int
  max_val_len :: int

definition ffwinreg_info_get :: "'w kernel \<Rightarrow> int \<Rightarrow> ffwinreg_info \<Rightarrow> ('w, int \<times> ffwinreg_info) prog" where
  "ffwinreg_info_get K k nf = do {
     x \<leftarrow> sys K (Reg (RegQueryInfoKeyW k));
     if rv x \<noteq> 0 then do { fferr_set (rv x); State_Monad.return (-1, nf) }
     else State_Monad.return (0, \<lparr>subkeys = out_int x 0, max_subkey_len = out_int x 1,
       reg_values = out_int x 2, max_valname_len = out_int x 3, max_val_len = out_int x 4\<rparr>)
   }"

definition ffwinreg_isstr :: "u32 \<Rightarrow> bool" where
  "ffwinreg_isstr type \<longleftrightarrow> type = REG_SZ \<or> type = REG_EXPAND_SZ"

subsection \<open>Reading a value\<close>

text \<open>\<open>val_text\<close> is what is at \<open>data\<close>.\<close>

record ffwinreg_val =
  val_type :: u32
  val_ptr :: int
  val_len :: nat
  val_text :: bytes

definition out_reg :: "reply \<Rightarrow> u32 \<times> bytes \<times> nat" where
  "out_reg x = (case rout x of OReg t d n \<Rightarrow> (t, d, n) | _ \<Rightarrow> (0, [], 0))"

text \<open>
  The state of the loop: the value, whether \<open>valptr\<close> is the user's buffer, the size passed to
  the system, and \<open>outbuf\<close>.
\<close>

record regread =
  rr_val :: ffwinreg_val
  rr_user :: bool
  rr_size :: nat
  rr_outbuf :: int

text \<open>A text: \<open>n\<close> wide characters, the terminator not counted.\<close>

definition reg_wide :: "bytes \<Rightarrow> nat \<Rightarrow> wstr" where
  "reg_wide d sz =
     (let n = sz div 2; w = take n (wide_of d)
      in if n \<noteq> 0 \<and> w \<noteq> [] \<and> last w = 0 then butlast w else w)"

text \<open>\<open>r\<close> and the state at \<open>end\<close>, for a text that was read completely.\<close>

definition read_text ::
  "'w kernel \<Rightarrow> wconv \<Rightarrow> (wstr \<Rightarrow> int) \<Rightarrow> bytes \<Rightarrow> nat \<Rightarrow> regread \<Rightarrow> ('w, int \<times> regread) prog" where
  "read_text K U wlen d sz st =
     (let w = reg_wide d sz; val = rr_val st; convert = (\<lambda>st. do {
        let val = rr_val st;
        let x = ffs_wtou U (val_len val) w;
        State_Monad.return (if fst x < 0 then (0, st\<lparr>rr_val := val\<lparr>val_len := sz div 2 * 4\<rparr>\<rparr>)
          else (1, st\<lparr>rr_val := val\<lparr>val_len := nat (fst x), val_text := bytes_of (snd x)\<rparr>\<rparr>))
      }) in
      if val_ptr val = 0 then do {
        let r = wlen w;
        p \<leftarrow> sysi K (Mem (MAlloc (unat (of_int r :: u64))));
        if p = 0 then State_Monad.return (-1, st)
        else convert (st\<lparr>rr_val := val\<lparr>val_ptr := p, val_len := unat (of_int r :: u64)\<rparr>\<rparr>)
      }
      else if rr_user st then do {
        p \<leftarrow> sysi K (Mem (MAlloc sz));
        if p = 0 then State_Monad.return (-1, st)
        else convert (st\<lparr>rr_outbuf := p, rr_user := False\<rparr>)
      }
      else convert st)"

text \<open>The same for any other type.\<close>

definition read_other ::
  "'w kernel \<Rightarrow> bytes \<Rightarrow> nat \<Rightarrow> regread \<Rightarrow> ('w, int \<times> regread) prog" where
  "read_other K d sz st =
     (let val = rr_val st; done = (\<lambda>st. (1, st\<lparr>rr_val := (rr_val st)\<lparr>val_len := sz, val_text := d\<rparr>\<rparr>)) in
      if val_ptr val = 0 then
        (if rr_outbuf st = 0 then do {
           p \<leftarrow> sysi K (Mem (MAlloc sz));
           State_Monad.return (if p = 0 then (-1, st) else done (st\<lparr>rr_val := val\<lparr>val_ptr := p\<rparr>\<rparr>))
         }
         else State_Monad.return (done (st\<lparr>rr_val := val\<lparr>val_ptr := rr_outbuf st\<rparr>, rr_outbuf := 0\<rparr>)))
      else State_Monad.return (done st))"

text \<open>
  One round: \<open>Inl\<close> has \<open>r\<close>, the type and the state at \<open>end\<close>, \<open>Inr\<close> the state for the
  next round.  \<open>type\<close> keeps its value when the system did not write it.
\<close>

definition read_round :: "'w kernel \<Rightarrow> wconv \<Rightarrow> (wstr \<Rightarrow> int) \<Rightarrow> int \<Rightarrow> wstr \<Rightarrow> regread
    \<Rightarrow> ('w, (int \<times> u32 \<times> regread) + (u32 \<times> regread)) prog" where
  "read_round K U wlen k wname st = do {
     x \<leftarrow> sys K (Reg (RegQueryValueExW k wname (rr_size st)));
     let (type, d, sz) = out_reg x;
     let r = rv x;
     if r \<noteq> 0 \<and> r \<noteq> ERROR_MORE_DATA then State_Monad.return (Inl (-1, type, st))
     else if r = 0 then do {
       y \<leftarrow> (if ffwinreg_isstr type then read_text K U wlen d sz st else read_other K d sz st);
       State_Monad.return (Inl (fst y, type, snd y))
     }
     else if ffwinreg_isstr type \<and> rr_outbuf st \<noteq> 0
     then State_Monad.return (Inl (0, type, st\<lparr>rr_val := (rr_val st)\<lparr>val_len := sz div 2 * 4\<rparr>\<rparr>))
     else if \<not> ffwinreg_isstr type \<and> (val_ptr (rr_val st) \<noteq> 0 \<or> rr_outbuf st \<noteq> 0)
     then State_Monad.return (Inl (0, type, st\<lparr>rr_val := (rr_val st)\<lparr>val_len := sz\<rparr>\<rparr>))
     else do {
       p \<leftarrow> sysi K (Mem (MAlloc sz));
       State_Monad.return (if p = 0 then Inl (-1, type, st)
         else Inr (type, st\<lparr>rr_outbuf := p, rr_user := False, rr_size := sz\<rparr>))
     }
   }"

partial_function (option) read_loop :: "'w kernel \<Rightarrow> wconv \<Rightarrow> (wstr \<Rightarrow> int) \<Rightarrow> int \<Rightarrow> wstr \<Rightarrow> regread \<Rightarrow> 'w sys
    \<Rightarrow> ((int \<times> u32 \<times> regread) \<times> 'w sys) option" where
  "read_loop K U wlen k wname st s =
     (let x = run_state (read_round K U wlen k wname st) s
      in case fst x of Inl y \<Rightarrow> Some (y, snd x) | Inr y \<Rightarrow> read_loop K U wlen k wname (snd y) (snd x))"

text \<open>From \<open>end\<close> on.\<close>

definition read_end :: "'w kernel \<Rightarrow> wbuf \<Rightarrow> int \<Rightarrow> u32 \<Rightarrow> regread \<Rightarrow> ('w, int \<times> ffwinreg_val) prog" where
  "read_end K wname r type st = do {
     let val = (if r \<ge> 0 then (rr_val st)\<lparr>val_type := type\<rparr> else rr_val st);
     w_free K wname;
     sysi K (Mem (MFree (rr_outbuf st)));
     State_Monad.return (r, val)
   }"

text \<open>\<open>junk\<close> is the value of the uninitialised \<open>type\<close>; the name is a null-terminated string.\<close>

definition ffwinreg_read :: "'w kernel \<Rightarrow> wconv \<Rightarrow> (wstr \<Rightarrow> int) \<Rightarrow> u32 \<Rightarrow> int \<Rightarrow> string \<Rightarrow> ffwinreg_val \<Rightarrow> 'w sys
    \<Rightarrow> ((int \<times> ffwinreg_val) \<times> 'w sys) option" where
  "ffwinreg_read K U wlen junk k name val s =
     (let (w, s1) = run_state (ffs_utow K U (Some 256) name True) s;
          st = \<lparr>rr_val = val, rr_user = (val_ptr val \<noteq> 0),
                rr_size = (if val_ptr val \<noteq> 0 then val_len val else 256), rr_outbuf = 0\<rparr>
      in if fst w = WNull then Some (run_state (read_end K (fst w) 0 junk st) s1)
         else case read_loop K U wlen k (w_chars (fst w)) st s1 of
             None \<Rightarrow> None
           | Some ((r, type, st'), s2) \<Rightarrow> Some (run_state (read_end K (fst w) r type st') s2))"

subsection \<open>Writing and deleting\<close>

text \<open>
  The terminator is stored behind the converted text.  \<open>wval_room\<close> is the number of characters
  the buffer has: 256 for the array, and what \<open>ffs_alloc_buf_utow\<close> allocated, which is the
  size of the text alone.  \<open>None\<close>: the store is outside the buffer.
\<close>

definition wval_room :: "wconv \<Rightarrow> wbuf \<Rightarrow> string \<Rightarrow> nat" where
  "wval_room U w t = (case w of WStack _ \<Rightarrow> 256
     | _ \<Rightarrow> unat (of_int (fst (ffutf8_to_utf16 U None t)) :: u64) div 2)"

definition ffwinreg_write :: "'w kernel \<Rightarrow> wconv \<Rightarrow> int \<Rightarrow> string \<Rightarrow> ffwinreg_val \<Rightarrow> ('w, int option) prog" where
  "ffwinreg_write K U k name val = do {
     wname \<leftarrow> utow256 K U name;
     if wname = WNull then do { w_free K WNull; w_free K WNull; State_Monad.return (Some (-1)) }
     else if \<not> ffwinreg_isstr (val_type val) then do {
       r \<leftarrow> sysi K (Reg (RegSetValueExW k (w_chars wname) (val_type val) (take (val_len val) (val_text val))));
       w_free K wname;
       w_free K WNull;
       State_Monad.return (Some (if r \<noteq> 0 then -1 else 0))
     }
     else do {
       let t = chars_of (take (val_len val) (val_text val));
       x \<leftarrow> ffs_alloc_buf_utow K U (Some 256) 256 t;
       if fst x = WNull then do { w_free K wname; w_free K WNull; State_Monad.return (Some (-1)) }
       else if \<not> snd x < wval_room U (fst x) t then State_Monad.return None
       else do {
         r \<leftarrow> sysi K (Reg (RegSetValueExW k (w_chars wname) (val_type val)
                (wide_bytes (take (snd x) (w_chars (fst x)) @ [0]))));
         w_free K wname;
         w_free K (fst x);
         State_Monad.return (Some (if r \<noteq> 0 then -1 else 0))
       }
     }
   }"

definition ffwinreg_writestr :: "'w kernel \<Rightarrow> wconv \<Rightarrow> int \<Rightarrow> string \<Rightarrow> bytes \<Rightarrow> ('w, int option) prog" where
  "ffwinreg_writestr K U k name v =
     ffwinreg_write K U k name \<lparr>val_type = REG_SZ, val_ptr = 1, val_len = length v, val_text = v\<rparr>"

definition ffwinreg_writeint :: "'w kernel \<Rightarrow> wconv \<Rightarrow> int \<Rightarrow> string \<Rightarrow> u32 \<Rightarrow> ('w, int option) prog" where
  "ffwinreg_writeint K U k name n =
     ffwinreg_write K U k name \<lparr>val_type = REG_DWORD, val_ptr = 1, val_len = 4, val_text = le_put 4 (unat n)\<rparr>"

text \<open>\<open>vista\<close> is the condition \<open>FF_WIN >= 0x0600\<close>.\<close>

definition ffwinreg_del :: "'w kernel \<Rightarrow> wconv \<Rightarrow> bool \<Rightarrow> int \<Rightarrow> string \<Rightarrow> string option \<Rightarrow> ('w, int) prog" where
  "ffwinreg_del K U vista k subkey name = do {
     wsubkey \<leftarrow> utow256 K U subkey;
     x \<leftarrow> (if wsubkey = WNull then State_Monad.return (-1, WNull)
          else case name of
              None \<Rightarrow> do { r \<leftarrow> sysi K (Reg (RegDeleteKeyW k (w_chars wsubkey))); State_Monad.return (r, WNull) }
            | Some nm \<Rightarrow>
                if vista then do {
                  wname \<leftarrow> utow256 K U nm;
                  if wname = WNull then State_Monad.return (-1, WNull)
                  else do {
                    r \<leftarrow> sysi K (Reg (RegDeleteKeyValueW k (w_chars wsubkey) (w_chars wname)));
                    State_Monad.return (r, wname)
                  }
                }
                else do { fferr_set ERROR_INVALID_PARAMETER; State_Monad.return (-1, WNull) });
     w_free K wsubkey;
     w_free K (snd x);
     State_Monad.return (fst x)
   }"

subsection \<open>Enumeration\<close>

text \<open>
  The four vectors, each with its block and its capacity in elements, and what \<open>name\<close>,
  \<open>value\<close> and \<open>wval\<close> hold.
\<close>

record ffwinreg_enum =
  en_key :: int
  en_idx :: u32
  en_options :: u32
  en_name_ptr :: int
  en_name_cap :: nat
  en_name :: string
  en_value_ptr :: int
  en_value_cap :: nat
  en_value :: string
  en_wname_ptr :: int
  en_wname_cap :: nat
  en_wval_ptr :: int
  en_wval_cap :: nat
  en_wval :: bytes

definition FFWINREG_ENUM_VALSTR :: u32 where [flag_simps]: "FFWINREG_ENUM_VALSTR = 1"

definition ffwinreg_enum_destroy :: "'w kernel \<Rightarrow> ffwinreg_enum \<Rightarrow> ('w, ffwinreg_enum) prog" where
  "ffwinreg_enum_destroy K e = do {
     sysi K (Mem (MFree (en_name_ptr e)));
     sysi K (Mem (MFree (en_value_ptr e)));
     sysi K (Mem (MFree (en_wname_ptr e)));
     sysi K (Mem (MFree (en_wval_ptr e)));
     State_Monad.return (e\<lparr>en_name_ptr := 0, en_name_cap := 0, en_name := [],
       en_value_ptr := 0, en_value_cap := 0, en_value := [],
       en_wname_ptr := 0, en_wname_cap := 0, en_wval_ptr := 0, en_wval_cap := 0, en_wval := []\<rparr>)
   }"

text \<open>The \<open>||\<close> chain: what follows an allocation that fails is not tried.\<close>

definition ffwinreg_enum_init :: "'w kernel \<Rightarrow> ffwinreg_enum \<Rightarrow> u32 \<Rightarrow> ('w, int \<times> ffwinreg_enum) prog" where
  "ffwinreg_enum_init K e options =
     (let fail = (\<lambda>e. do { e' \<leftarrow> ffwinreg_enum_destroy K e; State_Monad.return (-1, e') }) in do {
        p \<leftarrow> sysi K (Mem (MAlloc 256));
        let e = e\<lparr>en_name_ptr := p, en_name_cap := 256, en_name := []\<rparr>;
        if p = 0 then fail e
        else do {
          p \<leftarrow> sysi K (Mem (MAlloc 256));
          let e = e\<lparr>en_value_ptr := p, en_value_cap := 256, en_value := []\<rparr>;
          if p = 0 then fail e
          else do {
            p \<leftarrow> sysi K (Mem (MAlloc 512));
            let e = e\<lparr>en_wname_ptr := p, en_wname_cap := 256\<rparr>;
            if p = 0 then fail e
            else do {
              p \<leftarrow> sysi K (Mem (MAlloc 256));
              let e = e\<lparr>en_wval_ptr := p, en_wval_cap := 256, en_wval := []\<rparr>;
              if p = 0 then fail e
              else State_Monad.return (0, e\<lparr>en_key := FFWINREG_NULL, en_options := options\<rparr>)
            }
          }
        }
      })"

definition ffwinreg_enum_begin :: "ffwinreg_enum \<Rightarrow> int \<Rightarrow> ffwinreg_enum" where
  "ffwinreg_enum_begin e key = e\<lparr>en_key := key, en_idx := 0\<rparr>"

definition out_enum :: "reply \<Rightarrow> wstr \<times> u32 \<times> bytes" where
  "out_enum x = (case rout x of OEnum n t d \<Rightarrow> (n, t, d) | _ \<Rightarrow> ([], 0, []))"

text \<open>\<open>ffvec_realloc\<close> of the name to four bytes a character, and its conversion.  The result is
  \<open>None\<close> when the assertion on the conversion fails.\<close>

definition enum_set_name :: "'w kernel \<Rightarrow> wconv \<Rightarrow> (nat \<Rightarrow> nat \<Rightarrow> nat) \<Rightarrow> wstr \<Rightarrow> ffwinreg_enum
    \<Rightarrow> ('w, (bool \<times> ffwinreg_enum) option) prog" where
  "enum_set_name K U gr w e = do {
     let cap = gr (en_name_cap e) (unat ((of_nat (length w) :: u32) * 4));
     p \<leftarrow> sysi K (Mem (MRealloc (en_name_ptr e) cap));
     if p = 0 then State_Monad.return (Some (False, e))
     else do {
       let x = ffs_wtou U cap w;
       State_Monad.return (if fst x < 0 then None
         else Some (True, e\<lparr>en_name_ptr := p, en_name_cap := cap, en_name := take (nat (fst x)) (snd x)\<rparr>))
     }
   }"

text \<open>
  One round of the loop of \<open>ffwinreg_enum_nextkey\<close>: \<open>Inl\<close> leaves the loop with a name or with
  a result, \<open>Inr\<close> goes round with a longer buffer.
\<close>

definition nextkey_round :: "'w kernel \<Rightarrow> (nat \<Rightarrow> nat \<Rightarrow> nat) \<Rightarrow> ffwinreg_enum
    \<Rightarrow> ('w, ((wstr + int) \<times> ffwinreg_enum) + ffwinreg_enum) prog" where
  "nextkey_round K gr e = do {
     x \<leftarrow> sys K (Reg (RegEnumKeyExW (en_key e) (en_idx e) (en_wname_cap e)));
     if rv x = 0 then State_Monad.return (Inl (Inl (fst (out_enum x)), e))
     else if rv x = ERROR_MORE_DATA then do {
       q \<leftarrow> sys K (Reg (RegQueryInfoKeyW (en_key e)));
       if rv q \<noteq> 0 then State_Monad.return (Inl (Inr (-1), e))
       else do {
         let cap = gr (en_wname_cap e) (nat (out_int q 1) + 1);
         p \<leftarrow> sysi K (Mem (MRealloc (en_wname_ptr e) (cap * 2)));
         State_Monad.return (if p = 0 then Inl (Inr (-1), e)
           else Inr (e\<lparr>en_wname_ptr := p, en_wname_cap := cap\<rparr>))
       }
     }
     else if rv x = ERROR_NO_MORE_ITEMS then State_Monad.return (Inl (Inr 1, e))
     else do { fferr_set (rv x); State_Monad.return (Inl (Inr (-1), e)) }
   }"

partial_function (option) nextkey_loop :: "'w kernel \<Rightarrow> (nat \<Rightarrow> nat \<Rightarrow> nat) \<Rightarrow> ffwinreg_enum \<Rightarrow> 'w sys
    \<Rightarrow> (((wstr + int) \<times> ffwinreg_enum) \<times> 'w sys) option" where
  "nextkey_loop K gr e s =
     (let x = run_state (nextkey_round K gr e) s
      in case fst x of Inl y \<Rightarrow> Some (y, snd x) | Inr e' \<Rightarrow> nextkey_loop K gr e' (snd x))"

text \<open>The outer \<open>None\<close>: the loop does not end; the inner one: the assertion fails.  The result has
  the return value and the name.\<close>

definition enum_entry :: "'w kernel \<Rightarrow> wconv \<Rightarrow> (nat \<Rightarrow> nat \<Rightarrow> nat) \<Rightarrow> wstr \<Rightarrow> ffwinreg_enum
    \<Rightarrow> ('w, (int \<times> ffwinreg_enum) option) prog" where
  "enum_entry K U gr w e = do {
     n \<leftarrow> enum_set_name K U gr w e;
     State_Monad.return (case n of None \<Rightarrow> None
       | Some (ok, e) \<Rightarrow> Some (if ok then (0, e\<lparr>en_idx := en_idx e + 1\<rparr>) else (-1, e)))
   }"

definition ffwinreg_enum_nextkey :: "'w kernel \<Rightarrow> wconv \<Rightarrow> (nat \<Rightarrow> nat \<Rightarrow> nat) \<Rightarrow> ffwinreg_enum \<Rightarrow> 'w sys
    \<Rightarrow> ((int \<times> ffwinreg_enum) option \<times> 'w sys) option" where
  "ffwinreg_enum_nextkey K U gr e s =
     (case nextkey_loop K gr e s of
        None \<Rightarrow> None
      | Some ((Inr r, e'), s') \<Rightarrow> Some (Some (r, e'), s')
      | Some ((Inl w, e'), s') \<Rightarrow> Some (run_state (enum_entry K U gr w e') s'))"

text \<open>
  Values as text.  \<open>fmt32\<close>, \<open>fmt64\<close> and \<open>hex\<close> are ffbase's formatting of a number and of a
  block into a buffer of a given capacity, empty when it does not fit.
\<close>

record reg_fmt =
  fmt32 :: "nat \<Rightarrow> u32 \<Rightarrow> string"
  fmt64 :: "nat \<Rightarrow> u64 \<Rightarrow> string"
  fmt_hex :: "nat \<Rightarrow> bytes \<Rightarrow> string"

definition ffwinreg_val_str :: "'w kernel \<Rightarrow> wconv \<Rightarrow> (nat \<Rightarrow> nat \<Rightarrow> nat) \<Rightarrow> reg_fmt \<Rightarrow> u32 \<Rightarrow> ffwinreg_enum
    \<Rightarrow> ('w, (int \<times> ffwinreg_enum) option) prog" where
  "ffwinreg_val_str K U gr F type e =
     (let e = e\<lparr>en_value := []\<rparr>; d = en_wval e in
      if type = REG_DWORD then
        State_Monad.return (Some (0, e\<lparr>en_value := fmt32 F (en_value_cap e) (of_nat (field 0 4 d))\<rparr>))
      else if type = REG_QWORD then
        State_Monad.return (Some (0, e\<lparr>en_value := fmt64 F (en_value_cap e) (of_nat (field 0 8 d))\<rparr>))
      else if type = REG_BINARY then do {
        let cap = gr (en_value_cap e) (length d * 2);
        p \<leftarrow> sysi K (Mem (MRealloc (en_value_ptr e) cap));
        State_Monad.return (Some (if p = 0 then (-1, e)
          else (0, e\<lparr>en_value_ptr := p, en_value_cap := cap, en_value := fmt_hex F cap d\<rparr>)))
      }
      else if ffwinreg_isstr type then
        (if d = [] then State_Monad.return (Some (0, e))
         else do {
           let cap = gr (en_value_cap e) (length d div 2 * 4);
           p \<leftarrow> sysi K (Mem (MRealloc (en_value_ptr e) cap));
           if p = 0 then State_Monad.return (Some (-1, e))
           else do {
             let x = ffs_wtou U cap (take ((length d - 1) div 2) (wide_of d));
             State_Monad.return (if fst x < 0 then None
               else Some (0, e\<lparr>en_value_ptr := p, en_value_cap := cap, en_value := take (nat (fst x)) (snd x)\<rparr>))
           }
         })
      else do { fferr_set ERROR_INVALID_DATA; State_Monad.return (Some (-1, e)) })"

definition nextval_round :: "'w kernel \<Rightarrow> (nat \<Rightarrow> nat \<Rightarrow> nat) \<Rightarrow> ffwinreg_enum
    \<Rightarrow> ('w, ((wstr \<times> u32 \<times> bytes + int) \<times> ffwinreg_enum) + ffwinreg_enum) prog" where
  "nextval_round K gr e = do {
     x \<leftarrow> sys K (Reg (RegEnumValueW (en_key e) (en_idx e) (en_wname_cap e) (en_wval_cap e)));
     if rv x = 0 then State_Monad.return (Inl (Inl (out_enum x), e))
     else if rv x = ERROR_MORE_DATA then do {
       q \<leftarrow> sys K (Reg (RegQueryInfoKeyW (en_key e)));
       if rv q \<noteq> 0 then State_Monad.return (Inl (Inr (-1), e))
       else do {
         let ncap = gr (en_wname_cap e) (nat (out_int q 3) + 1);
         p \<leftarrow> sysi K (Mem (MRealloc (en_wname_ptr e) (ncap * 2)));
         if p = 0 then State_Monad.return (Inl (Inr (-1), e))
         else do {
           let e = e\<lparr>en_wname_ptr := p, en_wname_cap := ncap\<rparr>;
           let vcap = gr (en_wval_cap e) (nat (out_int q 4));
           p \<leftarrow> sysi K (Mem (MRealloc (en_wval_ptr e) vcap));
           State_Monad.return (if p = 0 then Inl (Inr (-1), e)
             else Inr (e\<lparr>en_wval_ptr := p, en_wval_cap := vcap\<rparr>))
         }
       }
     }
     else if rv x = ERROR_NO_MORE_ITEMS then State_Monad.return (Inl (Inr 1, e))
     else do { fferr_set (rv x); State_Monad.return (Inl (Inr (-1), e)) }
   }"

partial_function (option) nextval_loop :: "'w kernel \<Rightarrow> (nat \<Rightarrow> nat \<Rightarrow> nat) \<Rightarrow> ffwinreg_enum \<Rightarrow> 'w sys
    \<Rightarrow> (((wstr \<times> u32 \<times> bytes + int) \<times> ffwinreg_enum) \<times> 'w sys) option" where
  "nextval_loop K gr e s =
     (let x = run_state (nextval_round K gr e) s
      in case fst x of Inl y \<Rightarrow> Some (y, snd x) | Inr e' \<Rightarrow> nextval_loop K gr e' (snd x))"

text \<open>After the loop: the name, then the value; the index moves on at the end.\<close>

definition enum_value_entry :: "'w kernel \<Rightarrow> wconv \<Rightarrow> (nat \<Rightarrow> nat \<Rightarrow> nat) \<Rightarrow> reg_fmt \<Rightarrow> wstr \<Rightarrow> u32 \<Rightarrow> bytes
    \<Rightarrow> ffwinreg_enum \<Rightarrow> ('w, (int \<times> ffwinreg_enum \<times> u32 option) option) prog" where
  "enum_value_entry K U gr F w type d e = do {
     n \<leftarrow> enum_set_name K U gr w (e\<lparr>en_wval := d\<rparr>);
     case n of
       None \<Rightarrow> State_Monad.return None
     | Some r \<Rightarrow>
         if \<not> fst r then State_Monad.return (Some (-1, snd r, None))
         else if tst (en_options (snd r)) FFWINREG_ENUM_VALSTR then do {
           v \<leftarrow> ffwinreg_val_str K U gr F type (snd r);
           State_Monad.return (case v of None \<Rightarrow> None
             | Some (rc, e) \<Rightarrow> Some (if rc \<noteq> 0 then (-1, e, Some type)
                 else (0, e\<lparr>en_idx := en_idx e + 1\<rparr>, Some type)))
         }
         else State_Monad.return (Some (0, (snd r)\<lparr>en_idx := en_idx (snd r) + 1\<rparr>, Some type))
   }"

text \<open>The value that the caller sees is \<open>en_value\<close> or, without the option, \<open>en_wval\<close>; the third
  part of the result is \<open>*value_type\<close> if it was written.\<close>

definition ffwinreg_enum_nextval :: "'w kernel \<Rightarrow> wconv \<Rightarrow> (nat \<Rightarrow> nat \<Rightarrow> nat) \<Rightarrow> reg_fmt \<Rightarrow> ffwinreg_enum
    \<Rightarrow> 'w sys \<Rightarrow> ((int \<times> ffwinreg_enum \<times> u32 option) option \<times> 'w sys) option" where
  "ffwinreg_enum_nextval K U gr F e s =
     (case nextval_loop K gr e s of
        None \<Rightarrow> None
      | Some ((Inr r, e'), s') \<Rightarrow> Some (Some (r, e', None), s')
      | Some ((Inl (w, type, d), e'), s') \<Rightarrow> Some (run_state (enum_value_entry K U gr F w type d e') s'))"

subsection \<open>Keys and memory\<close>

lemma wp_utow_any:
  assumes "heap_after (trace s) \<noteq> None"
    and "\<And>w s'. heap_after (trace s') = Some (the (heap_after (trace s)) + w_heap w)
      \<Longrightarrow> fds_after (trace s') = fds_after (trace s) \<Longrightarrow> Q w s'"
  shows "wp (ffsz_alloc_buf_utow K U dst t) Q s"
  using assms by (intro wp_utow) auto

text \<open>
  \<open>ffwinreg_open\<close> gives back its memory; the only key that is open afterwards is the one it
  returns, except in the mode \<open>FFWINREG_CREATENEW\<close> when the key exists already.
\<close>

lemma winreg_open_resources:
  "wp (ffwinreg_open K U hk path flags)
     (\<lambda>k s. heap_clean (trace s) \<and>
        (flags AND 0xf \<noteq> FFWINREG_CREATENEW \<longrightarrow>
           fds_after (trace s) = Some {#k#} \<or> k = FFWINREG_NULL \<and> fds_after (trace s) = Some {#}))
     (start w e)"
  unfolding ffwinreg_open_def heap_clean_def Let_def
  by (intro wp_intros wp_utow_any wp_res) (auto simp: fd_step_def closed_def)

text \<open>In that mode the key that was opened is neither returned nor closed.\<close>

lemma winreg_createnew_leaks:
  assumes "flags AND 0xf = FFWINREG_CREATENEW" "fst (ffsz_utow U 255 path) > 0"
    and "\<And>c w. fst (K (Reg (RegCreateKeyExW hk c (reg_access flags))) w) = \<lparr>rv = 0, rerr = None, rout = OInts [key, 2]\<rparr>"
  shows "wp (ffwinreg_open K U hk path flags)
     (\<lambda>k s. k = FFWINREG_NULL \<and> lasterr s = ERROR_ALREADY_EXISTS \<and> fds_after (trace s) = Some {#key#}) (start w e)"
proof -
  have x: "r = \<lparr>rv = 0, rerr = None, rout = OInts [key, 2]\<rparr>"
    if "K (Reg (RegCreateKeyExW hk c (reg_access flags))) w = (r, w')" for c w r w'
    using assms(3) [of c w] that by simp
  show ?thesis
    unfolding ffwinreg_open_def Let_def assms(1) ffsz_alloc_buf_utow_def w_free_def
    using assms(2)
    by simp (intro wp_intros; auto dest!: x simp: fd_step_def closed_def)
qed

subsection \<open>Reading: at most two queries, no memory lost\<close>

text \<open>
  \<open>n0\<close>: the caller passed no buffer, so that a block in the value is a new one.
\<close>

definition rr_blocks :: "bool \<Rightarrow> regread \<Rightarrow> int multiset" where
  "rr_blocks n0 st = block (rr_outbuf st) + (if n0 then block (val_ptr (rr_val st)) else {#})"

definition rr_ok :: "bool \<Rightarrow> int multiset \<Rightarrow> regread \<Rightarrow> 'w sys \<Rightarrow> bool" where
  "rr_ok n0 h st s \<longleftrightarrow> heap_after (trace s) = Some (rr_blocks n0 st + h) \<and> (\<not> n0 \<longrightarrow> val_ptr (rr_val st) \<noteq> 0) \<and>
     (rr_user st \<longrightarrow> rr_outbuf st = 0 \<and> \<not> n0)"

lemma fd_step_reg:
  "fd_step d (Reg (RegQueryValueExW k n c), r) = d" "fd_step d (Reg (RegSetValueExW k n t b), r) = d"
  "fd_step d (Reg (RegQueryInfoKeyW k), r) = d" "fd_step d (Reg (RegEnumKeyExW k i c), r) = d"
  "fd_step d (Reg (RegEnumValueW k i c c'), r) = d"
  by (cases d; simp add: fd_step_def closed_def)+

lemma wp_read_text:
  assumes "rr_ok n0 h st s"
  shows "wp (read_text K U wlen d sz st)
    (\<lambda>x s'. fst x \<in> {-1, 0, 1} \<and> rr_ok n0 h (snd x) s' \<and> fds_after (trace s') = fds_after (trace s) \<and>
       sys_calls s' = sys_calls s) s"
  using assms unfolding read_text_def Let_def rr_ok_def
  by (intro wp_intros) (auto simp: rr_blocks_def block_def sys_calls_def calls_of_def is_mem_def)

lemma wp_read_other:
  assumes "rr_ok n0 h st s"
  shows "wp (read_other K d sz st)
    (\<lambda>x s'. fst x \<in> {-1, 0, 1} \<and> rr_ok n0 h (snd x) s' \<and> fds_after (trace s') = fds_after (trace s) \<and>
       sys_calls s' = sys_calls s) s"
  using assms unfolding read_other_def Let_def rr_ok_def
  by (intro wp_intros) (auto simp: rr_blocks_def block_def sys_calls_def calls_of_def is_mem_def)

lemma wp_read_round:
  assumes "rr_ok n0 h st s"
  shows "wp (read_round K U wlen k wname st)
    (\<lambda>x s'. fds_after (trace s') = fds_after (trace s) \<and>
       (\<exists>c. sys_calls s' = sys_calls s @ [Reg (RegQueryValueExW k wname c)]) \<and>
       (case x of Inl y \<Rightarrow> fst y \<in> {-1, 0, 1} \<and> rr_ok n0 h (snd (snd y)) s'
        | Inr y \<Rightarrow> rr_outbuf st = 0 \<and> rr_outbuf (snd y) \<noteq> 0 \<and> rr_ok n0 h (snd y) s')) s"
proof -
  let ?q = "\<lambda>x s'. fds_after (trace s') = fds_after (trace s) \<and>
       (\<exists>c. sys_calls s' = sys_calls s @ [Reg (RegQueryValueExW k wname c)]) \<and>
       (case x of Inl y \<Rightarrow> fst y \<in> {-1, 0, 1} \<and> rr_ok n0 h (snd (snd y)) s'
        | Inr y \<Rightarrow> rr_outbuf st = 0 \<and> rr_outbuf (snd y) \<noteq> 0 \<and> rr_ok n0 h (snd y) s')"
  have q: "rr_ok n0 h st s1" "fds_after (trace s1) = fds_after (trace s)"
    "sys_calls s1 = sys_calls s @ [Reg (RegQueryValueExW k wname c)]"
    if "trace s1 = trace s @ [(Reg (RegQueryValueExW k wname c), r)]" for s1 :: "'a sys" and r :: reply and c
    using assms that by (simp_all add: rr_ok_def fd_step_reg sys_calls_def calls_of_def is_mem_def)
  have T: "wp (read_text K U wlen d sz st) (\<lambda>y. wp (State_Monad.return (Inl (fst y, t, snd y))) ?q) s1"
    "wp (read_other K d sz st) (\<lambda>y. wp (State_Monad.return (Inl (fst y, t, snd y))) ?q) s1"
    if "trace s1 = trace s @ [(Reg (RegQueryValueExW k wname c), r)]" for s1 :: "'a sys" and r :: reply and c d sz t
    using q [OF that]
    by (auto intro!: wp_mono [OF wp_read_text] wp_mono [OF wp_read_other] wp_return)
  show ?thesis
    unfolding read_round_def
    by (intro wp_intros T)
      (use assms in \<open>auto simp: rr_ok_def rr_blocks_def block_def fd_step_reg sys_calls_def calls_of_def is_mem_def\<close>)
qed

lemma read_loop_returns:
  fixes s :: "'w sys"
  assumes "rr_ok n0 h st s"
  shows "\<exists>r t st' s'. read_loop K U wlen k wname st s = Some ((r, t, st'), s') \<and> r \<in> {-1, 0, 1} \<and>
     rr_ok n0 h st' s' \<and> fds_after (trace s') = fds_after (trace s) \<and>
     length (sys_calls s') \<le> length (sys_calls s) + (if rr_outbuf st = 0 then 2 else 1)"
proof -
  have one: "\<exists>r t st' s'. read_loop K U wlen k wname st1 s1 = Some ((r, t, st'), s') \<and> r \<in> {-1, 0, 1} \<and>
     rr_ok n0 h st' s' \<and> fds_after (trace s') = fds_after (trace s1) \<and>
     length (sys_calls s') \<le> length (sys_calls s1) + 1"
    if "rr_ok n0 h st1 s1" "rr_outbuf st1 \<noteq> 0" for st1 and s1 :: "'w sys"
    using wpD [OF wp_read_round [OF that(1)], of K U wlen k wname] that(2)
    by (subst read_loop.simps) (auto simp: Let_def split: sum.splits)
  show ?thesis
  proof (cases "fst (run_state (read_round K U wlen k wname st) s)")
    case (Inl a)
    obtain r t st' where "a = (r, t, st')" by (rule prod_cases3)
    with Inl show ?thesis
      using wpD [OF wp_read_round [OF assms], of K U wlen k wname]
      by (subst read_loop.simps) (auto simp: Let_def)
  next
    case (Inr b)
    let ?s = "snd (run_state (read_round K U wlen k wname st) s)"
    have r: "rr_outbuf st = 0" "rr_outbuf (snd b) \<noteq> 0" "rr_ok n0 h (snd b) ?s"
      "fds_after (trace ?s) = fds_after (trace s)" "length (sys_calls ?s) = length (sys_calls s) + 1"
      using wpD [OF wp_read_round [OF assms], of K U wlen k wname] Inr by auto
    have "read_loop K U wlen k wname st s = read_loop K U wlen k wname (snd b) ?s"
      by (subst read_loop.simps) (simp add: Let_def Inr)
    with one [OF r(3,2)] r show ?thesis by fastforce
  qed
qed

lemma wp_ffs_utow:
  assumes "heap_after (trace s) = Some h"
  shows "wp (ffs_utow K U dst t nul)
    (\<lambda>x s'. heap_after (trace s') = Some (w_heap (fst x) + h) \<and> fds_after (trace s') = fds_after (trace s) \<and>
       sys_calls s' = sys_calls s) s"
  using assms unfolding ffs_utow_def
  by (intro wp_intros) (auto simp: sys_calls_def calls_of_def is_mem_def)

lemma wp_read_end:
  assumes "rr_ok n0 (w_heap wname) st s"
  shows "wp (read_end K wname r t st)
    (\<lambda>x s'. fst x = r \<and> val_ptr (snd x) = val_ptr (rr_val st) \<and>
       heap_after (trace s') = Some (if n0 then block (val_ptr (rr_val st)) else {#}) \<and>
       fds_after (trace s') = fds_after (trace s) \<and> length (sys_calls s') = length (sys_calls s)) s"
proof -
  have f: "filter ((\<lambda>x. \<not> is_mem x) \<circ> fst) u = []" if "\<forall>x\<in>set u. \<exists>p. fst x = Mem (MFree p)"
    for u :: "(call \<times> reply) list"
    using that by (fastforce simp: filter_empty_conv is_mem_def)
  have m: "is_mem (Mem x)" for x by (simp add: is_mem_def)
  show ?thesis
    using assms unfolding read_end_def Let_def rr_ok_def
    by (intro wp_intros wp_w_free_sub)
      (auto simp: rr_blocks_def block_def sys_calls_def calls_of_def filter_map m f)
qed

text \<open>
  Claim C28.  \<open>ffwinreg_read\<close> always returns, with \<open>-1\<close>, \<open>0\<close> or \<open>1\<close>, after asking the registry at most
  twice, however the value changes meanwhile.  All temporary buffers are freed: if the caller gave a
  buffer nothing stays allocated, otherwise just the block the value points to.
\<close>

theorem winreg_read_returns:
  "\<exists>r val' s'. ffwinreg_read K U wlen junk k name val (start w e) = Some ((r, val'), s') \<and> r \<in> {-1, 0, 1} \<and>
     length (sys_calls s') \<le> 2 \<and> fds_after (trace s') = Some {#} \<and>
     heap_after (trace s') = Some (if val_ptr val = 0 then block (val_ptr val') else {#})"
proof -
  let ?w = "run_state (ffs_utow K U (Some 256) name True) (start w e)"
  let ?st = "\<lparr>rr_val = val, rr_user = (val_ptr val \<noteq> 0),
                rr_size = (if val_ptr val \<noteq> 0 then val_len val else 256), rr_outbuf = 0\<rparr>"
  let ?n = "val_ptr val = 0"
  obtain wn n s1 where w: "?w = ((wn, n), s1)" by (metis surj_pair)
  have u: "heap_after (trace s1) = Some (w_heap wn)" "fds_after (trace s1) = Some {#}" "sys_calls s1 = []"
    using wpD [OF wp_ffs_utow, of "start w e" "{#}" K U "Some 256" name True] w
    by (simp_all add: sys_calls_def calls_of_def)
  have ok: "rr_ok ?n (w_heap wn) ?st s1" using u by (simp add: rr_ok_def rr_blocks_def block_def)
  show ?thesis
  proof (cases "wn = WNull")
    case True
    obtain r v s2 where "run_state (read_end K wn 0 junk ?st) s1 = ((r, v), s2)" by (metis surj_pair)
    with True show ?thesis
      using wpD [OF wp_read_end [OF ok], of K 0 junk] u by (simp add: ffwinreg_read_def w Let_def)
  next
    case False
    obtain r t st' s2 where l: "read_loop K U wlen k (w_chars wn) ?st s1 = Some ((r, t, st'), s2)"
      "r \<in> {-1, 0, 1}" "rr_ok ?n (w_heap wn) st' s2" "fds_after (trace s2) = Some {#}" "length (sys_calls s2) \<le> 2"
      using read_loop_returns [OF ok, of K U wlen k "w_chars wn"] u by auto
    obtain r' v s3 where "run_state (read_end K wn r t st') s2 = ((r', v), s3)" by (metis surj_pair)
    with False l show ?thesis
      using wpD [OF wp_read_end [OF l(3)], of K r t] by (simp add: ffwinreg_read_def w Let_def)
  qed
qed

subsection \<open>What is written is read back\<close>






lemma stack_conversions:
  "0 < fst (ffsz_utow U 256 t) \<Longrightarrow> utow256 K U t = State_Monad.return (WStack (snd (ffsz_utow U 256 t)))"
  "0 < fst (ffsz_utow U 256 t) \<Longrightarrow> ffs_utow K U (Some 256) t True =
     State_Monad.return (WStack (snd (ffsz_utow U 256 t)), nat (fst (ffsz_utow U 256 t)))"
  "0 \<le> fst (ffutf8_to_utf16 U (Some 512) t) \<Longrightarrow> ffs_alloc_buf_utow K U (Some 256) 256 t =
     State_Monad.return (WStack (snd (ffutf8_to_utf16 U (Some 512) t)), nat (fst (ffutf8_to_utf16 U (Some 512) t) div 2))"
  "w_free K (WStack x) = State_Monad.return ()"
  "w_free K WNull = do { sysi K (Mem (MFree 0)); State_Monad.return () }"
  by (simp_all add: utow256_def ffsz_alloc_buf_utow_def ffs_utow_def ff_utow_def ffs_alloc_buf_utow_def
      w_free_def Let_def)









definition asciiU :: wconv where
  "asciiU = \<lparr>
     ffsz_utow = (\<lambda>n t. (int (length t) + 1, map (\<lambda>c. of_nat (uchar c)) t)),
     ffutf8_to_utf16 = (\<lambda>n t. (2 * int (length t), map (\<lambda>c. of_nat (uchar c)) t)),
     ffsz_wtou = (\<lambda>n w. (int (length w), map (\<lambda>c. char_of (unat c)) w)),
     ffs_wtou = (\<lambda>n w. (int (length w), map (\<lambda>c. char_of (unat c)) w)),
     wcsicmp = (\<lambda>a b. if a = b then 0 else 1)\<rparr>"


subsection \<open>Enumeration lists the subkeys\<close>

text \<open>
  What is documented of enumeration: the call gives the subkey of the index if its name and the
  terminator fit, asks for more room otherwise, and says so when there is none of that index; the
  information on a key has the length of the longest name.  \<open>ks\<close> are the names of the
  subkeys.  Memory is never short, ffbase grows a vector at least to the size asked for, and a name
  converts into four bytes a character.
\<close>

definition enum_laws :: "'w kernel \<Rightarrow> int \<Rightarrow> wstr list \<Rightarrow> bool" where
  "enum_laws K k ks \<longleftrightarrow>
     (\<forall>i c w r w'. K (Reg (RegEnumKeyExW k i c)) w = (r, w') \<longrightarrow>
        (if unat i < length ks
         then (if length (ks ! unat i) < c then rv r = 0 \<and> (\<exists>t d. rout r = OEnum (ks ! unat i) t d)
               else rv r = ERROR_MORE_DATA)
         else rv r = ERROR_NO_MORE_ITEMS)) \<and>
     (\<forall>w r w'. K (Reg (RegQueryInfoKeyW k)) w = (r, w') \<longrightarrow>
        rv r = 0 \<and> (\<forall>n\<in>set ks. int (length n) \<le> out_int r 1)) \<and>
     (\<forall>p n w r w'. K (Mem (MRealloc p n)) w = (r, w') \<longrightarrow> rv r \<noteq> 0)"

lemma enum_lawsD:
  assumes "enum_laws K k ks"
  shows "K (Reg (RegEnumKeyExW k i c)) w = (r, w') \<Longrightarrow> unat i < length ks \<Longrightarrow> length (ks ! unat i) < c
      \<Longrightarrow> rv r = 0 \<and> fst (out_enum r) = ks ! unat i"
    and "K (Reg (RegEnumKeyExW k i c)) w = (r, w') \<Longrightarrow> unat i < length ks \<Longrightarrow> \<not> length (ks ! unat i) < c
      \<Longrightarrow> rv r = ERROR_MORE_DATA"
    and "K (Reg (RegEnumKeyExW k i c)) w = (r, w') \<Longrightarrow> \<not> unat i < length ks \<Longrightarrow> rv r = ERROR_NO_MORE_ITEMS"
    and "K (Reg (RegQueryInfoKeyW k)) w = (r, w') \<Longrightarrow> rv r = 0 \<and> (\<forall>n\<in>set ks. int (length n) \<le> out_int r 1)"
    and "K (Mem (MRealloc p n)) w = (r, w') \<Longrightarrow> rv r \<noteq> 0"
  using assms unfolding enum_laws_def by (fastforce simp: out_enum_def)+

definition name_conv :: "wconv \<Rightarrow> (wstr \<Rightarrow> string) \<Rightarrow> wstr \<Rightarrow> bool" where
  "name_conv U cv w \<longleftrightarrow> length w < 2 ^ 30 \<and>
     (\<forall>cap\<ge>4 * length w. ffs_wtou U cap w = (int (length (cv w)), cv w))"

text \<open>The caller's loop over \<open>ffwinreg_enum_nextkey\<close>.\<close>

primrec list_keys :: "'w kernel \<Rightarrow> wconv \<Rightarrow> (nat \<Rightarrow> nat \<Rightarrow> nat) \<Rightarrow> nat \<Rightarrow> ffwinreg_enum \<Rightarrow> 'w sys \<Rightarrow> string list option" where
  "list_keys K U gr 0 e s = None"
| "list_keys K U gr (Suc n) e s =
     (case ffwinreg_enum_nextkey K U gr e s of
        Some (Some (r, e'), s') \<Rightarrow>
          if r = 0 then map_option (Cons (en_name e')) (list_keys K U gr n e' s')
          else if r = 1 then Some [] else None
      | _ \<Rightarrow> None)"

lemma wp_nextkey_round:
  assumes L: "enum_laws K (en_key e) ks" and gr: "\<forall>c n. n \<le> gr c n" and i: "unat (en_idx e) < length ks"
  shows "wp (nextkey_round K gr e)
    (\<lambda>x s'. case x of
        Inl y \<Rightarrow> y = (Inl (ks ! unat (en_idx e)), e)
      | Inr e' \<Rightarrow> en_wname_cap e \<le> length (ks ! unat (en_idx e)) \<and> length (ks ! unat (en_idx e)) < en_wname_cap e' \<and>
          en_key e' = en_key e \<and> en_idx e' = en_idx e) s"
proof -
  let ?n = "ks ! unat (en_idx e)"
  have g: "length ?n < gr c (Suc (nat m))" if "\<forall>n\<in>set ks. int (length n) \<le> m" for c m
  proof -
    have "int (length ?n) \<le> m" using that i by simp
    moreover have "Suc (nat m) \<le> gr c (Suc (nat m))" using gr by blast
    ultimately show ?thesis by linarith
  qed
  have E: "if length ?n < en_wname_cap e then rv r = 0 \<and> fst (out_enum r) = ?n else rv r = ERROR_MORE_DATA"
    if "K (Reg (RegEnumKeyExW (en_key e) (en_idx e) (en_wname_cap e))) (world s) = (r, w')" for r w'
    using enum_lawsD(1,2) [OF L that i] by simp
  show ?thesis
    unfolding nextkey_round_def Let_def
    by (intro wp_intros)
      (auto simp del: out_int.simps simp: g dest!: E enum_lawsD(4,5) [OF L] split: if_splits)
qed

lemma nextkey_loop_hit:
  fixes s :: "'w sys"
  assumes L: "enum_laws K k ks" and gr: "\<forall>c n. n \<le> gr c n"
  shows "en_key e = k \<Longrightarrow> unat (en_idx e) < length ks \<Longrightarrow>
    \<exists>e' s'. nextkey_loop K gr e s = Some ((Inl (ks ! unat (en_idx e)), e'), s') \<and>
      en_key e' = k \<and> en_idx e' = en_idx e"
proof (induction "length (ks ! unat (en_idx e)) + 1 - en_wname_cap e" arbitrary: e s rule: less_induct)
  case less
  obtain x s2 where x: "run_state (nextkey_round K gr e) s = (x, s2)" by fastforce
  note P = wpD [OF wp_nextkey_round [OF L [folded less.prems(1)] gr less.prems(2), where s = s], unfolded x fst_conv snd_conv]
  show ?case
  proof (cases x)
    case (Inl y)
    with P x less.prems(1) show ?thesis by (subst nextkey_loop.simps) (simp add: Let_def)
  next
    case (Inr e')
    then have "nextkey_loop K gr e s = nextkey_loop K gr e' s2"
      by (subst nextkey_loop.simps) (simp add: Let_def x)
    with Inr P less.hyps [of e' s2] less.prems show ?thesis by simp
  qed
qed

lemma nextkey_hit:
  fixes s :: "'w sys"
  assumes L: "enum_laws K k ks" and gr: "\<forall>c n. n \<le> gr c n" and e: "en_key e = k" "unat (en_idx e) < length ks"
    and c: "name_conv U cv (ks ! unat (en_idx e))"
  shows "\<exists>e' s'. ffwinreg_enum_nextkey K U gr e s = Some (Some (0, e'), s') \<and> en_key e' = k \<and>
    en_idx e' = en_idx e + 1 \<and> en_name e' = cv (ks ! unat (en_idx e))"
proof -
  let ?n = "ks ! unat (en_idx e)"
  obtain e1 s1 where l: "nextkey_loop K gr e s = Some ((Inl ?n, e1), s1)" "en_key e1 = k" "en_idx e1 = en_idx e"
    using nextkey_loop_hit [where e = e and s = s, OF L gr e] by blast
  have "unat ((of_nat (length ?n) :: u32) * 4) = 4 * length ?n"
    using c by (simp add: name_conv_def unat_word_ariths unat_of_nat)
  then have cv: "ffs_wtou U (gr a (unat ((of_nat (length ?n) :: u32) * 4))) ?n = (int (length (cv ?n)), cv ?n)" for a
    using c gr [rule_format, of "4 * length ?n" a] by (simp add: name_conv_def)
  have "wp (enum_entry K U gr ?n e1) (\<lambda>x s'. \<exists>e'. x = Some (0, e') \<and> en_key e' = k \<and>
      en_idx e' = en_idx e + 1 \<and> en_name e' = cv ?n) s1"
    unfolding enum_entry_def enum_set_name_def
    by (intro wp_intros) (auto simp: cv l(2,3) dest: enum_lawsD(5) [OF L])
  from wpD [OF this] l(1) show ?thesis
    by (auto simp: ffwinreg_enum_nextkey_def) (metis prod.collapse)
qed

lemma nextkey_end:
  assumes L: "enum_laws K k ks" and e: "en_key e = k" "\<not> unat (en_idx e) < length ks"
  shows "\<exists>e' s'. ffwinreg_enum_nextkey K U gr e s = Some (Some (1, e'), s')"
proof -
  have "wp (nextkey_round K gr e) (\<lambda>x s'. x = Inl (Inr 1, e)) s"
    unfolding nextkey_round_def using e(2)
    by (intro wp_intros) (auto dest: enum_lawsD(3) [OF L [folded e(1)]])
  from wpD [OF this] have "nextkey_loop K gr e s = Some ((Inr 1, e), snd (run_state (nextkey_round K gr e) s))"
    by (subst nextkey_loop.simps) (simp add: Let_def)
  then show ?thesis by (simp add: ffwinreg_enum_nextkey_def)
qed

lemma list_keys_from:
  fixes s :: "'w sys"
  assumes L: "enum_laws K k ks" and gr: "\<forall>c n. n \<le> gr c n"
    and c: "\<forall>n\<in>set ks. name_conv U cv n" and len: "length ks < 2 ^ 32"
  shows "en_key e = k \<Longrightarrow> unat (en_idx e) \<le> length ks \<Longrightarrow> length ks - unat (en_idx e) < n \<Longrightarrow>
    list_keys K U gr n e s = Some (map cv (drop (unat (en_idx e)) ks))"
proof (induction n arbitrary: e s)
  case (Suc n)
  let ?i = "unat (en_idx e)"
  show ?case
  proof (cases "?i < length ks")
    case True
    obtain e' s' where h: "ffwinreg_enum_nextkey K U gr e s = Some (Some (0, e'), s')" "en_key e' = k"
        "en_idx e' = en_idx e + 1" "en_name e' = cv (ks ! ?i)"
      using nextkey_hit [where e = e and s = s and U = U and cv = cv, OF L gr Suc.prems(1) True] c True by auto
    have i: "unat (en_idx e') = ?i + 1"
      using True len h(3) by (simp add: unat_word_ariths)
    have "list_keys K U gr n e' s' = Some (map cv (drop (?i + 1) ks))"
      using Suc.IH [of e' s'] Suc.prems h(2) i True by simp
    then show ?thesis using h True by (simp add: Cons_nth_drop_Suc [symmetric])
  next
    case False
    then show ?thesis using nextkey_end [OF L Suc.prems(1), of U gr s] by auto
  qed
qed simp

text \<open>
  Claim C15.  Beginning an enumeration and calling \<open>ffwinreg_enum_nextkey\<close> until it returns \<open>1\<close> gives
  the names of all subkeys, each once and in the order of the system, however long they are; every
  call returns.
\<close>

theorem winreg_enum_lists_keys:
  fixes s :: "'w sys"
  assumes "enum_laws K k ks" "\<forall>c n. n \<le> gr c n" "\<forall>n\<in>set ks. name_conv U cv n" "length ks < 2 ^ 32"
    and "length ks < n"
  shows "list_keys K U gr n (ffwinreg_enum_begin e k) s = Some (map cv ks)"
  using list_keys_from [where e = "ffwinreg_enum_begin e k" and s = s and n = n, OF assms(1-4)] assms(5)
  by (simp add: ffwinreg_enum_begin_def)

text \<open>A key with two subkeys, the second one too long for the first buffer.\<close>

definition subkeysK :: "wstr list \<Rightarrow> call \<Rightarrow> unit \<Rightarrow> reply \<times> unit" where
  "subkeysK ks c w = (case c of
      Reg f \<Rightarrow> (case f of
          RegEnumKeyExW k i c \<Rightarrow>
            (if unat i < length ks
             then (if length (ks ! unat i) < c then \<lparr>rv = 0, rerr = None, rout = OEnum (ks ! unat i) 0 []\<rparr>
                   else \<lparr>rv = ERROR_MORE_DATA, rerr = None, rout = NoOut\<rparr>)
             else \<lparr>rv = ERROR_NO_MORE_ITEMS, rerr = None, rout = NoOut\<rparr>, w)
        | RegQueryInfoKeyW k \<Rightarrow> (\<lparr>rv = 0, rerr = None, rout = OInts [int (length ks), int (sum_list (map length ks))]\<rparr>, w)
        | _ \<Rightarrow> (\<lparr>rv = 1, rerr = None, rout = NoOut\<rparr>, w))
    | _ \<Rightarrow> (\<lparr>rv = 1, rerr = None, rout = NoOut\<rparr>, w))"

lemma subkeysK_laws: "enum_laws (subkeysK ks) k ks"
proof -
  have "int (length n) \<le> int (sum_list (map length ks))" if "n \<in> set ks" for n
    using member_le_sum_list [of "length n" "map length ks"] that by simp
  then show ?thesis by (auto simp: enum_laws_def subkeysK_def)
qed

definition enum_zero :: ffwinreg_enum where
  "enum_zero = \<lparr>en_key = 0, en_idx = 0, en_options = 0, en_name_ptr = 0, en_name_cap = 0, en_name = [],
     en_value_ptr = 0, en_value_cap = 0, en_value = [], en_wname_ptr = 0, en_wname_cap = 0,
     en_wval_ptr = 0, en_wval_cap = 0, en_wval = []\<rparr>"

theorem winreg_enum_lists_keys_witness:
  "list_keys (subkeysK [[97], replicate 300 98]) asciiU max 3 (ffwinreg_enum_begin enum_zero 5) (start () 0) =
     Some [''a'', replicate 300 CHR ''b'']"
proof -
  have c: "\<forall>n\<in>set [[97], replicate 300 98]. name_conv asciiU (map (\<lambda>c. char_of (unat c))) n"
    by (simp add: name_conv_def asciiU_def)
  have gr: "\<forall>(c :: nat) n. n \<le> max c n" by simp
  show ?thesis
    using winreg_enum_lists_keys [where n = 3 and k = 5 and e = enum_zero and s = "start () 0", OF subkeysK_laws gr c]
    by (simp add: char_of_def bit_0)
qed

text \<open>Initialising a zeroed enumerator allocates its four vectors or, on failure, nothing; destroying it
  gives them back.\<close>

lemma winreg_enum_init_resources:
  "wp (ffwinreg_enum_init K enum_zero options)
     (\<lambda>x s. fst x \<in> {0, -1} \<and> (fst x = -1 \<longrightarrow> heap_clean (trace s))) (start w e) \<and>
   wp (do { x \<leftarrow> ffwinreg_enum_init K enum_zero options;
            if fst x = 0 then ffwinreg_enum_destroy K (snd x) else State_Monad.return (snd x) })
     (\<lambda>x s. heap_clean (trace s)) (start w e)"
  unfolding ffwinreg_enum_init_def ffwinreg_enum_destroy_def Let_def enum_zero_def heap_clean_def
  by (intro conjI wp_intros) (auto simp: heap_step_def)

text \<open>
  The terminator that \<open>ffwinreg_write\<close> appends is outside the buffer when the text fills the
  array of 256 characters, and always when the text did not fit the array, since the block is
  allocated for the text alone.
\<close>

lemma winreg_write_overruns:
  assumes "0 < fst (ffsz_utow U 256 name)" "ffwinreg_isstr (val_type val)"
    and "fst (ffutf8_to_utf16 U (Some 512) (chars_of (take (val_len val) (val_text val)))) = 512"
  shows "fst (run_state (ffwinreg_write K U k name val) s) = None"
  using assms(2,3) unfolding ffwinreg_write_def stack_conversions(1) [OF assms(1)]
  by (simp add: stack_conversions(3) run_simps wval_room_def Let_def)

text \<open>When the name cannot be converted the function reports that more data is needed, with a type
  that nothing assigned.\<close>

lemma winreg_read_no_name:
  assumes "fst (ffsz_utow U 256 name) \<le> 0" "\<And>n w. rv (fst (K (Mem (MAlloc n)) w)) = 0"
  shows "map_option fst (ffwinreg_read K U wlen junk k name val s) = Some (0, val\<lparr>val_type := junk\<rparr>)"
  using assms
  by (simp add: ffwinreg_read_def ffs_utow_def ff_utow_def run_simps read_end_def w_free_def Let_def split: prod.split)

end
