(* ===== verification/Netlink.thy ===== *)
theory Netlink
  imports Sock Bytes
begin

text \<open>
  Netlink sockets (\<open>FFOS/netlink.h\<close>): creating a socket, sending a request, receiving, and walking
  over the messages of a datagram and the attributes of a message.  The macros \<open>NLMSG_*\<close> and
  \<open>RTA_*\<close> of the Linux headers are written out.
\<close>

abbreviation (input) AF_NETLINK :: int where "AF_NETLINK \<equiv> 16"

definition NLM_F_REQUEST :: u16 where [flag_simps]: "NLM_F_REQUEST = 1"
definition NLM_F_DUMP :: u16 where [flag_simps]: "NLM_F_DUMP = 0x300"
definition SOCK_DGRAM_NL :: u32 where [flag_simps]: "SOCK_DGRAM_NL = 2"
definition MSG_TRUNC :: u32 where [flag_simps]: "MSG_TRUNC = 0x20"

text \<open>\<open>struct sockaddr_nl\<close> and \<open>struct nlmsghdr\<close>, with the bytes they consist of.\<close>

record sockaddr_nl =
  nl_family :: u16
  nl_pad :: u16
  nl_pid :: u32
  nl_groups :: u32

record nlmsghdr =
  nlmsg_len :: u32
  nlmsg_type :: u16
  nlmsg_flags :: u16
  nlmsg_seq :: u32
  nlmsg_pid :: u32

definition sockaddr_nl_bytes :: "sockaddr_nl \<Rightarrow> bytes" where
  "sockaddr_nl_bytes a = le_put 2 (unat (nl_family a)) @ le_put 2 (unat (nl_pad a)) @
     le_put 4 (unat (nl_pid a)) @ le_put 4 (unat (nl_groups a))"

definition nlmsghdr_bytes :: "nlmsghdr \<Rightarrow> bytes" where
  "nlmsghdr_bytes h = le_put 4 (unat (nlmsg_len h)) @ le_put 2 (unat (nlmsg_type h)) @
     le_put 2 (unat (nlmsg_flags h)) @ le_put 4 (unat (nlmsg_seq h)) @ le_put 4 (unat (nlmsg_pid h))"

definition sockaddr_nl_zero :: sockaddr_nl where
  "sockaddr_nl_zero = \<lparr>nl_family = 0, nl_pad = 0, nl_pid = 0, nl_groups = 0\<rparr>"

definition ffnetlink_create :: "'w kernel \<Rightarrow> int \<Rightarrow> u32 \<Rightarrow> u32 \<Rightarrow> ('w, int) prog" where
  "ffnetlink_create K proto groups flags = do {
     nl \<leftarrow> sysi K (Sock (Socket AF_NETLINK (SOCK_DGRAM_NL OR flags) proto));
     if nl = -1 then State_Monad.return (-1)
     else do {
       r \<leftarrow> sysi K (Sock (Bind nl (sockaddr_nl_bytes
              (sockaddr_nl_zero\<lparr>nl_family := of_int AF_NETLINK, nl_groups := groups\<rparr>))));
       if r \<noteq> 0 then do { sysi K (FileC (Close nl)); State_Monad.return (-1) }
       else State_Monad.return nl
     }
   }"

definition ffnetlink_close :: "'w kernel \<Rightarrow> int \<Rightarrow> ('w, unit) prog" where
  "ffnetlink_close K nl =
     (if nl = -1 then State_Monad.return ()
      else do { sysi K (FileC (Close nl)); State_Monad.return () })"

text \<open>\<open>NLMSG_LENGTH\<close> adds the aligned size of the header, 16, to a 32-bit number.\<close>

definition ffnetlink_hdr_set :: "u32 \<Rightarrow> u32 \<Rightarrow> u32 \<Rightarrow> nlmsghdr" where
  "ffnetlink_hdr_set type body_len seq =
     \<lparr>nlmsg_len = body_len + 16, nlmsg_type = ucast type, nlmsg_flags = NLM_F_REQUEST OR NLM_F_DUMP,
      nlmsg_seq = seq, nlmsg_pid = 0\<rparr>"

text \<open>\<open>struct msghdr\<close>: the address and the buffers.\<close>

definition ffnetlink_msg_set :: "'b list \<Rightarrow> sockaddr_nl \<times> 'b list" where
  "ffnetlink_msg_set iov = (sockaddr_nl_zero\<lparr>nl_family := of_int AF_NETLINK\<rparr>, iov)"

definition ffnetlink_send :: "'w kernel \<Rightarrow> int \<Rightarrow> u32 \<Rightarrow> bytes \<Rightarrow> u32 \<Rightarrow> ('w, int) prog" where
  "ffnetlink_send K nl type d seq = do {
     let h = ffnetlink_hdr_set type (of_nat (length d)) seq;
     let (sa, iov) = ffnetlink_msg_set [nlmsghdr_bytes h, d];
     r \<leftarrow> sysi K (Sock (Sendmsg nl iov (sockaddr_nl_bytes sa)));
     State_Monad.return (if 16 + length d \<noteq> unat (of_int r :: u32) then -1 else 0)
   }"

text \<open>The reply has the bytes received and, in its last part, \<open>msg_flags\<close>.\<close>

definition out_msg_flags :: "reply \<Rightarrow> u32" where
  "out_msg_flags r = (case rout r of OMsg _ _ n \<Rightarrow> of_nat n | _ \<Rightarrow> 0)"

definition ffnetlink_recv :: "'w kernel \<Rightarrow> int \<Rightarrow> nat \<Rightarrow> ('w, int \<times> bytes) prog" where
  "ffnetlink_recv K nl n = do {
     x \<leftarrow> sys K (Sock (Recvmsg nl n));
     let r = rv x;
     if r \<le> 0 then State_Monad.return (r, out_bytes x)
     else if tst (out_msg_flags x) MSG_TRUNC
     then do { fferr_set EMSGSIZE; State_Monad.return (-1, out_bytes x) }
     else State_Monad.return (r, out_bytes x)
   }"

subsection \<open>Walking over a buffer\<close>

text \<open>
  An \<open>ffstr\<close> that moves over the received bytes: a position and a length, which the macros
  decrement without a check.  The outer \<open>None\<close> is a read outside the received bytes.  The
  result is the new cursor and, unless the function returned \<open>NULL\<close>, the position of the
  object, and the position and length of its body.
\<close>

record nlbuf =
  nl_pos :: nat
  nl_left :: u64

definition nlmsg_align :: "u32 \<Rightarrow> u32" where
  "nlmsg_align n = (n + 3) AND NOT 3"

definition ffnetlink_next :: "bytes \<Rightarrow> nlbuf \<Rightarrow> (nlbuf \<times> (nat \<times> nat \<times> u64) option) option" where
  "ffnetlink_next data buf =
     (if nl_left buf < 16 then Some (buf, None)
      else if nl_pos buf + 16 > length data then None
      else let n = (of_nat (field (nl_pos buf) 4 data) :: u32) in
        if n < 16 \<or> nl_left buf < ucast n then Some (buf, None)
        else Some (\<lparr>nl_pos = nl_pos buf + unat (nlmsg_align n),
                    nl_left = nl_left buf - ucast (nlmsg_align n)\<rparr>,
                   Some (nl_pos buf, nl_pos buf + 16, ucast (n - 20))))"

definition ffnetlink_rtattr_next :: "bytes \<Rightarrow> nlbuf \<Rightarrow> (nlbuf \<times> (nat \<times> nat \<times> u64) option) option" where
  "ffnetlink_rtattr_next data buf =
     (if nl_left buf < 4 then Some (buf, None)
      else if nl_pos buf + 4 > length data then None
      else let n = (of_nat (field (nl_pos buf) 2 data) :: u32) in
        if n < 4 \<or> nl_left buf < ucast n then Some (buf, None)
        else Some (\<lparr>nl_pos = nl_pos buf + unat (nlmsg_align n),
                    nl_left = nl_left buf - ucast (nlmsg_align n)\<rparr>,
                   Some (nl_pos buf, nl_pos buf + 4, ucast (n - 4))))"

text \<open>The caller's loop, \<open>while (NULL != next())\<close>: \<open>None\<close> for a bad read or too little fuel.\<close>

primrec nl_walk ::
  "(bytes \<Rightarrow> nlbuf \<Rightarrow> (nlbuf \<times> 'r option) option) \<Rightarrow> nat \<Rightarrow> bytes \<Rightarrow> nlbuf \<Rightarrow> 'r list option" where
  "nl_walk nx 0 data b = None"
| "nl_walk nx (Suc n) data b =
     (case nx data b of
        None \<Rightarrow> None
      | Some (b', None) \<Rightarrow> Some []
      | Some (b', Some r) \<Rightarrow> map_option (Cons r) (nl_walk nx n data b'))"

subsection \<open>The format\<close>

text \<open>A message is its header and payload, an attribute its length, type and data; both are padded.\<close>

definition pad4 :: "nat \<Rightarrow> nat" where
  "pad4 n = (4 - n mod 4) mod 4"

definition nl_put :: "u16 \<times> bytes \<Rightarrow> bytes" where
  "nl_put m = le_put 4 (16 + length (snd m)) @ le_put 2 (unat (fst m)) @ replicate 10 0 @ snd m @
     replicate (pad4 (length (snd m))) 0"

definition rta_put :: "u16 \<times> bytes \<Rightarrow> bytes" where
  "rta_put a = le_put 2 (4 + length (snd a)) @ le_put 2 (unat (fst a)) @ snd a @
     replicate (pad4 (length (snd a))) 0"

definition nl_good :: "u16 \<times> bytes \<Rightarrow> bool" where
  "nl_good m \<longleftrightarrow> 4 \<le> length (snd m) \<and> length (snd m) < 2 ^ 32 - 32"

definition rta_good :: "u16 \<times> bytes \<Rightarrow> bool" where
  "rta_good a \<longleftrightarrow> length (snd a) < 2 ^ 16 - 4"

text \<open>What the caller sees: the type in the header and the bytes of the body.\<close>

definition obj_view :: "nat \<Rightarrow> bytes \<Rightarrow> nat \<times> nat \<times> u64 \<Rightarrow> nat \<times> bytes" where
  "obj_view off data r = (field (fst r + off) 2 data, take (unat (snd (snd r))) (drop (fst (snd r)) data))"

text \<open>
  The contract of a function that walks over objects: on an object that is in the buffer as a
  whole it returns it and moves on behind it.
\<close>

locale object_walk =
  fixes nx :: "bytes \<Rightarrow> nlbuf \<Rightarrow> (nlbuf \<times> 'r option) option" and put :: "'x \<Rightarrow> bytes"
    and good :: "'x \<Rightarrow> bool" and view :: "bytes \<Rightarrow> 'r \<Rightarrow> 'c" and val :: "'x \<Rightarrow> 'c"
  assumes hit: "good x \<Longrightarrow> length (put x) \<le> n \<Longrightarrow> n < 2 ^ 64 \<Longrightarrow>
    \<exists>r. nx (pre @ put x @ post) \<lparr>nl_pos = length pre, nl_left = of_nat n\<rparr> =
        Some (\<lparr>nl_pos = length pre + length (put x), nl_left = of_nat (n - length (put x))\<rparr>, Some r) \<and>
      view (pre @ put x @ post) r = val x"
begin

text \<open>So the loop sees all the objects up to the point where the function returns \<open>NULL\<close>.\<close>

lemma walk_all:
  assumes "\<forall>x\<in>set xs. good x" "data = pre @ concat (map put xs) @ post"
    "n = length (concat (map put xs)) + k" "n < 2 ^ 64"
    "nx data \<lparr>nl_pos = length pre + length (concat (map put xs)), nl_left = of_nat k\<rparr> = Some (b, None)"
    "length xs < fuel"
  shows "map_option (map (view data)) (nl_walk nx fuel data \<lparr>nl_pos = length pre, nl_left = of_nat n\<rparr>) =
    Some (map val xs)"
  using assms
proof (induction xs arbitrary: pre n fuel)
  case Nil
  then show ?case by (cases fuel) auto
next
  case (Cons x xs)
  obtain m where m: "fuel = Suc m" "length xs < m" using Cons.prems(6) by (cases fuel) auto
  have d: "data = pre @ put x @ (concat (map put xs) @ post)" using Cons.prems(2) by simp
  obtain r where r: "nx data \<lparr>nl_pos = length pre, nl_left = of_nat n\<rparr> =
        Some (\<lparr>nl_pos = length pre + length (put x), nl_left = of_nat (n - length (put x))\<rparr>, Some r)"
      "view data r = val x"
    using hit [of x n pre "concat (map put xs) @ post"] Cons.prems(1,3,4) unfolding d by auto
  have "map_option (map (view data)) (nl_walk nx m data
      \<lparr>nl_pos = length (pre @ put x), nl_left = of_nat (n - length (put x))\<rparr>) = Some (map val xs)"
    by (rule Cons.IH) (use Cons.prems m in \<open>simp_all add: add.assoc\<close>)
  then obtain rs where "nl_walk nx m data
      \<lparr>nl_pos = length pre + length (put x), nl_left = of_nat (n - length (put x))\<rparr> = Some rs"
      "map (view data) rs = map val xs"
    by (auto simp: map_option_eq_Some)
  then show ?case by (simp add: m(1) r)
qed

end

subsection \<open>Both functions keep the contract\<close>

lemma and_not3: "unat ((w :: u32) AND NOT 3) = unat w div 4 * 4"
proof -
  have m: "(3 :: u32) = mask 2" by (simp add: mask_eq_exp_minus_1)
  have "w AND NOT 3 = push_bit 2 (drop_bit 2 w)"
  proof -
    have s2: "Suc (Suc (n - 2)) = n" if "\<not> n < 2" for n using that by simp
    show ?thesis unfolding m by (rule bit_eqI) (auto simp: bit_simps s2 not_less [symmetric])
  qed
  also have "\<dots> = drop_bit 2 w * 4" by (simp add: push_bit_eq_mult)
  finally have "unat (w AND NOT 3) = (unat w div 4 * 4) mod 2 ^ 32"
    by (simp add: unat_word_ariths unsigned_drop_bit_eq drop_bit_eq_div mod_mult_left_eq)
  moreover have "unat w div 4 * 4 < 2 ^ 32"
    by (rule le_less_trans [OF div_times_less_eq_dividend]) (use unsigned_less [of w, where 'a = nat] in simp)
  ultimately show ?thesis by simp
qed
lemma unat_nlmsg_align:
  assumes "n + 3 < 2 ^ 32"
  shows "unat (nlmsg_align (of_nat n)) = n + pad4 n"
proof -
  from assms have "unat ((of_nat n :: u32) + 3) = n + 3"
    by (simp add: unat_word_ariths unat_of_nat)
  then have "unat (((of_nat n :: u32) + 3) AND NOT 3) = (n + 3) div 4 * 4" by (simp only: and_not3)
  also have "\<dots> = n + (4 - n mod 4) mod 4"
  proof (cases "n mod 4 = 0")
    case True
    then show ?thesis by (simp, arith)
  next
    case False
    then have "(4 - n mod 4) mod 4 = 4 - n mod 4" by simp
    moreover have "(n + 3) div 4 * 4 = n + (4 - n mod 4)" using False by arith
    ultimately show ?thesis by simp
  qed
  finally show ?thesis by (simp only: nlmsg_align_def pad4_def)
qed

text \<open>One step of either function: \<open>h\<close> is the size of the header, \<open>n\<close> the length in it.\<close>

lemma nl_advance:
  assumes "m + 3 < 2 ^ 32" "m + pad4 m \<le> n" "n < 2 ^ 64"
  shows "\<not> (of_nat n :: u64) < ucast (of_nat m :: u32)"
    "of_nat n - ucast (nlmsg_align (of_nat m)) = (of_nat (n - (m + pad4 m)) :: u64)"
proof -
  have m: "unat (of_nat m :: u32) = m" using assms(1) by (simp add: unat_of_nat)
  have "unat (ucast (of_nat m :: u32) :: u64) = m" using m by simp
  then show "\<not> (of_nat n :: u64) < ucast (of_nat m :: u32)"
    using assms by (simp add: word_less_nat_alt unat_of_nat)
  have "ucast (nlmsg_align (of_nat m)) = (of_nat (m + pad4 m) :: u64)"
    using unat_nlmsg_align [OF assms(1)] assms(2,3) by (simp add: word_unat_eq_iff unat_of_nat del: of_nat_add)
  then show "of_nat n - ucast (nlmsg_align (of_nat m)) = (of_nat (n - (m + pad4 m)) :: u64)"
    using assms(2) by (simp add: of_nat_diff)
qed


lemma pad4_add: "4 dvd h \<Longrightarrow> pad4 (h + n) = pad4 n"
  by (auto simp: pad4_def elim!: dvdE)

text \<open>
  The two functions are one: \<open>h\<close> is the size of the header, \<open>k\<close> that of the length in it,
  \<open>adj\<close> what is subtracted for the length of the body.
\<close>

definition obj_next ::
  "nat \<Rightarrow> nat \<Rightarrow> nat \<Rightarrow> bytes \<Rightarrow> nlbuf \<Rightarrow> (nlbuf \<times> (nat \<times> nat \<times> u64) option) option" where
  "obj_next h k adj data buf =
     (if nl_left buf < of_nat h then Some (buf, None)
      else if nl_pos buf + h > length data then None
      else let n = (of_nat (field (nl_pos buf) k data) :: u32) in
        if n < of_nat h \<or> nl_left buf < ucast n then Some (buf, None)
        else Some (\<lparr>nl_pos = nl_pos buf + unat (nlmsg_align n),
                    nl_left = nl_left buf - ucast (nlmsg_align n)\<rparr>,
                   Some (nl_pos buf, nl_pos buf + h, ucast (n - of_nat adj))))"

lemma next_is_obj: "ffnetlink_next = obj_next 16 4 20" "ffnetlink_rtattr_next = obj_next 4 2 4"
  by (simp_all add: fun_eq_iff ffnetlink_next_def ffnetlink_rtattr_next_def obj_next_def Let_def)

definition obj_put :: "nat \<Rightarrow> nat \<Rightarrow> bytes \<Rightarrow> bytes \<Rightarrow> bytes" where
  "obj_put h k hdr d = le_put k (h + length d) @ hdr @ d @ replicate (pad4 (length d)) 0"

lemma obj_step:
  fixes pre post :: bytes
  assumes h: "k + length hdr = h" "4 dvd h" "0 < h" and m: "h + length d + 3 < 2 ^ 32" "h + length d < 256 ^ k"
    and adj: "adj \<le> h + length d" and n: "length (obj_put h k hdr d) \<le> n" "n < 2 ^ 64"
  defines "data \<equiv> pre @ obj_put h k hdr d @ post"
  shows "obj_next h k adj data \<lparr>nl_pos = length pre, nl_left = of_nat n\<rparr> =
      Some (\<lparr>nl_pos = length pre + length (obj_put h k hdr d), nl_left = of_nat (n - length (obj_put h k hdr d))\<rparr>,
            Some (length pre, length pre + h, of_nat (h + length d - adj)))"
proof -
  let ?m = "h + length d"
  have len: "length (obj_put h k hdr d) = ?m + pad4 ?m"
    using h by (simp add: obj_put_def pad4_add)
  have f: "field (length pre) k data = ?m"
    using m(2) field_skip [of pre "length pre" 0 k] by (simp add: data_def obj_put_def)
  have u: "unat (of_nat ?m :: u32) = ?m" "unat (of_nat h :: u32) = h" "unat (of_nat adj :: u32) = adj"
    using m(1) adj by (simp_all add: unat_of_nat del: of_nat_add)
  have "unat (of_nat n :: u64) = n" "unat (of_nat h :: u64) = h" using n m(1) by (simp_all add: unat_of_nat)
  then have n4: "\<not> (of_nat n :: u64) < of_nat h" using n len by (simp add: word_less_nat_alt)
  have m4: "\<not> (of_nat ?m :: u32) < of_nat h" using u by (simp add: word_less_nat_alt del: of_nat_add)
  have adv: "\<not> (of_nat n :: u64) < ucast (of_nat ?m :: u32)"
    "of_nat n - ucast (nlmsg_align (of_nat ?m)) = (of_nat (n - (?m + pad4 ?m)) :: u64)"
    using m n len by (intro nl_advance; simp)+
  have "unat ((of_nat ?m :: u32) - of_nat adj) = ?m - adj"
    using u adj by (simp add: unat_sub word_le_nat_alt del: of_nat_add)
  then have b: "ucast ((of_nat ?m :: u32) - of_nat adj) = (of_nat (?m - adj) :: u64)"
    using m(1) by (simp add: word_unat_eq_iff unat_of_nat del: of_nat_add of_nat_diff)
  have room: "\<not> length data < length pre + h" using h by (simp add: data_def obj_put_def)
  show ?thesis
    unfolding obj_next_def Let_def nlbuf.simps f len adv(2) unat_nlmsg_align [OF m(1)] b
    using n4 m4 adv(1) room by (simp del: of_nat_add of_nat_diff)
qed

interpretation attrs: object_walk ffnetlink_rtattr_next rta_put rta_good "obj_view 2"
  "\<lambda>a. (unat (fst a), snd a)"
proof
  fix x :: "u16 \<times> bytes" and n and pre post :: bytes
  assume g: "rta_good x" and n: "length (rta_put x) \<le> n" "n < 2 ^ 64"
  let ?t = "le_put 2 (unat (fst x))" and ?d = "pre @ rta_put x @ post"
  let ?r = "(length pre, length pre + 4, of_nat (length (snd x)) :: u64)"
  have p: "rta_put x = obj_put 4 2 ?t (snd x)" by (simp add: rta_put_def obj_put_def)
  have "ffnetlink_rtattr_next ?d \<lparr>nl_pos = length pre, nl_left = of_nat n\<rparr> =
      Some (\<lparr>nl_pos = length pre + length (rta_put x), nl_left = of_nat (n - length (rta_put x))\<rparr>, Some ?r)"
    using g n obj_step [of 2 ?t 4 "snd x" 4 n pre post] unfolding p next_is_obj
    by (simp add: rta_good_def)
  moreover have "field (length pre + 2) 2 ?d = unat (fst x)"
    using field_skip [of pre "length pre" 2 2] field_at [of "le_put 2 (4 + length (snd x))" 2 ?t 2]
    by (simp add: rta_put_def)
  then have "obj_view 2 ?d ?r = (unat (fst x), snd x)"
    using g unfolding obj_view_def fst_conv snd_conv by (simp add: rta_put_def unat_of_nat rta_good_def)
  ultimately show "\<exists>r. ffnetlink_rtattr_next ?d \<lparr>nl_pos = length pre, nl_left = of_nat n\<rparr> =
      Some (\<lparr>nl_pos = length pre + length (rta_put x), nl_left = of_nat (n - length (rta_put x))\<rparr>, Some r) \<and>
      obj_view 2 ?d r = (unat (fst x), snd x)" by blast
qed

text \<open>The body that the caller gets of a message lacks the last four bytes of the payload.\<close>

interpretation msgs: object_walk ffnetlink_next nl_put nl_good "obj_view 4"
  "\<lambda>m. (unat (fst m), take (length (snd m) - 4) (snd m))"
proof
  fix x :: "u16 \<times> bytes" and n and pre post :: bytes
  assume g: "nl_good x" and n: "length (nl_put x) \<le> n" "n < 2 ^ 64"
  let ?t = "le_put 2 (unat (fst x)) @ replicate 10 0" and ?d = "pre @ nl_put x @ post"
  let ?r = "(length pre, length pre + 16, of_nat (length (snd x) - 4) :: u64)"
  have p: "nl_put x = obj_put 16 4 ?t (snd x)" by (simp add: nl_put_def obj_put_def)
  have "ffnetlink_next ?d \<lparr>nl_pos = length pre, nl_left = of_nat n\<rparr> =
      Some (\<lparr>nl_pos = length pre + length (nl_put x), nl_left = of_nat (n - length (nl_put x))\<rparr>, Some ?r)"
    using g n obj_step [of 4 ?t 16 "snd x" 20 n pre post] unfolding p next_is_obj
    by (simp add: nl_good_def)
  note step = this
  have "field (length pre + 4) 2 ?d = unat (fst x)"
    using field_skip [of pre "length pre" 4 2]
      field_at [of "le_put 4 (16 + length (snd x))" 4 "le_put 2 (unat (fst x))" 2]
    by (simp add: nl_put_def)
  moreover have "unat (of_nat (length (snd x) - 4) :: u64) = length (snd x) - 4"
    using g by (auto simp: unat_of_nat nl_good_def simp del: of_nat_diff)
  ultimately have "obj_view 4 ?d ?r = (unat (fst x), take (length (snd x) - 4) (snd x))"
    unfolding obj_view_def fst_conv snd_conv by (simp add: nl_put_def del: of_nat_diff)
  with step show "\<exists>r. ffnetlink_next ?d \<lparr>nl_pos = length pre, nl_left = of_nat n\<rparr> =
      Some (\<lparr>nl_pos = length pre + length (nl_put x), nl_left = of_nat (n - length (nl_put x))\<rparr>, Some r) \<and>
      obj_view 4 ?d r = (unat (fst x), take (length (snd x) - 4) (snd x))" by blast
qed

subsection \<open>Properties\<close>

text \<open>
  Claim C23.  Walking over the attributes of a buffer yields each of them, in order, with its type and
  its data without the padding; no read leaves the buffer and the walk ends.
\<close>

theorem rtattr_walk_all:
  assumes "\<forall>a\<in>set as. rta_good a" "length (concat (map rta_put as)) < 2 ^ 64" "length as < fuel"
  shows "map_option (map (obj_view 2 (concat (map rta_put as))))
      (nl_walk ffnetlink_rtattr_next fuel (concat (map rta_put as))
         \<lparr>nl_pos = 0, nl_left = of_nat (length (concat (map rta_put as)))\<rparr>) =
    Some (map (\<lambda>a. (unat (fst a), snd a)) as)"
  using attrs.walk_all [of as "concat (map rta_put as)" "[]" "[]" _ 0 _ fuel, OF assms(1)] assms(2,3)
  by (simp add: ffnetlink_rtattr_next_def)

theorem rtattr_walk_all_witness:
  "map_option (map (obj_view 2 (concat (map rta_put [(3, [108, 111, 0]), (1, [1, 2, 3, 4, 5, 6])]))))
      (nl_walk ffnetlink_rtattr_next 3 (concat (map rta_put [(3, [108, 111, 0]), (1, [1, 2, 3, 4, 5, 6])]))
         \<lparr>nl_pos = 0, nl_left = 20\<rparr>) =
    Some [(3, [108, 111, 0]), (1, [1, 2, 3, 4, 5, 6])]"
  using rtattr_walk_all [of "[(3, [108, 111, 0]), (1, [1, 2, 3, 4, 5, 6])]" 3]
  by (simp add: rta_good_def rta_put_def pad4_def)

text \<open>
  Walking over the messages of a datagram yields each of them, in order, with its type and
  its payload without the last four bytes; no read leaves the datagram and the walk ends.
\<close>

theorem netlink_walk_all:
  assumes "\<forall>m\<in>set ms. nl_good m" "length (concat (map nl_put ms)) < 2 ^ 64" "length ms < fuel"
  shows "map_option (map (obj_view 4 (concat (map nl_put ms))))
      (nl_walk ffnetlink_next fuel (concat (map nl_put ms))
         \<lparr>nl_pos = 0, nl_left = of_nat (length (concat (map nl_put ms)))\<rparr>) =
    Some (map (\<lambda>m. (unat (fst m), take (length (snd m) - 4) (snd m))) ms)"
  using msgs.walk_all [of ms "concat (map nl_put ms)" "[]" "[]" _ 0 _ fuel, OF assms(1)] assms(2,3)
  by (simp add: ffnetlink_next_def)

theorem netlink_walk_all_witness:
  "map_option (map (obj_view 4 (concat (map nl_put [(16, [0, 1, 2, 3, 4, 5, 6, 7]), (3, [0, 0, 0, 0])]))))
      (nl_walk ffnetlink_next 3 (concat (map nl_put [(16, [0, 1, 2, 3, 4, 5, 6, 7]), (3, [0, 0, 0, 0])]))
         \<lparr>nl_pos = 0, nl_left = 44\<rparr>) =
    Some [(16, [0, 1, 2, 3]), (3, [])]"
  using netlink_walk_all [of "[(16, [0, 1, 2, 3, 4, 5, 6, 7]), (3, [0, 0, 0, 0])]" 3]
  by (simp add: nl_good_def nl_put_def pad4_def)




text \<open>
  A datagram whose last message is not padded: the length of the buffer wraps around below zero, and
  the next call reads behind the received bytes.
\<close>

lemma netlink_length_underflow:
  "\<exists>b r. ffnetlink_next (le_put 4 18 @ replicate 14 0) \<lparr>nl_pos = 0, nl_left = 18\<rparr> = Some (b, Some r) \<and>
     nl_left b = -2 \<and> ffnetlink_next (le_put 4 18 @ replicate 14 0) b = None"
  by (simp add: ffnetlink_next_def nlmsg_align_def)

text \<open>
  A request that was sent is, on the wire, a message of the documented form: its header has the
  length of the whole, the type, the flags of a dump request and the sequence number, and the
  data follow; the result is \<open>0\<close> only if the system took all of it.
\<close>

lemma netlink_send_format:
  assumes "length d < 2 ^ 32 - 16"
  shows "wp (ffnetlink_send K nl type d seq)
    (\<lambda>r s. \<exists>h x. trace s = [(Sock (Sendmsg nl [h, d] (sockaddr_nl_bytes (sockaddr_nl_zero\<lparr>nl_family := 16\<rparr>))), x)] \<and>
       length h = 16 \<and> field 0 4 h = 16 + length d \<and> field 4 2 h = unat (ucast type :: u16) \<and>
       field 6 2 h = 0x301 \<and> field 8 4 h = unat seq \<and>
       (r = 0 \<longleftrightarrow> unat (of_int (rv x) :: u32) = 16 + length d) \<and> (r \<noteq> 0 \<longrightarrow> r = -1)) (start w e)"
proof -
  let ?h = "ffnetlink_hdr_set type (of_nat (length d)) seq"
  let ?a = "le_put 4 (unat (nlmsg_len ?h))" and ?b = "le_put 2 (unat (nlmsg_type ?h))"
    and ?c = "le_put 2 (unat (nlmsg_flags ?h))" and ?s = "le_put 4 (unat (nlmsg_seq ?h))"
  have "unat (nlmsg_len ?h) = 16 + length d"
    using assms by (simp add: ffnetlink_hdr_set_def unat_word_ariths unat_of_nat)
  then have f: "field 0 4 (nlmsghdr_bytes ?h) = 16 + length d" "field 4 2 (nlmsghdr_bytes ?h) = unat (ucast type :: u16)"
    "field 6 2 (nlmsghdr_bytes ?h) = 0x301" "field 8 4 (nlmsghdr_bytes ?h) = unat seq"
    using field_at [of ?a 4 ?b 2] field_at [of "?a @ ?b" 6 ?c 2] field_at [of "?a @ ?b @ ?c" 8 ?s 4] assms
    by (simp_all add: nlmsghdr_bytes_def ffnetlink_hdr_set_def flag_simps)
  have l: "length (nlmsghdr_bytes ?h) = 16" by (simp add: nlmsghdr_bytes_def)
  show ?thesis
    unfolding ffnetlink_send_def ffnetlink_msg_set_def
    by (intro wp_intros) (use f l in \<open>auto simp: Let_def\<close>)
qed

text \<open>Creating a socket leaves open exactly the descriptor returned.\<close>

lemma netlink_create_no_leak:
  "wp (ffnetlink_create K proto groups flags)
     (\<lambda>nl s. fds_after (trace s) = Some (if nl = -1 then {#} else {#nl#})) (start w e)"
  unfolding ffnetlink_create_def by (intro wp_intros) (simp_all add: fd_step_def closed_def)

text \<open>A datagram that did not fit is reported, never returned as if it were complete.\<close>

lemma netlink_recv_truncated:
  "wp (ffnetlink_recv K nl n)
     (\<lambda>r s. \<exists>x. trace s = [(Sock (Recvmsg nl n), x)] \<and> (0 < fst r \<longrightarrow> \<not> tst (out_msg_flags x) MSG_TRUNC \<and> fst r = rv x) \<and>
        (0 < rv x \<and> tst (out_msg_flags x) MSG_TRUNC \<longrightarrow> fst r = -1 \<and> lasterr s = EMSGSIZE)) (start w e)"
  unfolding ffnetlink_recv_def Let_def by (intro wp_intros) auto

end
