(* ===== verification/Path.thy ===== *)
theory Path
  imports Ffbase
begin

text \<open>
  FFOS/path.h: native file-system paths.  The definitions keep the names of the C functions;
  where the header has a UNIX and a Windows version, the latter has the suffix \<open>_win\<close>.
  An output parameter that may be NULL (\<open>dir\<close>, \<open>name\<close>, \<open>ext\<close>) is a component of
  the result.
\<close>

subsection \<open>Separators and absolute paths\<close>

abbreviation slash_c :: char where "slash_c \<equiv> CHR ''/''"
abbreviation backslash_c :: char where "backslash_c \<equiv> CHR 0x5C"

definition ffpath_slash :: "char \<Rightarrow> bool" where
  "ffpath_slash c \<longleftrightarrow> c = slash_c"

definition ffpath_slash_win :: "char \<Rightarrow> bool" where
  "ffpath_slash_win c \<longleftrightarrow> c = slash_c \<or> c = backslash_c"

definition ffpath_abs :: "string \<Rightarrow> bool" where
  "ffpath_abs path \<longleftrightarrow> length path \<ge> 1 \<and> path ! 0 = slash_c"

text \<open>\<open>path[0] | 0x20\<close> is computed on the (signed) value of the character.\<close>

definition char_lower_bit :: "char \<Rightarrow> int" where
  "char_lower_bit c = sint ((of_char c :: 8 word) OR 0x20)"

definition ffpath_abs_win :: "string \<Rightarrow> bool" where
  "ffpath_abs_win path \<longleftrightarrow>
     (if length path = 0 then False
      else if path ! 0 = slash_c \<or> path ! 0 = backslash_c then True
      else (let ch = char_lower_bit (path ! 0)
            in length path \<ge> 2 \<and> ch \<ge> of_char CHR ''a'' \<and> ch \<le> of_char CHR ''z''
               \<and> path ! 1 = CHR '':''
               \<and> (length path = 2 \<or> path ! 2 = slash_c \<or> path ! 2 = backslash_c)))"

subsection \<open>Splitting into directory, name and extension\<close>

definition ffpath_splitpath_unix :: "ffbase \<Rightarrow> string \<Rightarrow> int \<times> string \<times> string" where
  "ffpath_splitpath_unix B fn =
     (let slash = ffs_rfindchar B fn slash_c
      in if slash < 0 then (-1, [], fn) else ffs_split B fn slash)"

definition ffpath_splitpath_win :: "ffbase \<Rightarrow> string \<Rightarrow> int \<times> string \<times> string" where
  "ffpath_splitpath_win B fn =
     (let slash = ffs_rfindany B fn [slash_c, backslash_c]
      in if slash < 0 then (-1, [], fn) else ffs_split B fn slash)"

definition ffpath_splitname :: "ffbase \<Rightarrow> string \<Rightarrow> int \<times> string \<times> string" where
  "ffpath_splitname B fn =
     (let dot = ffs_rfindchar B fn CHR ''.''
      in if dot \<le> 0 then (0, fn, []) else ffs_split B fn dot)"

definition ffpath_splitpath_str :: "bool \<Rightarrow> ffbase \<Rightarrow> string \<Rightarrow> int \<times> string \<times> string" where
  "ffpath_splitpath_str win B fn =
     (if win then ffpath_splitpath_win B fn else ffpath_splitpath_unix B fn)"

definition ffpath_splitname_str :: "ffbase \<Rightarrow> string \<Rightarrow> int \<times> string \<times> string" where
  "ffpath_splitname_str B fn = ffpath_splitname B fn"

subsection \<open>Normalization\<close>

text \<open>\<open>enum FFPATH_NORM\<close>\<close>

definition FFPATH_SLASH_ONLY :: u32 where [flag_simps]: "FFPATH_SLASH_ONLY = 1"
definition FFPATH_SLASH_BACKSLASH :: u32 where [flag_simps]: "FFPATH_SLASH_BACKSLASH = 2"
definition FFPATH_FORCE_SLASH :: u32 where [flag_simps]: "FFPATH_FORCE_SLASH = 4"
definition FFPATH_FORCE_BACKSLASH :: u32 where [flag_simps]: "FFPATH_FORCE_BACKSLASH = 8"
definition FFPATH_SIMPLE :: u32 where [flag_simps]: "FFPATH_SIMPLE = 0x10"
definition FFPATH_DISK_LETTER :: u32 where [flag_simps]: "FFPATH_DISK_LETTER = 0x20"
definition FFPATH_NO_DISK_LETTER :: u32 where [flag_simps]: "FFPATH_NO_DISK_LETTER = 0x40"

text \<open>The separators and the flags in force: \<open>win\<close> stands for \<open>#ifdef FF_WIN\<close>.\<close>

definition norm_slashes :: "bool \<Rightarrow> u32 \<Rightarrow> string" where
  "norm_slashes win flags =
     (let slashes = (if tst flags FFPATH_SLASH_BACKSLASH then [slash_c, backslash_c] else [slash_c])
      in if win \<and> flags AND (FFPATH_SLASH_BACKSLASH OR FFPATH_SLASH_ONLY) = 0
         then [slash_c, backslash_c] else slashes)"

definition norm_flags :: "bool \<Rightarrow> u32 \<Rightarrow> u32" where
  "norm_flags win flags =
     (if win \<and> flags AND (FFPATH_DISK_LETTER OR FFPATH_NO_DISK_LETTER) = 0
      then flags OR FFPATH_DISK_LETTER else flags)"

definition norm_skip_disk :: "u32 \<Rightarrow> bool" where
  "norm_skip_disk flags \<longleftrightarrow>
     flags AND (FFPATH_DISK_LETTER OR FFPATH_SIMPLE) = FFPATH_DISK_LETTER OR FFPATH_SIMPLE"

text \<open>
  The branch taken for a component \<open>..\<close>: either the loop continues with the given number of
  bytes kept (\<open>Continue\<close>), or the component is copied after them (\<open>Copy\<close>).
  The first argument of \<open>norm_dotdot\<close> after the flags is \<open>dst[0..k)\<close>.
\<close>

datatype dotdot = Continue nat | Copy nat

definition norm_dotdot :: "ffbase \<Rightarrow> string \<Rightarrow> u32 \<Rightarrow> string \<Rightarrow> dotdot" where
  "norm_dotdot B slashes flags dst =
     (let k = length dst in
      if k \<noteq> 0 then
        let slash = ffs_rfindany B (take (k - 1) dst) slashes in
        if slash < 0 then
          let prev = take (k - 1) dst in
          if prev = ''.'' then Copy 0
          else if prev = ''..'' then Copy k
          else if k = 1 then Continue k
          else if tst flags FFPATH_DISK_LETTER \<and> last prev = CHR '':'' then Continue k
          else Continue 0
        else
          let slash' = nat slash + 1; prev = drop slash' (take (k - 1) dst) in
          if prev = ''..'' then Copy k else Continue slash'
      else if tst flags FFPATH_SIMPLE then Continue 0
      else Copy 0)"

text \<open>Copying a component and its separator; \<open>None\<close> is the return of \<open>-1\<close>.\<close>

definition norm_sep :: "u32 \<Rightarrow> char \<Rightarrow> char" where
  "norm_sep flags c =
     (if tst flags FFPATH_FORCE_SLASH then slash_c
      else if tst flags FFPATH_FORCE_BACKSLASH then backslash_c
      else c)"

definition norm_copy :: "u32 \<Rightarrow> nat \<Rightarrow> string \<Rightarrow> string \<Rightarrow> int \<Rightarrow> string \<Rightarrow> string option" where
  "norm_copy flags cap dst part pos s2 =
     (if length dst + length part + (if pos \<ge> 0 then 1 else 0) > cap then None
      else Some (dst @ part @ (if pos \<ge> 0 then [norm_sep flags (s2 ! nat pos)] else [])))"

text \<open>
  One pass of the loop body, from the split to the bottom: the new contents of \<open>dst\<close> and the
  new values of \<open>simplify\<close> and \<open>skip_disk\<close>.
\<close>

definition norm_body ::
  "ffbase \<Rightarrow> string \<Rightarrow> u32 \<Rightarrow> nat \<Rightarrow> string \<Rightarrow> string \<Rightarrow> int \<Rightarrow> string \<Rightarrow> bool \<Rightarrow> bool
   \<Rightarrow> (string \<times> bool \<times> bool) option" where
  "norm_body B slashes flags cap dst part pos s2 simplify skip_disk =
     (if simplify \<and> (length part = 0 \<or> part = ''.'') then Some (dst, simplify, skip_disk)
      else if simplify \<and> skip_disk \<and> last part = CHR '':'' then Some (dst, simplify, False)
      else
        let skip_disk' = (if simplify then False else skip_disk) in
        let put = (\<lambda>d. map_option (\<lambda>d'. (d', True, skip_disk')) (norm_copy flags cap d part pos s2)) in
        if part = ''..'' then
          (case norm_dotdot B slashes flags dst of
             Continue k \<Rightarrow> Some (take k dst, True, skip_disk')
           | Copy k \<Rightarrow> put (take k dst))
        else put dst)"

text \<open>
  The loop \<open>while (s.len != 0)\<close>.  Whether it ends depends on the split function, which is a
  parameter, so the result has type \<open>option\<close>: \<open>None\<close> is a loop that does not end,
  \<open>Some None\<close> the return of \<open>-1\<close>, \<open>Some (Some dst)\<close> the bytes written.
\<close>

partial_function (option) norm_loop ::
  "ffbase \<Rightarrow> string \<Rightarrow> u32 \<Rightarrow> nat \<Rightarrow> string \<Rightarrow> string \<Rightarrow> bool \<Rightarrow> bool \<Rightarrow> string option option" where
  "norm_loop B slashes flags cap s dst simplify skip_disk =
     (if s = [] then Some (Some dst)
      else let r = ffstr_splitbyany B s slashes in
        case norm_body B slashes flags cap dst (fst (snd r)) (fst r) s simplify skip_disk of
          None \<Rightarrow> Some None
        | Some st \<Rightarrow> norm_loop B slashes flags cap (snd (snd r)) (fst st) (fst (snd st)) (snd (snd st)))"

declare norm_loop.simps [code]

definition ffpath_normalize :: "bool \<Rightarrow> ffbase \<Rightarrow> nat \<Rightarrow> string \<Rightarrow> u32 \<Rightarrow> string option option" where
  "ffpath_normalize win B cap src flags =
     (let slashes = norm_slashes win flags; flags' = norm_flags win flags
      in norm_loop B slashes flags' cap src [] (tst flags' FFPATH_SIMPLE) (norm_skip_disk flags'))"


subsection \<open>Reference: normalization on path components\<close>

text \<open>
  The specification reads a path as the list of its components, each with the separator that
  follows it (\<open>None\<close> for a last component without one), and keeps a stack of components
  with the top at the head.
\<close>

type_synonym comp = "string \<times> char option"

lemma split_first_rest_shorter:
  "s \<noteq> [] \<Longrightarrow> split_first P s = (i, a, b) \<Longrightarrow> length b < length s"
  by (rule split_first_cases [of s P]) auto

function comps :: "string \<Rightarrow> string \<Rightarrow> comp list" where
  "comps slashes s =
     (if s = [] then []
      else (case split_first (\<lambda>x. x \<in> set slashes) s of
              (i, a, b) \<Rightarrow> (a, if i < 0 then None else Some (s ! nat i)) # comps slashes b))"
  by pat_completeness auto
termination
  by (relation "measure (\<lambda>(slashes, s). length s)") (auto dest: split_first_rest_shorter [OF _ sym])

declare comps.simps [simp del]

definition render1 :: "comp \<Rightarrow> string" where
  "render1 x = fst x @ (case snd x of None \<Rightarrow> [] | Some c \<Rightarrow> [c])"

definition render :: "comp list \<Rightarrow> string" where
  "render xs = concat (map render1 xs)"

definition spec_dotdot :: "u32 \<Rightarrow> comp list \<Rightarrow> comp \<Rightarrow> comp list" where
  "spec_dotdot flags st x =
     (case st of
        [] \<Rightarrow> if tst flags FFPATH_SIMPLE then [] else [x]
      | y # rest \<Rightarrow>
          if fst y = ''..'' then x # st
          else if rest \<noteq> [] then rest
          else if fst y = ''.'' then [x]
          else if fst y = [] \<or> tst flags FFPATH_DISK_LETTER \<and> last (fst y) = CHR '':'' then st
          else [])"

definition spec_step :: "u32 \<Rightarrow> comp list \<times> bool \<times> bool \<Rightarrow> comp \<Rightarrow> comp list \<times> bool \<times> bool" where
  "spec_step flags = (\<lambda>(st, simplify, skip) (part, sep).
     if simplify \<and> (part = [] \<or> part = ''.'') then (st, simplify, skip)
     else if simplify \<and> skip \<and> last part = CHR '':'' then (st, simplify, False)
     else
       let x = (part, map_option (norm_sep flags) sep)
       in (if part = ''..'' then spec_dotdot flags st x else x # st, True, \<not> simplify \<and> skip))"

definition norm_spec :: "bool \<Rightarrow> string \<Rightarrow> u32 \<Rightarrow> comp list" where
  "norm_spec win src flags =
     (let flags' = norm_flags win flags
      in rev (fst (foldl (spec_step flags') ([], tst flags' FFPATH_SIMPLE, norm_skip_disk flags')
                (comps (norm_slashes win flags) src))))"

text \<open>
  The components already written, while input remains: none contains a separator, and each is
  followed by one.
\<close>

definition sep_ok :: "string \<Rightarrow> u32 \<Rightarrow> bool" where
  "sep_ok slashes flags \<longleftrightarrow> (\<forall>c\<in>set slashes. norm_sep flags c \<in> set slashes)"

definition wf_stack :: "string \<Rightarrow> comp list \<Rightarrow> bool" where
  "wf_stack slashes st \<longleftrightarrow>
     (\<forall>x\<in>set st. set (fst x) \<inter> set slashes = {} \<and> (\<exists>c\<in>set slashes. snd x = Some c))"

lemma render_simps [simp]:
  "render [] = []" "render (x # xs) = render1 x @ render xs" "render (xs @ ys) = render xs @ render ys"
  by (simp_all add: render_def)

lemma render1_simps [simp]: "render1 (p, None) = p" "render1 (p, Some c) = p @ [c]"
  by (simp_all add: render1_def)

lemma wf_stack_simps [simp]:
  "wf_stack slashes []"
  "wf_stack slashes (x # st) \<longleftrightarrow>
     set (fst x) \<inter> set slashes = {} \<and> (\<exists>c\<in>set slashes. snd x = Some c) \<and> wf_stack slashes st"
  by (auto simp: wf_stack_def)

lemma wf_stack_ends_in_sep:
  assumes "wf_stack slashes st" "st \<noteq> []"
  obtains pre c where "render (rev st) = pre @ [c]" "c \<in> set slashes"
  using assms by (cases st) (auto simp: render1_def)

lemma comps_Nil [simp]: "comps slashes [] = []"
  by (simp add: comps.simps)

lemma comps_last: "s \<noteq> [] \<Longrightarrow> set s \<inter> set slashes = {} \<Longrightarrow> comps slashes s = [(s, None)]"
  by (subst comps.simps) (simp add: split_first_none disjoint_iff)

lemma comps_sep:
  "set a \<inter> set slashes = {} \<Longrightarrow> c \<in> set slashes \<Longrightarrow>
   comps slashes (a @ c # b) = (a, Some c) # comps slashes b"
  by (subst comps.simps) (simp add: split_first_hit disjoint_iff nth_append)

text \<open>The byte-level treatment of \<open>..\<close> is the stack operation.\<close>

lemma norm_dotdot_spec:
  assumes B: "ffbase_ok B" and wf: "wf_stack slashes st"
    and d: "norm_dotdot B slashes flags (render (rev st)) = d"
  shows "case d of
      Continue k \<Rightarrow> (\<exists>st'. spec_dotdot flags st x = st' \<and> take k (render (rev st)) = render (rev st') \<and> wf_stack slashes st')
    | Copy k \<Rightarrow> (\<exists>st'. spec_dotdot flags st x = x # st' \<and> take k (render (rev st)) = render (rev st') \<and> wf_stack slashes st')"
proof (cases st)
  case Nil
  then show ?thesis using d by (auto simp: norm_dotdot_def spec_dotdot_def)
next
  case (Cons y rest)
  then obtain p c where y: "y = (p, Some c)" and p: "set p \<inter> set slashes = {}"
    and c: "c \<in> set slashes" and wfr: "wf_stack slashes rest"
    using wf by (cases y) auto
  have k: "render (rev st) = render (rev rest) @ p @ [c]" using Cons y by simp
  show ?thesis
  proof (cases "rest = []")
    case True
    have "rfind_pos (\<lambda>x. x \<in> set slashes) p < 0" using p by (auto simp: rfind_pos_neg)
    then show ?thesis
      using d Cons y True wfr p c k
      by (auto simp: norm_dotdot_def spec_dotdot_def ffbase_okD [OF B] Let_def)
  next
    case False
    then obtain pre e where pre: "render (rev rest) = pre @ [e]" "e \<in> set slashes"
      using wfr wf_stack_ends_in_sep by blast
    have "rfind_pos (\<lambda>x. x \<in> set slashes) (pre @ e # p) = int (length pre)"
      using p pre by (intro rfind_pos_append_tail) auto
    moreover have "take (length (render (rev st)) - 1) (render (rev st)) = pre @ e # p"
      using k pre by simp
    ultimately show ?thesis
      using d Cons y False wfr p c k pre
      by (auto simp: norm_dotdot_def spec_dotdot_def ffbase_okD [OF B] Let_def nat_add_distrib)
  qed
qed


text \<open>
  One pass of the loop is one step of the specification, or a return of \<open>-1\<close>; it cannot
  return \<open>-1\<close> when the bytes it may add fit.
\<close>

definition comp_of :: "string \<Rightarrow> int \<Rightarrow> string \<Rightarrow> comp" where
  "comp_of part pos s2 = (part, if pos < 0 then None else Some (s2 ! nat pos))"

lemma norm_copy_render:
  assumes "norm_copy flags cap (render (rev st)) part pos s2 = r"
  shows "r = None \<or> r = Some (render (rev ((part, map_option (norm_sep flags) (snd (comp_of part pos s2))) # st)))"
    and "length (render (rev st)) + length (render1 (comp_of part pos s2)) \<le> cap \<Longrightarrow> r \<noteq> None"
    and "r = Some d \<Longrightarrow> length d \<le> cap"
  using assms by (auto simp: norm_copy_def comp_of_def split: if_splits)

text \<open>What one round gives, for the result \<open>r\<close> of the body.\<close>

definition body_result :: "nat \<Rightarrow> comp list \<Rightarrow> comp \<Rightarrow> comp list \<times> bool \<times> bool \<Rightarrow> (string \<times> bool \<times> bool) option \<Rightarrow> bool" where
  "body_result cap st x q r \<longleftrightarrow> (r = None \<or> r = Some (render (rev (fst q)), snd q))
     \<and> (length (render (rev st)) + length (render1 x) \<le> cap \<longrightarrow> r \<noteq> None)
     \<and> (length (render (rev st)) \<le> cap \<longrightarrow> (\<forall>d b. r = Some (d, b) \<longrightarrow> length d \<le> cap))"

lemmas body_defs = body_result_def norm_body_def spec_step_def comp_of_def Let_def

lemma norm_body_dotdot:
  assumes B: "ffbase_ok B" and wf: "wf_stack slashes st"
  shows "body_result cap st (comp_of ''..'' pos s2) (spec_step flags (st, simplify, skip) (comp_of ''..'' pos s2))
    (norm_body B slashes flags cap (render (rev st)) ''..'' pos s2 simplify skip)"
proof -
  let ?x = "(''..'', map_option (norm_sep flags) (snd (comp_of ''..'' pos s2)))" and ?dst = "render (rev st)"
  note D = norm_dotdot_spec [OF B wf refl, of flags ?x]
  show ?thesis
  proof (cases "norm_dotdot B slashes flags ?dst")
    case (Continue k)
    with D obtain st1 where "spec_dotdot flags st ?x = st1" "take k ?dst = render (rev st1)" by auto
    moreover have "length (take k ?dst) \<le> length ?dst" by simp
    ultimately show ?thesis using Continue by (auto simp: body_defs split: if_splits)
  next
    case (Copy k)
    with D obtain st1 where s1: "spec_dotdot flags st ?x = ?x # st1" "take k ?dst = render (rev st1)" by auto
    have "length (render (rev st1)) \<le> length ?dst" using s1(2) by (metis length_take min.cobounded1)
    then show ?thesis using Copy s1 norm_copy_render [of flags cap st1 "''..''" pos s2, OF refl]
      by (auto simp: body_defs split: if_splits)
  qed
qed

lemma norm_body_result:
  assumes "ffbase_ok B" "wf_stack slashes st"
  shows "body_result cap st (comp_of part pos s2) (spec_step flags (st, simplify, skip) (comp_of part pos s2))
    (norm_body B slashes flags cap (render (rev st)) part pos s2 simplify skip)"
proof (cases "part = ''..''")
  case True
  show ?thesis unfolding True by (rule norm_body_dotdot [OF assms])
next
  case False
  then show ?thesis using norm_copy_render [of flags cap st part pos s2, OF refl]
    by (auto simp: body_defs split: if_splits)
qed

lemma norm_body_spec:
  assumes "ffbase_ok B" "wf_stack slashes st"
    and "norm_body B slashes flags cap (render (rev st)) part pos s2 simplify skip = r"
    and "spec_step flags (st, simplify, skip) (comp_of part pos s2) = (st', simplify', skip')"
  shows "r = None \<or> r = Some (render (rev st'), simplify', skip')"
    and "length (render (rev st)) + length (render1 (comp_of part pos s2)) \<le> cap \<Longrightarrow> r \<noteq> None"
    and "length (render (rev st)) \<le> cap \<Longrightarrow> r = Some (d, b1, b2) \<Longrightarrow> length d \<le> cap"
  using norm_body_result [OF assms(1,2), of cap part pos s2 flags simplify skip] assms(3,4)
  by (auto simp: body_result_def)

lemma spec_dotdot_cases: "spec_dotdot flags st x = x # st \<or> spec_dotdot flags st x = st
    \<or> spec_dotdot flags st x = [x] \<or> spec_dotdot flags st x = tl st \<or> spec_dotdot flags st x = []"
  by (auto simp: spec_dotdot_def split: list.splits)

lemma length_render_tl: "length (render (rev (tl st))) \<le> length (render (rev st))"
  by (cases st) auto

lemma length_norm_x [simp]: "length (render1 (p, map_option f sep)) = length (render1 (p, sep))"
  by (cases sep) auto

lemma spec_step_length:
  assumes "spec_step flags (st, simplify, skip) x = (st', b)"
  shows "length (render (rev st')) \<le> length (render (rev st)) + length (render1 x)"
proof (cases x)
  case (Pair part sep)
  let ?x = "(part, map_option (norm_sep flags) sep)"
  have "length (render (rev (spec_dotdot flags st ?x))) \<le> length (render (rev st)) + length (render1 x)"
    using spec_dotdot_cases [of flags st ?x] length_render_tl [of st] Pair
    by (elim disjE) (auto intro: le_trans)
  then show ?thesis using assms Pair
    by (auto simp: spec_step_def Let_def split: if_splits)
qed

lemma spec_step_wf:
  assumes "wf_stack slashes st" "sep_ok slashes flags" "set part \<inter> set slashes = {}" "c \<in> set slashes"
    and "spec_step flags (st, simplify, skip) (part, Some c) = (st', b)"
  shows "wf_stack slashes st'"
proof -
  let ?x = "(part, Some (norm_sep flags c))"
  have x: "wf_stack slashes [?x]" using assms by (auto simp: sep_ok_def)
  have "wf_stack slashes (tl st)" using assms(1) by (cases st) auto
  then have "wf_stack slashes (spec_dotdot flags st ?x)"
    using spec_dotdot_cases [of flags st ?x] assms(1) x by (elim disjE) auto
  then show ?thesis using assms x by (auto simp: spec_step_def Let_def split: if_splits)
qed

text \<open>
  What is shown of the loop, for the rest \<open>s\<close> of the input with its components \<open>xs\<close>: it returns, writes
  what the specification gives within the capacity, and does not fail if the rest fits.
\<close>

definition norm_result :: "nat \<Rightarrow> u32 \<Rightarrow> comp list \<Rightarrow> bool \<Rightarrow> bool \<Rightarrow> comp list \<Rightarrow> string \<Rightarrow> string option option \<Rightarrow> bool" where
  "norm_result cap flags st simplify skip xs s res \<longleftrightarrow> (\<exists>r. res = Some r
     \<and> (\<forall>d. r = Some d \<longrightarrow> d = render (rev (fst (foldl (spec_step flags) (st, simplify, skip) xs))) \<and> length d \<le> cap)
     \<and> (length (render (rev st)) + length s \<le> cap \<longrightarrow> r \<noteq> None))"

lemma norm_loop_last:
  assumes B: "ffbase_ok B" and "wf_stack slashes st" "length (render (rev st)) \<le> cap"
    and s: "\<forall>x\<in>set s. x \<notin> set slashes" "split_first (\<lambda>x. x \<in> set slashes) s = (-1, s, [])"
  shows "norm_result cap flags st simplify skip (comps slashes s) s (norm_loop B slashes flags cap s (render (rev st)) simplify skip)"
proof (cases "s = []")
  case True
  then show ?thesis using assms(3) by (simp add: norm_loop.simps norm_result_def)
next
  case False
  obtain st1 b1 b2 where st1: "spec_step flags (st, simplify, skip) (comp_of s (-1) s) = (st1, b1, b2)"
    by (cases "spec_step flags (st, simplify, skip) (comp_of s (-1) s)") auto
  note body = norm_body_spec [OF B assms(2) refl st1, of cap]
  have c: "comps slashes s = [(s, None)]" "comp_of s (-1) s = (s, None)"
    using s(1) False by (auto intro!: comps_last simp: comp_of_def)
  show ?thesis
    unfolding norm_result_def using False s body assms(3) st1 c
    by (subst norm_loop.simps)
      (auto simp: ffbase_okD [OF B] norm_loop.simps [of _ _ _ _ "[]"] split: option.splits)
qed

lemma norm_loop_hit:
  assumes B: "ffbase_ok B" and sep: "sep_ok slashes flags" and wf: "wf_stack slashes st" and cap: "length (render (rev st)) \<le> cap"
    and s: "s = a @ c # b" "set a \<inter> set slashes = {}" "c \<in> set slashes"
    and IH: "\<And>st simplify skip. wf_stack slashes st \<Longrightarrow> length (render (rev st)) \<le> cap \<Longrightarrow>
      norm_result cap flags st simplify skip (comps slashes b) b (norm_loop B slashes flags cap b (render (rev st)) simplify skip)"
  shows "norm_result cap flags st simplify skip (comps slashes s) s (norm_loop B slashes flags cap s (render (rev st)) simplify skip)"
proof -
  let ?dst = "render (rev st)" and ?r = "norm_body B slashes flags cap (render (rev st)) a (int (length a)) s simplify skip"
  have x: "comp_of a (int (length a)) s = (a, Some c)" using s by (simp add: comp_of_def nth_append)
  obtain st1 b1 b2 where st1: "spec_step flags (st, simplify, skip) (a, Some c) = (st1, b1, b2)"
    by (cases "spec_step flags (st, simplify, skip) (a, Some c)") auto
  note body = norm_body_spec [OF B wf refl, of flags simplify skip a "int (length a)" s, unfolded x, OF st1, of cap]
  have len: "length (render (rev st1)) \<le> length ?dst + length a + 1" using spec_step_length [OF st1] by simp
  have cs: "comps slashes s = (a, Some c) # comps slashes b" using s by (simp add: comps_sep)
  have "split_first (\<lambda>x. x \<in> set slashes) s = (int (length a), a, b)" unfolding s(1) by (rule split_first_hit) (use s in auto)
  then have step: "norm_loop B slashes flags cap s ?dst simplify skip =
      (case ?r of None \<Rightarrow> Some None | Some q \<Rightarrow> norm_loop B slashes flags cap b (fst q) (fst (snd q)) (snd (snd q)))"
    using s(1) by (subst norm_loop.simps) (simp add: ffbase_okD [OF B] split: option.split)
  show ?thesis
  proof (cases ?r)
    case None
    then show ?thesis using step body(2) s(1) by (auto simp: norm_result_def)
  next
    case (Some q)
    with body(1) have q: "q = (render (rev st1), b1, b2)" by simp
    with Some body(3) cap have "length (render (rev st1)) \<le> cap" by blast
    from IH [OF spec_step_wf [OF wf sep s(2,3) st1] this, of b1 b2] show ?thesis
      using step Some q cs st1 len s(1) by (auto simp: norm_result_def)
  qed
qed

lemma norm_loop_spec:
  assumes "ffbase_ok B" "sep_ok slashes flags"
  shows "wf_stack slashes st \<Longrightarrow> length (render (rev st)) \<le> cap \<Longrightarrow>
    norm_result cap flags st simplify skip (comps slashes s) s (norm_loop B slashes flags cap s (render (rev st)) simplify skip)"
proof (induction "length s" arbitrary: s st simplify skip rule: less_induct)
  case less
  show ?case
  proof (cases s rule: split_first_cases [of _ "\<lambda>x. x \<in> set slashes"])
    case none
    show ?thesis by (rule norm_loop_last [OF assms(1) less.prems]) (use none in auto)
  next
    case (hit a c b)
    show ?thesis
      by (rule norm_loop_hit [OF assms less.prems hit(1)]) (use hit less.hyps in auto)
  qed
qed


subsection \<open>The components of a path and of a result\<close>

text \<open>
  Lists of components that come from a string: only the last one may lack its separator, and
  then it is not empty.
\<close>

fun wf_comps :: "string \<Rightarrow> comp list \<Rightarrow> bool" where
  "wf_comps slashes [] = True"
| "wf_comps slashes [x] \<longleftrightarrow> set (fst x) \<inter> set slashes = {} \<and>
     (case snd x of None \<Rightarrow> fst x \<noteq> [] | Some c \<Rightarrow> c \<in> set slashes)"
| "wf_comps slashes (x # y # zs) \<longleftrightarrow> set (fst x) \<inter> set slashes = {} \<and>
     (\<exists>c\<in>set slashes. snd x = Some c) \<and> wf_comps slashes (y # zs)"

lemma wf_comps_Cons_sep:
  "set p \<inter> set slashes = {} \<Longrightarrow> c \<in> set slashes \<Longrightarrow> wf_comps slashes xs \<Longrightarrow>
   wf_comps slashes ((p, Some c) # xs)"
  by (cases xs) auto

lemma comps_wf: "wf_comps slashes (comps slashes s)"
proof (induction slashes s rule: comps.induct)
  case (1 slashes s)
  show ?case
  proof (cases s rule: split_first_cases [of _ "\<lambda>x. x \<in> set slashes"])
    case none
    then have "set s \<inter> set slashes = {}" by blast
    then show ?thesis by (cases "s = []") (auto simp: comps_last)
  next
    case (hit a c b)
    then have "wf_comps slashes (comps slashes b)" using "1.IH" [of "int (length a)" "(a, b)"] by simp
    moreover have "set a \<inter> set slashes = {}" using hit by blast
    ultimately show ?thesis using hit by (auto simp: comps_sep intro!: wf_comps_Cons_sep)
  qed
qed

lemma comps_render: "wf_comps slashes xs \<Longrightarrow> comps slashes (render xs) = xs"
proof (induction slashes xs rule: wf_comps.induct)
  case (2 slashes x)
  then show ?case
    by (cases x) (auto simp: comps_last comps_sep [of _ _ _ "[]", simplified] split: option.splits)
next
  case (3 slashes x y zs)
  then obtain p c where x: "x = (p, Some c)" "c \<in> set slashes" "set p \<inter> set slashes = {}"
    by (cases x) auto
  then have "render (x # y # zs) = p @ c # render (y # zs)" by simp
  with 3 x show ?case by (simp add: comps_sep del: render_simps)
qed simp

lemma wf_stack_wf_comps:
  assumes "wf_stack slashes st" "set (fst x) \<inter> set slashes = {}"
    "case snd x of None \<Rightarrow> fst x \<noteq> [] | Some c \<Rightarrow> c \<in> set slashes"
  shows "wf_comps slashes (rev st @ [x])"
proof -
  have "wf_comps slashes (ys @ [x])" if "wf_stack slashes ys" for ys
    using that assms(2,3)
  proof (induction ys)
    case (Cons y ys)
    then show ?case by (cases y) (auto intro!: wf_comps_Cons_sep)
  qed auto
  then show ?thesis using assms(1) by (simp add: wf_stack_def)
qed

lemma wf_stack_wf_comps': "wf_stack slashes st \<Longrightarrow> wf_comps slashes (rev st)"
  by (cases st) (auto intro!: wf_stack_wf_comps)

lemma fold_spec_wf:
  "sep_ok slashes flags \<Longrightarrow> wf_stack slashes st \<Longrightarrow> wf_comps slashes xs \<Longrightarrow>
   wf_comps slashes (rev (fst (foldl (spec_step flags) (st, a, b) xs)))"
proof (induction xs arbitrary: st a b rule: wf_comps.induct)
  case (1 slashes)
  then show ?case by (simp add: wf_stack_wf_comps')
next
  case (2 slashes x)
  obtain part sep where x: "x = (part, sep)" by fastforce
  let ?x = "(part, map_option (norm_sep flags) sep)"
  have gx: "wf_comps slashes (rev (?x # ys))" if "wf_stack slashes ys" for ys
    using 2 x that by (auto intro!: wf_stack_wf_comps simp: sep_ok_def split: option.splits)
  have "wf_stack slashes (tl st)" using 2 by (cases st) auto
  then have "wf_comps slashes (rev (spec_dotdot flags st ?x))"
    using spec_dotdot_cases [of flags st ?x] gx [of st] gx [of "[]"] wf_stack_wf_comps' [of slashes] 2
    by (elim disjE) auto
  then show ?case using x gx [of st] 2 wf_stack_wf_comps' [of slashes st]
    by (auto simp: spec_step_def Let_def)
next
  case (3 slashes x y zs)
  obtain part c where x: "x = (part, Some c)" "set part \<inter> set slashes = {}" "c \<in> set slashes"
    using 3 by (cases x) auto
  obtain st1 b1 b2 where st1: "spec_step flags (st, a, b) x = (st1, b1, b2)"
    by (cases "spec_step flags (st, a, b) x") auto
  have "wf_stack slashes st1" using spec_step_wf 3 x st1 by blast
  then show ?case using 3 st1 by simp
qed

text \<open>With \<open>FFPATH_SIMPLE\<close> no component is empty, \<open>.\<close> or \<open>..\<close>.\<close>

definition plain_comp :: "comp \<Rightarrow> bool" where
  "plain_comp x \<longleftrightarrow> fst x \<noteq> [] \<and> fst x \<noteq> ''.'' \<and> fst x \<noteq> ''..''"

lemma spec_step_simple:
  assumes "tst flags FFPATH_SIMPLE" "\<forall>x\<in>set st. plain_comp x" "spec_step flags (st, True, skip) x = (st', a, b)"
  shows "a \<and> (\<forall>x\<in>set st'. plain_comp x)"
  using assms
  by (cases x; cases st)
    (auto simp: spec_step_def spec_dotdot_def plain_comp_def Let_def split: if_splits)

lemma fold_spec_simple:
  "tst flags FFPATH_SIMPLE \<Longrightarrow> \<forall>x\<in>set st. plain_comp x \<Longrightarrow>
   \<forall>x\<in>set (fst (foldl (spec_step flags) (st, True, skip) xs)). plain_comp x"
proof (induction xs arbitrary: st skip)
  case (Cons x xs)
  obtain st' a b where s: "spec_step flags (st, True, skip) x = (st', a, b)"
    by (cases "spec_step flags (st, True, skip) x") auto
  have "a" "\<forall>x\<in>set st'. plain_comp x" using spec_step_simple [OF Cons.prems s] by auto
  then show ?case using Cons.IH [OF Cons.prems(1)] s by simp
qed simp


subsection \<open>Normal forms\<close>

text \<open>
  A stack (top first) that normalization leaves unchanged: only the bottom component may be
  empty or \<open>.\<close>, a \<open>..\<close> stands on \<open>..\<close> only, and every separator is already
  the one the flags ask for.
\<close>

fun canon :: "u32 \<Rightarrow> comp list \<Rightarrow> bool" where
  "canon flags [] = True"
| "canon flags [x] \<longleftrightarrow> map_option (norm_sep flags) (snd x) = snd x \<and>
     (tst flags FFPATH_SIMPLE \<longrightarrow> plain_comp x)"
| "canon flags (x # y # st) \<longleftrightarrow> map_option (norm_sep flags) (snd x) = snd x \<and>
     fst x \<noteq> [] \<and> fst x \<noteq> ''.'' \<and> (fst x = ''..'' \<longrightarrow> fst y = ''..'' \<and> \<not> tst flags FFPATH_SIMPLE) \<and>
     canon flags (y # st)"

lemma norm_sep_idem [simp]: "norm_sep flags (norm_sep flags c) = norm_sep flags c"
  by (simp add: norm_sep_def)

lemma map_norm_sep_idem [simp]:
  "map_option (norm_sep flags) (map_option (norm_sep flags) s) = map_option (norm_sep flags) s"
  by (cases s) auto

lemma canon_tl: "canon flags (x # st) \<Longrightarrow> canon flags st"
  by (cases st) auto

lemma canon_step:
  assumes "canon flags st" "\<not> simplify \<longrightarrow> st = [] \<and> \<not> tst flags FFPATH_SIMPLE"
    "spec_step flags (st, simplify, skip) x = (st', simplify', skip')"
  shows "canon flags st' \<and> (\<not> simplify' \<longrightarrow> st' = [] \<and> \<not> tst flags FFPATH_SIMPLE)"
proof -
  obtain part sep where x: "x = (part, sep)" by fastforce
  show ?thesis
  proof (cases st)
    case Nil
    then show ?thesis using assms x
      by (auto simp: spec_step_def spec_dotdot_def plain_comp_def Let_def split: if_splits)
  next
    case (Cons y rest)
    then show ?thesis using assms x canon_tl [of flags y rest]
      by (cases rest)
        (auto simp: spec_step_def spec_dotdot_def plain_comp_def Let_def split: if_splits)
  qed
qed

lemma canon_fold:
  "canon flags st \<Longrightarrow> \<not> simplify \<longrightarrow> st = [] \<and> \<not> tst flags FFPATH_SIMPLE \<Longrightarrow>
   canon flags (fst (foldl (spec_step flags) (st, simplify, skip) xs))"
proof (induction xs arbitrary: st simplify skip)
  case (Cons x xs)
  obtain st' a b where s: "spec_step flags (st, simplify, skip) x = (st', a, b)"
    by (cases "spec_step flags (st, simplify, skip) x") auto
  then show ?case using Cons.IH [of st' a b] canon_step [OF Cons.prems s] by simp
qed simp

text \<open>Replaying the components of a normal form pushes each of them.\<close>

lemma canon_replay:
  "canon flags st \<Longrightarrow>
   foldl (spec_step flags) ([], tst flags FFPATH_SIMPLE, False) (rev st)
     = (st, tst flags FFPATH_SIMPLE \<or> st \<noteq> [], False)"
proof (induction flags st rule: canon.induct)
  case (2 flags x)
  then show ?case
    by (cases x) (auto simp: spec_step_def spec_dotdot_def plain_comp_def Let_def)
next
  case (3 flags x y st)
  have "foldl (spec_step flags) ([], tst flags FFPATH_SIMPLE, False) (rev (x # y # st))
      = spec_step flags (foldl (spec_step flags) ([], tst flags FFPATH_SIMPLE, False) (rev (y # st))) x"
    by simp
  also have "\<dots> = spec_step flags (y # st, True, False) x"
    using 3 by (simp del: foldl_append rev.simps)
  also have "\<dots> = (x # y # st, True, False)"
    using 3 by (cases x) (auto simp: spec_step_def spec_dotdot_def Let_def)
  finally show ?case by simp
qed simp

subsection \<open>Properties of normalization\<close>

text \<open>
  The forced separator must be one of the separators the path is split at.  It always is on
  Windows and with \<open>FFPATH_SLASH_BACKSLASH\<close> or \<open>FFPATH_FORCE_SLASH\<close>; it is not for
  \<open>FFPATH_FORCE_BACKSLASH\<close> on a path split by \<open>/\<close> alone.
\<close>

definition norm_consistent :: "bool \<Rightarrow> u32 \<Rightarrow> bool" where
  "norm_consistent win flags \<longleftrightarrow>
     (tst flags FFPATH_FORCE_BACKSLASH \<and> \<not> tst flags FFPATH_FORCE_SLASH
        \<longrightarrow> backslash_c \<in> set (norm_slashes win flags))"

lemma tst_or: "tst (f OR g) m \<longleftrightarrow> tst f m \<or> tst g m"
  by (auto simp: tst_def bit_eq_iff bit_and_iff bit_or_iff)

lemma norm_flags_tst:
  "tst (norm_flags win flags) FFPATH_FORCE_SLASH = tst flags FFPATH_FORCE_SLASH"
  "tst (norm_flags win flags) FFPATH_FORCE_BACKSLASH = tst flags FFPATH_FORCE_BACKSLASH"
  "tst (norm_flags win flags) FFPATH_SIMPLE = tst flags FFPATH_SIMPLE"
  by (auto simp: norm_flags_def tst_or) (simp_all add: tst_def flag_simps)

lemma slash_in_slashes [simp]: "slash_c \<in> set (norm_slashes win flags)"
  by (simp add: norm_slashes_def Let_def)

lemma norm_consistent_sep_ok:
  "norm_consistent win flags \<Longrightarrow> sep_ok (norm_slashes win flags) (norm_flags win flags)"
  by (auto simp: norm_consistent_def sep_ok_def norm_sep_def norm_flags_tst)

lemma normalize_lemma:
  assumes "ffbase_ok B" "norm_consistent win flags"
  shows "\<exists>r. ffpath_normalize win B cap src flags = Some r
     \<and> (\<forall>d. r = Some d \<longrightarrow> d = render (norm_spec win src flags) \<and> length d \<le> cap)
     \<and> (length src \<le> cap \<longrightarrow> r \<noteq> None)"
  using norm_loop_spec [OF assms(1) norm_consistent_sep_ok [OF assms(2)],
      of "[]" cap "tst (norm_flags win flags) FFPATH_SIMPLE" "norm_skip_disk (norm_flags win flags)" src]
  by (simp add: ffpath_normalize_def norm_spec_def norm_result_def Let_def)

lemma norm_spec_comps:
  assumes "norm_consistent win flags"
  shows "comps (norm_slashes win flags) (render (norm_spec win src flags)) = norm_spec win src flags"
proof -
  have "wf_comps (norm_slashes win flags) (norm_spec win src flags)"
    unfolding norm_spec_def Let_def
    by (intro fold_spec_wf norm_consistent_sep_ok assms comps_wf) simp
  then show ?thesis by (rule comps_render)
qed


text \<open>
  Claim C1.  \<open>ffpath_normalize\<close> always returns.  Whatever it writes fits the capacity and is
  the component-wise normal form of the input; and when the capacity is at least the length of
  the input it does not fail.
\<close>

theorem normalize_refines:
  assumes "ffbase_ok B" "norm_consistent win flags"
  shows "\<exists>r. ffpath_normalize win B cap src flags = Some r
     \<and> (r = None \<or> r = Some (render (norm_spec win src flags)) \<and> length (the r) \<le> cap)
     \<and> (length src \<le> cap \<longrightarrow> r \<noteq> None)"
  using normalize_lemma [OF assms, of cap src] by (auto split: option.splits)

theorem normalize_refines_witness:
  "ffbase_ok ffbase_ref \<and> norm_consistent False 0 \<and>
   ffpath_normalize False ffbase_ref 32 ''./a//../../b'' 0 = Some (Some ''../b'')"
proof -
  have c: "norm_consistent False 0" by (simp add: norm_consistent_def)
  have "render (norm_spec False ''./a//../../b'' 0) = ''../b''" by code_simp
  then show ?thesis using c normalize_refines [OF ffbase_ref_ok c, of 32 "''./a//../../b''"] by auto
qed

lemma normalize_simple_plain:
  assumes "ffbase_ok B" "norm_consistent win flags" "tst flags FFPATH_SIMPLE"
    and "ffpath_normalize win B cap src flags = Some (Some d)"
  shows "\<forall>x\<in>set (comps (norm_slashes win flags) d). plain_comp x"
proof -
  have "d = render (norm_spec win src flags)"
    using normalize_lemma [OF assms(1,2), of cap src] assms(4) by simp
  moreover have "\<forall>x\<in>set (norm_spec win src flags). plain_comp x"
    using fold_spec_simple [of "norm_flags win flags" "[]"] assms(3)
    by (simp add: norm_spec_def Let_def norm_flags_tst)
  ultimately show ?thesis using norm_spec_comps [OF assms(2)] by simp
qed

text \<open>The part of a path before a separator has components of the path only.\<close>

lemma comps_prefix_plain:
  "c \<in> set slashes \<Longrightarrow> \<forall>x\<in>set (comps slashes (a @ c # b)). plain_comp x \<Longrightarrow> \<forall>x\<in>set (comps slashes a). plain_comp x"
proof (induction "length a" arbitrary: a rule: less_induct)
  case less
  show ?case
  proof (cases a rule: split_first_cases [of _ "\<lambda>x. x \<in> set slashes"])
    case none
    then have "comps slashes (a @ c # b) = (a, Some c) # comps slashes b" using less.prems by (intro comps_sep) auto
    moreover have "set (comps slashes a) \<subseteq> {(a, None)}" using none by (cases "a = []") (auto simp: comps_last disjoint_iff)
    ultimately show ?thesis using less.prems by (auto simp: plain_comp_def)
  next
    case (hit u d v)
    then have u: "set u \<inter> set slashes = {}" by auto
    have "\<forall>x\<in>set (comps slashes v). plain_comp x"
      by (rule less.hyps) (use hit u less.prems in \<open>auto simp: comps_sep\<close>)
    then show ?thesis using hit u less.prems by (auto simp: comps_sep)
  qed
qed

text \<open>The result has characters of the input and separators only.\<close>

definition chars_in :: "char set \<Rightarrow> comp \<Rightarrow> bool" where
  "chars_in A x \<longleftrightarrow> set (render1 x) \<subseteq> A"

lemma comps_chars: "\<forall>x\<in>set (comps slashes s). chars_in (set s) x"
proof (induction "length s" arbitrary: s rule: less_induct)
  case less
  show ?case
  proof (cases s rule: split_first_cases [of _ "\<lambda>x. x \<in> set slashes"])
    case none
    then show ?thesis by (cases "s = []") (auto simp: comps_last disjoint_iff chars_in_def)
  next
    case (hit u d v)
    then have "set u \<inter> set slashes = {}" by auto
    then show ?thesis using hit less.hyps [of v] by (auto simp: comps_sep chars_in_def)
  qed
qed

lemma fold_spec_chars:
  "slash_c \<in> A \<Longrightarrow> backslash_c \<in> A \<Longrightarrow> \<forall>x\<in>set st. chars_in A x \<Longrightarrow> \<forall>x\<in>set xs. chars_in A x \<Longrightarrow>
   \<forall>x\<in>set (fst (foldl (spec_step flags) (st, a, b) xs)). chars_in A x"
proof (induction xs arbitrary: st a b)
  case (Cons x xs)
  obtain p s where x: "x = (p, s)" by fastforce
  let ?x = "(p, map_option (norm_sep flags) s)"
  have c: "chars_in A ?x" using Cons.prems x by (cases s) (auto simp: chars_in_def norm_sep_def)
  have "set (spec_dotdot flags st ?x) \<subseteq> insert ?x (set st)"
    using spec_dotdot_cases [of flags st ?x] by (cases st) (elim disjE; auto)+
  then have "\<forall>y\<in>set (fst (spec_step flags (st, a, b) x)). chars_in A y"
    using c Cons.prems(3) x by (auto simp: spec_step_def Let_def)
  moreover obtain st' a' b' where st': "spec_step flags (st, a, b) x = (st', a', b')"
    by (cases "spec_step flags (st, a, b) x") auto
  ultimately have "\<forall>y\<in>set st'. chars_in A y" by simp
  from Cons.IH [OF Cons.prems(1,2) this] show ?case using Cons.prems(4) st' by simp
qed simp

lemma normalize_chars:
  assumes "ffbase_ok B" "norm_consistent win flags" "ffpath_normalize win B cap src flags = Some (Some d)"
  shows "set d \<subseteq> set src \<union> {slash_c, backslash_c}"
proof -
  have "\<forall>x\<in>set (norm_spec win src flags). chars_in (set src \<union> {slash_c, backslash_c}) x"
    unfolding norm_spec_def Let_def set_rev
    by (rule fold_spec_chars) (use comps_chars [of "norm_slashes win flags" src] in \<open>auto simp: chars_in_def\<close>)
  moreover have "d = render (norm_spec win src flags)"
    using normalize_lemma [OF assms(1,2), of cap src] assms(3) by simp
  ultimately show ?thesis by (fastforce simp: render_def chars_in_def)
qed

text \<open>
  Claim C16.  With \<open>FFPATH_SIMPLE\<close> the result cannot lead out of the directory it is appended
  to: none of its components is empty, \<open>.\<close> or \<open>..\<close>, so in particular it does not begin
  with a separator.
\<close>

theorem normalize_simple_safe:
  assumes "ffbase_ok B" "norm_consistent win flags" "tst flags FFPATH_SIMPLE"
    and "ffpath_normalize win B cap src flags = Some (Some d)"
  shows "\<forall>x\<in>set (comps (norm_slashes win flags) d). fst x \<noteq> [] \<and> fst x \<noteq> ''.'' \<and> fst x \<noteq> ''..''"
  using normalize_simple_plain [OF assms] by (simp add: plain_comp_def)

theorem normalize_simple_safe_witness:
  "ffpath_normalize False ffbase_ref 32 ''/../a/../../etc'' FFPATH_SIMPLE = Some (Some ''etc'') \<and>
   list_all (\<lambda>x. fst x \<noteq> [] \<and> fst x \<noteq> ''.'' \<and> fst x \<noteq> ''..'')
     (comps (norm_slashes False FFPATH_SIMPLE) ''etc'')"
proof -
  have c: "norm_consistent False FFPATH_SIMPLE" and t: "tst FFPATH_SIMPLE FFPATH_SIMPLE"
    by (simp_all add: norm_consistent_def tst_def flag_simps)
  have r: "ffpath_normalize False ffbase_ref 32 ''/../a/../../etc'' FFPATH_SIMPLE = Some (Some ''etc'')"
    by code_simp
  show ?thesis using r normalize_simple_safe [OF ffbase_ref_ok c t r] unfolding list_all_iff by (rule conjI)
qed

text \<open>
  Normalizing a normalized path changes nothing (unless \<open>FFPATH_SIMPLE\<close> and
  \<open>FFPATH_DISK_LETTER\<close> are combined, where each pass drops one leading \<open>x:\<close> component).
\<close>

theorem normalize_idempotent:
  assumes "ffbase_ok B" "norm_consistent win flags" "\<not> norm_skip_disk (norm_flags win flags)"
    and "ffpath_normalize win B cap src flags = Some (Some d)"
  shows "ffpath_normalize win B cap d flags = Some (Some d)"
proof -
  let ?f = "norm_flags win flags"
  have d: "d = render (norm_spec win src flags)" "length d \<le> cap"
    using normalize_lemma [OF assms(1,2), of cap src] assms(4) by auto
  obtain st where st: "norm_spec win src flags = rev st" "canon ?f st"
    using canon_fold [of ?f "[]" "tst ?f FFPATH_SIMPLE" "norm_skip_disk ?f"]
    by (auto simp: norm_spec_def Let_def)
  have "comps (norm_slashes win flags) d = rev st"
    using norm_spec_comps [OF assms(2), of src] d(1) st(1) by simp
  then have "norm_spec win d flags = rev st"
    using canon_replay [OF st(2)] assms(3) by (simp add: norm_spec_def Let_def)
  then have "norm_spec win d flags = norm_spec win src flags" using st(1) by simp
  then show ?thesis using normalize_lemma [OF assms(1,2), of cap d] d by auto
qed

theorem normalize_idempotent_witness:
  "ffpath_normalize False ffbase_ref 32 ''a/../../b/.'' 0 = Some (Some ''../b/'') \<and>
   ffpath_normalize False ffbase_ref 32 ''../b/'' 0 = Some (Some ''../b/'')"
proof -
  have c: "norm_consistent False 0" and n: "\<not> norm_skip_disk (norm_flags False 0)"
    by (simp_all add: norm_consistent_def norm_skip_disk_def norm_flags_def flag_simps)
  have r: "ffpath_normalize False ffbase_ref 32 ''a/../../b/.'' 0 = Some (Some ''../b/'')"
    by code_simp
  show ?thesis using r normalize_idempotent [OF ffbase_ref_ok c n r] by simp
qed

text \<open>
  The hypothesis of the previous claims is needed: on UNIX \<open>FFPATH_FORCE_BACKSLASH\<close>
  writes separators that the search for the previous component does not see, and \<open>a/b/../c\<close>
  loses its first component.
\<close>

theorem normalize_force_backslash_drops:
  "ffpath_normalize False ffbase_ref 32 ''a/b/../c'' FFPATH_FORCE_BACKSLASH = Some (Some ''c'') \<and>
   ffpath_normalize False ffbase_ref 32 ''a/b/../c'' (FFPATH_SLASH_BACKSLASH OR FFPATH_FORCE_BACKSLASH)
     = Some (Some [CHR ''a'', CHR 0x5C, CHR ''c''])"
  by code_simp

subsection \<open>Splitting\<close>

text \<open>
  Both versions of \<open>ffpath_splitpath\<close> promise the same for their own set of separators; the
  consequences are proved once.
\<close>

locale path_split =
  fixes is_sep :: "char \<Rightarrow> bool"
    and split :: "ffbase \<Rightarrow> string \<Rightarrow> int \<times> string \<times> string"
  assumes split_none: "ffbase_ok B \<Longrightarrow> \<forall>c\<in>set fn. \<not> is_sep c \<Longrightarrow> split B fn = (-1, [], fn)"
    and split_last: "ffbase_ok B \<Longrightarrow> is_sep c \<Longrightarrow> \<forall>x\<in>set b. \<not> is_sep x \<Longrightarrow>
      split B (a @ c # b) = (int (length a), a, b)"
begin

lemma split_exact:
  assumes "ffbase_ok B" "split B fn = (r, dir, name)"
  shows "(\<forall>c\<in>set name. \<not> is_sep c) \<and>
    (if r < 0 then r = -1 \<and> dir = [] \<and> name = fn
     else \<exists>c. is_sep c \<and> fn = dir @ c # name \<and> r = int (length dir))"
proof (cases "\<exists>c\<in>set fn. is_sep c")
  case True
  then obtain a c b where d: "fn = a @ c # b" "is_sep c" "\<forall>x\<in>set b. \<not> is_sep x"
    using split_list_last_prop [of fn is_sep] by blast
  then show ?thesis using split_last [OF assms(1) d(2,3), of a] assms(2) by auto
next
  case False
  then show ?thesis using split_none [OF assms(1)] assms(2) by auto
qed

end

lemma split_at_last:
  assumes "ffbase_ok B" "P c" "\<forall>x\<in>set b. \<not> P x"
  shows "ffs_split B (a @ c # b) (rfind_pos P (a @ c # b)) = (int (length a), a, b)"
  using rfind_pos_append_tail [of b P c a] assms by (simp add: ffbase_okD ffs_split_at_def)

interpretation split_unix: path_split ffpath_slash ffpath_splitpath_unix
proof unfold_locales
  fix B fn assume B: "ffbase_ok B" and n: "\<forall>c\<in>set fn. \<not> ffpath_slash c"
  then have "rfind_pos (\<lambda>x. x = slash_c) fn < 0" by (simp add: rfind_pos_neg ffpath_slash_def)
  with B show "ffpath_splitpath_unix B fn = (-1, [], fn)"
    by (simp add: ffpath_splitpath_unix_def ffbase_okD)
next
  fix B c b a assume B: "ffbase_ok B" and c: "ffpath_slash c" "\<forall>x\<in>set b. \<not> ffpath_slash x"
  then show "ffpath_splitpath_unix B (a @ c # b) = (int (length a), a, b)"
    using split_at_last [of B "\<lambda>x. x = slash_c" c b a] rfind_pos_append_tail [of b "\<lambda>x. x = slash_c" c a]
    by (simp add: ffpath_splitpath_unix_def ffbase_okD(1) ffpath_slash_def)
qed

interpretation split_win: path_split ffpath_slash_win ffpath_splitpath_win
proof unfold_locales
  fix B fn assume B: "ffbase_ok B" and n: "\<forall>c\<in>set fn. \<not> ffpath_slash_win c"
  then have "rfind_pos (\<lambda>x. x \<in> set [slash_c, backslash_c]) fn < 0"
    by (simp add: rfind_pos_neg ffpath_slash_win_def)
  with B show "ffpath_splitpath_win B fn = (-1, [], fn)"
    by (simp add: ffpath_splitpath_win_def ffbase_okD del: set_simps)
next
  fix B c b a assume B: "ffbase_ok B" and c: "ffpath_slash_win c" "\<forall>x\<in>set b. \<not> ffpath_slash_win x"
  then show "ffpath_splitpath_win B (a @ c # b) = (int (length a), a, b)"
    using split_at_last [of B "\<lambda>x. x \<in> set [slash_c, backslash_c]" c b a]
      rfind_pos_append_tail [of b "\<lambda>x. x \<in> set [slash_c, backslash_c]" c a]
    by (simp add: ffpath_splitpath_win_def ffbase_okD(2) ffpath_slash_win_def)
qed

text \<open>
  \<open>ffpath_splitpath\<close> cuts at the last separator: directory, separator and name
  give the path back and the name holds no separator; a path without separator is all name.
\<close>

theorem splitpath_roundtrip:
  assumes "ffbase_ok B" "ffpath_splitpath_str win B fn = (r, dir, name)"
  defines "is_sep \<equiv> (if win then ffpath_slash_win else ffpath_slash)"
  shows "(\<forall>c\<in>set name. \<not> is_sep c) \<and>
    (if r < 0 then r = -1 \<and> dir = [] \<and> name = fn
     else \<exists>c. is_sep c \<and> fn = dir @ c # name \<and> r = int (length dir))"
  using assms split_unix.split_exact [OF assms(1), of fn r dir name]
    split_win.split_exact [OF assms(1), of fn r dir name]
  by (cases win) (simp_all add: ffpath_splitpath_str_def)

theorem splitpath_roundtrip_witness:
  "ffpath_splitpath_str False ffbase_ref ''/path/to/file'' = (8, ''/path/to'', ''file'') \<and>
   (\<exists>c. ffpath_slash c \<and> ''/path/to/file'' = ''/path/to'' @ c # ''file'')"
proof -
  have r: "ffpath_splitpath_str False ffbase_ref ''/path/to/file'' = (8, ''/path/to'', ''file'')"
    by code_simp
  show ?thesis using r splitpath_roundtrip [OF ffbase_ref_ok r] by (simp only: if_False) auto
qed

text \<open>
  \<open>ffpath_splitname\<close> cuts at the last dot, except that a name with no dot or with
  its only dot in front (\<open>.foo\<close>) has no extension; the extension holds no dot.
\<close>

theorem splitname_roundtrip:
  assumes "ffbase_ok B" "ffpath_splitname_str B fn = (r, name, ext)"
  shows "(if r = 0 then name = fn \<and> ext = [] \<and> CHR ''.'' \<notin> set (tl fn)
     else fn = name @ CHR ''.'' # ext \<and> name \<noteq> [] \<and> CHR ''.'' \<notin> set ext \<and> r = int (length name))"
proof (cases "rfind_pos (\<lambda>x. x = CHR ''.'') fn < 0")
  case True
  then have "CHR ''.'' \<notin> set fn" by (auto simp: rfind_pos_neg)
  then have "CHR ''.'' \<notin> set (tl fn)" by (cases fn) auto
  then show ?thesis using True assms
    by (auto simp: ffpath_splitname_str_def ffpath_splitname_def ffbase_okD(1) Let_def)
next
  case False
  then obtain a c b where d: "fn = a @ c # b" "c = CHR ''.''" "\<forall>y\<in>set b. y \<noteq> CHR ''.''"
      "rfind_pos (\<lambda>x. x = CHR ''.'') fn = int (length a)"
    using rfind_pos_decomp [of "\<lambda>x. x = CHR ''.''" fn] by (metis not_less)
  have "ffs_split B fn (rfind_pos (\<lambda>x. x = CHR ''.'') fn) = (int (length a), a, b)"
    using split_at_last [OF assms(1), of "\<lambda>x. x = CHR ''.''" c b a] d by simp
  then have "ffpath_splitname_str B fn = (if a = [] then (0, fn, []) else (int (length a), a, b))"
    using d(4) by (simp add: ffpath_splitname_str_def ffpath_splitname_def ffbase_okD(1) [OF assms(1)])
  then have e: "(r, name, ext) = (if a = [] then (0, fn, []) else (int (length a), a, b))"
    using assms(2) by simp
  have nb: "CHR ''.'' \<notin> set b" using d(3) by auto
  show ?thesis
  proof (cases "a = []")
    case True
    then have "r = 0" "name = fn" "ext = []" "tl fn = b" using e d(1) by simp_all
    then show ?thesis using nb by simp
  next
    case False
    then have "r = int (length a)" "name = a" "ext = b" using e by simp_all
    then show ?thesis using nb d(1,2) False by simp
  qed
qed

theorem splitname_roundtrip_witness:
  "ffpath_splitname_str ffbase_ref ''a.tar.gz'' = (5, ''a.tar'', ''gz'') \<and>
   ''a.tar.gz'' = ''a.tar'' @ CHR ''.'' # ''gz''"
proof -
  have r: "ffpath_splitname_str ffbase_ref ''a.tar.gz'' = (5, ''a.tar'', ''gz'')"
    by (simp add: ffpath_splitname_str_def ffpath_splitname_def ffbase_ref_def ffs_split_at_def)
  have "(5::int) \<noteq> 0" by simp
  with splitname_roundtrip [OF ffbase_ref_ok r]
  have "''a.tar.gz'' = ''a.tar'' @ CHR ''.'' # ''gz''" by (simp only: if_False)
  with r show ?thesis by (rule conjI)
qed

end
