(* ===== verification/Filemon.thy ===== *)
theory Filemon
  imports Kqueue File_Win Path Bytes
begin

text \<open>
  Monitoring of files (\<open>FFOS/filemon.h\<close>): the inotify half, whose central function decodes the
  buffer of \<open>struct inotify_event\<close> objects, and the Windows half, which keeps the list of
  watched directories, reads changes asynchronously and decodes \<open>FILE_NOTIFY_INFORMATION\<close>.
\<close>

subsection \<open>Linux\<close>

abbreviation (input) FFFILEMON_NULL :: int where "FFFILEMON_NULL \<equiv> -1"

definition fffilemon_open :: "'w kernel \<Rightarrow> u32 \<Rightarrow> ('w, int) prog" where
  "fffilemon_open K flags = sysi K (Mon (Inotify_init1 flags))"

definition fffilemon_close :: "'w kernel \<Rightarrow> int \<Rightarrow> ('w, unit) prog" where
  "fffilemon_close K fm =
     (if fm = FFFILEMON_NULL then State_Monad.return ()
      else do { sysi K (FileC (Close fm)); State_Monad.return () })"

definition fffilemon_add :: "'w kernel \<Rightarrow> int \<Rightarrow> string \<Rightarrow> u32 \<Rightarrow> ('w, int) prog" where
  "fffilemon_add K fm path events = sysi K (Mon (Inotify_add_watch fm path events))"

definition fffilemon_rm :: "'w kernel \<Rightarrow> int \<Rightarrow> int \<Rightarrow> ('w, int) prog" where
  "fffilemon_rm K fm wd = sysi K (Mon (Inotify_rm_watch fm wd))"

text \<open>The result of \<open>read()\<close> and the bytes it put into \<open>buf\<close>.\<close>

definition fffilemon_read_async :: "'w kernel \<Rightarrow> int \<Rightarrow> nat \<Rightarrow> ('w, int \<times> bytes) prog" where
  "fffilemon_read_async K fm cap = do {
     r \<leftarrow> sys K (FileC (Read fm cap));
     e \<leftarrow> fferr_last;
     if rv r < 0 \<and> e = EAGAIN
     then do { fferr_set EINPROGRESS; State_Monad.return (rv r, out_bytes r) }
     else State_Monad.return (rv r, out_bytes r)
   }"

text \<open>
  \<open>struct inotify_event\<close> has the members \<open>wd\<close>, \<open>mask\<close>, \<open>cookie\<close> and \<open>len\<close>, four
  bytes each, and then \<open>len\<close> bytes of \<open>name\<close>.  The result is the return value and what
  \<open>*input\<close>, \<open>*name\<close> and \<open>*events\<close> hold afterwards.
\<close>

definition fffilemon_next :: "ffbase \<Rightarrow> bytes \<Rightarrow> bytes \<Rightarrow> u32 \<Rightarrow> int \<times> bytes \<times> bytes \<times> u32" where
  "fffilemon_next B input name events =
     (if 16 > length input then (-1, input, name, events)
      else let len = field 12 4 input; n = 16 + len
        in if n > length input then (-1, input, name, events)
           else (sint (of_nat (field 0 4 input) :: u32), drop n input,
                 (if len > 0 then ffstr_rskipchar B (take (len - 1) (drop 16 input)) 0 else []),
                 of_nat (field 4 4 input)))"

subsection \<open>Windows: the list of watched directories\<close>

text \<open>
  A watch is a block of the heap at \<open>w_ptr\<close>; \<open>namez\<close> of a directory is never written and
  never read.  The monitor is a block with the vector of the pointers to the watches.  The vector
  grows by one call that gives a block, new or the same.
\<close>

record fffilemon_watch =
  w_ptr :: int
  w_d :: int
  w_events :: u32
  w_dir :: bool
  w_namez :: string

record fffilemon_s =
  fm_ptr :: int
  wl_ptr :: int
  fm_wl :: "fffilemon_watch list"

definition fffilemon_open_win :: "'w kernel \<Rightarrow> ('w, fffilemon_s option) prog" where
  "fffilemon_open_win K = do {
     p \<leftarrow> sysi K (Mem (MAlloc 24));
     State_Monad.return (if p = 0 then None else Some \<lparr>fm_ptr = p, wl_ptr = 0, fm_wl = []\<rparr>)
   }"

primrec close_watches :: "'w kernel \<Rightarrow> fffilemon_watch list \<Rightarrow> ('w, unit) prog" where
  "close_watches K [] = State_Monad.return ()"
| "close_watches K (w # ws) = do {
     sysi K (WinFile (CloseHandle (w_d w)));
     sysi K (Mem (MFree (w_ptr w)));
     close_watches K ws
   }"

definition fffilemon_close_win :: "'w kernel \<Rightarrow> fffilemon_s option \<Rightarrow> ('w, unit) prog" where
  "fffilemon_close_win K fm = (case fm of None \<Rightarrow> State_Monad.return () | Some fm \<Rightarrow> do {
     close_watches K (fm_wl fm);
     sysi K (Mem (MFree (wl_ptr fm)));
     sysi K (Mem (MFree (fm_ptr fm)));
     State_Monad.return ()
   })"

definition FILE_FLAG_OVERLAPPED :: u32 where [flag_simps]: "FILE_FLAG_OVERLAPPED = 0x40000000"

text \<open>
  The part the two functions share, from \<open>fffile_open()\<close> to the end: \<open>wr\<close> is the watch with
  everything but its address and handle, \<open>n\<close> the size of the block for it.
\<close>

definition add_watch :: "'w kernel \<Rightarrow> wconv \<Rightarrow> wstr \<Rightarrow> fffilemon_s \<Rightarrow> string \<Rightarrow> nat \<Rightarrow> fffilemon_watch
    \<Rightarrow> ('w, int \<times> fffilemon_s) prog" where
  "add_watch K U junk fm path n wr = do {
     d \<leftarrow> fffile_open_win K U junk path (FFFILE_READONLY_WIN OR FILE_FLAG_OVERLAPPED);
     if d = -1 then State_Monad.return (-1, fm)
     else do {
       w \<leftarrow> sysi K (Mem (MAlloc n));
       if w = 0 then do {
         sysi K (WinFile (CloseHandle d)); sysi K (Mem (MFree w)); State_Monad.return (-1, fm)
       }
       else do {
         p \<leftarrow> sysi K (Mem (MRealloc (wl_ptr fm) ((length (fm_wl fm) + 1) * 8)));
         if p = 0 then do {
           sysi K (WinFile (CloseHandle d)); sysi K (Mem (MFree w)); State_Monad.return (-1, fm)
         }
         else State_Monad.return (int (length (fm_wl fm)),
           fm\<lparr>wl_ptr := p, fm_wl := fm_wl fm @ [wr\<lparr>w_ptr := w, w_d := d\<rparr>]\<rparr>)
       }
     }
   }"

definition fffilemon_add_dir :: "'w kernel \<Rightarrow> wconv \<Rightarrow> wstr \<Rightarrow> fffilemon_s \<Rightarrow> string \<Rightarrow> u32
    \<Rightarrow> ('w, int \<times> fffilemon_s) prog" where
  "fffilemon_add_dir K U junk fm path events =
     add_watch K U junk fm path (16 + 1)
       \<lparr>w_ptr = 0, w_d = -1, w_events = events, w_dir = True, w_namez = []\<rparr>"

text \<open>\<open>w->dir\<close> is not assigned: \<open>junk_dir\<close> is what the new block holds there.\<close>

definition fffilemon_add_file :: "'w kernel \<Rightarrow> ffbase \<Rightarrow> wconv \<Rightarrow> wstr \<Rightarrow> bool \<Rightarrow> fffilemon_s \<Rightarrow> string \<Rightarrow> u32
    \<Rightarrow> ('w, int \<times> fffilemon_s) prog" where
  "fffilemon_add_file K B U junk junk_dir fm path events =
     (let (_, dir, name) = ffpath_splitpath_str True B path in do {
        dirz \<leftarrow> sysi K (Mem (MAlloc (length dir + 1)));
        if dirz = 0 then do { sysi K (Mem (MFree dirz)); State_Monad.return (-1, fm) }
        else do {
          r \<leftarrow> add_watch K U junk fm dir (16 + length name + 1)
                 \<lparr>w_ptr = 0, w_d = -1, w_events = events, w_dir = junk_dir, w_namez = name\<rparr>;
          sysi K (Mem (MFree dirz));
          State_Monad.return r
        }
      })"

definition fffilemon_rm_win :: "int \<Rightarrow> ('w, int) prog" where
  "fffilemon_rm_win wd = do { fferr_set ERROR_NOT_SUPPORTED; State_Monad.return (-1) }"

subsection \<open>Windows: reading\<close>

definition fffilemon_watch_read_async ::
  "'w kernel \<Rightarrow> ffbase \<Rightarrow> fffilemon_watch \<Rightarrow> nat \<Rightarrow> ffkq_task_win \<Rightarrow> ('w, int \<times> ffkq_task_win) prog" where
  "fffilemon_watch_read_async K B w cap task =
     (if wtask_active task then do {
        x \<leftarrow> overlapped_result K task;
        State_Monad.return (if fst (fst x) then sint (of_nat cap :: u32) else -1, snd x)
      }
      else do {
        r \<leftarrow> sysi K (Mon (ReadDirectoryChangesW (w_d w) (ffmin B cap 0xffffffff) (w_events w)));
        e \<leftarrow> fferr_last;
        if r = 1 then do {
          fferr_set ERROR_IO_PENDING; State_Monad.return (-1, task\<lparr>wtask_active := True\<rparr>)
        }
        else if e \<noteq> ERROR_IO_PENDING then State_Monad.return (-1, task)
        else State_Monad.return (-1, task\<lparr>wtask_active := True\<rparr>)
      })"

text \<open>
  The name buffer of the caller: its block, its capacity and the text in it.  \<open>wlen\<close> is ffbase's
  conversion with a \<open>NULL\<close> destination, which gives the size needed.  \<open>ffstr_grow\<close> is one call
  that gives a block, new or the same, of the capacity \<open>gr\<close> chooses.
\<close>

record namebuf =
  nb_ptr :: int
  nb_cap :: nat
  nb_len :: u64
  nb_text :: string

definition name_grow :: "'w kernel \<Rightarrow> (nat \<Rightarrow> nat \<Rightarrow> nat) \<Rightarrow> namebuf \<Rightarrow> nat \<Rightarrow> ('w, bool \<times> namebuf) prog" where
  "name_grow K gr name n = do {
     let cap = gr (nb_cap name) (unat (nb_len name) + n);
     p \<leftarrow> sysi K (Mem (MRealloc (nb_ptr name) cap));
     State_Monad.return (if p = 0 then (False, name)
       else (True, name\<lparr>nb_ptr := p, nb_cap := cap\<rparr>))
   }"

text \<open>
  \<open>FILE_NOTIFY_INFORMATION\<close>: \<open>NextEntryOffset\<close>, \<open>Action\<close>, \<open>FileNameLength\<close> and
  \<open>FileName\<close> at offset 12; its \<open>sizeof\<close> is 16.  The result has the value the caller keeps in
  an \<open>int\<close>, the rest of the input and the name; a shift past the end of the input has no
  defined result (\<open>None\<close>).
\<close>

definition fffilemon_next1 :: "'w kernel \<Rightarrow> wconv \<Rightarrow> (wstr \<Rightarrow> int) \<Rightarrow> (nat \<Rightarrow> nat \<Rightarrow> nat) \<Rightarrow> bytes \<Rightarrow> namebuf
    \<Rightarrow> ('w, int \<times> bytes option \<times> namebuf) prog" where
  "fffilemon_next1 K U wlen gr input name =
     (if length input = 0 then State_Monad.return (-1, Some input, name)
      else if 16 > length input then State_Monad.return (-2, Some input, name)
      else let off = field 0 4 input; action = sint (of_nat (field 4 4 input) :: u32);
               n = field 8 4 input;
               rest = (if off > length input then None
                       else Some (if off = 0 then [] else drop off input))
        in if 16 + n > length input then State_Monad.return (-2, Some input, name)
        else let name = name\<lparr>nb_len := 0\<rparr> in
        if n = 0 then State_Monad.return (action, rest, name)
        else let w = wide_of (take (n div 2 * 2) (drop 12 input)); r = wlen w
          in if r \<le> 0 then State_Monad.return (-2, Some input, name)
          else do {
            g \<leftarrow> name_grow K gr name (nat r);
            if \<not> fst g then State_Monad.return (-2, Some input, snd g)
            else let x = ffs_wtou U (nb_cap (snd g)) w
              in State_Monad.return (action, rest, (snd g)\<lparr>nb_len := of_int (fst x), nb_text := snd x\<rparr>)
          })"

text \<open>The first watch of a directory, or of a file of that name.\<close>

fun find_watch :: "namebuf \<Rightarrow> fffilemon_watch list \<Rightarrow> nat option" where
  "find_watch name [] = None"
| "find_watch name (w # ws) =
     (if w_dir w \<or> unat (nb_len name) = length (w_namez w) \<and> nb_text name = w_namez w
      then Some 0 else map_option Suc (find_watch name ws))"

text \<open>
  The loop; the outer \<open>None\<close> is a loop that does not end.  The result is the return value,
  \<open>*input\<close>, \<open>*name\<close> and \<open>*events\<close>.
\<close>

partial_function (option) fffilemon_next_win ::
  "'w kernel \<Rightarrow> wconv \<Rightarrow> (wstr \<Rightarrow> int) \<Rightarrow> (nat \<Rightarrow> nat \<Rightarrow> nat) \<Rightarrow> fffilemon_watch list \<Rightarrow> bytes \<Rightarrow> namebuf \<Rightarrow> int
    \<Rightarrow> 'w sys \<Rightarrow> ((int \<times> bytes option \<times> namebuf \<times> int) \<times> 'w sys) option" where
  "fffilemon_next_win K U wlen gr wl input name events s =
     (let x = run_state (fffilemon_next1 K U wlen gr input name) s;
          (r, rest, name') = fst x
      in if r < 0 then Some ((r, rest, name', events), snd x)
         else case find_watch name' wl of
             Some i \<Rightarrow> Some ((int i, rest, name', r), snd x)
           | None \<Rightarrow> (case rest of
               None \<Rightarrow> Some ((-2, None, name', events), snd x)
             | Some input' \<Rightarrow> fffilemon_next_win K U wlen gr wl input' name' events (snd x)))"

subsection \<open>Decoding inotify events\<close>

text \<open>
  The caller's loop: events until the function returns \<open>-1\<close>.
\<close>

function inotify_events :: "ffbase \<Rightarrow> bytes \<Rightarrow> (int \<times> u32 \<times> bytes) list" where
  "inotify_events B input =
     (let (wd, rest, name, ev) = fffilemon_next B input [] 0
      in if wd = -1 \<or> length rest \<ge> length input then [] else (wd, ev, name) # inotify_events B rest)"
  by pat_completeness auto
termination by (relation "measure (\<lambda>(B, input). length input)") auto

declare inotify_events.simps [simp del]

text \<open>
  What Linux documents of the buffer: objects follow one another; \<open>len\<close> counts the name and the
  null bytes that pad it, and it is zero when there is no name.
\<close>

record inotify_event =
  ie_wd :: u32
  ie_mask :: u32
  ie_cookie :: u32
  ie_name :: bytes
  ie_pad :: nat

definition ie_ok :: "inotify_event \<Rightarrow> bool" where
  "ie_ok e \<longleftrightarrow> (ie_pad e = 0 \<longleftrightarrow> ie_name e = []) \<and> 0 \<notin> set (ie_name e) \<and>
     length (ie_name e) + ie_pad e < 2 ^ 32"

definition ie_put :: "inotify_event \<Rightarrow> bytes" where
  "ie_put e = le_put 4 (unat (ie_wd e)) @ le_put 4 (unat (ie_mask e)) @ le_put 4 (unat (ie_cookie e)) @
     le_put 4 (length (ie_name e) + ie_pad e) @ ie_name e @ replicate (ie_pad e) 0"

lemma ie_put_fields:
  assumes "ie_ok e"
  shows "field 0 4 (ie_put e @ t) = unat (ie_wd e)" "field 4 4 (ie_put e @ t) = unat (ie_mask e)"
    "field 12 4 (ie_put e @ t) = length (ie_name e) + ie_pad e"
    "length (ie_put e) = 16 + length (ie_name e) + ie_pad e"
proof -
  let ?a = "le_put 4 (unat (ie_wd e))" and ?b = "le_put 4 (unat (ie_mask e))"
    and ?c = "le_put 4 (unat (ie_cookie e))"
  show "field 0 4 (ie_put e @ t) = unat (ie_wd e)" by (simp add: ie_put_def)
  show "field 4 4 (ie_put e @ t) = unat (ie_mask e)"
    using field_at [of ?a 4 ?b 4] by (simp add: ie_put_def)
  show "field 12 4 (ie_put e @ t) = length (ie_name e) + ie_pad e"
    using field_at [of "?a @ ?b @ ?c" 12 "le_put 4 (length (ie_name e) + ie_pad e)" 4] assms
    by (simp add: ie_put_def ie_ok_def)
  show "length (ie_put e) = 16 + length (ie_name e) + ie_pad e" by (simp add: ie_put_def)
qed

lemma rskip_padding:
  assumes "0 \<notin> set (n :: bytes)"
  shows "rev (dropWhile (\<lambda>x. x = 0) (rev (n @ replicate k 0))) = n"
proof -
  have "dropWhile (\<lambda>x. x = 0) (replicate k 0 @ rev n) = dropWhile (\<lambda>x. x = 0) (rev n)"
    by (rule dropWhile_append2) simp
  also have "\<dots> = rev n" using assms last_in_set [of n]
    by (cases "n = []") (auto simp: dropWhile_eq_self_iff hd_rev dest: last_in_set)
  finally show ?thesis by simp
qed

lemma next_of_put:
  assumes "ffbase_ok B" "ie_ok e"
  shows "fffilemon_next B (ie_put e @ t) name ev = (sint (ie_wd e), t, ie_name e, ie_mask e)"
proof -
  let ?n = "length (ie_name e) + ie_pad e"
  have l: "length (ie_put e) = 16 + ?n" using ie_put_fields(4) [OF assms(2)] by simp
  have d: "drop 16 (ie_put e @ t) = (ie_name e @ replicate (ie_pad e) 0) @ t"
    by (simp add: ie_put_def)
  have nm: "ffstr_rskipchar B (take (?n - 1) (drop 16 (ie_put e @ t))) 0 = ie_name e" if "0 < ?n"
  proof -
    from that assms(2) have "ie_pad e \<noteq> 0" by (auto simp: ie_ok_def)
    then have "take (?n - 1) (drop 16 (ie_put e @ t)) = ie_name e @ replicate (ie_pad e - 1) 0"
      unfolding d by (simp add: min_def)
    then show ?thesis
      using assms(2) by (simp add: ffbase_okD(11) [OF assms(1)] rskip_padding ie_ok_def del: rev_append)
  qed
  have dr: "drop (16 + ?n) (ie_put e @ t) = t" and ln: "\<not> 16 > length (ie_put e @ t)"
    "\<not> 16 + ?n > length (ie_put e @ t)" using l by simp_all
  have "(if ?n > 0 then ffstr_rskipchar B (take (?n - 1) (drop 16 (ie_put e @ t))) 0 else []) = ie_name e"
  proof (cases "?n > 0")
    case True
    then show ?thesis using nm by (simp only: if_True)
  qed simp
  then show ?thesis
    unfolding fffilemon_next_def Let_def ie_put_fields(1-3) [OF assms(2)]
    by (simp only: ln if_False dr) simp
qed





text \<open>
  The event that reports an overflow of the system's queue has the watch descriptor \<open>-1\<close>: the
  caller cannot tell it from the end of the buffer, and the events after it are not delivered.
\<close>

lemma filemon_overflow_ends:
  assumes "ffbase_ok B" "ie_ok e" "ie_wd e = -1"
  shows "inotify_events B (ie_put e @ t) = []"
  by (subst inotify_events.simps) (simp add: next_of_put [OF assms(1,2)] assms(3))

subsection \<open>What a monitor of Windows owns\<close>

definition fm_blocks :: "fffilemon_s \<Rightarrow> int multiset" where
  "fm_blocks fm = block (fm_ptr fm) + block (wl_ptr fm) + image_mset w_ptr (mset (fm_wl fm))"

definition fm_handles :: "fffilemon_s \<Rightarrow> int multiset" where
  "fm_handles fm = image_mset w_d (mset (fm_wl fm))"

text \<open>The monitor owns its blocks and handles on top of what was outstanding before.\<close>

definition fm_owns :: "int multiset \<Rightarrow> int multiset \<Rightarrow> fffilemon_s \<Rightarrow> 'w sys \<Rightarrow> bool" where
  "fm_owns h d fm s \<longleftrightarrow> heap_after (trace s) = Some (fm_blocks fm + h) \<and>
     fds_after (trace s) = Some (fm_handles fm + d) \<and> 0 \<notin># image_mset w_ptr (mset (fm_wl fm)) \<and> fm_ptr fm \<noteq> 0"

lemma wp_add_watch:
  assumes "fm_owns h d fm s"
  shows "wp (add_watch K U junk fm path n wr) (\<lambda>r s'. fm_owns h d (snd r) s') s"
  using assms unfolding add_watch_def fm_owns_def
  by (intro wp_intros wp_open_win)
    (auto simp: fm_blocks_def fm_handles_def block_def fd_step_def closed_def)

datatype fm_op = AddDir string u32 | AddFile string bool u32

fun fm_do :: "'w kernel \<Rightarrow> ffbase \<Rightarrow> wconv \<Rightarrow> wstr \<Rightarrow> fm_op \<Rightarrow> fffilemon_s \<Rightarrow> ('w, int \<times> fffilemon_s) prog" where
  "fm_do K B U junk (AddDir path ev) fm = fffilemon_add_dir K U junk fm path ev"
| "fm_do K B U junk (AddFile path jd ev) fm = fffilemon_add_file K B U junk jd fm path ev"

primrec fm_session :: "'w kernel \<Rightarrow> ffbase \<Rightarrow> wconv \<Rightarrow> wstr \<Rightarrow> fm_op list \<Rightarrow> fffilemon_s \<Rightarrow> ('w, fffilemon_s) prog" where
  "fm_session K B U junk [] fm = State_Monad.return fm"
| "fm_session K B U junk (p # ps) fm = do {
     r \<leftarrow> fm_do K B U junk p fm;
     fm_session K B U junk ps (snd r)
   }"

lemma wp_fm_do:
  fixes s :: "'w sys"
  assumes "fm_owns h d fm s"
  shows "wp (fm_do K B U junk p fm) (\<lambda>r s'. fm_owns h d (snd r) s') s"
proof (cases p)
  case (AddDir path ev)
  then show ?thesis using wp_add_watch [OF assms] by (simp add: fffilemon_add_dir_def)
next
  case (AddFile path jd ev)
  obtain i dir name where sp: "ffpath_splitpath_str True B path = (i, dir, name)" by (rule prod_cases3)
  have W: "wp (add_watch K U junk fm dir n wr) (\<lambda>r. wp (do { sysi K (Mem (MFree z)); State_Monad.return r })
        (\<lambda>r s'. fm_owns h d (snd r) s')) s1"
    if "fm_owns (add_mset z h) d fm s1" "z \<noteq> 0" for s1 z n wr
    by (rule wp_mono [OF wp_add_watch [OF that(1)]], intro wp_intros)
      (use that(2) in \<open>auto simp: fm_owns_def fd_step_mem\<close>)
  have E: "fm_owns (add_mset (rv r) h) d fm s1"
    if "trace s1 = trace s @ [(Mem (MAlloc n), r)]" "rv r \<noteq> 0" for s1 :: "'w sys" and r :: reply and n
    using assms that by (simp add: fm_owns_def)
  show ?thesis
    unfolding AddFile fm_do.simps fffilemon_add_file_def sp Let_def prod.case
  proof (intro wp_intros)
    fix r :: reply and s1 :: "'w sys"
    assume "trace s1 = trace s @ [(Mem (MAlloc (length dir + 1)), r)]" "rv r \<noteq> 0"
    from W [OF E [OF this] this(2)]
    show "wp (add_watch K U junk fm dir (16 + length name + 1)
             \<lparr>w_ptr = 0, w_d = - 1, w_events = ev, w_dir = jd, w_namez = name\<rparr>)
        (\<lambda>x. wp (do { sysi K (Mem (MFree (rv r))); State_Monad.return x })
           (\<lambda>r s'. fm_owns h d (snd r) s')) s1" .
  qed (use assms in \<open>simp_all add: fm_owns_def\<close>)
qed

lemma wp_fm_session:
  "fm_owns h d fm s \<Longrightarrow> wp (fm_session K B U junk ps fm) (\<lambda>fm' s'. fm_owns h d fm' s') s"
proof (induction ps arbitrary: fm s)
  case (Cons p ps)
  show ?case
    unfolding fm_session.simps
    by (rule wp_bind, rule wp_mono [OF wp_fm_do [OF Cons.prems]], rule Cons.IH)
qed (simp add: wp_def State_Monad.return_def)

lemma wp_close_watches:
  assumes "heap_after (trace s) = Some (image_mset w_ptr (mset ws) + h)"
    "fds_after (trace s) = Some (image_mset w_d (mset ws) + d)" "0 \<notin># image_mset w_ptr (mset ws)"
  shows "wp (close_watches K ws) (\<lambda>r s'. heap_after (trace s') = Some h \<and> fds_after (trace s') = Some d) s"
  using assms
proof (induction ws arbitrary: s)
  case (Cons a ws)
  show ?case
    unfolding close_watches.simps
    by (intro wp_intros Cons.IH) (use Cons.prems in \<open>auto simp: fd_step_def closed_def\<close>)
qed (simp add: wp_def State_Monad.return_def)

lemma wp_fm_close:
  assumes "fm_owns h d fm s"
  shows "wp (fffilemon_close_win K (Some fm)) (\<lambda>r s'. heap_after (trace s') = Some h \<and> fds_after (trace s') = Some d) s"
proof -
  from assms have
    "wp (close_watches K (fm_wl fm)) (\<lambda>r s'. heap_after (trace s') = Some (block (fm_ptr fm) + block (wl_ptr fm) + h) \<and>
       fds_after (trace s') = Some d) s"
    by (intro wp_close_watches) (simp_all add: fm_owns_def fm_blocks_def fm_handles_def ac_simps)
  then show ?thesis
    unfolding fffilemon_close_win_def option.case
    by (intro wp_bind, elim wp_mono, intro wp_intros) (use assms in \<open>auto simp: block_def fm_owns_def split: if_splits\<close>)
qed

text \<open>
  Claim C27.  Whatever directories and files are added to a monitor, and whichever of the calls
  fail, the blocks and handles outstanding are exactly those of its watch list; closing
  it returns all of them, each once.
\<close>

theorem filemon_win_resources:
  "wp (do {
      fm \<leftarrow> fffilemon_open_win K;
      fm' \<leftarrow> (case fm of None \<Rightarrow> State_Monad.return None
             | Some fm \<Rightarrow> do { fm' \<leftarrow> fm_session K B U junk ps fm; State_Monad.return (Some fm') });
      fffilemon_close_win K fm' })
    (\<lambda>r s. heap_clean (trace s) \<and> fds_after (trace s) = Some {#}) (start w e)"
proof -
  have C: "wp (do { fm' \<leftarrow> fm_session K B U junk ps fm; State_Monad.return (Some fm') })
      (\<lambda>fm'. wp (fffilemon_close_win K fm') (\<lambda>r s. heap_clean (trace s) \<and> fds_after (trace s) = Some {#})) s"
    if "fm_owns {#} {#} fm s" for fm s
    by (intro wp_bind, rule wp_mono [OF wp_fm_session [OF that]], intro wp_return,
        rule wp_mono [OF wp_fm_close]) (simp_all add: heap_clean_def)
  show ?thesis
    unfolding fffilemon_open_win_def
    by (intro wp_intros C)
      (auto simp: fffilemon_close_win_def wp_def State_Monad.return_def heap_clean_def fm_owns_def
        fm_blocks_def fm_handles_def block_def split: if_splits)
qed

subsection \<open>Asynchronous reading\<close>

interpretation filemon_read: async_op "\<lambda>K t. fffilemon_watch_read_async K B w cap t" "\<lambda>r. r" wtask_active
  ERROR_IO_PENDING "\<lambda>K. True" for B w cap
proof unfold_locales
  fix K :: "'w kernel" and t s
  show "wp (fffilemon_watch_read_async K B w cap t)
      (\<lambda>r s. wtask_active (snd r) \<longrightarrow> fst r < 0 \<and> lasterr s = ERROR_IO_PENDING) s"
    unfolding fffilemon_watch_read_async_def
    by (intro wp_intros wp_mono [OF wp_overlapped_result]) auto
qed

text \<open>A read that is not finished has failed with the in-progress code and leaves its task active.\<close>

lemma filemon_read_contract:
  "wp (fffilemon_watch_read_async K B w cap t)
     (\<lambda>r s. wtask_active (snd r) \<longrightarrow> fst r < 0 \<and> lasterr s = ERROR_IO_PENDING) s"
  by (rule filemon_read.pending) simp

subsection \<open>Decoding changes on Windows\<close>

lemma wp_next1:
  "wp (fffilemon_next1 K U wlen gr input name)
     (\<lambda>x s'. 0 \<le> fst x \<longrightarrow> (\<forall>rest. fst (snd x) = Some rest \<longrightarrow> length rest < length input)) s"
  unfolding fffilemon_next1_def by (intro wp_intros wp_mono [OF wp_any]) auto

lemma next1_consumes:
  assumes "run_state (fffilemon_next1 K U wlen gr input name) s = ((r, Some rest, name'), s')" "0 \<le> r"
  shows "length rest < length input"
  using wpD [OF wp_next1, of K U wlen gr input name s] assms by simp

text \<open>
  \<open>fffilemon_next\<close> on Windows returns for every input.  A descriptor that it returns is the first
  watch of a directory, or of a file that has the name decoded from the input.
\<close>

theorem filemon_next_win_returns:
  "\<exists>r rest name' ev s'. fffilemon_next_win K U wlen gr wl input name events s = Some ((r, rest, name', ev), s') \<and>
     (0 \<le> r \<longrightarrow> nat r < length wl \<and>
        (w_dir (wl ! nat r) \<or> nb_text name' = w_namez (wl ! nat r)) \<and>
        (\<forall>i<nat r. \<not> w_dir (wl ! i)))"
proof -
  have F: "i < length ws \<and> (w_dir (ws ! i) \<or> nb_text nm = w_namez (ws ! i)) \<and> (\<forall>j<i. \<not> w_dir (ws ! j))"
    if "find_watch nm ws = Some i" for nm ws i
    using that
  proof (induction ws arbitrary: i)
    case (Cons a ws)
    then show ?case by (auto simp: nth_Cons less_Suc_eq_0_disj split: if_splits nat.split)
  qed simp
  show ?thesis
  proof (induction "length input" arbitrary: input name s rule: less_induct)
    case less
    obtain r rest nm s' where x: "run_state (fffilemon_next1 K U wlen gr input name) s = ((r, rest, nm), s')"
      by (metis prod_cases3 surj_pair)
    show ?case
      using next1_consumes [of K U wlen gr input name s r _ nm s'] x F [of nm wl] less
      by (subst fffilemon_next_win.simps) (auto simp: x Let_def split: option.split)
  qed
qed

text \<open>
  The size check asks for four bytes more than a record has, \<open>sizeof\<close> counting the first
  character of the name and the padding: an input that ends with its last record is refused.
\<close>

lemma filemon_refuses_tight_record:
  assumes "12 \<le> length input" "length input = 12 + field 8 4 input"
  shows "run_state (fffilemon_next1 K U wlen gr input name) s = ((-2, Some input, name), s)"
  using assms by (auto simp: fffilemon_next1_def Let_def run_simps)

end
