(* ===== verification/Signal.thy ===== *)
theory Signal
  imports Kqueue
begin

text \<open>
  Signals (\<open>FFOS/signal.h\<close>): receiving them through a kernel queue, subscribing a handler to
  them, the mask of blocked signals; the exceptions and console events of Windows.

  The handler of the user is an address that the library keeps in \<open>_ffsig_userhandler\<close>; what the
  library's own handlers pass to it is an \<open>ffsig_info\<close>.
\<close>

record ffsig_info =
  si_sig :: u32
  si_addr :: int
  si_flags :: u32
  si_si :: int
  si_pid :: int

definition sig_info0 :: ffsig_info where
  "sig_info0 = \<lparr>si_sig = 0, si_addr = 0, si_flags = 0, si_si = 0, si_pid = 0\<rparr>"

definition SFD_NONBLOCK :: u32 where [flag_simps]: "SFD_NONBLOCK = 0x800"
definition FFSIG_SEGV :: u32 where [flag_simps]: "FFSIG_SEGV = 11"
definition FFSIG_STACK :: u32 where [flag_simps]: "FFSIG_STACK = 0x40000000 OR 11"
definition FFSIG_ABORT :: u32 where [flag_simps]: "FFSIG_ABORT = 6"
definition FFSIG_FPE :: u32 where [flag_simps]: "FFSIG_FPE = 8"
definition SA_SIGINFO :: u32 where [flag_simps]: "SA_SIGINFO = 4"
definition SA_ONSTACK :: u32 where [flag_simps]: "SA_ONSTACK = 0x08000000"
definition SA_RESETHAND :: u32 where [flag_simps]: "SA_RESETHAND = 0x80000000"

abbreviation (input) FFKQSIG_NULL :: int where "FFKQSIG_NULL \<equiv> -1"
abbreviation (input) EVFILT_SIGNAL :: int where "EVFILT_SIGNAL \<equiv> -6"
abbreviation (input) SIGSTKSZ :: nat where "SIGSTKSZ \<equiv> 8192"

subsection \<open>Linux: signals of a kernel queue\<close>

definition ffkqsig_attach :: "'w kernel \<Rightarrow> os \<Rightarrow> int \<Rightarrow> int list \<Rightarrow> int \<Rightarrow> ('w, int) prog" where
  "ffkqsig_attach K os kq sigs data = do {
     sig \<leftarrow> sysi K (Sig (Signalfd sigs SFD_NONBLOCK));
     if sig = -1 then State_Monad.return (-1)
     else do {
       r \<leftarrow> ffkq_attach K os kq sig data (FFKQ_READ os);
       if r \<noteq> 0 then do { sysi K (FileC (Close sig)); State_Monad.return (-1) }
       else State_Monad.return sig
     }
   }"

definition ffkqsig_detach :: "'w kernel \<Rightarrow> int \<Rightarrow> ('w, int) prog" where
  "ffkqsig_detach K sig = (if sig = FFKQSIG_NULL then State_Monad.return 0 else sysi K (FileC (Close sig)))"

text \<open>\<open>sizeof(struct signalfd_siginfo)\<close> is 128; the reply has the signal and the sender.\<close>

definition ffkqsig_readinfo :: "'w kernel \<Rightarrow> int \<Rightarrow> ffsig_info option \<Rightarrow> ('w, int \<times> ffsig_info option) prog" where
  "ffkqsig_readinfo K sig info = do {
     r \<leftarrow> sys K (Sig (Read_siginfo sig));
     State_Monad.return
       (if rv r \<noteq> 128 then (-1, info)
        else (out_int r 0, map_option (\<lambda>i. i\<lparr>si_pid := out_int r 1\<rparr>) info))
   }"

definition ffkqsig_read :: "'w kernel \<Rightarrow> int \<Rightarrow> ('w, int) prog" where
  "ffkqsig_read K sig = do { r \<leftarrow> ffkqsig_readinfo K sig None; State_Monad.return (fst r) }"

subsection \<open>BSD and macOS\<close>

text \<open>The object is the set of the signals as a mask; a signal above 31 fails an assertion.\<close>

definition sig_bit :: "int \<Rightarrow> u32" where
  "sig_bit n = push_bit (nat n) 1"

fun sig_mask :: "int list \<Rightarrow> u32 \<Rightarrow> u32" where
  "sig_mask [] m = m"
| "sig_mask (n # ns) m = sig_mask ns (m OR sig_bit n)"

text \<open>\<open>sizeof(struct kevent)\<close> is 32.\<close>

definition ffkqsig_attach_bsd :: "'w kernel \<Rightarrow> int \<Rightarrow> int list \<Rightarrow> int \<Rightarrow> ('w, int) prog" where
  "ffkqsig_attach_bsd K kq sigs data = do {
     evs \<leftarrow> sysi K (Mem (MAlloc (length sigs * 32)));
     if evs = 0 then State_Monad.return (-1)
     else do {
       r \<leftarrow> sysi K (Ev (Kevent_change kq (map (\<lambda>n. ev_set n EVFILT_SIGNAL (EV_ADD OR EV_ENABLE) 0 data) sigs)));
       sysi K (Mem (MFree evs));
       State_Monad.return (if r \<noteq> 0 then -1 else sint (sig_mask sigs 0))
     }
   }"

text \<open>
  The loop that takes the signals out of the mask.  \<open>rfind\<close> is ffbase's \<open>ffbit_rfind32\<close>, the
  position of a bit plus one, \<open>0\<close> if there is none; the array has room for 32 events, and a
  write behind it gives \<open>None\<close>.
\<close>

partial_function (option) mask_sigs :: "(u32 \<Rightarrow> u32) \<Rightarrow> u32 \<Rightarrow> int list \<Rightarrow> int list option" where
  "mask_sigs rfind m ns =
     (let r = sint (rfind m - 1) in
      if r < 0 then Some ns
      else if length ns \<ge> 32 then None
      else mask_sigs rfind (m AND NOT (sig_bit r)) (ns @ [r]))"

definition ffkqsig_detach_bsd :: "'w kernel \<Rightarrow> (u32 \<Rightarrow> u32) \<Rightarrow> int \<Rightarrow> int \<Rightarrow> 'w sys \<Rightarrow> (int \<times> 'w sys) option" where
  "ffkqsig_detach_bsd K rfind sig kq s =
     (if sig = FFKQSIG_NULL then Some (0, s)
      else let a = run_state (sysi K (Mem (MAlloc (32 * 32)))) s in
        if fst a = 0 then Some (-1, snd a)
        else case mask_sigs rfind (of_int sig) [] of
          None \<Rightarrow> None
        | Some ns \<Rightarrow> Some (run_state (do {
            r \<leftarrow> sysi K (Ev (Kevent_change kq (map (\<lambda>n. ev_set n EVFILT_SIGNAL EV_DELETE 0 0) ns)));
            sysi K (Mem (MFree (fst a)));
            State_Monad.return (if r \<noteq> 0 then -1 else 0) }) (snd a)))"

definition ffkqsig_read_bsd :: "kevent \<Rightarrow> int \<times> kevent" where
  "ffkqsig_read_bsd ev = (kv_ident ev, ev\<lparr>kv_ident := -1\<rparr>)"

subsection \<open>UNIX: masks and handlers\<close>

definition ffsig_mask :: "'w kernel \<Rightarrow> int \<Rightarrow> int list \<Rightarrow> ('w, unit) prog" where
  "ffsig_mask K how sigs = do { sysi K (Sig (Sigprocmask how sigs)); State_Monad.return () }"

text \<open>What the library's handler passes on: \<open>siginfo_t\<close> by its address, its members \<open>si_addr\<close> and \<open>si_code\<close>.\<close>

definition ffsig_exc_handler :: "int \<Rightarrow> int \<Rightarrow> int \<Rightarrow> int \<Rightarrow> ffsig_info" where
  "ffsig_exc_handler signo info addr code =
     sig_info0\<lparr>si_sig := of_int signo, si_addr := addr, si_flags := of_int code, si_si := info\<rparr>"

definition stack_signal :: "'w kernel \<Rightarrow> ('w, bool) prog" where
  "stack_signal K = do {
     p \<leftarrow> sysi K (Mem (MAlloc SIGSTKSZ));
     if p = 0 then State_Monad.return False
     else do {
       a \<leftarrow> sysi K (Sig (Sigaltstack p SIGSTKSZ));
       if a \<noteq> 0 then State_Monad.return False
       else do {
         r \<leftarrow> sysi K (Sig (Sigaction 11 (SA_SIGINFO OR SA_RESETHAND OR SA_ONSTACK)));
         State_Monad.return (r = 0)
       }
     }
   }"

fun subscribe_loop :: "'w kernel \<Rightarrow> bool \<Rightarrow> u32 list \<Rightarrow> ('w, int) prog" where
  "subscribe_loop K have_stack [] = State_Monad.return 0"
| "subscribe_loop K have_stack (n # ns) =
     (if n = FFSIG_STACK \<or> n = FFSIG_SEGV \<and> have_stack then subscribe_loop K have_stack ns
      else do {
        r \<leftarrow> sysi K (Sig (Sigaction (sint n) (SA_SIGINFO OR SA_RESETHAND)));
        if r \<noteq> 0 then State_Monad.return (-1) else subscribe_loop K have_stack ns
      })"

text \<open>The user's handler before and after (\<open>0\<close>: the current one is kept).\<close>

definition ffsig_subscribe :: "'w kernel \<Rightarrow> int \<Rightarrow> int \<Rightarrow> u32 list \<Rightarrow> ('w, int \<times> int) prog" where
  "ffsig_subscribe K userhandler handler sigs = do {
     let userhandler = (if handler \<noteq> 0 then handler else userhandler);
     ok \<leftarrow> (if FFSIG_STACK \<in> set sigs then stack_signal K else State_Monad.return True);
     if \<not> ok then State_Monad.return (-1, userhandler)
     else do {
       r \<leftarrow> subscribe_loop K (FFSIG_STACK \<in> set sigs) sigs;
       State_Monad.return (r, userhandler)
     }
   }"

subsection \<open>Windows\<close>

definition FFSIG_INT_WIN :: u32 where [flag_simps]: "FFSIG_INT_WIN = 0xC000013A"
definition FFSIG_SEGV_WIN :: u32 where [flag_simps]: "FFSIG_SEGV_WIN = 0xC0000005"

text \<open>The call of the user's handler, if there is one, and the value returned to the system.\<close>

definition ffsig_ctrl_handler :: "u32 \<Rightarrow> ffsig_info option \<times> int" where
  "ffsig_ctrl_handler ctrl = (if ctrl = 0 then (Some (sig_info0\<lparr>si_sig := FFSIG_INT_WIN\<rparr>), 1) else (None, 0))"

definition ffsig_exc_handler_win ::
  "'w kernel \<Rightarrow> int \<Rightarrow> u32 \<Rightarrow> u64 list \<Rightarrow> ('w, ffsig_info \<times> int) prog" where
  "ffsig_exc_handler_win K ptrs code information = do {
     sysi K (Sig (SetUnhandledExceptionFilter False));
     let i = sig_info0\<lparr>si_sig := code, si_si := ptrs\<rparr>;
     let i = (if code = FFSIG_SEGV_WIN
              then i\<lparr>si_flags := ucast (information ! 0), si_addr := uint (information ! 1)\<rparr> else i);
     State_Monad.return (i, 0)
   }"

fun subscribe_loop_win :: "'w kernel \<Rightarrow> u32 list \<Rightarrow> bool \<Rightarrow> ('w, bool) prog" where
  "subscribe_loop_win K [] exc = State_Monad.return exc"
| "subscribe_loop_win K (n # ns) exc =
     (if n = FFSIG_INT_WIN then do { sysi K (Sig SetConsoleCtrlHandler); subscribe_loop_win K ns exc }
      else subscribe_loop_win K ns True)"

definition ffsig_subscribe_win :: "'w kernel \<Rightarrow> int \<Rightarrow> int \<Rightarrow> u32 list \<Rightarrow> ('w, int \<times> int) prog" where
  "ffsig_subscribe_win K userhandler handler sigs = do {
     let userhandler = (if handler \<noteq> 0 then handler else userhandler);
     exc \<leftarrow> subscribe_loop_win K sigs False;
     (if exc then do { sysi K (Sig (SetUnhandledExceptionFilter True)); State_Monad.return () } else State_Monad.return ());
     State_Monad.return (0, userhandler)
   }"

subsection \<open>Properties: signals as a mask\<close>

definition rfind_ok :: "(u32 \<Rightarrow> u32) \<Rightarrow> bool" where
  "rfind_ok f \<longleftrightarrow> f 0 = 0 \<and> (\<forall>m. m \<noteq> 0 \<longrightarrow> (\<exists>i < 32. f m = of_nat (i + 1) \<and> bit m i))"

definition bits_of :: "u32 \<Rightarrow> nat set" where
  "bits_of m = {i. bit m i}"

lemma bits_of_finite [simp]: "finite (bits_of m)" "bits_of m \<subseteq> {..<32}"
proof -
  show "bits_of m \<subseteq> {..<32}" by (auto simp: bits_of_def dest: bit_imp_le_length)
  then show "finite (bits_of m)" by (rule finite_subset) simp
qed

lemma sig_bit_bit: "n < 32 \<Longrightarrow> bit (sig_bit (int n)) i \<longleftrightarrow> i = n"
  by (auto simp: sig_bit_def bit_simps bit_1_iff)

lemma bits_of_simps:
  "bits_of 0 = {}" "bits_of m = {} \<longleftrightarrow> m = 0" "n < 32 \<Longrightarrow> bits_of (m OR sig_bit (int n)) = insert n (bits_of m)"
  "n < 32 \<Longrightarrow> bits_of (m AND NOT (sig_bit (int n))) = bits_of m - {n}"
proof -
  show "bits_of m = {} \<longleftrightarrow> m = 0" by (auto simp: bits_of_def intro: bit_word_eqI)
qed (auto simp: bits_of_def bit_or_iff bit_and_iff bit_not_iff sig_bit_bit dest: bit_imp_le_length)

lemma sig_mask_bits:
  "set ns \<subseteq> {0..<32} \<Longrightarrow> bits_of (sig_mask ns m) = bits_of m \<union> nat ` set ns"
proof (induction ns arbitrary: m)
  case (Cons n ns)
  then have "nat n < 32" "int (nat n) = n" by auto
  then show ?case using Cons bits_of_simps(3) [of "nat n" m] by auto
qed simp

lemma mask_sigs_eq:
  assumes f: "rfind_ok f"
  shows "length ns + card (bits_of m) \<le> 32 \<Longrightarrow> distinct ns \<Longrightarrow> set ns \<inter> int ` bits_of m = {} \<Longrightarrow>
    \<exists>ks. mask_sigs f m ns = Some ks \<and> distinct ks \<and> set ks = set ns \<union> int ` bits_of m"
proof (induction "card (bits_of m)" arbitrary: m ns)
  case 0
  then have "m = 0" by (simp add: bits_of_simps)
  then have "mask_sigs f m ns = Some ns" using f by (subst mask_sigs.simps) (simp add: rfind_ok_def)
  then show ?case using 0 \<open>m = 0\<close> by (simp add: bits_of_simps)
next
  case (Suc k)
  then have "m \<noteq> 0" by (auto simp: bits_of_simps)
  then obtain i where i: "i < 32" "f m = of_nat (i + 1)" "bit m i" using f by (auto simp: rfind_ok_def)
  have r: "sint (f m - 1) = int i"
    using i(1) by (simp add: i(2) signed_of_nat signed_take_bit_int_eq_self)
  let ?m = "m AND NOT (sig_bit (int i))"
  have b: "bits_of ?m = bits_of m - {i}" "i \<in> bits_of m"
    using bits_of_simps(4) [OF i(1)] i(3) by (auto simp: bits_of_def)
  have c: "card (bits_of ?m) = k" using Suc.hyps(2) b by simp
  have n: "int i \<notin> set ns" using Suc.prems(3) b(2) by auto
  have "mask_sigs f m ns = mask_sigs f ?m (ns @ [int i])"
    using r Suc.prems(1) Suc.hyps(2) by (subst mask_sigs.simps) (simp add: Let_def)
  moreover have "\<exists>ks. mask_sigs f ?m (ns @ [int i]) = Some ks \<and> distinct ks \<and>
      set ks = set (ns @ [int i]) \<union> int ` bits_of ?m"
    by (rule Suc.hyps(1)) (use c Suc.prems Suc.hyps(2) n b in auto)
  ultimately show ?case using b by auto
qed

text \<open>
  Claim C29.  On BSD and macOS detaching a signal object asks the queue to forget exactly the signals
  that were attached, each once, within the array of 32 events, for any signals below 32 except all
  of them together, whose mask is the null object.
\<close>

theorem kqsig_detach_undoes_attach:
  assumes "rfind_ok f" "set sigs \<subseteq> {0..<32}" "set sigs \<noteq> {0..<32}"
    and "rv (fst (K (Mem (MAlloc (32 * 32))) (world s))) \<noteq> 0"
  shows "sint (sig_mask sigs 0) \<noteq> FFKQSIG_NULL \<and>
    (\<exists>r s' ks. ffkqsig_detach_bsd K f (sint (sig_mask sigs 0)) kq s = Some (r, s') \<and>
      distinct ks \<and> set ks = set sigs \<and>
      Ev (Kevent_change kq (map (\<lambda>n. ev_set n EVFILT_SIGNAL EV_DELETE 0 0) ks)) \<in> fst ` set (trace s'))"
proof -
  let ?m = "sig_mask sigs 0"
  have b: "bits_of ?m = nat ` set sigs" using sig_mask_bits [OF assms(2)] by (simp add: bits_of_simps)
  have "int ` bits_of ?m = set sigs" unfolding b using assms(2) by (force simp: image_image)
  have null: "sint ?m \<noteq> -1"
  proof
    assume "sint ?m = -1"
    then have "?m = -1" by (simp add: signed_word_eqI)
    then have "bits_of ?m = {..<32}" by (auto simp: bits_of_def)
    then have "int ` {..<32} = set sigs" using \<open>int ` bits_of ?m = set sigs\<close> by simp
    moreover have "int ` {..<32} = {0..<32}" by (simp add: lessThan_atLeast0 image_int_atLeastLessThan)
    ultimately show False using assms(3) by simp
  qed
  have "card (bits_of ?m) \<le> card {..<32::nat}" by (rule card_mono) simp_all
  then obtain ks where ks: "mask_sigs f ?m [] = Some ks" "distinct ks" "set ks = set sigs"
    using mask_sigs_eq [OF assms(1), of "[]" ?m] \<open>int ` bits_of ?m = set sigs\<close> by auto
  show ?thesis
    using null ks assms(4) by (auto simp: ffkqsig_detach_bsd_def run_simps Let_def)
qed

text \<open>The lowest bit set, found by counting.\<close>

definition rfind_ref :: "u32 \<Rightarrow> u32" where
  "rfind_ref m = (case find (\<lambda>i. bit m i) [0..<32] of None \<Rightarrow> 0 | Some i \<Rightarrow> of_nat (i + 1))"

lemma rfind_ref_ok: "rfind_ok rfind_ref"
proof -
  have "\<exists>i < 32. rfind_ref m = of_nat (i + 1) \<and> bit m i" if "m \<noteq> 0" for m
  proof -
    from that obtain j where "j < 32" "bit m j" using bit_word_eqI [of m 0] by auto
    then have "find (\<lambda>i. bit m i) [0..<32] \<noteq> None" by (auto simp: find_None_iff)
    then obtain i where "find (\<lambda>i. bit m i) [0..<32] = Some i" by blast
    moreover from this have "bit m i" "i < 32" by (auto simp: find_Some_iff)
    ultimately show ?thesis by (auto simp: rfind_ref_def)
  qed
  moreover have "find (\<lambda>i. bit (0 :: u32) i) [0..<32] = None" by (simp only: find_None_iff) simp
  then have "rfind_ref 0 = 0" by (simp only: rfind_ref_def option.case)
  ultimately show ?thesis by (simp add: rfind_ok_def)
qed

definition sigK :: "call \<Rightarrow> nat \<Rightarrow> reply \<times> nat" where
  "sigK c w = (\<lparr>rv = (case c of Mem _ \<Rightarrow> 64 | _ \<Rightarrow> 0), rerr = None, rout = NoOut\<rparr>, w)"

theorem kqsig_detach_witness:
  "\<exists>r s'. ffkqsig_detach_bsd sigK rfind_ref (sint (sig_mask [2, 15] 0)) 5 (start 0 0) = Some (r, s')"
proof -
  have "{2, 15} \<noteq> {0..<32 :: int}"
  proof
    assume a: "{2, 15} = {0..<32 :: int}"
    have "0 \<in> {2, 15 :: int}" unfolding a by simp
    then show False by simp
  qed
  then show ?thesis
    using kqsig_detach_undoes_attach [OF rfind_ref_ok, of "[2, 15]" sigK "start 0 0" 5] by (auto simp: sigK_def)
qed

subsection \<open>Properties: handlers and resources\<close>

text \<open>The handlers that a sequence of calls installs.\<close>

definition installs :: "(call \<times> reply) list \<Rightarrow> call set" where
  "installs t = {c \<in> fst ` set t. \<exists>n f. c = Sig (Sigaction n f)}"

lemma installs_simps [simp]:
  "installs [] = {}" "installs (t @ u) = installs t \<union> installs u"
  "installs ((Sig (Sigaction n f), r) # t) = insert (Sig (Sigaction n f)) (installs t)"
  "installs ((Mem m, r) # t) = installs t" "installs ((Sig (Sigaltstack p z), r) # t) = installs t"
  by (auto simp: installs_def)

lemma wp_subscribe_loop:
  "wp (subscribe_loop K st ns) (\<lambda>r s'. r = 0 \<longrightarrow> installs (trace s') = installs (trace s) \<union>
     (\<lambda>n. Sig (Sigaction (sint n) (SA_SIGINFO OR SA_RESETHAND))) `
        {n \<in> set ns. n \<noteq> FFSIG_STACK \<and> \<not> (n = FFSIG_SEGV \<and> st)}) s"
proof (induction ns arbitrary: s)
  case Nil
  show ?case by (simp, intro wp_intros) simp
next
  case (Cons n ns)
  show ?case
  proof (cases "n = FFSIG_STACK \<or> n = FFSIG_SEGV \<and> st")
    case True
    then have "{m \<in> set (n # ns). m \<noteq> FFSIG_STACK \<and> \<not> (m = FFSIG_SEGV \<and> st)} =
        {m \<in> set ns. m \<noteq> FFSIG_STACK \<and> \<not> (m = FFSIG_SEGV \<and> st)}" by auto
    then show ?thesis using Cons.IH [of s] True by simp
  next
    case False
    then have e: "{m \<in> set (n # ns). m \<noteq> FFSIG_STACK \<and> \<not> (m = FFSIG_SEGV \<and> st)} =
        insert n {m \<in> set ns. m \<noteq> FFSIG_STACK \<and> \<not> (m = FFSIG_SEGV \<and> st)}" by auto
    show ?thesis
      unfolding subscribe_loop.simps if_not_P [OF False] e
      by (intro wp_intros wp_mono [OF Cons.IH]) auto
  qed
qed

text \<open>
  A subscription that returns \<open>0\<close> has installed a handler for exactly the signals asked for:
  stack overflow as a handler for \<open>SIGSEGV\<close> on a stack of its own, which a plain subscription to
  \<open>SIGSEGV\<close> in the same call does not replace, and each other signal with its number.  The user's
  handler is the new one, or the old one if none is given.
\<close>

theorem subscribe_installs:
  "wp (ffsig_subscribe K old handler sigs) (\<lambda>r s. snd r = (if handler \<noteq> 0 then handler else old) \<and>
     (fst r = 0 \<longrightarrow> installs (trace s) =
        (if FFSIG_STACK \<in> set sigs then {Sig (Sigaction 11 (SA_SIGINFO OR SA_RESETHAND OR SA_ONSTACK))} else {}) \<union>
        (\<lambda>n. Sig (Sigaction (sint n) (SA_SIGINFO OR SA_RESETHAND))) `
          {n \<in> set sigs. n \<noteq> FFSIG_STACK \<and> \<not> (n = FFSIG_SEGV \<and> FFSIG_STACK \<in> set sigs)})) (start w e)"
  unfolding ffsig_subscribe_def stack_signal_def
  by (intro wp_intros wp_mono [OF wp_subscribe_loop]) simp_all

text \<open>
  Failures: the stack allocated for the handler is lost when the system refuses it; on Linux the
  signal descriptor is closed when it cannot be added to the queue.
\<close>

lemma subscribe_leaks_stack:
  assumes "rv (fst (K (Mem (MAlloc SIGSTKSZ)) w)) = p" "p \<noteq> 0"
    "\<And>w. rv (fst (K (Sig (Sigaltstack p SIGSTKSZ)) w)) \<noteq> 0" "FFSIG_STACK \<in> set sigs"
  shows "wp (ffsig_subscribe K old handler sigs) (\<lambda>r s. fst r = -1 \<and> heap_after (trace s) = Some {#p#}) (start w e)"
  using assms unfolding ffsig_subscribe_def stack_signal_def
  by (simp add: wp_def run_simps heap_step_def)

lemma kqsig_attach_no_leak:
  "wp (ffkqsig_attach K os kq sigs data) (\<lambda>fd s. fds_after (trace s) = Some (if fd = -1 then {#} else {#fd#})) (start w e)"
  unfolding ffkqsig_attach_def ffkq_attach_defs by (intro wp_intros) (simp_all add: fd_step_def closed_def)

subsection \<open>Raising\<close>

text \<open>
  \<open>ffsig_raise\<close> on UNIX: how it ends, \<open>None\<close> for a recursion without end, which uses up the stack.
\<close>

datatype raised = Aborts | Writes_to int | Divides_by_zero | Returns

partial_function (option) ffsig_raise :: "u32 \<Rightarrow> raised option" where
  "ffsig_raise sig =
     (if sig = FFSIG_ABORT then Some Aborts
      else if sig = FFSIG_STACK then ffsig_raise sig
      else if sig = FFSIG_SEGV then Some (Writes_to 0x16)
      else if sig = FFSIG_FPE then Some Divides_by_zero
      else Some Returns)"

lemma raise_crashes:
  "ffsig_raise FFSIG_ABORT = Some Aborts" "ffsig_raise FFSIG_STACK = None"
  "ffsig_raise FFSIG_SEGV = Some (Writes_to 0x16)" "ffsig_raise FFSIG_FPE = Some Divides_by_zero"
proof -
  have "ffsig_raise sig = Some r \<Longrightarrow> sig = FFSIG_STACK \<Longrightarrow> False" for sig r
    by (induction rule: ffsig_raise.raw_induct [rotated 1, consumes 1, case_names step]) (auto simp: flag_simps)
  then show "ffsig_raise FFSIG_STACK = None" by (cases "ffsig_raise FFSIG_STACK") blast+
qed (subst ffsig_raise.simps, simp add: flag_simps)+

end
