(* ===== verification/Thread.thy ===== *)
theory Thread
  imports Os
begin

text \<open>
  Threads (\<open>FFOS/thread.h\<close>): creating, joining with a time limit, detaching, sleeping and the id
  of the current thread, on UNIX and Windows.

  A function and its argument are addresses.  \<open>FFTHREAD_NULL\<close> is \<open>0\<close>; a limit of
  \<open>-1\<close> milliseconds is no limit.
\<close>

subsection \<open>UNIX\<close>

definition thread_new :: "'w kernel \<Rightarrow> nat option \<Rightarrow> int \<Rightarrow> int \<Rightarrow> ('w, int) prog" where
  "thread_new K pattr func param = do {
     r \<leftarrow> sys K (Thr (Pthread_create pattr func param));
     State_Monad.return (if rv r \<noteq> 0 then 0 else out_int r 0)
   }"

definition ffthread_create :: "'w kernel \<Rightarrow> int \<Rightarrow> int \<Rightarrow> nat \<Rightarrow> ('w, int) prog" where
  "ffthread_create K func param stack_size =
     (if stack_size \<noteq> 0 then do {
        a \<leftarrow> sysi K (Thr Pthread_attr_init);
        if a \<noteq> 0 then State_Monad.return 0
        else do {
          z \<leftarrow> sysi K (Thr (Pthread_attr_setstacksize stack_size));
          t \<leftarrow> (if z \<noteq> 0 then State_Monad.return 0 else thread_new K (Some stack_size) func param);
          sysi K (Thr Pthread_attr_destroy);
          State_Monad.return t
        }
      }
      else thread_new K None func param)"

text \<open>\<open>tv_nsec\<close> is a signed \<open>long\<close>.\<close>

definition fftimespec_addms :: "timespec \<Rightarrow> u64 \<Rightarrow> timespec" where
  "fftimespec_addms ts ms =
     (let s = ts_sec ts + ms div 1000; n = ts_nsec ts + (ms mod 1000) * 1000 * 1000 in
      if sint n \<ge> 1000 * 1000 * 1000 then \<lparr>ts_sec = s + 1, ts_nsec = n - 1000 * 1000 * 1000\<rparr>
      else \<lparr>ts_sec = s, ts_nsec = n\<rparr>)"

definition out_timespec :: "reply \<Rightarrow> timespec" where
  "out_timespec r = (case rout r of OTime ts \<Rightarrow> ts | _ \<Rightarrow> \<lparr>ts_sec = 0, ts_nsec = 0\<rparr>)"

text \<open>The result of the thread's function is a pointer, cut to an \<open>int\<close>.\<close>

definition ffthread_join :: "'w kernel \<Rightarrow> os \<Rightarrow> int \<Rightarrow> u32 \<Rightarrow> ('w, int \<times> int option) prog" where
  "ffthread_join K os t timeout_ms = do {
     x \<leftarrow> (if timeout_ms = -1 then sys K (Thr (Pthread_join t))
          else if os = Linux \<and> timeout_ms = 0 then do {
            r \<leftarrow> sys K (Thr (Pthread_tryjoin_np t));
            State_Monad.return (if rv r = EBUSY then r\<lparr>rv := ETIMEDOUT\<rparr> else r)
          }
          else if os = Linux \<or> os = FreeBSD then do {
            c \<leftarrow> sys K (Ev Clock_gettime);
            sys K (Thr (Pthread_timedjoin_np t (fftimespec_addms (out_timespec c) (ucast timeout_ms))))
          }
          else sys K (Thr (Pthread_join t)));
     if rv x \<noteq> 0 then do { fferr_set (rv x); State_Monad.return (-1, None) }
     else State_Monad.return (0, Some (sint (of_int (out_int x 0) :: u32)))
   }"

definition ffthread_curid :: "'w kernel \<Rightarrow> os \<Rightarrow> ('w, u64) prog" where
  "ffthread_curid K os =
     (if ff_linux os then do { r \<leftarrow> sysi K (Thr Gettid); State_Monad.return (of_int r) }
      else if os = Apple then do {
        r \<leftarrow> sys K (Thr Pthread_threadid_np);
        State_Monad.return (if rv r \<noteq> 0 then 0 else out_word r)
      }
      else do { r \<leftarrow> sysi K (Thr Pthread_getthreadid_np); State_Monad.return (of_int r) })"

definition ffthread_detach :: "'w kernel \<Rightarrow> int \<Rightarrow> ('w, int) prog" where
  "ffthread_detach K t = sysi K (Thr (Pthread_detach t))"

text \<open>The product is computed in 32 bits.\<close>

definition ffthread_sleep :: "'w kernel \<Rightarrow> u32 \<Rightarrow> ('w, unit) prog" where
  "ffthread_sleep K msec = do { sysi K (Thr (Usleep (msec * 1000))); State_Monad.return () }"

subsection \<open>Windows\<close>

definition ffthread_create_win :: "'w kernel \<Rightarrow> int \<Rightarrow> int \<Rightarrow> nat \<Rightarrow> ('w, int) prog" where
  "ffthread_create_win K func param stack_size = sysi K (Thr (CreateThread stack_size func param))"

definition ffthread_join_win :: "'w kernel \<Rightarrow> int \<Rightarrow> u32 \<Rightarrow> bool \<Rightarrow> ('w, int \<times> int option) prog" where
  "ffthread_join_win K t timeout_ms want_code = do {
     r \<leftarrow> sysi K (WinIo (WaitForSingleObject t timeout_ms));
     if r = 0 then do {
       code \<leftarrow> (if want_code then do {
                 x \<leftarrow> sys K (Thr (GetExitCodeThread t));
                 State_Monad.return (Some (out_int x 0))
               } else State_Monad.return None);
       sysi K (WinFile (CloseHandle t));
       State_Monad.return (0, code)
     }
     else do {
       (if r = WAIT_TIMEOUT then fferr_set WSAETIMEDOUT else State_Monad.return ());
       State_Monad.return (-1, None)
     }
   }"

definition ffthread_detach_win :: "'w kernel \<Rightarrow> int \<Rightarrow> ('w, int) prog" where
  "ffthread_detach_win K t = do { r \<leftarrow> sysi K (WinFile (CloseHandle t)); State_Monad.return (c_bool (r = 0)) }"

definition ffthread_sleep_win :: "'w kernel \<Rightarrow> u32 \<Rightarrow> ('w, unit) prog" where
  "ffthread_sleep_win K msec = do { sysi K (Thr (Sleep msec)); State_Monad.return () }"

definition ffthread_curid_win :: "'w kernel \<Rightarrow> ('w, u64) prog" where
  "ffthread_curid_win K = do { r \<leftarrow> sysi K (Thr GetCurrentThreadId); State_Monad.return (of_int r) }"

subsection \<open>Properties\<close>

lemma sint_eq_unat: "unat (x :: u64) < 2 ^ 63 \<Longrightarrow> sint x = int (unat x)"
proof -
  assume "unat x < 2 ^ 63"
  then have "int (unat x) < int (2 ^ 63)" by (simp only: of_nat_less_iff)
  then have a: "uint x < 2 ^ 63" by simp
  have "sint x = signed_take_bit 63 (uint x)" by (simp add: sint_uint)
  also have "\<dots> = uint x"
    using a by (intro signed_take_bit_int_eq_self) (rule order_trans [of _ 0], simp_all)
  finally show ?thesis by simp
qed

text \<open>
  \<open>_fftimespec_addms\<close> adds milliseconds exactly and keeps the nanoseconds below a
  second, as the calls that take an absolute time demand, for every normalised time that does not
  leave the range of seconds.
\<close>

theorem timespec_addms_normalised:
  assumes n: "unat (ts_nsec ts) < 10 ^ 9" and s: "unat (ts_sec ts) + unat ms div 1000 + 1 < 2 ^ 64"
  defines "t \<equiv> fftimespec_addms ts ms"
  shows "unat (ts_nsec t) < 10 ^ 9 \<and>
    unat (ts_sec t) * 10 ^ 9 + unat (ts_nsec t) = unat (ts_sec ts) * 10 ^ 9 + unat (ts_nsec ts) + unat ms * 10 ^ 6"
proof -
  let ?n = "ts_nsec ts + ms mod 1000 * 1000 * 1000" and ?s = "ts_sec ts + ms div 1000"
  have m: "unat (ms mod 1000 * 1000 * 1000) = unat ms mod 1000 * 1000000"
    by (simp add: unat_mult_lem [THEN iffD1] unat_mod unat_word_ariths)
  have un: "unat ?n = unat (ts_nsec ts) + unat ms mod 1000 * 1000000"
    using n m by (subst unat_add_lem [THEN iffD1]) simp_all
  have us: "unat ?s = unat (ts_sec ts) + unat ms div 1000"
    using s by (subst unat_add_lem [THEN iffD1]) (simp_all add: unat_div)
  have "unat ?n < 2 ^ 63" unfolding un using n by simp
  then have si: "sint ?n = int (unat ?n)" by (rule sint_eq_unat)
  have c: "sint ?n \<ge> 1000 * 1000 * 1000 \<longleftrightarrow> unat ?n \<ge> 10 ^ 9"
    unfolding si by (simp only: nat_int_comparison of_nat_power of_nat_numeral) simp
  obtain q r where qr: "unat ms div 1000 = q" "unat ms mod 1000 = r" "unat ms = q * 1000 + r" "r < 1000"
    by (metis div_mult_mod_eq mod_less_divisor zero_less_numeral)
  show ?thesis
  proof (cases "unat ?n \<ge> 10 ^ 9")
    case True
    have d: "unat (?n - 1000 * 1000 * 1000) = unat ?n - 10 ^ 9"
      using True by (subst unat_sub) (simp_all add: word_le_nat_alt)
    have p: "unat (?s + 1) = unat ?s + 1"
      using s us by (subst unat_add_lem [THEN iffD1]) simp_all
    have t: "t = \<lparr>ts_sec = ?s + 1, ts_nsec = ?n - 1000 * 1000 * 1000\<rparr>"
      using True c by (simp add: t_def fftimespec_addms_def Let_def)
    show ?thesis unfolding t timespec.simps d p un us qr(1,2) using True n qr(3,4) un qr(2) by simp
  next
    case False
    then have t: "t = \<lparr>ts_sec = ?s, ts_nsec = ?n\<rparr>"
      using c by (simp add: t_def fftimespec_addms_def Let_def)
    show ?thesis unfolding t timespec.simps un us qr(1,2) using False n qr(3,4) un qr(2) by simp
  qed
qed

theorem timespec_addms_witness:
  "unat (ts_nsec (fftimespec_addms \<lparr>ts_sec = 5, ts_nsec = 999999999\<rparr> 1500)) < 10 ^ 9"
  using timespec_addms_normalised [of "\<lparr>ts_sec = 5, ts_nsec = 999999999\<rparr>" 1500] by simp

text \<open>
  \<open>ffthread_join\<close> reports what the system said: it returns \<open>0\<close> with the exit code
  exactly if the call that joins succeeded, and otherwise \<open>-1\<close> with the error in
  \<open>errno\<close>, where a thread that still runs is always \<open>FFTHREAD_ETIMEDOUT\<close>.  On Windows the
  handle is closed exactly if the thread has exited, so that a join that timed out can be repeated.
\<close>

theorem thread_join_contract:
  "wp (ffthread_join K os t timeout) (\<lambda>r s. \<exists>c x tr. trace s = tr @ [(Thr c, x)] \<and>
      c \<in> {Pthread_join t, Pthread_tryjoin_np t} \<union> range (Pthread_timedjoin_np t) \<and>
      (fst r = 0 \<and> rv x = 0 \<and> snd r \<noteq> None \<or> fst r = -1 \<and> rv x \<noteq> 0 \<and>
        lasterr s = (if c = Pthread_tryjoin_np t \<and> rv x = EBUSY then ETIMEDOUT else rv x))) (start w e) \<and>
   wp (ffthread_join_win K t timeout want) (\<lambda>r s.
      (fst r = 0 \<and> (\<exists>x. (WinFile (CloseHandle t), x) \<in> set (trace s)) \<and> (want \<longleftrightarrow> snd r \<noteq> None)) \<or>
      (fst r = -1 \<and> (\<exists>x. trace s = [(WinIo (WaitForSingleObject t timeout), x)] \<and> rv x \<noteq> 0 \<and>
         (rv x = WAIT_TIMEOUT \<longrightarrow> lasterr s = WSAETIMEDOUT)))) (start w e)"
proof
  show "wp (ffthread_join K os t timeout) (\<lambda>r s. \<exists>c x tr. trace s = tr @ [(Thr c, x)] \<and>
      c \<in> {Pthread_join t, Pthread_tryjoin_np t} \<union> range (Pthread_timedjoin_np t) \<and>
      (fst r = 0 \<and> rv x = 0 \<and> snd r \<noteq> None \<or> fst r = -1 \<and> rv x \<noteq> 0 \<and>
        lasterr s = (if c = Pthread_tryjoin_np t \<and> rv x = EBUSY then ETIMEDOUT else rv x))) (start w e)"
    unfolding ffthread_join_def by (intro wp_intros) (auto split: if_splits)
  show "wp (ffthread_join_win K t timeout want) (\<lambda>r s.
      (fst r = 0 \<and> (\<exists>x. (WinFile (CloseHandle t), x) \<in> set (trace s)) \<and> (want \<longleftrightarrow> snd r \<noteq> None)) \<or>
      (fst r = -1 \<and> (\<exists>x. trace s = [(WinIo (WaitForSingleObject t timeout), x)] \<and> rv x \<noteq> 0 \<and>
         (rv x = WAIT_TIMEOUT \<longrightarrow> lasterr s = WSAETIMEDOUT)))) (start w e)"
    unfolding ffthread_join_win_def by (intro wp_intros) auto
qed

text \<open>
  \<open>ffthread_create\<close> destroys the attributes it has initialised on every way out, and returns
  a thread only if the system created one.
\<close>

lemma thread_create_attr:
  "wp (ffthread_create K func param stack) (\<lambda>t s.
     ((\<exists>r. (Thr Pthread_attr_init, r) \<in> set (trace s) \<and> rv r = 0) \<longleftrightarrow> Thr Pthread_attr_destroy \<in> fst ` set (trace s)) \<and>
     (t \<noteq> 0 \<longrightarrow> (\<exists>a r. (Thr (Pthread_create a func param), r) \<in> set (trace s) \<and> rv r = 0 \<and> t = out_int r 0))) (start w e)"
  unfolding ffthread_create_def thread_new_def
  by (intro wp_intros) (auto split: if_splits simp del: out_int.simps)

text \<open>
  The product in \<open>ffthread_sleep\<close> wraps: from 4294968 ms (about 71 minutes) on the thread
  sleeps for a fraction of the time it was asked to.
\<close>

lemma thread_sleep_wraps:
  "wp (ffthread_sleep K 4294968) (\<lambda>r s. calls_of s = [Thr (Usleep 704)]) (start w e)"
  unfolding ffthread_sleep_def by (intro wp_intros) (simp add: calls_of_def)

end
