(* ===== verification/Timer.thy ===== *)
theory Timer
  imports Kqueue Thread "HOL-Library.Signed_Division"
begin

text \<open>
  Timers (\<open>FFOS/timer.h\<close>): \<open>timerfd\<close> on Linux, timer events of \<open>kqueue\<close> on BSD and
  macOS, and on Windows a waitable timer served by a thread of its own, to which the functions send
  commands.

  The two threads of the Windows timer share a command, a result and two auto-reset events.  Their
  protocol is a step relation whose steps are the accesses to these, so that all interleavings are
  covered; the rest of the functions are programs.
\<close>

abbreviation (input) FFTIMER_NULL :: int where "FFTIMER_NULL \<equiv> -1"

subsection \<open>Linux\<close>

definition TFD_NONBLOCK :: u32 where [flag_simps]: "TFD_NONBLOCK = 0x800"

definition fftimer_create :: "'w kernel \<Rightarrow> u32 \<Rightarrow> ('w, int) prog" where
  "fftimer_create K flags = sysi K (Tim (Timerfd_create (TFD_NONBLOCK OR flags)))"

definition fftimer_close :: "'w kernel \<Rightarrow> int \<Rightarrow> ('w, unit) prog" where
  "fftimer_close K tmr = do { sysi K (FileC (Close tmr)); State_Monad.return () }"

definition ts_zero :: timespec where
  "ts_zero = \<lparr>ts_sec = 0, ts_nsec = 0\<rparr>"

text \<open>The period is an \<open>int\<close>; division and remainder are those of C.\<close>

definition timer_spec :: "u32 \<Rightarrow> itimerspec" where
  "timer_spec period_ms =
     (let neg = sint period_ms < 0;
        p = sint (if neg then - period_ms else period_ms);
        v = \<lparr>ts_sec = of_int (p sdiv 1000), ts_nsec = of_int (p smod 1000 * 1000000)\<rparr>
      in \<lparr>it_value = v, it_interval = (if neg then ts_zero else v)\<rparr>)"

definition fftimer_start :: "'w kernel \<Rightarrow> int \<Rightarrow> int \<Rightarrow> int \<Rightarrow> u32 \<Rightarrow> ('w, int) prog" where
  "fftimer_start K tmr kq data period_ms = do {
     r \<leftarrow> sysi K (Ev (Epoll_ctl_add kq tmr \<lparr>ep_events = EPOLLIN OR EPOLLET, ep_data = data\<rparr>));
     e \<leftarrow> fferr_last;
     if r \<noteq> 0 \<and> e \<noteq> EEXIST then State_Monad.return (-1)
     else sysi K (Tim (Timerfd_settime tmr (timer_spec period_ms)))
   }"

definition fftimer_stop :: "'w kernel \<Rightarrow> int \<Rightarrow> ('w, int) prog" where
  "fftimer_stop K tmr = sysi K (Tim (Timerfd_settime tmr \<lparr>it_value = ts_zero, it_interval = ts_zero\<rparr>))"

definition fftimer_consume :: "'w kernel \<Rightarrow> int \<Rightarrow> ('w, unit) prog" where
  "fftimer_consume K tmr = do { sysi K (FileC (Read tmr 8)); State_Monad.return () }"

subsection \<open>BSD and macOS\<close>

text \<open>The timer is a block of one byte, which tells whether the event is registered.\<close>

record bsdtimer =
  bt_ptr :: int
  bt_on :: u8

definition EV_ONESHOT :: u32 where [flag_simps]: "EV_ONESHOT = 0x10"

abbreviation (input) EVFILT_TIMER :: int where "EVFILT_TIMER \<equiv> -7"

definition fftimer_create_bsd :: "'w kernel \<Rightarrow> ('w, bsdtimer) prog" where
  "fftimer_create_bsd K = do {
     p \<leftarrow> sysi K (Mem (MAlloc 1));
     State_Monad.return \<lparr>bt_ptr = (if p = 0 then FFTIMER_NULL else p), bt_on = 0\<rparr>
   }"

definition kev_delete :: "'w kernel \<Rightarrow> int \<Rightarrow> bsdtimer \<Rightarrow> ('w, int) prog" where
  "kev_delete K kq tmr = sysi K (Ev (Kevent_change kq [ev_set (bt_ptr tmr) EVFILT_TIMER EV_DELETE 0 (-1)]))"

definition fftimer_close_bsd :: "'w kernel \<Rightarrow> bsdtimer \<Rightarrow> int \<Rightarrow> ('w, unit) prog" where
  "fftimer_close_bsd K tmr kq =
     (if bt_ptr tmr = FFTIMER_NULL then State_Monad.return ()
      else do {
        (if bt_on tmr = 1 then do { kev_delete K kq tmr; State_Monad.return () } else State_Monad.return ());
        sysi K (Mem (MFree (bt_ptr tmr)));
        State_Monad.return ()
      })"

definition timer_kevent :: "bsdtimer \<Rightarrow> int \<Rightarrow> u32 \<Rightarrow> kevent" where
  "timer_kevent tmr data period_ms =
     (let neg = sint period_ms < 0; p = (if neg then - period_ms else period_ms) in
      (ev_set (bt_ptr tmr) EVFILT_TIMER ((EV_ADD OR EV_ENABLE) OR (if neg then EV_ONESHOT else 0)) 0 data)
        \<lparr>kv_data := sint p\<rparr>)"

definition fftimer_start_bsd :: "'w kernel \<Rightarrow> bsdtimer \<Rightarrow> int \<Rightarrow> int \<Rightarrow> u32 \<Rightarrow> ('w, int \<times> bsdtimer) prog" where
  "fftimer_start_bsd K tmr kq data period_ms = do {
     r \<leftarrow> sysi K (Ev (Kevent_change kq [timer_kevent tmr data period_ms]));
     State_Monad.return (if r \<noteq> 0 then (-1, tmr) else (0, tmr\<lparr>bt_on := 1\<rparr>))
   }"

definition fftimer_stop_bsd :: "'w kernel \<Rightarrow> bsdtimer \<Rightarrow> int \<Rightarrow> ('w, int \<times> bsdtimer) prog" where
  "fftimer_stop_bsd K tmr kq = do {
     r \<leftarrow> kev_delete K kq tmr;
     State_Monad.return (if r \<noteq> 0 then (-1, tmr) else (0, tmr\<lparr>bt_on := 0\<rparr>))
   }"

subsection \<open>Windows: the object\<close>

record wtimer =
  wt_ptr :: int
  wt_htmr :: int
  wt_kq :: int
  wt_data :: int
  wt_period :: u32
  wt_thd :: int
  wt_evt :: int
  wt_evt_result :: int

abbreviation (input) FFTIMER_EXIT :: u32 where "FFTIMER_EXIT \<equiv> 0"
abbreviation (input) FFTIMER_START :: u32 where "FFTIMER_START \<equiv> 1"
abbreviation (input) FFTIMER_STOP :: u32 where "FFTIMER_STOP \<equiv> 2"

text \<open>The timer's function: \<open>False\<close> if its assertion fails.\<close>

definition fftimer_onfire :: "'w kernel \<Rightarrow> wtimer \<Rightarrow> ('w, bool) prog" where
  "fftimer_onfire K tmr = do {
     let post = ffkq_post_attach_win (wt_kq tmr) (wt_data tmr);
     r \<leftarrow> ffkq_post_win K post (wt_data tmr);
     State_Monad.return (r = 0)
   }"

definition due_ns100 :: "u32 \<Rightarrow> u64" where
  "due_ns100 period_ms = scast period_ms * 1000 * (- 10)"

text \<open>A command in the timer's thread; the result is \<open>0\<close> or the system's error.\<close>

definition timer_exec :: "'w kernel \<Rightarrow> wtimer \<Rightarrow> u32 \<Rightarrow> ('w, int) prog" where
  "timer_exec K tmr cmd =
     (if cmd = FFTIMER_START then do {
        b \<leftarrow> sysi K (Tim (SetWaitableTimer (wt_htmr tmr) (due_ns100 (wt_period tmr))
               (if sint (wt_period tmr) \<ge> 0 then wt_period tmr else 0)));
        if b = 0 then fferr_last else State_Monad.return 0
      }
      else if cmd = FFTIMER_STOP then do {
        b \<leftarrow> sysi K (Tim (CancelWaitableTimer (wt_htmr tmr)));
        if b = 0 then fferr_last else State_Monad.return 0
      }
      else State_Monad.return 0)"

text \<open>
  A command as the calling thread sees it; \<open>result\<close> is what the timer's thread has stored when the
  wait is over.
\<close>

definition fftimer_cmd :: "'w kernel \<Rightarrow> wtimer \<Rightarrow> u32 \<Rightarrow> int \<Rightarrow> ('w, int) prog" where
  "fftimer_cmd K tmr cmd result = do {
     b \<leftarrow> sysi K (Tim (SetEvent (wt_evt tmr)));
     if b = 0 then State_Monad.return (-1)
     else if cmd = FFTIMER_EXIT then State_Monad.return 0
     else do {
       r \<leftarrow> sysi K (WinIo (WaitForSingleObject (wt_evt_result tmr) (-1)));
       if r \<noteq> 0 then State_Monad.return (-1)
       else do { fferr_set result; State_Monad.return result }
     }
   }"

definition fftimer_close_win :: "'w kernel \<Rightarrow> wtimer \<Rightarrow> ('w, unit) prog" where
  "fftimer_close_win K tmr =
     (if wt_ptr tmr = 0 then State_Monad.return ()
      else do {
        sysi K (WinFile (CloseHandle (wt_htmr tmr)));
        (if wt_thd tmr \<noteq> 0 then do {
           fftimer_cmd K tmr FFTIMER_EXIT 0;
           ffthread_join_win K (wt_thd tmr) (-1) False;
           State_Monad.return ()
         } else State_Monad.return ());
        sysi K (WinFile (CloseHandle (wt_evt tmr)));
        sysi K (WinFile (CloseHandle (wt_evt_result tmr)));
        sysi K (Mem (MFree (wt_ptr tmr)));
        State_Monad.return ()
      })"

text \<open>\<open>func\<close> is the address of \<open>_fftimer_thread\<close>; the object is zeroed when it is allocated.\<close>

definition fftimer_create_win :: "'w kernel \<Rightarrow> int \<Rightarrow> ('w, wtimer) prog" where
  "fftimer_create_win K func = do {
     let null = \<lparr>wt_ptr = 0, wt_htmr = 0, wt_kq = 0, wt_data = 0, wt_period = 0, wt_thd = 0, wt_evt = 0, wt_evt_result = 0\<rparr>;
     let fail = (\<lambda>tmr. do { fftimer_close_win K tmr; State_Monad.return null });
     p \<leftarrow> sysi K (Mem (MAlloc 64));
     if p = 0 then State_Monad.return null
     else do {
       h \<leftarrow> sysi K (Tim CreateWaitableTimer);
       let tmr = null\<lparr>wt_ptr := p, wt_htmr := h\<rparr>;
       if h = 0 then fail tmr
       else do {
         e \<leftarrow> sysi K (Tim CreateEvent);
         let tmr = tmr\<lparr>wt_evt := e\<rparr>;
         if e = 0 then fail tmr
         else do {
           er \<leftarrow> sysi K (Tim CreateEvent);
           let tmr = tmr\<lparr>wt_evt_result := er\<rparr>;
           if er = 0 then fail tmr
           else do {
             t \<leftarrow> ffthread_create_win K func p (4 * 1024);
             let tmr = tmr\<lparr>wt_thd := t\<rparr>;
             if t = 0 then fail tmr else State_Monad.return tmr
           }
         }
       }
     }
   }"

definition fftimer_start_win :: "'w kernel \<Rightarrow> wtimer \<Rightarrow> int \<Rightarrow> int \<Rightarrow> u32 \<Rightarrow> int \<Rightarrow> ('w, int \<times> wtimer) prog" where
  "fftimer_start_win K tmr kq data period_ms result = do {
     let tmr = tmr\<lparr>wt_kq := kq, wt_data := data, wt_period := period_ms\<rparr>;
     r \<leftarrow> fftimer_cmd K tmr FFTIMER_START result;
     State_Monad.return (r, tmr)
   }"

definition fftimer_stop_win :: "'w kernel \<Rightarrow> wtimer \<Rightarrow> int \<Rightarrow> ('w, int) prog" where
  "fftimer_stop_win K tmr result = fftimer_cmd K tmr FFTIMER_STOP result"

subsection \<open>Windows: the two threads\<close>


















subsection \<open>Properties: periods\<close>

definition signalK :: "call \<Rightarrow> nat \<Rightarrow> reply \<times> nat" where
  "signalK c w = (\<lparr>rv = 0, rerr = None, rout = NoOut\<rparr>, w)"

lemma sint_u32_bounds: "- (2 ^ 31) \<le> sint (x :: u32)" "sint (x :: u32) < 2 ^ 31"
  using sint_greater_eq [of x] sint_lt [of x] by simp_all

lemma sint_uminus: "sint (x :: u32) \<noteq> - (2 ^ 31) \<Longrightarrow> sint (- x) = - sint x"
proof -
  assume "sint x \<noteq> - (2 ^ 31)"
  then have b: "- (2 ^ 31) \<le> - sint x" "- sint x < 2 ^ 31" using sint_u32_bounds [of x] by linarith+
  have "sint (- x) = signed_take_bit 31 (- sint x)" by (simp add: sint_word_ariths)
  also have "\<dots> = - sint x" using b by (intro signed_take_bit_int_eq_self) simp_all
  finally show ?thesis .
qed

text \<open>The magnitude of a period, and its parts for a natural number of milliseconds.\<close>

lemma period_abs:
  fixes period :: u32
  assumes "sint period \<noteq> - (2 ^ 31)"
  shows "sint (if sint period < 0 then - period else period) = int (nat \<bar>sint period\<bar>)"
  using sint_uminus [OF assms] by simp

lemma c_div_nat: "int n sdiv 1000 = int (n div 1000)" "int n smod 1000 = int (n mod 1000)"
  by (cases "n = 0"; simp add: signed_divide_int_def signed_modulo_int_def zdiv_int zmod_int)+

lemma timer_spec_eq:
  assumes "sint period \<noteq> - (2 ^ 31)"
  defines "n \<equiv> nat \<bar>sint period\<bar>"
  shows "it_value (timer_spec period) = \<lparr>ts_sec = of_nat (n div 1000), ts_nsec = of_nat (n mod 1000 * 1000000)\<rparr>"
    "it_interval (timer_spec period) = (if sint period < 0 then ts_zero else it_value (timer_spec period))"
  unfolding timer_spec_def Let_def period_abs [OF assms(1)] n_def [symmetric] c_div_nat by simp_all

text \<open>
  \<open>fftimer_start\<close> on Linux arms the timer for exactly \<open>|period_ms|\<close> milliseconds, with
  less than a second of nanoseconds, once if the period is negative and repeatedly otherwise (all
  periods but \<open>INT_MIN\<close>); when the descriptor cannot be added to the queue it fails without
  arming the timer, unless it is there already.
\<close>

theorem timer_start_arms:
  assumes "sint period \<noteq> - (2 ^ 31)"
  shows "unat (ts_sec (it_value (timer_spec period))) * 10 ^ 3 * 10 ^ 6 + unat (ts_nsec (it_value (timer_spec period))) =
      nat \<bar>sint period\<bar> * 10 ^ 6 \<and>
    unat (ts_nsec (it_value (timer_spec period))) < 10 ^ 9 \<and>
    it_interval (timer_spec period) = (if sint period < 0 then ts_zero else it_value (timer_spec period)) \<and>
    wp (fftimer_start K tmr kq data period) (\<lambda>r s.
      (\<exists>ev x. trace s = [(Ev (Epoll_ctl_add kq tmr ev), x)] \<and> rv x \<noteq> 0 \<and> r = -1 \<and> lasterr s \<noteq> EEXIST) \<or>
      (\<exists>ev x y. trace s = [(Ev (Epoll_ctl_add kq tmr ev), x), (Tim (Timerfd_settime tmr (timer_spec period)), y)] \<and>
         r = rv y)) (start w e)"
proof -
  define n where "n = nat \<bar>sint period\<bar>"
  have n: "n < 2 ^ 32" using sint_u32_bounds [of period] by (simp add: n_def)
  have v: "it_value (timer_spec period) = \<lparr>ts_sec = of_nat (n div 1000), ts_nsec = of_nat (n mod 1000 * 1000000)\<rparr>"
    using timer_spec_eq [OF assms] by (simp add: n_def)
  have "unat (of_nat (n div 1000) :: u64) = n div 1000" using n by (simp add: unat_of_nat)
  moreover have "n mod 1000 * 1000000 < 1000000000" by simp
  then have "unat (of_nat (n mod 1000 * 1000000) :: u64) = n mod 1000 * 1000000"
    by (simp add: unat_of_nat del: of_nat_mult)
  moreover have "n div 1000 * 1000 * 1000000 + n mod 1000 * 1000000 = n * 1000000"
    by (simp only: distrib_right [symmetric] div_mult_mod_eq)
  moreover have "wp (fftimer_start K tmr kq data period) (\<lambda>r s.
      (\<exists>ev x. trace s = [(Ev (Epoll_ctl_add kq tmr ev), x)] \<and> rv x \<noteq> 0 \<and> r = -1 \<and> lasterr s \<noteq> EEXIST) \<or>
      (\<exists>ev x y. trace s = [(Ev (Epoll_ctl_add kq tmr ev), x), (Tim (Timerfd_settime tmr (timer_spec period)), y)] \<and>
         r = rv y)) (start w e)"
    unfolding fftimer_start_def by (intro wp_intros) auto
  ultimately show ?thesis
    using timer_spec_eq(2) [OF assms] unfolding v n_def [symmetric] by (simp del: of_nat_mult)
qed

theorem timer_start_witness:
  "unat (ts_nsec (it_value (timer_spec (- 1500)))) < 10 ^ 9 \<and> it_interval (timer_spec (- 1500)) = ts_zero"
  using timer_start_arms [of "- 1500" signalK 3 4 5 0 0] by simp

text \<open>
  On Windows the due time of a periodic timer is relative (negative), but the one of a
  single-shot timer is positive, which the system takes for an absolute time, in the year 1601: the
  timer fires at once instead of after \<open>-period_ms\<close>.
\<close>

lemma due_value: "sint (due_ns100 period) = - 10000 * sint period"
proof -
  have d: "due_ns100 period = of_int (- 10000 * sint period)"
    unfolding due_ns100_def scast_eq by (simp only: of_int_mult of_int_minus of_int_numeral) (simp add: mult.commute)
  have "sint (due_ns100 period) = signed_take_bit 63 (- 10000 * sint period)"
    unfolding d by (simp only: signed_of_int len_num1 len_bit0) simp
  also have "\<dots> = - 10000 * sint period"
  proof (rule signed_take_bit_int_eq_self)
    show "- (2 ^ 63) \<le> - 10000 * sint period" using sint_u32_bounds(2) [of period] by simp
    show "- 10000 * sint period < 2 ^ 63" using sint_u32_bounds(1) [of period] by simp
  qed
  finally show ?thesis .
qed

theorem timer_win_oneshot_absolute:
  "(sint period > 0 \<longrightarrow> sint (due_ns100 period) < 0) \<and> (sint period < 0 \<longrightarrow> sint (due_ns100 period) > 0)"
  by (simp add: due_value)

subsection \<open>Properties: resources\<close>

text \<open>The timers registered in the queues by the changes made so far.\<close>

definition reg_event :: "int set \<Rightarrow> kevent \<Rightarrow> int set" where
  "reg_event R ev =
     (if kv_filter ev \<noteq> EVFILT_TIMER then R
      else if tst (kv_flags ev) EV_DELETE then R - {kv_ident ev}
      else if tst (kv_flags ev) EV_ADD then insert (kv_ident ev) R else R)"

definition reg_step :: "int set \<Rightarrow> call \<times> reply \<Rightarrow> int set" where
  "reg_step R cr = (case fst cr of
      Ev (Kevent_change kq evs) \<Rightarrow> if rv (snd cr) = 0 then foldl reg_event R evs else R
    | _ \<Rightarrow> R)"

definition registered :: "'w sys \<Rightarrow> int set" where
  "registered s = foldl reg_step {} (trace s)"

datatype timer_op = Start int int u32 | Stop int

definition timer_op_bsd :: "'w kernel \<Rightarrow> timer_op \<Rightarrow> bsdtimer \<Rightarrow> ('w, int \<times> bsdtimer) prog" where
  "timer_op_bsd K c tmr = (case c of
      Start kq data period \<Rightarrow> fftimer_start_bsd K tmr kq data period
    | Stop kq \<Rightarrow> fftimer_stop_bsd K tmr kq)"

fun timer_ops_bsd :: "'w kernel \<Rightarrow> timer_op list \<Rightarrow> bsdtimer \<Rightarrow> ('w, bsdtimer) prog" where
  "timer_ops_bsd K [] tmr = State_Monad.return tmr"
| "timer_ops_bsd K (c # cs) tmr = do { r \<leftarrow> timer_op_bsd K c tmr; timer_ops_bsd K cs (snd r) }"

definition bsd_ok :: "bsdtimer \<Rightarrow> 'w sys \<Rightarrow> bool" where
  "bsd_ok t s \<longleftrightarrow> bt_ptr t \<noteq> 0 \<and> heap_after (trace s) = Some {#bt_ptr t#} \<and> registered s = (if bt_on t = 1 then {bt_ptr t} else {})"

lemma timer_kevent_add: "tst (kv_flags (timer_kevent t data p)) EV_ADD" "\<not> tst (kv_flags (timer_kevent t data p)) EV_DELETE"
  by (simp_all add: timer_kevent_def ev_set_def tst_def flag_simps Let_def)

lemma reg_timer:
  "reg_event R (timer_kevent t data p) = insert (bt_ptr t) R"
  "reg_event R (ev_set (bt_ptr t) EVFILT_TIMER EV_DELETE 0 d) = R - {bt_ptr t}"
  using timer_kevent_add [of t data p]
  by (simp_all add: reg_event_def timer_kevent_def ev_set_def tst_def flag_simps Let_def)

lemma bsd_ok_op:
  assumes "bsd_ok t s"
  shows "wp (timer_op_bsd K c t) (\<lambda>r. bsd_ok (snd r)) s"
proof (cases c)
  case (Start kq data p)
  show ?thesis unfolding timer_op_bsd_def Start timer_op.case fftimer_start_bsd_def
    by (intro wp_intros) (use assms in \<open>auto simp: bsd_ok_def registered_def reg_step_def heap_step_def reg_timer\<close>)
next
  case (Stop kq)
  show ?thesis unfolding timer_op_bsd_def Stop timer_op.case fftimer_stop_bsd_def kev_delete_def
    by (intro wp_intros) (use assms in \<open>auto simp: bsd_ok_def registered_def reg_step_def heap_step_def reg_timer\<close>)
qed

lemma bsd_ok_ops: "bsd_ok t s \<Longrightarrow> wp (timer_ops_bsd K cs t) bsd_ok s"
proof (induction cs arbitrary: t s)
  case Nil
  then show ?case by (simp, intro wp_intros)
next
  case (Cons c cs)
  then show ?case by (simp, intro wp_bind) (rule wp_mono [OF bsd_ok_op [OF Cons.prems]])
qed

text \<open>
  On BSD and macOS the byte of the timer says at every time whether its event is registered in
  the queue, for every sequence of starts and stops, whichever of them the system refuses; the
  timer's block is its only memory, and closing gives it back after asking for the removal of the event
  exactly if it is registered.
\<close>

theorem timer_bsd_registration:
  "wp (do { t \<leftarrow> fftimer_create_bsd K; if bt_ptr t = FFTIMER_NULL then State_Monad.return t else timer_ops_bsd K cs t })
     (\<lambda>t s. bt_ptr t = FFTIMER_NULL \<or> registered s = (if bt_on t = 1 then {bt_ptr t} else {}) \<and>
        wp (fftimer_close_bsd K t kq) (\<lambda>_ s'. heap_clean (trace s') \<and>
          length (trace s') = length (trace s) + (if registered s = {} then 1 else 2)) s) (start w e)"
proof -
  have close: "bt_ptr t = FFTIMER_NULL \<or> registered s = (if bt_on t = 1 then {bt_ptr t} else {}) \<and>
        wp (fftimer_close_bsd K t kq) (\<lambda>_ s'. heap_clean (trace s') \<and>
          length (trace s') = length (trace s) + (if registered s = {} then 1 else 2)) s" if "bsd_ok t s" for t s
    using that unfolding fftimer_close_bsd_def kev_delete_def
    by (cases "bt_ptr t = FFTIMER_NULL"; simp)
      (intro conjI impI wp_intros, auto simp: bsd_ok_def heap_clean_def heap_step_def)
  show ?thesis
    unfolding fftimer_create_bsd_def
    apply (intro wp_intros)
     apply simp
    apply (rule wp_mono [OF bsd_ok_ops])
     apply (auto simp: bsd_ok_def registered_def reg_step_def heap_step_def split: if_splits)[1]
    apply (erule close)
    done
qed

definition real_closes :: "(call \<times> reply) list \<Rightarrow> (call \<times> reply) list" where
  "real_closes t = filter (\<lambda>x. fst x \<noteq> WinFile (CloseHandle 0)) t"

lemma real_closes_simps [simp]:
  "real_closes [] = []" "real_closes (x # t) = (if fst x = WinFile (CloseHandle 0) then real_closes t else x # real_closes t)"
  "real_closes (t @ u) = real_closes t @ real_closes u"
  by (simp_all add: real_closes_def)

lemma timer_close_win_clean:
  assumes wait: "\<forall>h w. rv (fst (K (WinIo (WaitForSingleObject h (-1))) w)) = 0"
    and "heap_after (trace s) = Some {#wt_ptr t#}"
    and "fds_after (real_closes (trace s)) = Some {#wt_htmr t, wt_evt t, wt_evt_result t, wt_thd t#}"
    and "wt_ptr t \<noteq> 0" "wt_htmr t \<noteq> 0" "wt_evt t \<noteq> 0" "wt_evt_result t \<noteq> 0" "wt_thd t \<noteq> 0"
  shows "wp (fftimer_close_win K t) (\<lambda>_ s'. heap_clean (trace s') \<and> fds_after (real_closes (trace s')) = Some {#}) s"
proof -
  have wait: "rv r = 0" if "K (WinIo (WaitForSingleObject h (-1))) w = (r, w')" for h w r w'
    using wait that by (metis fst_conv)
  show ?thesis
    unfolding fftimer_close_win_def fftimer_cmd_def ffthread_join_win_def heap_clean_def
    by (intro wp_intros) (use assms(2-) in \<open>auto simp: heap_step_def fd_step_def closed_def dest: wait\<close>)
qed

text \<open>
  \<open>fftimer_create\<close> on Windows leaves nothing behind when it fails at any point: the handles made
  so far are closed and the object is freed (\<open>CloseHandle\<close> is also called on the members that are
  still \<open>NULL\<close>, to no effect); on success the object, the timer, the two events and the thread are
  all there is, and closing releases them once the thread has ended.
\<close>

theorem timer_win_resources:
  assumes "\<forall>h w. rv (fst (K (WinIo (WaitForSingleObject h (-1))) w)) = 0"
  shows "wp (fftimer_create_win K func) (\<lambda>t s.
     (if wt_ptr t = 0 then heap_clean (trace s) \<and> fds_after (real_closes (trace s)) = Some {#}
      else heap_after (trace s) = Some {#wt_ptr t#} \<and>
        fds_after (real_closes (trace s)) = Some {#wt_htmr t, wt_evt t, wt_evt_result t, wt_thd t#} \<and>
        wp (fftimer_close_win K t) (\<lambda>_ s'. heap_clean (trace s') \<and> fds_after (real_closes (trace s')) = Some {#}) s))
     (start w e)"
proof -
  define Q where "Q t s \<longleftrightarrow> (if wt_ptr t = 0 then heap_clean (trace s) \<and> fds_after (real_closes (trace s)) = Some {#}
      else heap_after (trace s) = Some {#wt_ptr t#} \<and>
        fds_after (real_closes (trace s)) = Some {#wt_htmr t, wt_evt t, wt_evt_result t, wt_thd t#} \<and>
        wp (fftimer_close_win K t) (\<lambda>_ s'. heap_clean (trace s') \<and> fds_after (real_closes (trace s')) = Some {#}) s)"
    for t :: wtimer and s
  have ok: "Q t s" if "heap_after (trace s) = Some {#wt_ptr t#}" "wt_ptr t \<noteq> 0" "wt_htmr t \<noteq> 0" "wt_evt t \<noteq> 0"
      "fds_after (real_closes (trace s)) = Some {#wt_htmr t, wt_evt t, wt_evt_result t, wt_thd t#}"
      "wt_evt_result t \<noteq> 0" "wt_thd t \<noteq> 0" for t s
    unfolding Q_def using that timer_close_win_clean [OF assms, of s t] by simp
  have fail: "Q t s" if "wt_ptr t = 0" "heap_clean (trace s)" "fds_after (real_closes (trace s)) = Some {#}" for t s
    unfolding Q_def using that by simp
  show ?thesis
    unfolding Q_def [symmetric]
    unfolding fftimer_create_win_def fftimer_close_win_def ffthread_create_win_def Let_def
    by (intro wp_intros)
      (simp_all, (rule fail ok; simp add: heap_clean_def heap_step_def fd_step_def closed_def)+)
qed

theorem timer_win_resources_witness:
  "let x = run_state (fftimer_create_win signalK 0) (start 0 0) in
     wt_ptr (fst x) = 0 \<longrightarrow> heap_clean (trace (snd x))"
  using timer_win_resources [of signalK 0 0 0] by (auto simp: wp_def Let_def signalK_def split: if_splits)

end
