(* ===== verification/Timerqueue.thy ===== *)
theory Timerqueue
  imports Ffbase "HOL-Library.Tree"
begin

text \<open>
  The timer queue (\<open>FFOS/timerqueue.h\<close>): timers in a red-black tree keyed by a 32-bit
  millisecond clock that wraps every 49 days.

  Timer nodes are numbered; \<open>nodes\<close> is the memory they live in, \<open>tree\<close> the shape of the
  tree of nodes (a \<^typ>\<open>nat tree\<close>; the parent pointers of the C structure are implied by the
  shape), \<open>user\<close> the state of the code that owns the queue, which the timer functions work on.
  ffbase's red-black tree is a parameter: rebalancing after an insertion, removal and the
  leftmost node.  The insertion itself is the one of this file.
\<close>

record fftimerqueue_node =
  key :: u32
  interval_msec :: u32
  active :: bool
  func :: nat
  param :: int

record 'w fftimerqueue =
  tree :: "nat tree"
  nodes :: "nat \<Rightarrow> fftimerqueue_node"
  user :: 'w

record rbtree_ops =
  rbt_fixup :: "nat tree \<Rightarrow> nat \<Rightarrow> nat tree"
  ffrbt_rm :: "nat tree \<Rightarrow> nat \<Rightarrow> nat tree"
  ffrbt_node_min :: "nat tree \<Rightarrow> nat option"

text \<open>
  What ffbase documents: rebalancing keeps the order of the nodes, removal takes out the node and
  keeps the order of the others, the minimum is the leftmost node (the sentinel if there is none).
\<close>

definition rbt_ok :: "rbtree_ops \<Rightarrow> bool" where
  "rbt_ok R \<longleftrightarrow>
     (\<forall>t n. inorder (rbt_fixup R t n) = inorder t) \<and>
     (\<forall>t n. n \<in> set (inorder t) \<longrightarrow> inorder (ffrbt_rm R t n) = remove1 n (inorder t)) \<and>
     (\<forall>t. ffrbt_node_min R t = (case inorder t of [] \<Rightarrow> None | n # _ \<Rightarrow> Some n))"

fun tree_of :: "nat list \<Rightarrow> nat tree" where
  "tree_of [] = Leaf"
| "tree_of (x # xs) = Node Leaf x (tree_of xs)"

definition rbt_ref :: rbtree_ops where
  "rbt_ref = \<lparr>rbt_fixup = (\<lambda>t n. t), ffrbt_rm = (\<lambda>t n. tree_of (remove1 n (inorder t))),
     ffrbt_node_min = (\<lambda>t. case inorder t of [] \<Rightarrow> None | n # _ \<Rightarrow> Some n)\<rparr>"

lemma inorder_tree_of [simp]: "inorder (tree_of xs) = xs"
  by (induction xs) auto

lemma rbt_ref_ok [simp]: "rbt_ok rbt_ref"
  by (simp add: rbt_ok_def rbt_ref_def)

subsection \<open>Operations\<close>

text \<open>
  \<open>_fftmrq_node_insert\<close>: go down, left when the signed difference of the keys is negative,
  right otherwise, and hang the node at the free place.
\<close>

fun fftmrq_node_insert :: "(nat \<Rightarrow> u32) \<Rightarrow> nat \<Rightarrow> nat tree \<Rightarrow> nat tree" where
  "fftmrq_node_insert k node Leaf = Node Leaf node Leaf"
| "fftmrq_node_insert k node (Node l parent r) =
     (if sint (k node - k parent) < 0 then Node (fftmrq_node_insert k node l) parent r
      else Node l parent (fftmrq_node_insert k node r))"

definition fftimerqueue_init :: "'w fftimerqueue \<Rightarrow> 'w fftimerqueue" where
  "fftimerqueue_init tq = tq\<lparr>tree := Leaf\<rparr>"

text \<open>\<open>ffrbt_insert\<close> on a tree whose \<open>insert\<close> is the function above.\<close>

definition ffrbt_insert :: "rbtree_ops \<Rightarrow> 'w fftimerqueue \<Rightarrow> nat \<Rightarrow> nat tree" where
  "ffrbt_insert R tq n = rbt_fixup R (fftmrq_node_insert (\<lambda>m. key (nodes tq m)) n (tree tq)) n"

definition set_active :: "nat \<Rightarrow> bool \<Rightarrow> 'w fftimerqueue \<Rightarrow> 'w fftimerqueue" where
  "set_active n b tq = tq\<lparr>nodes := (nodes tq)(n := (nodes tq n)\<lparr>active := b\<rparr>)\<rparr>"

definition fftimerqueue_remove ::
  "rbtree_ops \<Rightarrow> nat \<Rightarrow> 'w fftimerqueue \<Rightarrow> int \<times> 'w fftimerqueue" where
  "fftimerqueue_remove R n tq =
     (if active (nodes tq n)
      then (1, set_active n False (tq\<lparr>tree := ffrbt_rm R (tree tq) n\<rparr>))
      else (0, tq))"

definition fftimerqueue_addnode :: "rbtree_ops \<Rightarrow> nat \<Rightarrow> 'w fftimerqueue \<Rightarrow> 'w fftimerqueue" where
  "fftimerqueue_addnode R n tq =
     (let tq1 = snd (fftimerqueue_remove R n tq)
      in set_active n True (tq1\<lparr>tree := ffrbt_insert R tq1 n\<rparr>))"

definition fftimerqueue_add ::
  "rbtree_ops \<Rightarrow> ffbase \<Rightarrow> nat \<Rightarrow> u32 \<Rightarrow> u32 \<Rightarrow> nat \<Rightarrow> int \<Rightarrow> 'w fftimerqueue \<Rightarrow> 'w fftimerqueue" where
  "fftimerqueue_add R B n now_msec interval f p tq =
     fftimerqueue_addnode R n
       (tq\<lparr>nodes := (nodes tq)(n := (nodes tq n)\<lparr>interval_msec := interval,
          key := now_msec + ffint_abs B interval, func := f, param := p\<rparr>)\<rparr>)"

text \<open>
  One turn of the loop of \<open>fftimerqueue_process\<close>: \<open>None\<close> when the loop breaks.  The timer's
  function is an argument of the model; it may do anything to the queue and to the user's state.
\<close>

type_synonym 'w callback = "nat \<Rightarrow> int \<Rightarrow> 'w fftimerqueue \<Rightarrow> 'w fftimerqueue"

definition tq_step ::
  "rbtree_ops \<Rightarrow> ffbase \<Rightarrow> 'w callback \<Rightarrow> u32 \<Rightarrow> 'w fftimerqueue \<Rightarrow> 'w fftimerqueue option" where
  "tq_step R B cb now_msec tq =
     (case ffrbt_node_min R (tree tq) of
        None \<Rightarrow> None
      | Some it \<Rightarrow>
          let k = key (nodes tq it) in
          if sint (k - now_msec) > 0 then None
          else
            let tq1 = set_active it False (tq\<lparr>tree := ffrbt_rm R (tree tq) it\<rparr>);
                nd = nodes tq1 it;
                tq2 = (if sint (interval_msec nd) > 0
                       then let tq' = tq1\<lparr>nodes := (nodes tq1)(it := nd\<lparr>key :=
                                          ffmax B (k + interval_msec nd) (now_msec + 1)\<rparr>)\<rparr>
                            in set_active it True (tq'\<lparr>tree := ffrbt_insert R tq' it\<rparr>)
                       else tq1)
            in Some (cb (func nd) (param nd) tq2))"

partial_function (option) tq_loop ::
  "rbtree_ops \<Rightarrow> ffbase \<Rightarrow> 'w callback \<Rightarrow> u32 \<Rightarrow> u32 \<Rightarrow> 'w fftimerqueue
    \<Rightarrow> (u32 \<times> 'w fftimerqueue) option" where
  "tq_loop R B cb now_msec n tq =
     (case tq_step R B cb now_msec tq of
        None \<Rightarrow> Some (n, tq)
      | Some tq' \<Rightarrow> tq_loop R B cb now_msec (n + 1) tq')"

text \<open>The result is \<open>None\<close> if the loop does not end.\<close>

definition fftimerqueue_process ::
  "rbtree_ops \<Rightarrow> ffbase \<Rightarrow> 'w callback \<Rightarrow> u32 \<Rightarrow> 'w fftimerqueue
    \<Rightarrow> (u32 \<times> 'w fftimerqueue) option" where
  "fftimerqueue_process R B cb now_msec tq = tq_loop R B cb now_msec 0 tq"

subsection \<open>The order of a wrapping clock\<close>

text \<open>
  Keys are compared by the sign of their difference, which is an order only inside a window of
  less than half the clock's range.  \<open>tq_win base tq\<close> says that all keys lie in the window
  that starts at \<open>base\<close> and that the tree is sorted by the distance from \<open>base\<close>.
\<close>

definition dist :: "u32 \<Rightarrow> u32 \<Rightarrow> nat" where
  "dist base k = unat (k - base)"

abbreviation half :: nat where "half \<equiv> 2147483648"

definition tq_keys :: "u32 \<Rightarrow> 'w fftimerqueue \<Rightarrow> nat \<Rightarrow> nat" where
  "tq_keys base tq m = dist base (key (nodes tq m))"

definition tq_list :: "'w fftimerqueue \<Rightarrow> nat list" where
  "tq_list tq = inorder (tree tq)"

definition tq_wf :: "'w fftimerqueue \<Rightarrow> bool" where
  "tq_wf tq \<longleftrightarrow> distinct (tq_list tq) \<and> (\<forall>n. active (nodes tq n) \<longleftrightarrow> n \<in> set (tq_list tq))"

definition tq_win :: "u32 \<Rightarrow> 'w fftimerqueue \<Rightarrow> bool" where
  "tq_win base tq \<longleftrightarrow>
     (\<forall>n\<in>set (tq_list tq). tq_keys base tq n < half) \<and> sorted (map (tq_keys base tq) (tq_list tq))"

lemma sint_minus_word:
  assumes "unat (x :: u32) < half" "unat (y :: u32) < half"
  shows "sint (x - y) = int (unat x) - int (unat y)"
proof -
  have u: "uint z = int (unat z)" for z :: u32 by simp
  have "uint x < int half" unfolding u of_nat_less_iff by (rule assms(1))
  moreover have "uint y < int half" unfolding u of_nat_less_iff by (rule assms(2))
  ultimately have b: "uint x < 2147483648" "uint y < 2147483648" "0 \<le> uint x" "0 \<le> uint y"
    by simp_all
  have "uint (x - y) = take_bit 32 (uint x - uint y)"
    by (simp add: uint_word_ariths take_bit_eq_mod)
  then have "sint (x - y) = signed_take_bit 31 (uint x - uint y)"
    by (simp add: sint_uint signed_take_bit_take_bit)
  moreover have "- 2147483648 \<le> uint x - uint y" "uint x - uint y < 2147483648"
    using b by linarith+
  then have "signed_take_bit 31 (uint x - uint y) = uint x - uint y"
    by (intro signed_take_bit_int_eq_self) simp_all
  ultimately show ?thesis by simp
qed

lemma sint_diff:
  assumes "dist base a < half" "dist base b < half"
  shows "sint (a - b) = int (dist base a) - int (dist base b)"
proof -
  have "a - b = (a - base) - (b - base)" by simp
  then show ?thesis using sint_minus_word [of "a - base" "b - base"] assms by (simp add: dist_def)
qed

subsection \<open>Insertion\<close>

text \<open>The place of a node in the order: after every node whose key is not greater.\<close>

definition insert_after :: "('a \<Rightarrow> nat) \<Rightarrow> 'a \<Rightarrow> 'a list \<Rightarrow> 'a list" where
  "insert_after d n xs = takeWhile (\<lambda>m. d m \<le> d n) xs @ n # dropWhile (\<lambda>m. d m \<le> d n) xs"

lemma insert_after_cons:
  "insert_after d n (x # xs) = (if d x \<le> d n then x # insert_after d n xs else n # x # xs)"
  by (simp add: insert_after_def)

lemma insert_after_nil [simp]: "insert_after d n [] = [n]"
  by (simp add: insert_after_def)

lemma set_insert_after [simp]: "set (insert_after d n xs) = insert n (set xs)"
  by (induction xs) (auto simp: insert_after_cons)

lemma distinct_insert_after: "distinct (insert_after d n xs) \<longleftrightarrow> distinct xs \<and> n \<notin> set xs"
  by (induction xs) (auto simp: insert_after_cons)

lemma sorted_insert_after: "sorted (map d xs) \<Longrightarrow> sorted (map d (insert_after d n xs))"
  by (induction xs) (auto simp: insert_after_cons)

lemma insert_after_append:
  "sorted (map d (xs @ p # ys)) \<Longrightarrow>
   insert_after d n (xs @ p # ys) =
     (if d n < d p then insert_after d n xs @ p # ys else xs @ p # insert_after d n ys)"
proof (induction xs)
  case Nil
  then show ?case by (simp add: insert_after_cons insert_after_def)
next
  case (Cons a xs)
  then have "d a \<le> d p" by simp
  with Cons show ?case by (auto simp: insert_after_cons)
qed

lemma filter_insert_after: "\<not> P n \<Longrightarrow> filter P (insert_after d n xs) = filter P xs"
  by (induction xs) (auto simp: insert_after_cons)

lemma inorder_node_insert:
  assumes "\<forall>m\<in>set (inorder t). dist base (k m) < half" "dist base (k n) < half"
    and "sorted (map (\<lambda>m. dist base (k m)) (inorder t))"
  shows "inorder (fftmrq_node_insert k n t) = insert_after (\<lambda>m. dist base (k m)) n (inorder t)"
  using assms
proof (induction t)
  case Leaf
  then show ?case by (simp add: insert_after_def)
next
  case (Node l p r)
  have "sint (k n - k p) < 0 \<longleftrightarrow> dist base (k n) < dist base (k p)"
    using sint_diff [of base "k n" "k p"] Node.prems by simp
  moreover have "sorted (map (\<lambda>m. dist base (k m)) (inorder l))"
    "sorted (map (\<lambda>m. dist base (k m)) (inorder r))"
    using Node.prems(3) by (simp_all add: sorted_append)
  ultimately show ?case
    using Node insert_after_append [of "\<lambda>m. dist base (k m)" "inorder l" p "inorder r" n] by simp
qed

subsection \<open>A queue of three timers\<close>

definition demo_node :: "u32 \<Rightarrow> u32 \<Rightarrow> bool \<Rightarrow> int \<Rightarrow> fftimerqueue_node" where
  "demo_node k i a p = \<lparr>key = k, interval_msec = i, active = a, func = 0, param = p\<rparr>"

definition demo_queue :: "int list fftimerqueue" where
  "demo_queue = \<lparr>tree = Node (Node Leaf 1 Leaf) 0 (Node Leaf 2 Leaf),
     nodes = (\<lambda>n. if n = 0 then demo_node 100 50 True 10 else if n = 1 then demo_node 90 0 True 11
              else if n = 2 then demo_node 200 0 True 12 else demo_node 0 0 False 0),
     user = []\<rparr>"

lemma demo_list: "tq_list demo_queue = [1, 0, 2]"
  by (simp add: demo_queue_def tq_list_def)

lemma demo_nodes:
  "nodes demo_queue 0 = demo_node 100 50 True 10" "nodes demo_queue (Suc 0) = demo_node 90 0 True 11"
  "nodes demo_queue 2 = demo_node 200 0 True 12" "user demo_queue = []"
  by (simp_all add: demo_queue_def)

lemma demo_inv: "tq_wf demo_queue" "tq_win 0 demo_queue"
  unfolding tq_wf_def tq_win_def demo_list
  by (auto simp: tq_keys_def dist_def demo_queue_def demo_node_def)

subsection \<open>The invariant is kept\<close>

lemma tq_upd [simp]:
  "tq_list (set_active n b tq) = tq_list tq"
  "tq_list (tq\<lparr>tree := t\<rparr>) = inorder t"
  "tq_list (tq\<lparr>nodes := ns\<rparr>) = tq_list tq"
  "tq_list (tq\<lparr>user := u\<rparr>) = tq_list tq"
  "tq_keys base (set_active n b tq) = tq_keys base tq"
  "tq_keys base (tq\<lparr>tree := t\<rparr>) = tq_keys base tq"
  "tq_keys base (tq\<lparr>user := u\<rparr>) = tq_keys base tq"
  "nodes (set_active n b tq) = (nodes tq)(n := (nodes tq n)\<lparr>active := b\<rparr>)"
  "tree (set_active n b tq) = tree tq"
  "user (set_active n b tq) = user tq"
  by (auto simp: tq_list_def set_active_def tq_keys_def)

lemma tq_list_rm:
  "rbt_ok R \<Longrightarrow> n \<in> set (tq_list tq) \<Longrightarrow> inorder (ffrbt_rm R (tree tq) n) = remove1 n (tq_list tq)"
  by (simp add: rbt_ok_def tq_list_def)

lemma tq_list_insert:
  assumes "rbt_ok R" "\<forall>m\<in>set (tq_list tq). tq_keys base tq m < half" "tq_keys base tq n < half"
    "sorted (map (tq_keys base tq) (tq_list tq))"
  shows "inorder (ffrbt_insert R tq n) = insert_after (tq_keys base tq) n (tq_list tq)"
  using assms inorder_node_insert [of "tree tq" base "\<lambda>m. key (nodes tq m)" n]
  by (simp add: ffrbt_insert_def rbt_ok_def tq_keys_def [abs_def] tq_list_def)

lemma remove_list:
  assumes "rbt_ok R" "tq_wf tq"
  shows "tq_list (snd (fftimerqueue_remove R n tq)) = remove1 n (tq_list tq)"
  using assms tq_list_rm [of R n tq]
  by (auto simp: fftimerqueue_remove_def tq_wf_def remove1_idem)

lemma remove_nodes:
  "nodes (snd (fftimerqueue_remove R n tq)) = (nodes tq)(n := (nodes tq n)\<lparr>active := False\<rparr>)"
  by (auto simp: fftimerqueue_remove_def)

lemma remove_wf:
  assumes "rbt_ok R" "tq_wf tq"
  shows "tq_wf (snd (fftimerqueue_remove R n tq))"
  using assms remove_list [OF assms, of n]
  by (auto simp: tq_wf_def remove_nodes)

lemma remove_keys [simp]: "tq_keys base (snd (fftimerqueue_remove R n tq)) = tq_keys base tq"
  by (auto simp: fftimerqueue_remove_def)

lemma tq_win_remove1:
  "tq_win base tq \<Longrightarrow> tq_list tq' = remove1 n (tq_list tq) \<Longrightarrow> tq_keys base tq' = tq_keys base tq
   \<Longrightarrow> tq_win base tq'"
  by (auto simp: tq_win_def sorted_map_remove1 dest: notin_set_remove1 set_remove1_subset [THEN subsetD])

lemma addnode_list:
  assumes "rbt_ok R" "tq_wf tq" "tq_keys base tq n < half"
    "\<forall>m\<in>set (remove1 n (tq_list tq)). tq_keys base tq m < half"
    "sorted (map (tq_keys base tq) (remove1 n (tq_list tq)))"
  shows "tq_list (fftimerqueue_addnode R n tq) =
    insert_after (tq_keys base tq) n (remove1 n (tq_list tq))"
  using assms tq_list_insert [of R "snd (fftimerqueue_remove R n tq)" base n]
  by (simp add: fftimerqueue_addnode_def Let_def remove_list)

lemma addnode_nodes:
  "nodes (fftimerqueue_addnode R n tq) = (nodes tq)(n := (nodes tq n)\<lparr>active := True\<rparr>)"
  by (simp add: fftimerqueue_addnode_def Let_def remove_nodes)

lemma add_keys:
  assumes "tq_wf tq" "tq' = tq\<lparr>nodes := (nodes tq)(n := x)\<rparr>"
  shows "\<forall>m\<in>set (remove1 n (tq_list tq)). tq_keys base tq' m = tq_keys base tq m"
  using assms by (auto simp: tq_wf_def tq_keys_def)

lemma win_restrict:
  assumes "tq_wf tq" "tq_win base tq" "\<forall>m\<in>set (remove1 n (tq_list tq)). d m = tq_keys base tq m"
  shows "\<forall>m\<in>set (remove1 n (tq_list tq)). d m < half"
    and "sorted (map d (remove1 n (tq_list tq)))"
proof -
  have "sorted (map (tq_keys base tq) (remove1 n (tq_list tq)))"
    using assms(2) by (simp add: tq_win_def sorted_map_remove1)
  then show "sorted (map d (remove1 n (tq_list tq)))"
    using assms(3) by (simp cong: map_cong)
  show "\<forall>m\<in>set (remove1 n (tq_list tq)). d m < half"
    using assms set_remove1_subset [of n "tq_list tq"] by (auto simp: tq_win_def)
qed

lemma win_after_insert:
  assumes "\<forall>m\<in>set xs. d m < half" "sorted (map d xs)" "d n < half"
    "tq_list tq = insert_after d n xs" "tq_keys base tq = d"
  shows "tq_win base tq"
  using assms by (auto simp: tq_win_def sorted_insert_after)

text \<open>
  Claim C20.  \<open>fftimerqueue_add\<close> keeps the queue well-formed (the active nodes are exactly the
  ones in the tree, each once) and sorted by expiry, as long as all expiry times lie within one
  window of less than \<open>2^31\<close> ms, which may contain the wrap of the clock; the node ends up
  behind all timers that expire no later than it, and no other node changes.  A node that is
  already queued is moved.
\<close>

theorem timerqueue_add_sorted:
  fixes tq :: "'w fftimerqueue" and n f :: nat and p :: int
  assumes "rbt_ok R" "ffbase_ok B" "tq_wf tq" "tq_win base tq"
    and "dist base (now + ffint_abs B interval) < half"
  defines "tq' \<equiv> fftimerqueue_add R B n now interval f p tq"
  shows "tq_wf tq' \<and> tq_win base tq' \<and>
    tq_list tq' = insert_after (tq_keys base tq') n (remove1 n (tq_list tq)) \<and>
    nodes tq' n = \<lparr>key = now + ffint_abs B interval, interval_msec = interval, active = True,
      func = f, param = p\<rparr> \<and>
    (\<forall>m. m \<noteq> n \<longrightarrow> nodes tq' m = nodes tq m)"
proof -
  define x where "x = (nodes tq n)\<lparr>interval_msec := interval, key := now + ffint_abs B interval,
    func := f, param := p\<rparr>"
  define tq1 where "tq1 = tq\<lparr>nodes := (nodes tq)(n := x)\<rparr>"
  have t: "tq' = fftimerqueue_addnode R n tq1"
    by (simp add: tq'_def fftimerqueue_add_def tq1_def x_def)
  have wf: "tq_wf tq1" using assms(3) by (simp add: tq_wf_def tq1_def x_def)
  have l1: "tq_list tq1 = tq_list tq" by (simp add: tq1_def)
  have kn: "tq_keys base tq1 n < half" using assms(5) by (simp add: tq_keys_def tq1_def x_def)
  note w = win_restrict [OF assms(3,4) add_keys [OF assms(3) tq1_def]]
  have nd: "nodes tq' = (nodes tq)(n := x\<lparr>active := True\<rparr>)" by (simp add: t addnode_nodes tq1_def)
  then have ks: "tq_keys base tq' = tq_keys base tq1" by (auto simp: tq_keys_def tq1_def)
  have l: "tq_list tq' = insert_after (tq_keys base tq') n (remove1 n (tq_list tq))"
    using addnode_list [OF assms(1) wf kn] w l1 by (simp add: t [symmetric] ks)
  have "tq_wf tq'" using assms(3) nd l by (auto simp: tq_wf_def distinct_insert_after)
  moreover have "tq_win base tq'"
    using win_after_insert [OF _ _ _ l refl] w kn by (simp add: ks)
  ultimately show ?thesis using l nd by (simp add: x_def)
qed

theorem timerqueue_add_witness:
  "tq_list (fftimerqueue_add rbt_ref ffbase_ref 1 60 50 3 33 demo_queue) = [0, 1, 2] \<and>
   key (nodes (fftimerqueue_add rbt_ref ffbase_ref 1 60 50 3 33 demo_queue) 1) = 110"
proof -
  have k: "60 + ffint_abs ffbase_ref 50 = (110 :: u32)" by (simp add: ffbase_ref_def)
  let ?t = "fftimerqueue_add rbt_ref ffbase_ref 1 60 50 3 33 demo_queue"
  have d: "dist 0 (60 + ffint_abs ffbase_ref 50) < half" unfolding k by (simp add: dist_def)
  note a = timerqueue_add_sorted [OF rbt_ref_ok ffbase_ref_ok demo_inv d, of 1 3 33]
  have "tq_keys 0 ?t 1 = 110" using a by (simp add: tq_keys_def k dist_def)
  moreover have "tq_keys 0 ?t 0 = 100" "tq_keys 0 ?t 2 = 200"
    using a by (simp_all add: tq_keys_def dist_def demo_nodes demo_node_def)
  ultimately show ?thesis
    using a by (simp add: demo_list insert_after_cons k)
qed

text \<open>
  \<open>fftimerqueue_remove\<close> takes an active node out of the queue, reports whether
  it did, and keeps the order and all other nodes.\<close>

theorem timerqueue_remove_ok:
  assumes "rbt_ok R" "tq_wf tq" "tq_win base tq"
  shows "tq_wf (snd (fftimerqueue_remove R n tq)) \<and> tq_win base (snd (fftimerqueue_remove R n tq)) \<and>
    fst (fftimerqueue_remove R n tq) = c_bool (n \<in> set (tq_list tq)) \<and>
    tq_list (snd (fftimerqueue_remove R n tq)) = remove1 n (tq_list tq)"
  using assms remove_wf [OF assms(1,2), of n] remove_list [OF assms(1,2), of n]
    tq_win_remove1 [OF assms(3) remove_list [OF assms(1,2)] remove_keys]
  by (auto simp: fftimerqueue_remove_def tq_wf_def)

theorem timerqueue_remove_witness:
  "fftimerqueue_remove rbt_ref 0 demo_queue = (1, snd (fftimerqueue_remove rbt_ref 0 demo_queue)) \<and>
   tq_list (snd (fftimerqueue_remove rbt_ref 0 demo_queue)) = [1, 2]"
  using timerqueue_remove_ok [OF rbt_ref_ok demo_inv, of 0]
  by (simp add: demo_list prod_eq_iff)

subsection \<open>Processing\<close>

definition periodic :: "'w fftimerqueue \<Rightarrow> nat \<Rightarrow> bool" where
  "periodic tq m \<longleftrightarrow> sint (interval_msec (nodes tq m)) > 0"

text \<open>The nodes that have expired at \<open>now\<close>, in the order of the queue.\<close>

definition expired :: "u32 \<Rightarrow> u32 \<Rightarrow> 'w fftimerqueue \<Rightarrow> nat list" where
  "expired base now tq = filter (\<lambda>m. tq_keys base tq m \<le> dist base now) (tq_list tq)"

text \<open>The next expiry of a periodic timer, computed without wrap-around.\<close>

definition next_key :: "u32 \<Rightarrow> fftimerqueue_node \<Rightarrow> nat" where
  "next_key now nd = max (unat (key nd) + unat (interval_msec nd)) (unat now + 1)"

definition fired_node :: "u32 \<Rightarrow> fftimerqueue_node \<Rightarrow> fftimerqueue_node" where
  "fired_node now nd =
     (if sint (interval_msec nd) > 0 then nd\<lparr>key := of_nat (next_key now nd), active := True\<rparr>
      else nd\<lparr>active := False\<rparr>)"

text \<open>
  What processing must do when the timer functions leave the queue alone: every expired timer
  fires once, in order; a periodic one is queued again, a one-shot one is gone.
\<close>

definition fire_ok :: "u32 \<Rightarrow> u32 \<Rightarrow> fftimerqueue_node \<Rightarrow> bool" where
  "fire_ok base now nd \<longleftrightarrow> sint (interval_msec nd) > 0 \<longrightarrow>
     next_key now nd < 2 ^ 32 \<and>
     dist base now < dist base (of_nat (next_key now nd)) \<and> dist base (of_nat (next_key now nd)) < half"

definition run_func :: "(nat \<Rightarrow> int \<Rightarrow> 'w \<Rightarrow> 'w) \<Rightarrow> 'w callback" where
  "run_func g f p tq = tq\<lparr>user := g f p (user tq)\<rparr>"

lemma ffmax_next_key:
  assumes "ffbase_ok B" "next_key now nd < 2 ^ 32"
  shows "ffmax B (key nd + interval_msec nd) (now + 1) = of_nat (next_key now nd)"
proof -
  have u: "unat (key nd + interval_msec nd) = unat (key nd) + unat (interval_msec nd)"
    "unat (now + 1) = unat now + 1"
    using assms(2) by (simp_all add: next_key_def unat_word_ariths)
  have "unat (ffmax B (key nd + interval_msec nd) (now + 1)) = next_key now nd"
    by (simp add: ffbase_okD(8) [OF assms(1)] max_def word_le_nat_alt u next_key_def)
  then have "of_nat (unat (ffmax B (key nd + interval_msec nd) (now + 1))) =
      (of_nat (next_key now nd) :: u32)" by (rule arg_cong)
  then show ?thesis by simp
qed

lemma step_none:
  assumes "rbt_ok R" "tq_win base tq" "dist base now < half" "expired base now tq = []"
  shows "tq_step R B cb now tq = None"
proof (cases "tq_list tq")
  case Nil
  then show ?thesis using assms(1) by (simp add: tq_step_def rbt_ok_def tq_list_def)
next
  case (Cons x xs)
  then have "\<not> tq_keys base tq x \<le> dist base now" "tq_keys base tq x < half"
    using assms by (auto simp: expired_def tq_win_def split: if_splits)
  then have "sint (key (nodes tq x) - now) > 0"
    using sint_diff [of base "key (nodes tq x)" now] assms(3) by (simp add: tq_keys_def)
  then show ?thesis using Cons assms(1) by (simp add: tq_step_def rbt_ok_def tq_list_def)
qed

lemma expired_head:
  assumes "tq_win base tq" "expired base now tq = x # xs"
  obtains ys where "tq_list tq = x # ys" "xs = filter (\<lambda>m. tq_keys base tq m \<le> dist base now) ys"
    "tq_keys base tq x \<le> dist base now"
proof (cases "tq_list tq")
  case Nil
  then show ?thesis using assms(2) by (simp add: expired_def)
next
  case (Cons y ys)
  have x: "x \<in> set (expired base now tq)" by (simp add: assms(2))
  then have "tq_keys base tq x \<le> dist base now" "x \<in> set (y # ys)"
    unfolding expired_def Cons by (auto split: if_splits)
  moreover have "\<forall>z\<in>set (y # ys). tq_keys base tq y \<le> tq_keys base tq z"
    using assms(1) Cons by (auto simp: tq_win_def)
  ultimately have "tq_keys base tq y \<le> dist base now" by force
  then have "x = y" "xs = filter (\<lambda>m. tq_keys base tq m \<le> dist base now) ys"
    using assms(2) Cons by (simp_all add: expired_def)
  then show ?thesis using that Cons \<open>tq_keys base tq x \<le> dist base now\<close> by blast
qed

text \<open>The state after one turn of the loop whose first timer \<open>x\<close> has expired.\<close>

definition after_fire :: "rbtree_ops \<Rightarrow> u32 \<Rightarrow> nat \<Rightarrow> 'w fftimerqueue \<Rightarrow> 'w fftimerqueue" where
  "after_fire R now x tq =
     (let tq1 = tq\<lparr>tree := ffrbt_rm R (tree tq) x,
                   nodes := (nodes tq)(x := fired_node now (nodes tq x))\<rparr>
      in if periodic tq x then tq1\<lparr>tree := ffrbt_insert R tq1 x\<rparr> else tq1)"

lemma insert_cong: "tree a = tree b \<Longrightarrow> (\<And>m. key (nodes a m) = key (nodes b m))
   \<Longrightarrow> ffrbt_insert R a n = ffrbt_insert R b n"
  by (simp add: ffrbt_insert_def)

lemma step_after_fire:
  assumes "rbt_ok R" "ffbase_ok B" "tq_list tq = x # ys" "dist base now < half"
    "tq_keys base tq x \<le> dist base now" "fire_ok base now (nodes tq x)"
  shows "tq_step R B (run_func g) now tq =
    Some (run_func g (func (nodes tq x)) (param (nodes tq x)) (after_fire R now x tq))"
proof -
  have m: "ffrbt_node_min R (tree tq) = Some x"
    using assms(1,3) by (simp add: rbt_ok_def tq_list_def)
  have "sint (key (nodes tq x) - now) \<le> 0"
    using sint_diff [of base "key (nodes tq x)" now] assms(4,5) by (simp add: tq_keys_def)
  moreover have "periodic tq x \<Longrightarrow> ffmax B (key (nodes tq x) + interval_msec (nodes tq x)) (now + 1) =
      of_nat (next_key now (nodes tq x))"
    using ffmax_next_key [OF assms(2)] assms(6) by (simp add: fire_ok_def periodic_def)
  ultimately show ?thesis
    using m by (auto simp: tq_step_def after_fire_def Let_def fired_node_def set_active_def
        periodic_def run_func_def intro!: fftimerqueue.equality insert_cong)
qed

lemma after_fire_props:
  assumes R: "rbt_ok R" and wf: "tq_wf tq" and win: "tq_win base tq"
    and l: "tq_list tq = x # ys" and ok: "fire_ok base now (nodes tq x)"
  defines "tq' \<equiv> after_fire R now x tq"
  shows "nodes tq' = (nodes tq)(x := fired_node now (nodes tq x))"
    and "tq_list tq' = (if periodic tq x then insert_after (tq_keys base tq') x ys else ys)"
    and "tq_wf tq' \<and> tq_win base tq'"
proof -
  define tq1 where "tq1 = tq\<lparr>tree := ffrbt_rm R (tree tq) x,
    nodes := (nodes tq)(x := fired_node now (nodes tq x))\<rparr>"
  have t: "tq' = (if periodic tq x then tq1\<lparr>tree := ffrbt_insert R tq1 x\<rparr> else tq1)"
    by (simp add: tq'_def after_fire_def tq1_def Let_def)
  show nd: "nodes tq' = (nodes tq)(x := fired_node now (nodes tq x))" by (simp add: t tq1_def)
  have x: "x \<notin> set ys" "distinct ys" using wf l by (simp_all add: tq_wf_def)
  have "inorder (ffrbt_rm R (tree tq) x) = ys" using tq_list_rm [OF R, of x tq] l by simp
  then have l1: "tq_list tq1 = ys" by (simp add: tq1_def tq_list_def)
  have ks: "tq_keys base tq' = tq_keys base tq1" by (simp add: t)
  have k1: "\<forall>m\<in>set ys. tq_keys base tq1 m = tq_keys base tq m"
    using x by (auto simp: tq_keys_def tq1_def)
  have w: "\<forall>m\<in>set ys. tq_keys base tq1 m < half" "sorted (map (tq_keys base tq1) ys)"
    using win l k1 by (auto simp: tq_win_def cong: map_cong)
  have kx: "periodic tq x \<Longrightarrow> tq_keys base tq1 x < half"
    using ok by (simp add: tq_keys_def tq1_def fired_node_def fire_ok_def periodic_def)
  show li: "tq_list tq' = (if periodic tq x then insert_after (tq_keys base tq') x ys else ys)"
    using tq_list_insert [OF R, of tq1 base x] w l1 kx by (simp add: t ks)
  have a: "active (fired_node now (nodes tq x)) \<longleftrightarrow> periodic tq x"
    by (simp add: fired_node_def periodic_def)
  have "tq_wf tq'" using wf x l li nd a by (auto simp: tq_wf_def distinct_insert_after)
  moreover have "tq_win base tq'"
  proof (cases "periodic tq x")
    case True
    then have "tq_list tq' = insert_after (tq_keys base tq1) x ys" using li ks by simp
    from win_after_insert [OF w kx [OF True] this ks] show ?thesis .
  next
    case False
    then show ?thesis using w li by (simp add: tq_win_def ks)
  qed
  ultimately show "tq_wf tq' \<and> tq_win base tq'" ..
qed

text \<open>The state after processing: the expired nodes have fired, the functions have run in order.\<close>

definition fired_nodes :: "u32 \<Rightarrow> nat list \<Rightarrow> (nat \<Rightarrow> fftimerqueue_node) \<Rightarrow> nat \<Rightarrow> fftimerqueue_node" where
  "fired_nodes now xs ns = (\<lambda>m. if m \<in> set xs then fired_node now (ns m) else ns m)"

definition run_all :: "(nat \<Rightarrow> int \<Rightarrow> 'w \<Rightarrow> 'w) \<Rightarrow> (nat \<Rightarrow> fftimerqueue_node) \<Rightarrow> nat list \<Rightarrow> 'w \<Rightarrow> 'w" where
  "run_all g ns xs u = foldl (\<lambda>u m. g (func (ns m)) (param (ns m)) u) u xs"

lemma run_all_cong:
  "\<forall>m\<in>set xs. ns m = ns' m \<Longrightarrow> run_all g ns xs v = run_all g ns' xs v"
  by (induction xs arbitrary: v) (simp_all add: run_all_def)

lemma expired_after_fire:
  assumes "rbt_ok R" "tq_wf tq" "tq_win base tq" "tq_list tq = x # ys"
    and "fire_ok base now (nodes tq x)"
  shows "expired base now (after_fire R now x tq) =
    filter (\<lambda>m. tq_keys base tq m \<le> dist base now) ys"
proof -
  let ?t = "after_fire R now x tq"
  note a = after_fire_props [OF assms]
  have x: "x \<notin> set ys" using assms(2,4) by (simp add: tq_wf_def)
  have k: "m \<in> set ys \<Longrightarrow> tq_keys base ?t m = tq_keys base tq m" for m
    using x by (auto simp: tq_keys_def a(1))
  have "periodic tq x \<Longrightarrow> \<not> tq_keys base ?t x \<le> dist base now"
    using assms(5) by (simp add: tq_keys_def a(1) fired_node_def periodic_def fire_ok_def)
  then have "expired base now ?t = filter (\<lambda>m. tq_keys base ?t m \<le> dist base now) ys"
    by (simp add: expired_def a(2) filter_insert_after)
  then show ?thesis using k by (simp cong: filter_cong)
qed

text \<open>One round fires the first expired timer; the others stay expired.\<close>

lemma round_fires:
  assumes "rbt_ok R" "ffbase_ok B" "dist base now < half" "tq_wf tq" "tq_win base tq"
    and x: "expired base now tq = x # xs" and ok: "fire_ok base now (nodes tq x)"
  obtains u where "tq_step R B (run_func g) now tq = Some u" "tq_wf u" "tq_win base u" "expired base now u = xs" "x \<notin> set xs"
    "nodes u = (nodes tq)(x := fired_node now (nodes tq x))"
    "user u = g (func (nodes tq x)) (param (nodes tq x)) (user tq)"
proof -
  obtain ys where y: "tq_list tq = x # ys" and xs: "xs = filter (\<lambda>m. tq_keys base tq m \<le> dist base now) ys"
    and kx: "tq_keys base tq x \<le> dist base now"
    using expired_head [OF assms(5) x] by blast
  let ?t = "after_fire R now x tq"
  let ?u = "run_func g (func (nodes tq x)) (param (nodes tq x)) ?t"
  note a = after_fire_props [OF assms(1,4,5) y ok]
  have u: "nodes ?u = nodes ?t" "tq_list ?u = tq_list ?t" "tq_keys base ?u = tq_keys base ?t"
    by (simp_all add: run_func_def)
  show thesis
  proof (rule that [of ?u])
    show "tq_step R B (run_func g) now tq = Some ?u" by (rule step_after_fire [OF assms(1,2) y assms(3) kx ok])
    show "tq_wf ?u" "tq_win base ?u" using a(3) by (simp_all add: tq_wf_def tq_win_def u)
    show "expired base now ?u = xs" using expired_after_fire [OF assms(1,4,5) y ok] by (simp add: expired_def u xs)
    show "x \<notin> set xs" using assms(4) y xs by (simp add: tq_wf_def)
    show "user ?u = g (func (nodes tq x)) (param (nodes tq x)) (user tq)" by (simp add: run_func_def after_fire_def Let_def)
  qed (simp_all add: u a(1))
qed

lemma loop_fires:
  assumes "rbt_ok R" "ffbase_ok B" "dist base now < half"
    and "expired base now tq = xs" "tq_wf tq" "tq_win base tq"
    and "\<forall>m\<in>set xs. fire_ok base now (nodes tq m)"
  shows "\<exists>tq'. tq_loop R B (run_func g) now n tq = Some (n + of_nat (length xs), tq') \<and>
    tq_wf tq' \<and> tq_win base tq' \<and> expired base now tq' = [] \<and>
    nodes tq' = fired_nodes now xs (nodes tq) \<and> user tq' = run_all g (nodes tq) xs (user tq)"
  using assms(4-)
proof (induction xs arbitrary: tq n)
  case Nil
  then have "tq_step R B (run_func g) now tq = None" using step_none assms by blast
  then have "tq_loop R B (run_func g) now n tq = Some (n, tq)" by (simp add: tq_loop.simps)
  then show ?case using Nil by (simp add: fired_nodes_def run_all_def)
next
  case (Cons x xs)
  obtain u where u: "tq_step R B (run_func g) now tq = Some u" "tq_wf u" "tq_win base u" "expired base now u = xs" "x \<notin> set xs"
    "nodes u = (nodes tq)(x := fired_node now (nodes tq x))"
    "user u = g (func (nodes tq x)) (param (nodes tq x)) (user tq)"
    by (rule round_fires [OF assms(1-3) Cons.prems(2,3,1), of g]) (use Cons.prems(4) in auto)
  have "\<forall>m\<in>set xs. fire_ok base now (nodes u m)" using Cons.prems(4) u(5) by (auto simp: u(6))
  with Cons.IH [OF u(4,2,3)] obtain tq' where r: "tq_loop R B (run_func g) now (n + 1) u = Some (n + 1 + of_nat (length xs), tq')"
    "tq_wf tq'" "tq_win base tq'" "expired base now tq' = []"
    "nodes tq' = fired_nodes now xs (nodes u)" "user tq' = run_all g (nodes u) xs (user u)"
    by blast
  have "nodes tq' = fired_nodes now (x # xs) (nodes tq)"
    using r(5) u(5) by (auto simp: fired_nodes_def u(6))
  moreover have "run_all g (nodes u) xs v = run_all g (nodes tq) xs v" for v
    using u(5) by (intro run_all_cong) (auto simp: u(6))
  then have "user tq' = run_all g (nodes tq) (x # xs) (user tq)"
    using r(6) u(7) by (simp add: run_all_def)
  moreover have "tq_loop R B (run_func g) now n tq = Some (n + of_nat (length (x # xs)), tq')"
    using u(1) r(1) by (simp add: tq_loop.simps [of R B "run_func g" now n tq] add.assoc)
  ultimately show ?case using r(2,3,4) by blast
qed

text \<open>
  Claim C2.  \<open>fftimerqueue_process\<close> ends, and when the timer functions leave the queue alone
  it calls exactly the functions of the timers that have expired, each once, in the order of
  their expiry, and returns their number.  One-shot timers are inactive afterwards, periodic ones
  are queued again with a later expiry, the others are untouched, no expired timer is left, and
  the queue is well-formed and sorted.  This needs the next expiry of every periodic timer that
  fires to be computed without wrap-around of the 32-bit clock (\<open>fire_ok\<close>).
\<close>

theorem timerqueue_process_fires_expired:
  fixes tq :: "'w fftimerqueue" and g :: "nat \<Rightarrow> int \<Rightarrow> 'w \<Rightarrow> 'w"
  assumes "rbt_ok R" "ffbase_ok B" "tq_wf tq" "tq_win base tq" "dist base now < half"
    and "\<forall>m\<in>set (expired base now tq). fire_ok base now (nodes tq m)"
  shows "\<exists>tq'. fftimerqueue_process R B (run_func g) now tq =
      Some (of_nat (length (expired base now tq)), tq') \<and>
    nodes tq' = fired_nodes now (expired base now tq) (nodes tq) \<and>
    user tq' = run_all g (nodes tq) (expired base now tq) (user tq) \<and>
    tq_wf tq' \<and> tq_win base tq' \<and> expired base now tq' = []"
  using loop_fires [OF assms(1,2,5) refl assms(3,4,6), of g 0]
  by (simp add: fftimerqueue_process_def) metis

lemma demo_expired: "expired 0 120 demo_queue = [1, 0]"
  by (simp add: expired_def demo_list tq_keys_def dist_def) (simp add: demo_queue_def demo_node_def)

theorem timerqueue_process_witness:
  "\<exists>tq'. fftimerqueue_process rbt_ref ffbase_ref (run_func (\<lambda>f p log. log @ [p])) 120 demo_queue =
     Some (2, tq') \<and> user tq' = [11, 10] \<and> \<not> active (nodes tq' 1) \<and> key (nodes tq' 0) = 150"
proof -
  have ok: "\<forall>m\<in>set (expired 0 120 demo_queue). fire_ok 0 120 (nodes demo_queue m)"
    by (simp add: demo_expired fire_ok_def next_key_def dist_def demo_queue_def demo_node_def)
  have now: "dist 0 120 < half" by (simp add: dist_def)
  show ?thesis
    using timerqueue_process_fires_expired [OF rbt_ref_ok ffbase_ref_ok demo_inv now ok,
        of "\<lambda>f p log. log @ [p]"]
    by (auto simp: demo_expired run_all_def fired_nodes_def fired_node_def next_key_def
        demo_nodes demo_node_def)
qed



end
