(* ===== verification/Pipe.thy ===== *)
theory Pipe
  imports Kqueue Wstring
begin

text \<open>
  Unnamed and named pipes (\<open>FFOS/pipe.h\<close>).  On UNIX a named pipe is a UNIX-domain stream
  socket.
\<close>

abbreviation (input) FFPIPE_NULL :: int where "FFPIPE_NULL \<equiv> -1"

definition FFPIPE_NONBLOCK :: u32 where [flag_simps]: "FFPIPE_NONBLOCK = 0x800"
definition FFPIPE_ASYNC :: u32 where [flag_simps]: "FFPIPE_ASYNC = 2"

subsection \<open>UNIX\<close>

definition ffpipe_nonblock :: "'w kernel \<Rightarrow> int \<Rightarrow> int \<Rightarrow> ('w, int) prog" where
  "ffpipe_nonblock K p nonblock = sysi K (FileC (Ioctl_fionbio p nonblock))"

text \<open>\<open>a || b\<close> over two calls: the second is made only if the first returned zero.\<close>

definition nonblock_both :: "'w kernel \<Rightarrow> (int \<Rightarrow> ('w, int) prog) \<Rightarrow> int \<Rightarrow> int \<Rightarrow> ('w, bool) prog" where
  "nonblock_both K set_nb rd wr = do {
     a \<leftarrow> set_nb rd;
     if a \<noteq> 0 then State_Monad.return True
     else do { b \<leftarrow> set_nb wr; State_Monad.return (b \<noteq> 0) }
   }"

text \<open>The result is the return value, \<open>*rd\<close> and \<open>*wr\<close>.\<close>

definition ffpipe_create2 :: "'w kernel \<Rightarrow> os \<Rightarrow> u32 \<Rightarrow> ('w, int \<times> int \<times> int) prog" where
  "ffpipe_create2 K os flags =
     (if os = Apple then do {
        x \<leftarrow> sys K (Sock Pipe);
        if rv x \<noteq> 0 then State_Monad.return (-1, -1, -1)
        else do {
          let rd = out_int x 0;
          let wr = out_int x 1;
          bad \<leftarrow> (if tst flags FFPIPE_NONBLOCK then nonblock_both K (\<lambda>p. ffpipe_nonblock K p 1) rd wr
                 else State_Monad.return False);
          if bad then do {
            sysi K (FileC (Close rd));
            sysi K (FileC (Close wr));
            State_Monad.return (-1, rd, wr)
          }
          else State_Monad.return (0, rd, wr)
        }
      }
      else do {
        x \<leftarrow> sys K (Sock (Pipe2 flags));
        if rv x \<noteq> 0 then State_Monad.return (-1, -1, -1)
        else State_Monad.return (0, out_int x 0, out_int x 1)
      })"

definition ffpipe_create :: "'w kernel \<Rightarrow> os \<Rightarrow> ('w, int \<times> int \<times> int) prog" where
  "ffpipe_create K os = ffpipe_create2 K os 0"

text \<open>
  \<open>struct sockaddr_un\<close>: a 16-bit family on Linux, length and family bytes on BSD and macOS,
  then the path, zero-terminated and zero-padded to the size of \<open>sun_path\<close>.
\<close>

definition sun_path_size :: "os \<Rightarrow> nat" where
  "sun_path_size os = (if ff_linux os then 108 else 104)"

definition sockaddr_un :: "os \<Rightarrow> string \<Rightarrow> bytes" where
  "sockaddr_un os name =
     (if ff_linux os then [1, 0] else [of_nat (2 + sun_path_size os), 1]) @
     map of_char name @ replicate (sun_path_size os - length name) 0"

definition SOCK_STREAM :: u32 where [flag_simps]: "SOCK_STREAM = 1"

abbreviation (input) AF_UNIX :: int where "AF_UNIX \<equiv> 1"

definition ffpipe_create_named :: "'w kernel \<Rightarrow> os \<Rightarrow> string \<Rightarrow> u32 \<Rightarrow> ('w, int) prog" where
  "ffpipe_create_named K os name flags =
     (if length name + 1 > sun_path_size os
      then do { fferr_set EINVAL; State_Monad.return FFPIPE_NULL }
      else do {
        p \<leftarrow> sysi K (Sock (Socket AF_UNIX SOCK_STREAM 0));
        if p = FFPIPE_NULL then State_Monad.return FFPIPE_NULL
        else do {
          let err = do { sysi K (FileC (Close p)); State_Monad.return FFPIPE_NULL };
          nb \<leftarrow> (if tst flags (FFPIPE_NONBLOCK OR FFPIPE_ASYNC) then ffpipe_nonblock K p 1
                else State_Monad.return 0);
          if nb \<noteq> 0 then err
          else do {
            b \<leftarrow> sysi K (Sock (Bind p (sockaddr_un os name)));
            if b \<noteq> 0 then err
            else do {
              l \<leftarrow> sysi K (Sock (Listen p 0));
              if l \<noteq> 0 then err else State_Monad.return p
            }
          }
        }
      })"

definition ffpipe_close :: "'w kernel \<Rightarrow> int \<Rightarrow> ('w, unit) prog" where
  "ffpipe_close K p = do { sysi K (FileC (Close p)); State_Monad.return () }"

definition ffpipe_peer_close :: "'w kernel \<Rightarrow> int \<Rightarrow> ('w, unit) prog" where
  "ffpipe_peer_close K p = do { sysi K (FileC (Close p)); State_Monad.return () }"

definition ffpipe_connect :: "'w kernel \<Rightarrow> os \<Rightarrow> string \<Rightarrow> ('w, int) prog" where
  "ffpipe_connect K os name =
     (if length name + 1 > sun_path_size os
      then do { fferr_set EINVAL; State_Monad.return FFPIPE_NULL }
      else do {
        p \<leftarrow> sysi K (Sock (Socket AF_UNIX SOCK_STREAM 0));
        if p = -1 then State_Monad.return FFPIPE_NULL
        else do {
          c \<leftarrow> sysi K (Sock (Connect p (sockaddr_un os name)));
          if c \<noteq> 0 then do { sysi K (FileC (Close p)); State_Monad.return FFPIPE_NULL }
          else State_Monad.return p
        }
      })"

definition ffpipe_accept :: "'w kernel \<Rightarrow> int \<Rightarrow> ('w, int) prog" where
  "ffpipe_accept K listen_pipe = sysi K (Sock (Accept_noaddr listen_pipe))"

definition ffpipe_accept_async :: "'w kernel \<Rightarrow> int \<Rightarrow> ('w, int) prog" where
  "ffpipe_accept_async K listen_pipe = do {
     c \<leftarrow> sysi K (Sock (Accept_noaddr listen_pipe));
     e \<leftarrow> fferr_last;
     if c = -1 then
       if e = EAGAIN then do { fferr_set EINPROGRESS; State_Monad.return (-1) }
       else State_Monad.return (-1)
     else State_Monad.return c
   }"

definition ffpipe_read :: "'w kernel \<Rightarrow> int \<Rightarrow> nat \<Rightarrow> ('w, int \<times> bytes) prog" where
  "ffpipe_read K p n = do {
     r \<leftarrow> sys K (FileC (Read p n));
     State_Monad.return (rv r, out_bytes r)
   }"

definition ffpipe_write :: "'w kernel \<Rightarrow> int \<Rightarrow> bytes \<Rightarrow> ('w, int) prog" where
  "ffpipe_write K p buf = sysi K (FileC (Write p buf))"

subsection \<open>Windows\<close>

definition FFPIPE_NONBLOCK_WIN :: u32 where [flag_simps]: "FFPIPE_NONBLOCK_WIN = 1"
definition PIPE_NOWAIT :: u32 where [flag_simps]: "PIPE_NOWAIT = 1"

definition ffpipe_create_win :: "'w kernel \<Rightarrow> ('w, int \<times> int \<times> int) prog" where
  "ffpipe_create_win K = do {
     x \<leftarrow> sys K (WinIo CreatePipe);
     State_Monad.return (c_bool (rv x = 0), out_int x 0, out_int x 1)
   }"

definition ffpipe_nonblock_win :: "'w kernel \<Rightarrow> int \<Rightarrow> int \<Rightarrow> ('w, int) prog" where
  "ffpipe_nonblock_win K p nonblock = do {
     r \<leftarrow> sysi K (WinIo (SetNamedPipeHandleState p (if nonblock \<noteq> 0 then PIPE_NOWAIT else 0)));
     State_Monad.return (c_bool (r = 0))
   }"

definition ffpipe_create2_win :: "'w kernel \<Rightarrow> u32 \<Rightarrow> ('w, int \<times> int \<times> int) prog" where
  "ffpipe_create2_win K flags = do {
     x \<leftarrow> ffpipe_create_win K;
     let rd = fst (snd x);
     let wr = snd (snd x);
     if fst x \<noteq> 0 then State_Monad.return (-1, rd, wr)
     else do {
       bad \<leftarrow> (if tst flags FFPIPE_NONBLOCK_WIN then nonblock_both K (\<lambda>p. ffpipe_nonblock_win K p 1) rd wr
              else State_Monad.return False);
       if bad then do {
         sysi K (WinFile (CloseHandle rd));
         sysi K (WinFile (CloseHandle wr));
         State_Monad.return (-1, rd, wr)
       }
       else State_Monad.return (0, rd, wr)
     }
   }"

text \<open>\<open>PIPE_ACCESS_DUPLEX | FILE_FLAG_FIRST_PIPE_INSTANCE\<close>, and \<open>FILE_FLAG_OVERLAPPED\<close>\<close>

definition ffpipe_create_named_win :: "'w kernel \<Rightarrow> wconv \<Rightarrow> string \<Rightarrow> u32 \<Rightarrow> ('w, int) prog" where
  "ffpipe_create_named_win K U name flags =
     (if tst flags FFPIPE_NONBLOCK_WIN
      then do { fferr_set ERROR_INVALID_PARAMETER; State_Monad.return FFPIPE_NULL }
      else do {
        w \<leftarrow> utow256 K U name;
        if w = WNull then State_Monad.return FFPIPE_NULL
        else do {
          let f = (if tst flags FFPIPE_ASYNC then 0x40000000 else 0);
          p \<leftarrow> sysi K (WinIo (CreateNamedPipeW (w_chars w) ((3 OR 0x00080000) OR f) 0));
          w_free K w;
          State_Monad.return p
        }
      })"

definition ffpipe_peer_close_win :: "'w kernel \<Rightarrow> int \<Rightarrow> ('w, unit) prog" where
  "ffpipe_peer_close_win K p = do { sysi K (WinIo (DisconnectNamedPipe p)); State_Monad.return () }"

definition ffpipe_close_win :: "'w kernel \<Rightarrow> int \<Rightarrow> ('w, unit) prog" where
  "ffpipe_close_win K p = do { sysi K (WinFile (CloseHandle p)); State_Monad.return () }"

definition ffpipe_accept_win :: "'w kernel \<Rightarrow> int \<Rightarrow> ('w, int) prog" where
  "ffpipe_accept_win K listen_pipe = do {
     b \<leftarrow> sysi K (WinIo (ConnectNamedPipe listen_pipe False));
     e \<leftarrow> fferr_last;
     State_Monad.return (if b = 0 \<and> e \<noteq> ERROR_PIPE_CONNECTED then FFPIPE_NULL else listen_pipe)
   }"

definition ffpipe_accept_async_win :: "'w kernel \<Rightarrow> int \<Rightarrow> ffkq_task_win \<Rightarrow> ('w, int \<times> ffkq_task_win) prog" where
  "ffpipe_accept_async_win K listen_pipe task =
     (if wtask_active task then do {
        x \<leftarrow> overlapped_result K task;
        State_Monad.return (if fst (fst x) then listen_pipe else FFPIPE_NULL, snd x)
      }
      else do {
        let task = task_zero_win;
        b \<leftarrow> sysi K (WinIo (ConnectNamedPipe listen_pipe True));
        e \<leftarrow> fferr_last;
        if b = 0 \<and> e = ERROR_PIPE_CONNECTED then State_Monad.return (listen_pipe, task)
        else State_Monad.return (FFPIPE_NULL,
               task\<lparr>wtask_active := \<not> (b = 0 \<and> e \<noteq> ERROR_IO_PENDING)\<rparr>)
      })"

definition ffpipe_connect_win :: "'w kernel \<Rightarrow> wconv \<Rightarrow> string \<Rightarrow> ('w, int) prog" where
  "ffpipe_connect_win K U name = do {
     w \<leftarrow> utow256 K U name;
     if w = WNull then State_Monad.return FFPIPE_NULL
     else do {
       p \<leftarrow> sysi K (WinFile (CreateFileW (w_chars w) 0xC0000000 3 3 0));
       w_free K w;
       State_Monad.return p
     }
   }"

definition ffpipe_read_win :: "'w kernel \<Rightarrow> ffbase \<Rightarrow> int \<Rightarrow> nat \<Rightarrow> ('w, int \<times> bytes) prog" where
  "ffpipe_read_win K B p cap = do {
     x \<leftarrow> sys K (WinFile (ReadFile p (ffmin B cap 0xffffffff) None));
     if rv x = 0 then do {
       e \<leftarrow> fferr_last;
       if e = ERROR_BROKEN_PIPE then State_Monad.return (0, [])
       else if e = ERROR_NO_DATA
       then do { fferr_set WSAEWOULDBLOCK; State_Monad.return (-1, []) }
       else State_Monad.return (-1, [])
     }
     else State_Monad.return (int (length (out_bytes x)), out_bytes x)
   }"

definition ffpipe_write_win :: "'w kernel \<Rightarrow> ffbase \<Rightarrow> int \<Rightarrow> bytes \<Rightarrow> ('w, int) prog" where
  "ffpipe_write_win K B p data = do {
     x \<leftarrow> sys K (WinFile (WriteFile p (take (ffmin B (length data) 0xffffffff) data) None));
     State_Monad.return (if rv x = 0 then -1 else out_int x 0)
   }"

subsection \<open>Properties\<close>

lemma length_sockaddr_un:
  "length name + 1 \<le> sun_path_size os \<Longrightarrow> length (sockaddr_un os name) = 2 + sun_path_size os"
  by (simp add: sockaddr_un_def)

text \<open>
  \<open>ffpipe_create_named\<close> and \<open>ffpipe_connect\<close> on UNIX leave open exactly the
  socket they return; on every failure the socket is closed once.  A name that does not fit into
  \<open>sun_path\<close> with its terminator is refused with \<open>EINVAL\<close> before any system call.
\<close>

theorem named_pipe_no_leak:
  "wp (ffpipe_create_named K os name flags)
     (\<lambda>p s. fds_after (trace s) = Some (if p = -1 then {#} else {#p#})) (start w e) \<and>
   wp (ffpipe_connect K os name)
     (\<lambda>p s. fds_after (trace s) = Some (if p = -1 then {#} else {#p#})) (start w e) \<and>
   (if length name < sun_path_size os then length (sockaddr_un os name) = 2 + sun_path_size os
    else wp (ffpipe_create_named K os name flags) (\<lambda>p s. p = -1 \<and> lasterr s = EINVAL \<and> trace s = []) (start w e) \<and>
      wp (ffpipe_connect K os name) (\<lambda>p s. p = -1 \<and> lasterr s = EINVAL \<and> trace s = []) (start w e))"
proof (intro conjI)
  show "wp (ffpipe_create_named K os name flags)
     (\<lambda>p s. fds_after (trace s) = Some (if p = -1 then {#} else {#p#})) (start w e)"
    unfolding ffpipe_create_named_def ffpipe_nonblock_def Let_def
    by (intro wp_intros) (simp_all add: fd_step_def closed_def)
  show "wp (ffpipe_connect K os name)
     (\<lambda>p s. fds_after (trace s) = Some (if p = -1 then {#} else {#p#})) (start w e)"
    unfolding ffpipe_connect_def by (intro wp_intros) (simp_all add: fd_step_def closed_def)
qed (auto simp: length_sockaddr_un wp_def ffpipe_create_named_def ffpipe_connect_def run_simps)

text \<open>
  \<open>ffpipe_create2\<close> returns \<open>0\<close> with two open ends, or \<open>-1\<close> with none left
  open, also when the non-blocking mode cannot be set on one of them (macOS, Windows).
\<close>

theorem pipe_create2_no_leak:
  "wp (ffpipe_create2 K os flags)
     (\<lambda>r s. fst r \<in> {0, -1} \<and>
        fds_after (trace s) = Some (if fst r = 0 then {#fst (snd r), snd (snd r)#} else {#})) (start w e) \<and>
   wp (ffpipe_create2_win K flags)
     (\<lambda>r s. fst r \<in> {0, -1} \<and>
        fds_after (trace s) = Some (if fst r = 0 then {#fst (snd r), snd (snd r)#} else {#})) (start w e)"
  unfolding ffpipe_create2_def ffpipe_create2_win_def ffpipe_create_win_def nonblock_both_def
    ffpipe_nonblock_def ffpipe_nonblock_win_def
  by (intro conjI wp_intros) (auto simp: fd_step_def closed_def simp del: out_int.simps)

text \<open>
  With an \<open>OVERLAPPED\<close> argument \<open>ConnectNamedPipe\<close> returns zero, and the last error tells
  how it went on.
\<close>

definition connect_overlapped :: "'w kernel \<Rightarrow> bool" where
  "connect_overlapped K \<longleftrightarrow> (\<forall>p w. rv (fst (K (WinIo (ConnectNamedPipe p True)) w)) = 0)"

interpretation pipe_accept: async_op "\<lambda>K t. ffpipe_accept_async_win K p t" "\<lambda>r. r" wtask_active
  ERROR_IO_PENDING connect_overlapped for p
proof unfold_locales
  fix K :: "'w kernel" and t s
  assume "connect_overlapped K"
  then have "K (WinIo (ConnectNamedPipe p True)) w = (r, w') \<Longrightarrow> rv r = 0" for w r w'
    unfolding connect_overlapped_def by (metis fst_conv)
  then show "wp (ffpipe_accept_async_win K p t)
      (\<lambda>r s. wtask_active (snd r) \<longrightarrow> fst r < 0 \<and> lasterr s = ERROR_IO_PENDING) s"
    unfolding ffpipe_accept_async_win_def
    by (intro wp_intros wp_mono [OF wp_overlapped_result]) (auto simp: task_zero_win_def)
qed

text \<open>
  A named pipe of Windows that is opened or connected gives back the memory of its
  converted name, and the only handle left is the one returned.  \<open>ffpipe_accept_async\<close> never
  leaves its task active without having reported \<open>FFPIPE_EINPROGRESS\<close>: when it returns the
  pipe, or fails for good, the task is idle.
\<close>

theorem pipe_win_contract:
  assumes "connect_overlapped K"
  shows "wp (ffpipe_create_named_win K U name flags)
      (\<lambda>p s. heap_clean (trace s) \<and> fds_after (trace s) = Some (if p = -1 then {#} else {#p#})) (start w e) \<and>
    wp (ffpipe_connect_win K U name)
      (\<lambda>p s. heap_clean (trace s) \<and> fds_after (trace s) = Some (if p = -1 then {#} else {#p#})) (start w e) \<and>
    wp (ffpipe_accept_async_win K p t)
      (\<lambda>r s. wtask_active (snd r) \<longrightarrow> fst r < 0 \<and> lasterr s = ERROR_IO_PENDING) s0"
proof (intro conjI)
  show "wp (ffpipe_create_named_win K U name flags)
      (\<lambda>p s. heap_clean (trace s) \<and> fds_after (trace s) = Some (if p = -1 then {#} else {#p#})) (start w e)"
    unfolding ffpipe_create_named_win_def heap_clean_def Let_def
    by (intro wp_intros wp_res) (simp_all add: fd_step_def closed_def)
  show "wp (ffpipe_connect_win K U name)
      (\<lambda>p s. heap_clean (trace s) \<and> fds_after (trace s) = Some (if p = -1 then {#} else {#p#})) (start w e)"
    unfolding ffpipe_connect_win_def heap_clean_def
    by (intro wp_intros wp_res) (simp_all add: fd_step_def closed_def)
qed (rule pipe_accept.pending [OF assms])

definition pendingK :: "call \<Rightarrow> nat \<Rightarrow> reply \<times> nat" where
  "pendingK c n = (\<lparr>rv = 0, rerr = Some ERROR_IO_PENDING, rout = NoOut\<rparr>, n)"

theorem pipe_win_contract_witness:
  "fst (run_state (ffpipe_accept_async_win pendingK 9 task_zero_win) (start 0 0)) =
     (-1, \<lparr>wtask_active = True, wtask_buf = [0]\<rparr>) \<and>
   lasterr (snd (run_state (ffpipe_accept_async_win pendingK 9 task_zero_win) (start 0 0))) = ERROR_IO_PENDING"
proof -
  have c: "connect_overlapped pendingK" by (simp add: connect_overlapped_def pendingK_def)
  have r: "fst (run_state (ffpipe_accept_async_win pendingK 9 task_zero_win) (start 0 0)) =
     (-1, \<lparr>wtask_active = True, wtask_buf = [0]\<rparr>)"
    by (simp add: ffpipe_accept_async_win_def run_simps pendingK_def task_zero_win_def Let_def)
  have "wp (ffpipe_accept_async_win pendingK 9 task_zero_win)
      (\<lambda>r s. wtask_active (snd r) \<longrightarrow> fst r < 0 \<and> lasterr s = ERROR_IO_PENDING) (start 0 0)"
    using pipe_win_contract [OF c] by blast
  with r show ?thesis by (simp add: wp_def)
qed

end
