(* ===== verification/Kcall.thy ===== *)
theory Kcall
  imports File Semaphore Kqueue Sock
begin

text \<open>
  The kernel call queue (\<open>FFOS/kcall.h\<close>): a blocking call is put into a submission queue, a
  worker thread performs it and puts the result into a completion queue, and the owner's thread
  calls its handler; the owner then repeats the call and gets the result.  UNIX, 64-bit.

  The state of the system has one queue object and the \<open>ffkcall\<close> objects by number.  The
  anonymous union of \<open>ffkcall\<close> has three words that its members share: the 32-bit one is
  \<open>error\<close>, \<open>flags\<close> or \<open>fd\<close>; the pointer-sized one is \<open>result\<close>, \<open>name\<close>, \<open>finfo\<close> or
  \<open>buf\<close>; the third is \<open>size\<close>.  The ring queues belong to ffbase and are a parameter.
\<close>

record ffkcall =
  kc_q :: bool
  kc_op :: u16
  kc_state :: u16
  kc_word :: u32
  kc_ptr :: u64
  kc_size :: u64
  kc_handler :: int
  kc_param :: int

record 'q ringq =
  ffrq_add :: "'q \<Rightarrow> nat \<Rightarrow> (int \<times> nat) \<times> 'q"
  ffrq_fetch :: "'q \<Rightarrow> (int \<times> nat) \<times> 'q"
  ffrq_fetch_sr :: "'q \<Rightarrow> (int \<times> nat) \<times> 'q"

text \<open>
  \<open>kc_names\<close>, \<open>kc_mem\<close> and \<open>kc_infos\<close> are the memory that the pointers of the calls refer
  to: strings, bytes and file information.  \<open>kc_aborted\<close> is set by a failed assertion.
\<close>

record ('w, 'q) kcs =
  kc_sys :: "'w sys"
  kc_objs :: "nat \<Rightarrow> ffkcall"
  kc_sq :: 'q
  kc_cq :: 'q
  kc_sem :: ffsem
  kc_kqpost :: int
  kc_kqpost_data :: int
  kc_names :: "u64 \<Rightarrow> string"
  kc_mem :: "u64 \<Rightarrow> u8"
  kc_infos :: "u64 \<Rightarrow> stat"
  kc_aborted :: bool

abbreviation (input) FFKCALL_FILE_OPEN :: u16 where "FFKCALL_FILE_OPEN \<equiv> 1"
abbreviation (input) FFKCALL_FILE_INFO :: u16 where "FFKCALL_FILE_INFO \<equiv> 2"
abbreviation (input) FFKCALL_FILE_READ :: u16 where "FFKCALL_FILE_READ \<equiv> 3"
abbreviation (input) FFKCALL_FILE_WRITE :: u16 where "FFKCALL_FILE_WRITE \<equiv> 4"
abbreviation (input) FFKCALL_NET_RESOLVE :: u16 where "FFKCALL_NET_RESOLVE \<equiv> 5"

definition on_sys :: "('w, 'a) prog \<Rightarrow> ('w, 'q) kcs \<Rightarrow> 'a \<times> ('w, 'q) kcs" where
  "on_sys m s = (let x = run_state m (kc_sys s) in (fst x, s\<lparr>kc_sys := snd x\<rparr>))"

definition set_kc :: "nat \<Rightarrow> ffkcall \<Rightarrow> ('w, 'q) kcs \<Rightarrow> ('w, 'q) kcs" where
  "set_kc i kc s = s\<lparr>kc_objs := (kc_objs s)(i := kc)\<rparr>"

definition kc_err :: "('w, 'q) kcs \<Rightarrow> int" where
  "kc_err s = lasterr (kc_sys s)"

definition kc_set_err :: "int \<Rightarrow> ('w, 'q) kcs \<Rightarrow> ('w, 'q) kcs" where
  "kc_set_err e s = snd (on_sys (fferr_set e) s)"

definition mem_read :: "(u64 \<Rightarrow> u8) \<Rightarrow> u64 \<Rightarrow> u64 \<Rightarrow> bytes" where
  "mem_read m p n = map (\<lambda>i. m (p + of_nat i)) [0..<unat n]"

fun mem_write :: "(u64 \<Rightarrow> u8) \<Rightarrow> u64 \<Rightarrow> bytes \<Rightarrow> (u64 \<Rightarrow> u8)" where
  "mem_write m p [] = m"
| "mem_write m p (b # bs) = mem_write (m(p := b)) (p + 1) bs"

subsection \<open>The calls themselves\<close>

definition call_open :: "'w kernel \<Rightarrow> os \<Rightarrow> u64 \<Rightarrow> u32 \<Rightarrow> ('w, 'q) kcs \<Rightarrow> int \<times> ('w, 'q) kcs" where
  "call_open K os name flags s = on_sys (fffile_open K os (kc_names s name) flags) s"

definition call_info :: "'w kernel \<Rightarrow> int \<Rightarrow> u64 \<Rightarrow> ('w, 'q) kcs \<Rightarrow> int \<times> ('w, 'q) kcs" where
  "call_info K fd fi s =
     (let x = on_sys (fffile_info K fd (kc_infos s fi)) s
      in (fst (fst x), (snd x)\<lparr>kc_infos := (kc_infos s)(fi := snd (fst x))\<rparr>))"

definition call_read :: "'w kernel \<Rightarrow> int \<Rightarrow> u64 \<Rightarrow> u64 \<Rightarrow> ('w, 'q) kcs \<Rightarrow> int \<times> ('w, 'q) kcs" where
  "call_read K fd buf n s =
     (let x = on_sys (fffile_read K fd (unat n)) s
      in (fst (fst x), (snd x)\<lparr>kc_mem := mem_write (kc_mem s) buf (snd (fst x))\<rparr>))"

definition call_write :: "'w kernel \<Rightarrow> int \<Rightarrow> u64 \<Rightarrow> u64 \<Rightarrow> ('w, 'q) kcs \<Rightarrow> int \<times> ('w, 'q) kcs" where
  "call_write K fd buf n s = on_sys (fffile_write K fd (mem_read (kc_mem s) buf n)) s"

definition call_resolve :: "'w kernel \<Rightarrow> u64 \<Rightarrow> int \<Rightarrow> ('w, 'q) kcs \<Rightarrow> int \<times> ('w, 'q) kcs" where
  "call_resolve K name flags s = on_sys (ffaddrinfo_resolve K (kc_names s name) flags) s"

text \<open>\<open>kc->result = ...; kc->error = fferr_last();\<close>\<close>

definition store_result :: "nat \<Rightarrow> int \<times> ('w, 'q) kcs \<Rightarrow> int \<times> ('w, 'q) kcs" where
  "store_result i x =
     (0, set_kc i ((kc_objs (snd x) i)\<lparr>kc_ptr := of_int (fst x), kc_word := of_int (kc_err (snd x))\<rparr>) (snd x))"

definition ffkcall_exec :: "'w kernel \<Rightarrow> os \<Rightarrow> nat \<Rightarrow> ('w, 'q) kcs \<Rightarrow> int \<times> ('w, 'q) kcs" where
  "ffkcall_exec K os i s =
     (let kc = kc_objs s i; op = kc_op kc in
      if op = FFKCALL_FILE_OPEN then store_result i (call_open K os (kc_ptr kc) (kc_word kc) s)
      else if op = FFKCALL_FILE_INFO then store_result i (call_info K (sint (kc_word kc)) (kc_ptr kc) s)
      else if op = FFKCALL_FILE_READ
        then store_result i (call_read K (sint (kc_word kc)) (kc_ptr kc) (kc_size kc) s)
      else if op = FFKCALL_FILE_WRITE
        then store_result i (call_write K (sint (kc_word kc)) (kc_ptr kc) (kc_size kc) s)
      else if op = FFKCALL_NET_RESOLVE then store_result i (call_resolve K (kc_ptr kc) (sint (kc_word kc)) s)
      else (-1, s))"

subsection \<open>The queues\<close>

definition kc_abort :: "('w, 'q) kcs \<Rightarrow> ('w, 'q) kcs" where
  "kc_abort s = s\<lparr>kc_aborted := True\<rparr>"

text \<open>One round of the worker; \<open>None\<close>: the submission queue is empty.\<close>

definition sq_round :: "'w kernel \<Rightarrow> os \<Rightarrow> 'q ringq \<Rightarrow> ('w, 'q) kcs \<Rightarrow> ('w, 'q) kcs option" where
  "sq_round K os R s =
     (let f = ffrq_fetch R (kc_sq s); i = snd (fst f) in
      if 0 \<noteq> fst (fst f) then None
      else let x = ffkcall_exec K os i (s\<lparr>kc_sq := snd f\<rparr>); s = snd x in
        if 0 \<noteq> fst x then Some (set_kc i ((kc_objs s i)\<lparr>kc_state := 0\<rparr>) s)
        else let s = set_kc i ((kc_objs s i)\<lparr>kc_state := 2\<rparr>) s;
               a = ffrq_add R (kc_cq s) i; s = s\<lparr>kc_cq := snd a\<rparr> in
          if 0 \<noteq> fst (fst a) then Some (kc_abort s)
          else if snd (fst a) = 0 \<and> kc_kqpost s \<noteq> FFKQ_NULL
          then let p = on_sys (ffkq_post K os (kc_kqpost s) (kc_kqpost_data s)) s in
            if 0 \<noteq> fst p then Some (kc_abort (snd p)) else Some (snd p)
          else Some s)"

partial_function (option) ffkcallq_process_sq ::
  "'w kernel \<Rightarrow> os \<Rightarrow> 'q ringq \<Rightarrow> ('w, 'q) kcs \<Rightarrow> ('w, 'q) kcs option" where
  "ffkcallq_process_sq K os R s =
     (case sq_round K os R s of
        None \<Rightarrow> Some s
      | Some s' \<Rightarrow> if kc_aborted s' then Some s' else ffkcallq_process_sq K os R s')"

text \<open>\<open>H\<close> is what the handlers do; \<open>None\<close>: the completion queue is empty.\<close>

definition cq_round ::
  "'q ringq \<Rightarrow> (int \<Rightarrow> int \<Rightarrow> ('w, 'q) kcs \<Rightarrow> ('w, 'q) kcs) \<Rightarrow> ('w, 'q) kcs \<Rightarrow> ('w, 'q) kcs option" where
  "cq_round R H s =
     (let f = ffrq_fetch_sr R (kc_cq s); i = snd (fst f) in
      if 0 \<noteq> fst (fst f) then None
      else let s = set_kc i ((kc_objs s i)\<lparr>kc_state := 0\<rparr>) (s\<lparr>kc_cq := snd f\<rparr>) in
        Some (if kc_op (kc_objs s i) \<noteq> 0
              then H (kc_handler (kc_objs s i)) (kc_param (kc_objs s i)) s else s))"

partial_function (option) ffkcallq_process_cq ::
  "'q ringq \<Rightarrow> (int \<Rightarrow> int \<Rightarrow> ('w, 'q) kcs \<Rightarrow> ('w, 'q) kcs) \<Rightarrow> ('w, 'q) kcs \<Rightarrow> ('w, 'q) kcs option" where
  "ffkcallq_process_cq R H s =
     (case cq_round R H s of None \<Rightarrow> Some s | Some s' \<Rightarrow> ffkcallq_process_cq R H s')"


definition ffkcall_add :: "'w kernel \<Rightarrow> 'q ringq \<Rightarrow> nat \<Rightarrow> u16 \<Rightarrow> ('w, 'q) kcs \<Rightarrow> ('w, 'q) kcs" where
  "ffkcall_add K R i op s =
     (let s = set_kc i ((kc_objs s i)\<lparr>kc_op := op\<rparr>) s;
        a = ffrq_add R (kc_sq s) i; s = s\<lparr>kc_sq := snd a\<rparr> in
      if 0 \<noteq> fst (fst a) then kc_set_err EAGAIN (set_kc i ((kc_objs s i)\<lparr>kc_op := 0\<rparr>) s)
      else let s = (if kc_sem s \<noteq> SemNull then snd (on_sys (ffsem_post K (kc_sem s)) s) else s) in
        kc_set_err EINPROGRESS s)"

subsection \<open>Asynchronous calls\<close>

text \<open>The descriptor and the \<open>int\<close> flags are 32-bit words here, read as signed.\<close>

definition fffile_open_async ::
  "'w kernel \<Rightarrow> os \<Rightarrow> 'q ringq \<Rightarrow> u64 \<Rightarrow> u32 \<Rightarrow> nat \<Rightarrow> ('w, 'q) kcs \<Rightarrow> int \<times> ('w, 'q) kcs" where
  "fffile_open_async K os R name flags i s =
     (let kc = kc_objs s i in
      if \<not> kc_q kc then call_open K os name flags s
      else if kc_state kc \<noteq> 0 then (-1, kc_set_err EBUSY s)
      else if kc_op kc \<noteq> 0 then
        (sint (ucast (kc_ptr kc) :: u32),
         kc_set_err (sint (kc_word kc)) (set_kc i (kc\<lparr>kc_op := 0\<rparr>) s))
      else (-1, ffkcall_add K R i FFKCALL_FILE_OPEN (set_kc i (kc\<lparr>kc_ptr := name, kc_word := flags\<rparr>) s)))"

definition fffile_info_async ::
  "'w kernel \<Rightarrow> 'q ringq \<Rightarrow> u32 \<Rightarrow> u64 \<Rightarrow> nat \<Rightarrow> ('w, 'q) kcs \<Rightarrow> int \<times> ('w, 'q) kcs" where
  "fffile_info_async K R fd fi i s =
     (let kc = kc_objs s i in
      if \<not> kc_q kc then call_info K (sint fd) fi s
      else if kc_state kc \<noteq> 0 then (-1, kc_set_err EBUSY s)
      else if kc_op kc \<noteq> 0 then
        (sint (ucast (kc_ptr kc) :: u32),
         kc_set_err (sint (kc_word kc)) (set_kc i (kc\<lparr>kc_op := 0\<rparr>) s))
      else (-1, ffkcall_add K R i FFKCALL_FILE_INFO (set_kc i (kc\<lparr>kc_word := fd, kc_ptr := fi\<rparr>) s)))"

definition fffile_read_async ::
  "'w kernel \<Rightarrow> 'q ringq \<Rightarrow> u32 \<Rightarrow> u64 \<Rightarrow> u64 \<Rightarrow> nat \<Rightarrow> ('w, 'q) kcs \<Rightarrow> int \<times> ('w, 'q) kcs" where
  "fffile_read_async K R fd buf n i s =
     (let kc = kc_objs s i in
      if \<not> kc_q kc then call_read K (sint fd) buf n s
      else if kc_state kc \<noteq> 0 then (-1, kc_set_err EBUSY s)
      else if kc_op kc \<noteq> 0 then
        (sint (kc_ptr kc), kc_set_err (sint (kc_word kc)) (set_kc i (kc\<lparr>kc_op := 0\<rparr>) s))
      else (-1, ffkcall_add K R i FFKCALL_FILE_READ
        (set_kc i (kc\<lparr>kc_word := fd, kc_ptr := buf, kc_size := n\<rparr>) s)))"

definition fffile_write_async ::
  "'w kernel \<Rightarrow> 'q ringq \<Rightarrow> u32 \<Rightarrow> u64 \<Rightarrow> u64 \<Rightarrow> nat \<Rightarrow> ('w, 'q) kcs \<Rightarrow> int \<times> ('w, 'q) kcs" where
  "fffile_write_async K R fd buf n i s =
     (let kc = kc_objs s i in
      if \<not> kc_q kc then call_write K (sint fd) buf n s
      else if kc_state kc \<noteq> 0 then (-1, kc_set_err EBUSY s)
      else if kc_op kc \<noteq> 0 then
        (sint (kc_ptr kc), kc_set_err (sint (kc_word kc)) (set_kc i (kc\<lparr>kc_op := 0\<rparr>) s))
      else (-1, ffkcall_add K R i FFKCALL_FILE_WRITE
        (set_kc i (kc\<lparr>kc_word := fd, kc_ptr := buf, kc_size := n\<rparr>) s)))"

definition ffaddrinfo_resolve_async ::
  "'w kernel \<Rightarrow> 'q ringq \<Rightarrow> u64 \<Rightarrow> u32 \<Rightarrow> nat \<Rightarrow> ('w, 'q) kcs \<Rightarrow> int \<times> ('w, 'q) kcs" where
  "ffaddrinfo_resolve_async K R name flags i s =
     (let kc = kc_objs s i in
      if \<not> kc_q kc then call_resolve K name (sint flags) s
      else if kc_state kc \<noteq> 0 then (0, kc_set_err EBUSY s)
      else if kc_op kc \<noteq> 0 then
        (sint (kc_ptr kc), kc_set_err (sint (kc_word kc)) (set_kc i (kc\<lparr>kc_op := 0\<rparr>) s))
      else (0, ffkcall_add K R i FFKCALL_NET_RESOLVE
        (set_kc i (kc\<lparr>kc_ptr := name, kc_word := flags\<rparr>) s)))"

subsection \<open>Laws of the ring queue\<close>

text \<open>
  What ffbase documents of a ring queue with the contents \<open>items\<close> and the capacity \<open>cap\<close>:
  adding fails exactly when it is full and reports how many elements were there before, fetching
  takes the oldest element and fails exactly when there is none.
\<close>

definition ringq_ok :: "'q ringq \<Rightarrow> ('q \<Rightarrow> nat list) \<Rightarrow> ('q \<Rightarrow> nat) \<Rightarrow> bool" where
  "ringq_ok R items cap \<longleftrightarrow>
     (\<forall>q x. cap (snd (ffrq_add R q x)) = cap q \<and>
        (if length (items q) < cap q
         then fst (ffrq_add R q x) = (0, length (items q)) \<and> items (snd (ffrq_add R q x)) = items q @ [x]
         else fst (fst (ffrq_add R q x)) \<noteq> 0 \<and> items (snd (ffrq_add R q x)) = items q)) \<and>
     (\<forall>q. cap (snd (ffrq_fetch R q)) = cap q \<and>
        (case items q of
           [] \<Rightarrow> fst (fst (ffrq_fetch R q)) \<noteq> 0 \<and> items (snd (ffrq_fetch R q)) = []
         | x # xs \<Rightarrow> fst (ffrq_fetch R q) = (0, x) \<and> items (snd (ffrq_fetch R q)) = xs)) \<and>
     (\<forall>q. ffrq_fetch_sr R q = ffrq_fetch R q)"

definition list_ringq :: "(nat \<times> nat list) ringq" where
  "list_ringq = \<lparr>
     ffrq_add = (\<lambda>q x. if length (snd q) < fst q then ((0, length (snd q)), (fst q, snd q @ [x])) else ((-1, 0), q)),
     ffrq_fetch = (\<lambda>q. if snd q = [] then ((-1, 0), q) else ((0, hd (snd q)), (fst q, tl (snd q)))),
     ffrq_fetch_sr = (\<lambda>q. if snd q = [] then ((-1, 0), q) else ((0, hd (snd q)), (fst q, tl (snd q))))\<rparr>"

lemma list_ringq_ok: "ringq_ok list_ringq snd fst"
  by (auto simp: ringq_ok_def list_ringq_def split: list.splits)

lemma ringq_okD:
  assumes "ringq_ok R items cap"
  shows "cap (snd (ffrq_add R q x)) = cap q" "cap (snd (ffrq_fetch R q)) = cap q"
    and "length (items q) < cap q \<Longrightarrow> fst (ffrq_add R q x) = (0, length (items q))"
    and "length (items q) < cap q \<Longrightarrow> items (snd (ffrq_add R q x)) = items q @ [x]"
    and "\<not> length (items q) < cap q \<Longrightarrow> fst (fst (ffrq_add R q x)) \<noteq> 0"
    and "\<not> length (items q) < cap q \<Longrightarrow> items (snd (ffrq_add R q x)) = items q"
    and "items q = [] \<Longrightarrow> fst (fst (ffrq_fetch R q)) \<noteq> 0"
    and "items q = y # ys \<Longrightarrow> fst (ffrq_fetch R q) = (0, y)"
    and "items q = y # ys \<Longrightarrow> items (snd (ffrq_fetch R q)) = ys"
    and "ffrq_fetch_sr R q = ffrq_fetch R q"
  using assms unfolding ringq_ok_def by (fastforce split: list.splits)+

lemma kcs_sel [simp]:
  "kc_objs (set_kc i kc s) = (kc_objs s)(i := kc)" "kc_sys (set_kc i kc s) = kc_sys s"
  "kc_sq (set_kc i kc s) = kc_sq s" "kc_cq (set_kc i kc s) = kc_cq s" "kc_sem (set_kc i kc s) = kc_sem s"
  "kc_kqpost (set_kc i kc s) = kc_kqpost s" "kc_kqpost_data (set_kc i kc s) = kc_kqpost_data s"
  "kc_aborted (set_kc i kc s) = kc_aborted s" "kc_err (set_kc i kc s) = kc_err s"
  "kc_objs (snd (on_sys m s)) = kc_objs s" "kc_sq (snd (on_sys m s)) = kc_sq s"
  "kc_cq (snd (on_sys m s)) = kc_cq s" "kc_sem (snd (on_sys m s)) = kc_sem s"
  "kc_kqpost (snd (on_sys m s)) = kc_kqpost s" "kc_kqpost_data (snd (on_sys m s)) = kc_kqpost_data s"
  "kc_aborted (snd (on_sys m s)) = kc_aborted s"
  "kc_objs (kc_set_err e s) = kc_objs s" "kc_sq (kc_set_err e s) = kc_sq s" "kc_cq (kc_set_err e s) = kc_cq s"
  "kc_kqpost (kc_set_err e s) = kc_kqpost s" "kc_kqpost_data (kc_set_err e s) = kc_kqpost_data s"
  "kc_aborted (kc_set_err e s) = kc_aborted s" "kc_err (kc_set_err e s) = e"
  by (simp_all add: set_kc_def on_sys_def kc_set_err_def kc_err_def Let_def fferr_set_def)

lemma store_result_sel [simp]:
  "fst (store_result i x) = 0" "kc_sq (snd (store_result i x)) = kc_sq (snd x)"
  "kc_cq (snd (store_result i x)) = kc_cq (snd x)" "kc_aborted (snd (store_result i x)) = kc_aborted (snd x)"
  "kc_kqpost (snd (store_result i x)) = kc_kqpost (snd x)"
  "kc_kqpost_data (snd (store_result i x)) = kc_kqpost_data (snd x)"
  "kc_objs (snd (store_result i x)) = (kc_objs (snd x))(i := (kc_objs (snd x) i)
     \<lparr>kc_ptr := of_int (fst x), kc_word := of_int (kc_err (snd x))\<rparr>)"
  by (simp_all add: store_result_def)

text \<open>A call changes nothing of the queue but the world and the memory it writes.\<close>

definition same_queue :: "('w, 'q) kcs \<Rightarrow> ('w, 'q) kcs \<Rightarrow> bool" where
  "same_queue s t \<longleftrightarrow> kc_objs s = kc_objs t \<and> kc_sq s = kc_sq t \<and> kc_cq s = kc_cq t \<and> kc_sem s = kc_sem t \<and>
     kc_kqpost s = kc_kqpost t \<and> kc_kqpost_data s = kc_kqpost_data t \<and> kc_aborted s = kc_aborted t"

lemma call_same_queue:
  "same_queue (snd (call_open K os name flags s)) s" "same_queue (snd (call_info K fd fi s)) s"
  "same_queue (snd (call_read K fd buf n s)) s" "same_queue (snd (call_write K fd buf n s)) s"
  "same_queue (snd (call_resolve K name fl s)) s"
  by (simp_all add: same_queue_def call_open_def call_info_def call_read_def call_write_def
      call_resolve_def Let_def)

subsection \<open>One contract for the five calls\<close>

text \<open>
  The asynchronous functions follow one scheme.  The locale states it: \<open>sync\<close> is the blocking
  call, \<open>fail\<close> the value returned while there is no result, \<open>put\<close> stores the arguments,
  \<open>conv\<close> reads the result; the worker performs \<open>sync\<close> for an object that holds the stored
  arguments.
\<close>

locale kcall_op =
  fixes f :: "nat \<Rightarrow> ('w, 'q) kcs \<Rightarrow> int \<times> ('w, 'q) kcs"
    and sync :: "('w, 'q) kcs \<Rightarrow> int \<times> ('w, 'q) kcs"
    and fail :: int and op :: u16 and put :: "ffkcall \<Rightarrow> ffkcall" and conv :: "u64 \<Rightarrow> int"
    and K :: "'w kernel" and os :: os and R :: "'q ringq"
  assumes shape: "f i s =
     (let kc = kc_objs s i in
      if \<not> kc_q kc then sync s
      else if kc_state kc \<noteq> 0 then (fail, kc_set_err EBUSY s)
      else if kc_op kc \<noteq> 0 then
        (conv (kc_ptr kc), kc_set_err (sint (kc_word kc)) (set_kc i (kc\<lparr>kc_op := 0\<rparr>) s))
      else (fail, ffkcall_add K R i op (set_kc i (put kc) s)))"
    and put_sel: "kc_q (put kc) = kc_q kc" "kc_op (put kc) = kc_op kc" "kc_state (put kc) = kc_state kc"
      "kc_handler (put kc) = kc_handler kc" "kc_param (put kc) = kc_param kc"
    and exec: "kc_objs s i = (put kc)\<lparr>kc_op := op\<rparr> \<Longrightarrow> ffkcall_exec K os i s = store_result i (sync s)"
    and op_nz: "op \<noteq> 0"
    and sync_same: "same_queue (snd (sync s)) s"
begin

lemma busy: "kc_q (kc_objs s i) \<Longrightarrow> kc_state (kc_objs s i) \<noteq> 0 \<Longrightarrow>
    f i s = (fail, kc_set_err EBUSY s)"
  by (simp add: shape)

lemma collect: "kc_q (kc_objs s i) \<Longrightarrow> kc_state (kc_objs s i) = 0 \<Longrightarrow> kc_op (kc_objs s i) \<noteq> 0 \<Longrightarrow>
    f i s = (conv (kc_ptr (kc_objs s i)),
      kc_set_err (sint (kc_word (kc_objs s i))) (set_kc i ((kc_objs s i)\<lparr>kc_op := 0\<rparr>) s))"
  by (simp add: shape Let_def)

lemma submit:
  assumes "ringq_ok R items cap" "kc_q (kc_objs s i)" "kc_state (kc_objs s i) = 0" "kc_op (kc_objs s i) = 0"
    "length (items (kc_sq s)) < cap (kc_sq s)"
  defines "t \<equiv> snd (f i s)"
  shows "fst (f i s) = fail" "kc_err t = EINPROGRESS" "items (kc_sq t) = items (kc_sq s) @ [i]"
    "cap (kc_sq t) = cap (kc_sq s)" "kc_cq t = kc_cq s" "kc_aborted t = kc_aborted s"
    "kc_kqpost t = kc_kqpost s" "kc_kqpost_data t = kc_kqpost_data s"
    "kc_objs t = (kc_objs s)(i := (put (kc_objs s i))\<lparr>kc_op := op\<rparr>)"
  using assms(2-5) ringq_okD(1,3-6) [OF assms(1), where q = "kc_sq s" and x = i]
  by (simp_all add: t_def shape ffkcall_add_def Let_def)

lemma submit_full:
  assumes "ringq_ok R items cap" "kc_q (kc_objs s i)" "kc_state (kc_objs s i) = 0" "kc_op (kc_objs s i) = 0"
    "\<not> length (items (kc_sq s)) < cap (kc_sq s)"
  defines "t \<equiv> snd (f i s)"
  shows "fst (f i s) = fail" "kc_err t = EAGAIN" "items (kc_sq t) = items (kc_sq s)"
    "cap (kc_sq t) = cap (kc_sq s)" "kc_cq t = kc_cq s" "kc_aborted t = kc_aborted s"
    "kc_kqpost t = kc_kqpost s" "kc_kqpost_data t = kc_kqpost_data s"
    "kc_objs t = (kc_objs s)(i := (put (kc_objs s i))\<lparr>kc_op := 0\<rparr>)"
  using assms(2-5) ringq_okD(1,3-6) [OF assms(1), where q = "kc_sq s" and x = i]
  by (simp_all add: t_def shape ffkcall_add_def Let_def)

end

text \<open>The requests, and the function that serves each.\<close>

datatype kreq =
    ROpen u64 u32
  | RInfo u32 u64
  | RRead u32 u64 u64
  | RWrite u32 u64 u64
  | RResolve u64 u32

fun kcall_request ::
  "'w kernel \<Rightarrow> os \<Rightarrow> 'q ringq \<Rightarrow> kreq \<Rightarrow> nat \<Rightarrow> ('w, 'q) kcs \<Rightarrow> int \<times> ('w, 'q) kcs" where
  "kcall_request K os R (ROpen name flags) i s = fffile_open_async K os R name flags i s"
| "kcall_request K os R (RInfo fd fi) i s = fffile_info_async K R fd fi i s"
| "kcall_request K os R (RRead fd buf n) i s = fffile_read_async K R fd buf n i s"
| "kcall_request K os R (RWrite fd buf n) i s = fffile_write_async K R fd buf n i s"
| "kcall_request K os R (RResolve name flags) i s = ffaddrinfo_resolve_async K R name flags i s"

fun kcall_sync :: "'w kernel \<Rightarrow> os \<Rightarrow> kreq \<Rightarrow> ('w, 'q) kcs \<Rightarrow> int \<times> ('w, 'q) kcs" where
  "kcall_sync K os (ROpen name flags) s = call_open K os name flags s"
| "kcall_sync K os (RInfo fd fi) s = call_info K (sint fd) fi s"
| "kcall_sync K os (RRead fd buf n) s = call_read K (sint fd) buf n s"
| "kcall_sync K os (RWrite fd buf n) s = call_write K (sint fd) buf n s"
| "kcall_sync K os (RResolve name flags) s = call_resolve K name (sint flags) s"

fun req_fail :: "kreq \<Rightarrow> int" where
  "req_fail (RResolve _ _) = 0" | "req_fail _ = -1"

fun req_op :: "kreq \<Rightarrow> u16" where
  "req_op (ROpen _ _) = 1" | "req_op (RInfo _ _) = 2" | "req_op (RRead _ _ _) = 3"
| "req_op (RWrite _ _ _) = 4" | "req_op (RResolve _ _) = 5"

fun req_put :: "kreq \<Rightarrow> ffkcall \<Rightarrow> ffkcall" where
  "req_put (ROpen name flags) kc = kc\<lparr>kc_ptr := name, kc_word := flags\<rparr>"
| "req_put (RInfo fd fi) kc = kc\<lparr>kc_word := fd, kc_ptr := fi\<rparr>"
| "req_put (RRead fd buf n) kc = kc\<lparr>kc_word := fd, kc_ptr := buf, kc_size := n\<rparr>"
| "req_put (RWrite fd buf n) kc = kc\<lparr>kc_word := fd, kc_ptr := buf, kc_size := n\<rparr>"
| "req_put (RResolve name flags) kc = kc\<lparr>kc_ptr := name, kc_word := flags\<rparr>"

text \<open>\<open>open\<close> and \<open>info\<close> return a 32-bit value, the others a 64-bit one.\<close>

fun req_conv :: "kreq \<Rightarrow> u64 \<Rightarrow> int" where
  "req_conv (ROpen _ _) p = sint (ucast p :: u32)"
| "req_conv (RInfo _ _) p = sint (ucast p :: u32)"
| "req_conv _ p = sint p"

interpretation request: kcall_op "kcall_request K os R req" "kcall_sync K os req" "req_fail req"
  "req_op req" "req_put req" "req_conv req" K os R for K os R req
proof
  show "kcall_request K os R req i s =
     (let kc = kc_objs s i in
      if \<not> kc_q kc then kcall_sync K os req s
      else if kc_state kc \<noteq> 0 then (req_fail req, kc_set_err EBUSY s)
      else if kc_op kc \<noteq> 0 then
        (req_conv req (kc_ptr kc), kc_set_err (sint (kc_word kc)) (set_kc i (kc\<lparr>kc_op := 0\<rparr>) s))
      else (req_fail req, ffkcall_add K R i (req_op req) (set_kc i (req_put req kc) s)))" for i s
    by (cases req) (simp_all add: fffile_open_async_def fffile_info_async_def fffile_read_async_def
        fffile_write_async_def ffaddrinfo_resolve_async_def Let_def)
  show "kc_objs s i = (req_put req kc)\<lparr>kc_op := req_op req\<rparr> \<Longrightarrow>
      ffkcall_exec K os i s = store_result i (kcall_sync K os req s)" for s i kc
    by (cases req) (simp_all add: ffkcall_exec_def)
  show "same_queue (snd (kcall_sync K os req s)) s" for s
    by (cases req) (simp_all add: call_same_queue)
qed (cases req; simp)+

subsection \<open>Rounds of the two threads\<close>

definition valid_op :: "u16 \<Rightarrow> bool" where
  "valid_op op \<longleftrightarrow> op \<in> {1, 2, 3, 4, 5}"

lemma req_op_valid [simp]: "valid_op (req_op req)" "\<not> valid_op 0"
  by (cases req) (simp_all add: valid_op_def)

lemma exec_cases:
  obtains (run) x where "valid_op (kc_op (kc_objs s i))" "same_queue (snd x) s" "ffkcall_exec K os i s = store_result i x"
  | (skip) "\<not> valid_op (kc_op (kc_objs s i))" "ffkcall_exec K os i s = (-1, s)"
  using call_same_queue unfolding ffkcall_exec_def valid_op_def Let_def
  by (smt (verit) insert_iff empty_iff)

definition post_ok :: "'w kernel \<Rightarrow> os \<Rightarrow> ('w, 'q) kcs \<Rightarrow> bool" where
  "post_ok K os s \<longleftrightarrow> kc_kqpost s = FFKQ_NULL \<or>
     (\<forall>st. fst (run_state (ffkq_post K os (kc_kqpost s) (kc_kqpost_data s)) st) = 0)"

lemma fst_on_sys: "fst (on_sys m s) = fst (run_state m (kc_sys s))"
  by (simp add: on_sys_def Let_def)

lemma sq_round_empty: "ringq_ok R items cap \<Longrightarrow> items (kc_sq s) = [] \<Longrightarrow> sq_round K os R s = None"
  by (simp add: sq_round_def ringq_okD(7))

lemma cq_round_empty: "ringq_ok R items cap \<Longrightarrow> items (kc_cq s) = [] \<Longrightarrow> cq_round R H s = None"
  by (simp add: cq_round_def ringq_okD(7,10))

text \<open>A round of the worker that finds a cancelled object drops it.\<close>

lemma sq_round_skip:
  assumes "ringq_ok R items cap" "items (kc_sq s) = i # q" "\<not> valid_op (kc_op (kc_objs s i))"
  shows "sq_round K os R s =
    Some (set_kc i ((kc_objs s i)\<lparr>kc_state := 0\<rparr>) (s\<lparr>kc_sq := snd (ffrq_fetch R (kc_sq s))\<rparr>))"
proof -
  let ?s = "s\<lparr>kc_sq := snd (ffrq_fetch R (kc_sq s))\<rparr>"
  have "ffkcall_exec K os i ?s = (-1, ?s)" using assms(3) by (cases rule: exec_cases [of ?s i K os]) auto
  then show ?thesis using ringq_okD(8) [OF assms(1,2)] by (simp add: sq_round_def Let_def)
qed

text \<open>Otherwise it performs the call and moves the object to the completion queue.\<close>

lemma sq_round_run:
  assumes "ringq_ok R items cap" "items (kc_sq s) = i # q" "valid_op (kc_op (kc_objs s i))"
    "length (items (kc_cq s)) < cap (kc_cq s)" "post_ok K os s" "\<not> kc_aborted s"
  obtains t x where "sq_round K os R s = Some t"
    "ffkcall_exec K os i (s\<lparr>kc_sq := snd (ffrq_fetch R (kc_sq s))\<rparr>) = store_result i x"
    "items (kc_sq t) = q" "cap (kc_sq t) = cap (kc_sq s)" "items (kc_cq t) = items (kc_cq s) @ [i]"
    "cap (kc_cq t) = cap (kc_cq s)" "\<not> kc_aborted t" "kc_kqpost t = kc_kqpost s"
    "kc_kqpost_data t = kc_kqpost_data s"
    "kc_objs t = (kc_objs s)(i := (kc_objs s i)\<lparr>kc_ptr := of_int (fst x),
       kc_word := of_int (kc_err (snd x)), kc_state := 2\<rparr>)"
proof -
  let ?s = "s\<lparr>kc_sq := snd (ffrq_fetch R (kc_sq s))\<rparr>"
  obtain x where x: "same_queue (snd x) ?s" "ffkcall_exec K os i ?s = store_result i x"
    using assms(3) by (cases rule: exec_cases [of ?s i K os]) auto
  note q = ringq_okD(2,8,9) [OF assms(1)] assms(2)
  note a = ringq_okD(1,3,4) [OF assms(1), where q = "kc_cq s" and x = i]
  let ?u = "(set_kc i ((kc_objs s i)\<lparr>kc_ptr := of_int (fst x), kc_word := of_int (kc_err (snd x)),
      kc_state := 2\<rparr>) (snd (store_result i x)))\<lparr>kc_cq := snd (ffrq_add R (kc_cq s) i)\<rparr>"
  let ?p = "on_sys (ffkq_post K os (kc_kqpost s) (kc_kqpost_data s)) ?u"
  let ?c = "items (kc_cq s) = [] \<and> kc_kqpost s \<noteq> FFKQ_NULL"
  have p: "?c \<Longrightarrow> fst ?p = 0" using assms(5) by (simp add: post_ok_def fst_on_sys)
  have r: "sq_round K os R s = Some (if ?c then snd ?p else ?u)"
    using x assms(4) q a p by (simp add: sq_round_def same_queue_def Let_def)
  show thesis
    by (rule that [OF r x(2)]) (use x(1) assms(4,6) q a in \<open>simp_all add: same_queue_def\<close>)
qed

lemma cq_round_step:
  assumes "ringq_ok R items cap" "items (kc_cq s) = i # q"
  obtains t where "items (kc_cq t) = q" "cap (kc_cq t) = cap (kc_cq s)" "kc_sq t = kc_sq s"
    "kc_aborted t = kc_aborted s" "kc_kqpost t = kc_kqpost s" "kc_kqpost_data t = kc_kqpost_data s"
    "kc_objs t = (kc_objs s)(i := (kc_objs s i)\<lparr>kc_state := 0\<rparr>)" "kc_sys t = kc_sys s"
    "cq_round R H s = Some (if kc_op (kc_objs s i) \<noteq> 0
       then H (kc_handler (kc_objs s i)) (kc_param (kc_objs s i)) t else t)"
proof (rule that [of "set_kc i ((kc_objs s i)\<lparr>kc_state := 0\<rparr>) (s\<lparr>kc_cq := snd (ffrq_fetch R (kc_cq s))\<rparr>)"])
qed (use ringq_okD(2,8,9,10) [OF assms(1)] assms(2) in \<open>auto simp: cq_round_def Let_def\<close>)

subsection \<open>Properties\<close>

lemma exec_sq: "kc_sq (snd (ffkcall_exec K os i s)) = kc_sq s"
  by (cases rule: exec_cases [of s i K os]) (auto simp: same_queue_def)

lemma sq_round_fetches:
  assumes "ringq_ok R items cap" "sq_round K os R s = Some t"
  shows "\<exists>i. items (kc_sq s) = i # items (kc_sq t)"
proof (cases "items (kc_sq s)")
  case Nil
  then show ?thesis using sq_round_empty [OF assms(1) Nil] assms(2) by simp
next
  case (Cons i q)
  then have "kc_sq t = snd (ffrq_fetch R (kc_sq s))"
    using assms(2) ringq_okD(8) [OF assms(1) Cons]
    by (auto simp: sq_round_def Let_def exec_sq kc_abort_def split: if_splits)
  then show ?thesis using Cons ringq_okD(9) [OF assms(1) Cons] by simp
qed

text \<open>
  The worker's loop always ends, for any contents of the submission queue and any
  behaviour of the system: it has then emptied the queue, or an assertion has failed.
\<close>

theorem process_sq_returns:
  assumes "ringq_ok R items cap"
  shows "\<exists>t. ffkcallq_process_sq K os R s = Some t \<and> (kc_aborted t \<or> items (kc_sq t) = [])"
proof (induction "length (items (kc_sq s))" arbitrary: s rule: less_induct)
  case less
  show ?case
  proof (cases "sq_round K os R s")
    case None
    then have "items (kc_sq s) = []"
      using ringq_okD(8) [OF assms] by (cases "items (kc_sq s)") (auto simp: sq_round_def Let_def split: if_splits)
    then show ?thesis using None by (subst ffkcallq_process_sq.simps) simp
  next
    case (Some t)
    then have "length (items (kc_sq t)) < length (items (kc_sq s))"
      using sq_round_fetches [OF assms Some] by auto
    then show ?thesis using Some less [of t] by (subst ffkcallq_process_sq.simps) auto
  qed
qed

fun req_bits :: "kreq \<Rightarrow> nat" where
  "req_bits (ROpen _ _) = 31" | "req_bits (RInfo _ _) = 31" | "req_bits _ = 63"

definition fits :: "nat \<Rightarrow> int \<Rightarrow> bool" where
  "fits n r \<longleftrightarrow> - (2 ^ n) \<le> r \<and> r < 2 ^ n"

lemma sint_of_fits: "fits 31 r \<Longrightarrow> sint (word_of_int r :: u32) = r" "fits 63 r \<Longrightarrow> sint (word_of_int r :: u64) = r"
  by (simp_all add: fits_def sint_sbintrunc' signed_take_bit_int_eq_self)

lemma ucast_word_of_int: "(ucast (word_of_int r :: u64) :: u32) = word_of_int r"
  by (rule bit_word_eqI) (simp add: bit_simps)

lemma req_conv_fits: "fits (req_bits req) r \<Longrightarrow> req_conv req (word_of_int r) = r"
  by (cases req) (simp_all add: sint_of_fits ucast_word_of_int)

lemma req_conv_op: "req_op again = req_op req \<Longrightarrow> req_conv again = req_conv req"
  by (cases again; cases req) (auto simp: fun_eq_iff)

text \<open>
  Claim C3.  An asynchronous call gives what the blocking call gives.  On an idle object the first
  call fails with in-progress; the worker's loop then performs the blocking call and ends; a call
  made meanwhile fails with busy; the completion round enters the handler in a state where repeating
  the call, with any arguments, returns the result and the error code of the blocking call and leaves
  the object idle.
\<close>

theorem kcall_async_is_sync:
  fixes s :: "('w, 'q) kcs" and K :: "'w kernel" and R :: "'q ringq" and os :: os and req :: kreq and i :: nat
  defines "s1 \<equiv> snd (kcall_request K os R req i s)"
  defines "x \<equiv> kcall_sync K os req (s1\<lparr>kc_sq := snd (ffrq_fetch R (kc_sq s1))\<rparr>)"
  assumes R: "ringq_ok R items cap" and idle: "kc_q (kc_objs s i)" "kc_state (kc_objs s i) = 0" "kc_op (kc_objs s i) = 0"
    and empty: "items (kc_sq s) = []" "items (kc_cq s) = []" "0 < cap (kc_sq s)" "0 < cap (kc_cq s)"
    and run: "post_ok K os s" "\<not> kc_aborted s"
    and same: "req_op again = req_op req"
    and fits: "fits (req_bits req) (fst x)" "fits 31 (kc_err (snd x))"
  shows "fst (kcall_request K os R req i s) = req_fail req \<and> kc_err s1 = EINPROGRESS \<and>
    (\<exists>s2 s3. ffkcallq_process_sq K os R s1 = Some s2 \<and>
       kcall_request K os R req' i s2 = (req_fail req', kc_set_err EBUSY s2) \<and>
       cq_round R H s2 = Some (H (kc_handler (kc_objs s i)) (kc_param (kc_objs s i)) s3) \<and>
       fst (kcall_request K os R again i s3) = fst x \<and>
       kc_err (snd (kcall_request K os R again i s3)) = kc_err (snd x) \<and>
       kc_op (kc_objs (snd (kcall_request K os R again i s3)) i) = 0)"
proof -
  have room: "length (items (kc_sq s)) < cap (kc_sq s)" using empty by simp
  note sub = request.submit [OF R idle room, of K os req, folded s1_def]
  have ok: "kc_objs s1 i = (req_put req (kc_objs s i))\<lparr>kc_op := req_op req\<rparr>" by (simp add: sub)
  note put = request.put_sel [of req "kc_objs s i"]
  have e: "ffkcall_exec K os i (s1\<lparr>kc_sq := snd (ffrq_fetch R (kc_sq s1))\<rparr>) = store_result i x"
    unfolding x_def by (rule request.exec) (simp add: ok)
  obtain s2 y where s2: "sq_round K os R s1 = Some s2"
      "ffkcall_exec K os i (s1\<lparr>kc_sq := snd (ffrq_fetch R (kc_sq s1))\<rparr>) = store_result i y"
      "items (kc_sq s2) = []" "items (kc_cq s2) = [i]" "\<not> kc_aborted s2"
      "kc_objs s2 = (kc_objs s1)(i := (kc_objs s1 i)\<lparr>kc_ptr := of_int (fst y),
        kc_word := of_int (kc_err (snd y)), kc_state := 2\<rparr>)"
    by (rule sq_round_run [OF R, of s1 i "[]" K os]) (use sub ok empty run in \<open>auto simp: post_ok_def\<close>)
  have "kc_ptr (kc_objs s2 i) = of_int (fst x) \<and> kc_word (kc_objs s2 i) = of_int (kc_err (snd x))"
    using arg_cong [of _ _ "\<lambda>z. kc_ptr (kc_objs (snd z) i)", OF trans [OF e [symmetric] s2(2)]]
      arg_cong [of _ _ "\<lambda>z. kc_word (kc_objs (snd z) i)", OF trans [OF e [symmetric] s2(2)]]
    by (simp add: s2(6))
  moreover have "ffkcallq_process_sq K os R s1 = Some s2"
    using s2 sq_round_empty [OF R s2(3)]
    by (subst ffkcallq_process_sq.simps, simp, subst ffkcallq_process_sq.simps, simp)
  moreover have k: "kc_q (kc_objs s2 i)" "kc_state (kc_objs s2 i) = 2" "kc_op (kc_objs s2 i) = req_op req"
      "kc_handler (kc_objs s2 i) = kc_handler (kc_objs s i)" "kc_param (kc_objs s2 i) = kc_param (kc_objs s i)"
    using idle by (simp_all add: s2 ok put)
  moreover obtain s3 where "kc_objs s3 = (kc_objs s2)(i := (kc_objs s2 i)\<lparr>kc_state := 0\<rparr>)"
      "cq_round R H s2 = Some (H (kc_handler (kc_objs s2 i)) (kc_param (kc_objs s2 i)) s3)"
    by (rule cq_round_step [OF R s2(4), of H]) (use k request.op_nz in auto)
  ultimately show ?thesis
    using sub(1,2) request.busy [of s2 i] request.collect [of s3 i K os R again] req_conv_op [OF same] request.op_nz [of req]
      req_conv_fits [OF fits(1)] sint_of_fits(1) [OF fits(2)]
    by (intro conjI exI [of _ s2] exI [of _ s3]) simp_all
qed

definition idle_kcs :: "nat \<Rightarrow> (nat, nat \<times> nat list) kcs" where
  "idle_kcs n = \<lparr>kc_sys = start 0 0,
     kc_objs = (\<lambda>i. \<lparr>kc_q = True, kc_op = 0, kc_state = 0, kc_word = 0, kc_ptr = 0, kc_size = 0,
       kc_handler = 1, kc_param = int i\<rparr>),
     kc_sq = (n, []), kc_cq = (n, []), kc_sem = SemNull, kc_kqpost = -1, kc_kqpost_data = 0,
     kc_names = (\<lambda>p. ''file''), kc_mem = (\<lambda>p. 0), kc_infos = (\<lambda>p. stat_undef), kc_aborted = False\<rparr>"

definition okK :: "call \<Rightarrow> nat \<Rightarrow> reply \<times> nat" where
  "okK c w = (\<lparr>rv = 7, rerr = None, rout = NoOut\<rparr>, w + 1)"

lemmas kcall_eval = idle_kcs_def list_ringq_def okK_def fffile_open_async_def fffile_read_async_def
  ffkcall_add_def call_open_def call_read_def fffile_open_def fffile_read_def set_kc_def on_sys_def
  kc_set_err_def kc_err_def run_simps Let_def O_LARGEFILE_def

theorem process_sq_returns_witness:
  "ffkcallq_process_sq okK Linux list_ringq (idle_kcs 4) = Some (idle_kcs 4)"
proof -
  have "ffkcallq_process_sq okK Linux list_ringq (idle_kcs 4) \<noteq> None"
    using process_sq_returns [OF list_ringq_ok, of okK Linux "idle_kcs 4"] by auto
  then show ?thesis
    using sq_round_empty [OF list_ringq_ok, of "idle_kcs 4" okK Linux]
    by (subst ffkcallq_process_sq.simps) (simp add: idle_kcs_def)
qed

theorem kcall_async_witness:
  "\<exists>s2 s3. ffkcallq_process_sq okK Linux list_ringq
      (snd (fffile_read_async okK list_ringq 5 100 3 1 (idle_kcs 4))) = Some s2 \<and>
    cq_round list_ringq (\<lambda>h p s. s) s2 = Some s3 \<and>
    fst (fffile_read_async okK list_ringq 0 0 0 1 s3) = 7"
proof -
  let ?req = "RRead 5 100 3"
  let ?s1 = "snd (kcall_request okK Linux list_ringq ?req 1 (idle_kcs 4))"
  let ?x = "kcall_sync okK Linux ?req (?s1\<lparr>kc_sq := snd (ffrq_fetch list_ringq (kc_sq ?s1))\<rparr>)"
  have x: "fst ?x = 7" "kc_err (snd ?x) = EINPROGRESS"
    by (simp_all add: kcall_eval)
  have "\<exists>s2 s3. ffkcallq_process_sq okK Linux list_ringq ?s1 = Some s2 \<and>
      cq_round list_ringq (\<lambda>h p s. s) s2 = Some s3 \<and> fst (kcall_request okK Linux list_ringq (RRead 0 0 0) 1 s3) = 7"
    using kcall_async_is_sync [OF list_ringq_ok, of "idle_kcs 4" 1 okK Linux "RRead 0 0 0" ?req ?req "\<lambda>h p s. s"] x
    by (auto simp: idle_kcs_def post_ok_def fits_def)
  then show ?thesis by simp
qed

text \<open>
  Claim C39.  The state \<open>1\<close> (in the submission queue) is never set.  A call repeated while the
  object still waits there is not refused: it returns the low half of the name's address as the
  descriptor, with the open flags as the error code, and cancels the operation, so that the worker
  drops the object and its handler is never called.
\<close>

theorem kcall_repeat_in_sq:
  assumes R: "ringq_ok R items cap" and idle: "kc_q (kc_objs s i)" "kc_state (kc_objs s i) = 0" "kc_op (kc_objs s i) = 0"
    and empty: "items (kc_sq s) = []" "items (kc_cq s) = []" "0 < cap (kc_sq s)" "\<not> kc_aborted s"
  shows "let s1 = snd (fffile_open_async K os R name flags i s);
      again = fffile_open_async K os R name' flags' i s1 in
    kc_state (kc_objs s1 i) = 0 \<and> items (kc_sq s1) = [i] \<and>
    fst again = sint (ucast name :: u32) \<and> kc_err (snd again) = sint flags \<and>
    (\<exists>s2. ffkcallq_process_sq K os R (snd again) = Some s2 \<and> items (kc_sq s2) = [] \<and> items (kc_cq s2) = [])"
proof -
  let ?r = "ROpen name flags"
  define s1 where "s1 = snd (kcall_request K os R ?r i s)"
  have room: "length (items (kc_sq s)) < cap (kc_sq s)" using empty by simp
  note sub = request.submit [OF R idle room, of K os ?r, folded s1_def]
  have o: "kc_objs s1 i = (kc_objs s i)\<lparr>kc_ptr := name, kc_word := flags, kc_op := 1\<rparr>" by (simp add: sub)
  define s2 where "s2 = snd (kcall_request K os R (ROpen name' flags') i s1)"
  have c: "kcall_request K os R (ROpen name' flags') i s1 = (sint (ucast name :: u32),
      kc_set_err (sint flags) (set_kc i ((kc_objs s1 i)\<lparr>kc_op := 0\<rparr>) s1))"
    using request.collect [of s1 i K os R "ROpen name' flags'"] idle by (simp add: o)
  note c = c [unfolded kcall_request.simps]
  let ?t = "set_kc i ((kc_objs s2 i)\<lparr>kc_state := 0\<rparr>) (s2\<lparr>kc_sq := snd (ffrq_fetch R (kc_sq s2))\<rparr>)"
  have q: "items (kc_sq s2) = [i]" "kc_op (kc_objs s2 i) = 0" "kc_cq s2 = kc_cq s" "\<not> kc_aborted s2"
    using sub(3,5,6) empty by (simp_all add: s2_def c)
  have "sq_round K os R s2 = Some ?t" by (rule sq_round_skip [OF R q(1)]) (simp add: q)
  moreover have t: "items (kc_sq ?t) = []" using ringq_okD(9) [OF R q(1)] by simp
  moreover have "sq_round K os R ?t = None" by (rule sq_round_empty [OF R t])
  ultimately have "ffkcallq_process_sq K os R s2 = Some ?t"
    using q(4) by (subst ffkcallq_process_sq.simps, simp, subst ffkcallq_process_sq.simps, simp)
  moreover have "items (kc_cq ?t) = []" using q(3) empty by simp
  ultimately have "\<exists>u. ffkcallq_process_sq K os R s2 = Some u \<and> items (kc_sq u) = [] \<and> items (kc_cq u) = []"
    using t by blast
  then show ?thesis using c idle sub(3) empty unfolding s2_def by (simp add: o s1_def [unfolded kcall_request.simps, symmetric] Let_def)
qed

theorem kcall_repeat_witness:
  "fst (fffile_open_async okK Linux list_ringq 0 0 1
     (snd (fffile_open_async okK Linux list_ringq 0x1234 0x42 1 (idle_kcs 4)))) = 0x1234"
proof -
  have "ringq_ok list_ringq snd fst" "kc_q (kc_objs (idle_kcs 4) 1)" "kc_state (kc_objs (idle_kcs 4) 1) = 0"
    "kc_op (kc_objs (idle_kcs 4) 1) = 0" "snd (kc_sq (idle_kcs 4)) = []" "snd (kc_cq (idle_kcs 4)) = []"
    "0 < fst (kc_sq (idle_kcs 4))" "\<not> kc_aborted (idle_kcs 4)"
    by (simp_all add: idle_kcs_def list_ringq_ok)
  from kcall_repeat_in_sq [OF this, of okK Linux "0x1234" "0x42" 0 0] show ?thesis by (simp add: Let_def)
qed

subsection \<open>Interleavings\<close>













end
