(* ===== verification/Dir.thy ===== *)
theory Dir
  imports File File_Win Path
begin

text \<open>
  Directories (\<open>FFOS/dir.h\<close>), UNIX and Windows.

  The functions that change the caller's path in place and restore it are modelled on the buffer:
  a list of characters that contains the terminating zero, of which \<open>c_str\<close> is the string.
\<close>

text \<open>Writing characters into a buffer.\<close>

definition buf_put :: "nat \<Rightarrow> string \<Rightarrow> string \<Rightarrow> string" where
  "buf_put off xs b = take off b @ xs @ drop (off + length xs) b"

subsection \<open>UNIX\<close>

definition ffdir_make :: "'w kernel \<Rightarrow> string \<Rightarrow> ('w, int) prog" where
  "ffdir_make K name = sysi K (FileC (Mkdir name 0x1FF))"

text \<open>
  The loop over the characters from \<open>off\<close> on; \<open>n\<close> counts the characters of the buffer that
  are left, \<open>None\<close> means that the loop ran past its end.
\<close>

fun make_all_loop :: "'w kernel \<Rightarrow> nat \<Rightarrow> nat \<Rightarrow> string \<Rightarrow> ('w, (int \<times> string) option) prog" where
  "make_all_loop K 0 off path = State_Monad.return None"
| "make_all_loop K (Suc n) off path =
     (let c = path ! off in
      if c = CHR ''/'' \<or> c = NUL then do {
        let path = path[off := NUL];
        r \<leftarrow> ffdir_make K (c_str path);
        let path = path[off := c];
        e \<leftarrow> fferr_last;
        if r \<noteq> 0 \<and> e \<noteq> EEXIST then State_Monad.return (Some (r, path))
        else if c = NUL then State_Monad.return (Some (0, path))
        else make_all_loop K n (off + 1) path
      }
      else make_all_loop K n (off + 1) path)"

definition ffdir_make_all :: "'w kernel \<Rightarrow> string \<Rightarrow> nat \<Rightarrow> ('w, (int \<times> string) option) prog" where
  "ffdir_make_all K path off =
     (let off = (if path ! off = CHR ''/'' then off + 1 else off)
      in make_all_loop K (length path - off) off path)"

definition ffdir_remove :: "'w kernel \<Rightarrow> string \<Rightarrow> ('w, int) prog" where
  "ffdir_remove K name = sysi K (FileC (Rmdir name))"

text \<open>\<open>name\<close> is a buffer too.\<close>

definition ffdir_make_path :: "'w kernel \<Rightarrow> ffbase \<Rightarrow> string \<Rightarrow> nat \<Rightarrow> ('w, (int \<times> string) option) prog" where
  "ffdir_make_path K B name off =
     (let slash = ffs_rfindchar B (c_str name) (CHR ''/'') in
      if slash \<le> 0 then State_Monad.return (Some (0, name))
      else do {
        let c = name ! nat slash;
        r \<leftarrow> ffdir_make_all K (name[nat slash := NUL]) off;
        State_Monad.return (map_option (\<lambda>x. (fst x, (snd x)[nat slash := c])) r)
      })"

text \<open>\<open>de_name\<close> is \<open>de->d_name\<close>; \<open>de_path\<close> is the caller's buffer.\<close>

record ffdirentry =
  de_info :: stat
  de_path_len :: nat
  de_path :: string
  de_path_cap :: nat
  de_name :: string

definition ffdir_open :: "'w kernel \<Rightarrow> string \<Rightarrow> nat \<Rightarrow> ffdirentry \<Rightarrow> ('w, int \<times> ffdirentry) prog" where
  "ffdir_open K path path_cap ent = do {
     r \<leftarrow> sysi K (FileC (Opendir (c_str path)));
     State_Monad.return (r, ent\<lparr>de_path_len := length (c_str path), de_path := path, de_path_cap := path_cap\<rparr>)
   }"

definition ffdir_close :: "'w kernel \<Rightarrow> int \<Rightarrow> ('w, unit) prog" where
  "ffdir_close K d = do { sysi K (FileC (Closedir d)); State_Monad.return () }"

definition ffdir_read :: "'w kernel \<Rightarrow> int \<Rightarrow> ffdirentry \<Rightarrow> ('w, int \<times> ffdirentry) prog" where
  "ffdir_read K dir ent = do {
     fferr_set 0;
     x \<leftarrow> sys K (FileC (Readdir dir));
     State_Monad.return (if rv x = 0 then (-1, ent\<lparr>de_name := []\<rparr>) else (0, ent\<lparr>de_name := out_text x\<rparr>))
   }"

definition ffdir_entry_name :: "ffdirentry \<Rightarrow> string" where
  "ffdir_entry_name ent = de_name ent"

definition ffdir_entry_fullpath :: "ffdirentry \<Rightarrow> string \<Rightarrow> ('w, string option) prog" where
  "ffdir_entry_fullpath ent name =
     (if de_path_len ent + length name + 1 \<ge> de_path_cap ent
      then do { fferr_set EOVERFLOW; State_Monad.return None }
      else State_Monad.return (Some
        (buf_put (de_path_len ent + length name + 1) [NUL]
          (buf_put (de_path_len ent + 1) name (buf_put (de_path_len ent) ''/'' (de_path ent))))))"

text \<open>The result: whether \<open>&ent->info\<close> is returned.\<close>

definition ffdir_entry_info :: "'w kernel \<Rightarrow> ffdirentry \<Rightarrow> ('w, bool \<times> ffdirentry) prog" where
  "ffdir_entry_info K ent = do {
     p \<leftarrow> ffdir_entry_fullpath ent (ffdir_entry_name ent);
     case p of
       None \<Rightarrow> State_Monad.return (False, ent)
     | Some b \<Rightarrow> do {
         x \<leftarrow> sys K (FileC (Stat (c_str b)));
         State_Monad.return (rv x = 0,
           ent\<lparr>de_info := out_stat (de_info ent) x, de_path := b[de_path_len ent := NUL]\<rparr>)
       }
   }"

subsection \<open>Windows\<close>

definition ffdir_make_win :: "'w kernel \<Rightarrow> wconv \<Rightarrow> string \<Rightarrow> ('w, int) prog" where
  "ffdir_make_win K U name = do {
     w \<leftarrow> utow256 K U name;
     if w = WNull then State_Monad.return (-1)
     else do {
       r \<leftarrow> sysi K (WinFile (CreateDirectoryW (w_chars w)));
       w_free K w;
       State_Monad.return (c_bool (r = 0))
     }
   }"

definition ffdir_remove_win :: "'w kernel \<Rightarrow> wconv \<Rightarrow> string \<Rightarrow> ('w, int) prog" where
  "ffdir_remove_win K U name = do {
     w \<leftarrow> utow256 K U name;
     if w = WNull then State_Monad.return (-1)
     else do {
       r \<leftarrow> sysi K (WinFile (RemoveDirectoryW (w_chars w)));
       w_free K w;
       State_Monad.return (c_bool (r = 0))
     }
   }"

text \<open>The wide path with its terminator; the directories are named by its prefixes.\<close>

definition w_slash :: "u16 \<Rightarrow> bool" where
  "w_slash c \<longleftrightarrow> c = 0x2F \<or> c = 0x5C"

fun make_all_loop_win :: "'w kernel \<Rightarrow> nat \<Rightarrow> nat \<Rightarrow> wstr \<Rightarrow> ('w, int option) prog" where
  "make_all_loop_win K 0 off w = State_Monad.return None"
| "make_all_loop_win K (Suc n) off w =
     (let c = w ! off in
      if w_slash c \<or> c = 0 then do {
        x \<leftarrow> sysi K (WinFile (CreateDirectoryW (take off w)));
        let r = c_bool (x = 0);
        e \<leftarrow> fferr_last;
        if r \<noteq> 0 \<and> e \<noteq> ERROR_ALREADY_EXISTS then State_Monad.return (Some r)
        else if c = 0 then State_Monad.return (Some r)
        else make_all_loop_win K n (off + 1) w
      }
      else make_all_loop_win K n (off + 1) w)"

definition make_all_start_win :: "wstr \<Rightarrow> nat \<Rightarrow> nat" where
  "make_all_start_win w off =
     (let first = (w ! 0) OR 0x20;
        off = (if off = 0 \<and> first \<ge> 0x61 \<and> first \<le> 0x7A \<and> w ! 1 = 0x3A then 2 else off)
      in if w_slash (w ! off) then off + 1 else off)"

definition ffdir_make_all_win :: "'w kernel \<Rightarrow> wconv \<Rightarrow> string \<Rightarrow> nat \<Rightarrow> ('w, int option) prog" where
  "ffdir_make_all_win K U path off = do {
     w \<leftarrow> utow256 K U path;
     if w = WNull then State_Monad.return (Some (-1))
     else do {
       let ws = w_chars w @ [0];
       let off = make_all_start_win ws off;
       r \<leftarrow> make_all_loop_win K (length ws - off) off ws;
       w_free K w;
       State_Monad.return r
     }
   }"

definition ffdir_make_path_win :: "'w kernel \<Rightarrow> wconv \<Rightarrow> ffbase \<Rightarrow> string \<Rightarrow> nat \<Rightarrow> ('w, int option) prog" where
  "ffdir_make_path_win K U B name off =
     (let slash = ffs_rfindany B name [CHR ''/'', CHR 0x5C] in
      if slash \<le> 0 then State_Monad.return (Some 0)
      else ffdir_make_all_win K U (take (nat slash) name) off)"

record find_data =
  fd_info :: winfileinfo
  cFileName :: wstr

record ffdirentry_win =
  dw_info :: winfileinfo
  dw_find :: find_data
  dw_name :: string
  dw_next :: bool

definition out_find :: "find_data \<Rightarrow> reply \<Rightarrow> find_data" where
  "out_find d r = (case rout r of OFind i n \<Rightarrow> \<lparr>fd_info = i, cFileName = n\<rparr> | _ \<Rightarrow> d)"

definition ffdir_open_win ::
  "'w kernel \<Rightarrow> wconv \<Rightarrow> string \<Rightarrow> nat \<Rightarrow> ffdirentry_win \<Rightarrow> ('w, int \<times> ffdirentry_win) prog" where
  "ffdir_open_win K U path cap ent =
     (let len = length path in
      if len = 0 \<or> len + 2 \<ge> cap
      then do { fferr_set ERROR_INVALID_DATA; State_Monad.return (0, ent) }
      else do {
        w \<leftarrow> utow256 K U (if ffpath_slash_win (last path) then path @ ''*'' else path @ [CHR 0x5C, CHR ''*'']);
        if w = WNull then State_Monad.return (0, ent)
        else do {
          x \<leftarrow> sys K (WinFile (FindFirstFileW (w_chars w)));
          w_free K w;
          State_Monad.return (if rv x = -1 then (0, ent)
            else (rv x, ent\<lparr>dw_find := out_find (dw_find ent) x, dw_next := False\<rparr>))
        }
      })"

definition ffdir_close_win :: "'w kernel \<Rightarrow> int \<Rightarrow> ('w, unit) prog" where
  "ffdir_close_win K dir = do { sysi K (WinFile (FindClose dir)); State_Monad.return () }"

text \<open>Converting the name of the entry found.\<close>

definition dir_name_win :: "wconv \<Rightarrow> ffdirentry_win \<Rightarrow> ('w, int \<times> ffdirentry_win) prog" where
  "dir_name_win U ent =
     (let n = ffsz_wtou U 1024 (cFileName (dw_find ent)) in
      if 0 \<ge> fst n then do { fferr_set ERROR_INVALID_DATA; State_Monad.return (-1, ent) }
      else State_Monad.return (0, ent\<lparr>dw_name := snd n\<rparr>))"

definition ffdir_read_win :: "'w kernel \<Rightarrow> wconv \<Rightarrow> int \<Rightarrow> ffdirentry_win \<Rightarrow> ('w, int \<times> ffdirentry_win) prog" where
  "ffdir_read_win K U dir ent =
     (if \<not> dw_next ent then dir_name_win U (ent\<lparr>dw_next := True\<rparr>)
      else do {
        x \<leftarrow> sys K (WinFile (FindNextFileW dir));
        if rv x = 0 then State_Monad.return (-1, ent)
        else dir_name_win U (ent\<lparr>dw_find := out_find (dw_find ent) x\<rparr>)
      })"

definition ffdir_entry_info_win :: "ffdirentry_win \<Rightarrow> ffdirentry_win" where
  "ffdir_entry_info_win ent =
     ent\<lparr>dw_info := (fd_info (dw_find ent))\<lparr>nFileIndexHigh := 0, nFileIndexLow := 0\<rparr>\<rparr>"

subsection \<open>Which directories are made\<close>

text \<open>
  The positions at which the loop makes a directory: the separators from \<open>off\<close> on and the end.
  The directory made is the part of the path before the position.
\<close>

definition make_points :: "string \<Rightarrow> nat \<Rightarrow> nat list" where
  "make_points s off = filter (\<lambda>p. p = length s \<or> s ! p = CHR ''/'') [off..<Suc (length s)]"

definition mkdir_at :: "string \<Rightarrow> nat \<Rightarrow> call" where
  "mkdir_at s p = FileC (Mkdir (take p s) 0x1FF)"

lemma make_points_rec:
  "off \<le> length s \<Longrightarrow> make_points s off =
     (if off = length s \<or> s ! off = CHR ''/'' then [off] else []) @ make_points s (Suc off)"
  by (simp add: make_points_def upt_conv_Cons del: upt_Suc)

lemma make_points_end [simp]: "make_points s (Suc (length s)) = []"
  by (simp add: make_points_def)

lemma c_str_cut:
  assumes "NUL \<notin> set s" "off \<le> length s"
  shows "c_str ((s @ NUL # rest)[off := NUL]) = take off s"
proof -
  have "(s @ NUL # rest)[off := NUL] = take off s @ NUL # drop (Suc off) (s @ NUL # rest)"
    using assms(2) by (simp add: upd_conv_take_nth_drop)
  moreover have "NUL \<notin> set (take off s)" using assms(1) by (metis in_set_takeD)
  ultimately show ?thesis by (simp add: c_str_app)
qed

text \<open>
  What the loop has done when it returns \<open>r\<close> in \<open>st'\<close>: it asked for the directories at the first
  \<open>k\<close> of the points, and at all of them if the result is \<open>0\<close>.  \<open>D\<close> is a fact that every accepted
  request establishes and later ones keep; if no request is refused (\<open>ok\<close>) the result is \<open>0\<close>.
\<close>

declare calls_of_simps [simp del]

definition made :: "bool \<Rightarrow> (nat \<Rightarrow> 'w sys \<Rightarrow> bool) \<Rightarrow> string \<Rightarrow> string \<Rightarrow> nat \<Rightarrow> 'w sys \<Rightarrow> (int \<times> string) option \<Rightarrow> 'w sys \<Rightarrow> bool" where
  "made ok D s b off st r st' \<longleftrightarrow> (\<exists>v k. r = Some (v, b) \<and> (\<forall>q. D q st \<longrightarrow> D q st') \<and>
     calls_of st' = calls_of st @ map (mkdir_at s) (take k (make_points s off)) \<and>
     (v = 0 \<longrightarrow> length (make_points s off) \<le> k \<and> (\<forall>p\<in>set (make_points s off). D p st')) \<and> (ok \<longrightarrow> v = 0))"

text \<open>What one request does.\<close>

definition requested :: "bool \<Rightarrow> (nat \<Rightarrow> 'w sys \<Rightarrow> bool) \<Rightarrow> string \<Rightarrow> nat \<Rightarrow> 'w sys \<Rightarrow> int \<Rightarrow> 'w sys \<Rightarrow> bool" where
  "requested ok D s p st r st' \<longleftrightarrow> calls_of st' = calls_of st @ [mkdir_at s p] \<and> (\<forall>q. D q st \<longrightarrow> D q st') \<and>
     (r = 0 \<or> lasterr st' = EEXIST \<longrightarrow> D p st') \<and> (ok \<longrightarrow> r = 0 \<or> lasterr st' = EEXIST)"

lemma made_refused:
  assumes "requested ok D s off st r st'" "\<not> (r = 0 \<or> lasterr st' = EEXIST)" "make_points s off = off # ps"
  shows "made ok D s b off st (Some (r, b)) st'"
  unfolding made_def by (rule exI [of _ r], rule exI [of _ 1]) (use assms in \<open>simp add: requested_def\<close>)

lemma made_last:
  assumes "requested ok D s off st r st'" "r = 0 \<or> lasterr st' = EEXIST" "make_points s off = [off]"
  shows "made ok D s b off st (Some (0, b)) st'"
  unfolding made_def by (rule exI [of _ 0], rule exI [of _ 1]) (use assms in \<open>auto simp: requested_def\<close>)

lemma made_cons:
  assumes "requested ok D s off st r st1" "r = 0 \<or> lasterr st1 = EEXIST" "make_points s off = off # make_points s (Suc off)"
    "made ok D s b (Suc off) st1 x st'"
  shows "made ok D s b off st x st'"
proof -
  from assms(4) obtain v k where *: "x = Some (v, b)" "\<forall>q. D q st1 \<longrightarrow> D q st'"
    "calls_of st' = calls_of st1 @ map (mkdir_at s) (take k (make_points s (Suc off)))"
    "v = 0 \<longrightarrow> length (make_points s (Suc off)) \<le> k \<and> (\<forall>p\<in>set (make_points s (Suc off)). D p st')" "ok \<longrightarrow> v = 0"
    unfolding made_def by blast
  show ?thesis
    unfolding made_def
    by (rule exI [of _ v], rule exI [of _ "Suc k"]) (use * assms(1-3) in \<open>auto simp: requested_def\<close>)
qed

lemma make_all_loop_rule:
  assumes "NUL \<notin> set s" "off \<le> length s" "Suc (length s - off) \<le> n"
    and step: "\<And>p st. p \<le> length s \<Longrightarrow> wp (ffdir_make K (take p s)) (requested ok D s p st) st"
  shows "wp (make_all_loop K n off (s @ NUL # rest)) (made ok D s (s @ NUL # rest) off st) st"
  using assms(2,3)
proof (induction n arbitrary: off st)
  case (Suc n)
  let ?b = "s @ NUL # rest"
  have c: "?b ! off = (if off = length s then NUL else s ! off)"
    using Suc.prems by (auto simp: nth_append)
  have nul: "s ! off \<noteq> NUL" if "off \<noteq> length s" using assms(1) that Suc.prems by (metis le_neq_implies_less nth_mem)
  have restore: "?b[off := NUL, off := ?b ! off] = ?b" by simp
  have nxt: "wp (make_all_loop K n (Suc off) ?b) (made ok D s ?b (Suc off) st1) st1" if "off \<noteq> length s" for st1
    by (rule Suc.IH) (use that Suc.prems in auto)
  note rec = make_points_rec [OF Suc.prems(1)]
  show ?case
  proof (cases "off = length s \<or> s ! off = CHR ''/''")
    case False
    then have "make_points s off = make_points s (Suc off)"
      "make_all_loop K (Suc n) off ?b = make_all_loop K n (Suc off) ?b"
      using nul by (simp_all add: rec c)
    moreover from this(1) have "made ok D s ?b off st = made ok D s ?b (Suc off) st" by (simp add: made_def fun_eq_iff)
    ultimately show ?thesis using nxt [of st] False by simp
  next
    case True
    then have cc: "?b ! off = CHR ''/'' \<or> ?b ! off = NUL" and ps: "\<exists>ps. make_points s off = off # ps" by (auto simp: c rec)
    show ?thesis
      unfolding make_all_loop.simps Let_def if_P [OF cc] c_str_cut [OF assms(1) Suc.prems(1)] restore Suc_eq_plus1 [symmetric]
    proof (rule wp_bind, rule wp_mono [OF step [OF Suc.prems(1)]], intro wp_intros)
      fix r st1
      assume st1: "requested ok D s off st r st1"
      show "made ok D s ?b off st (Some (r, ?b)) st1" if "r \<noteq> 0 \<and> lasterr st1 \<noteq> EEXIST"
        using made_refused [OF st1] that ps by blast
      assume a: "\<not> (r \<noteq> 0 \<and> lasterr st1 \<noteq> EEXIST)"
      show "made ok D s ?b off st (Some (0, ?b)) st1" if "?b ! off = NUL"
        by (rule made_last [OF st1]) (use that a nul in \<open>auto simp: rec c split: if_splits\<close>)
      show "wp (make_all_loop K n (Suc off) ?b) (made ok D s ?b off st) st1" if "?b ! off \<noteq> NUL"
      proof -
        have ne: "off \<noteq> length s" using that by (auto simp: c)
        show ?thesis by (rule wp_mono [OF nxt [OF ne]], rule made_cons [OF st1]) (use ne a True in \<open>auto simp: rec\<close>)
      qed
    qed
  qed
qed simp

text \<open>The same for \<open>ffdir_make_all\<close>, which skips a separator at \<open>off\<close>.\<close>

definition first_off :: "string \<Rightarrow> nat \<Rightarrow> nat" where
  "first_off s off = (if off < length s \<and> s ! off = CHR ''/'' then off + 1 else off)"

lemma make_all_rule:
  assumes "NUL \<notin> set s" "off \<le> length s" "\<And>p st. p \<le> length s \<Longrightarrow> wp (ffdir_make K (take p s)) (requested ok D s p st) st"
  shows "wp (ffdir_make_all K (s @ NUL # rest) off) (made ok D s (s @ NUL # rest) (first_off s off) st) st"
proof -
  have "(if (s @ NUL # rest) ! off = CHR ''/'' then off + 1 else off) = first_off s off"
    using assms(2) by (auto simp: nth_append first_off_def)
  then show ?thesis
    unfolding ffdir_make_all_def Let_def
    by simp (rule make_all_loop_rule [OF assms(1) _ _ assms(3)], use assms(2) in \<open>auto simp: first_off_def\<close>)
qed

text \<open>
  \<open>ffdir_make_all\<close> asks the system for the directories named by the path up to each
  separator at or after \<open>off\<close> and by the whole path, outermost first (never for \<open>"/"\<close>), stops
  at the first failure other than "already exists", and returns \<open>0\<close> only if it asked for all
  of them.  The caller's buffer is as before in every case, and the loop stays inside it.
\<close>

theorem make_all_makes_prefixes:
  assumes "NUL \<notin> set s" "off \<le> length s"
  shows "wp (ffdir_make_all K (s @ NUL # rest) off)
    (\<lambda>r st. \<exists>v k. r = Some (v, s @ NUL # rest) \<and>
       (let points = make_points s (if off < length s \<and> s ! off = CHR ''/'' then off + 1 else off) in
        calls_of st = map (mkdir_at s) (take k points) \<and> (v = 0 \<longrightarrow> length points \<le> k))) (start w e)"
proof -
  have "wp (ffdir_make_all K (s @ NUL # rest) off) (made False (\<lambda>_ _. True) s (s @ NUL # rest) (first_off s off) (start w e)) (start w e)"
    by (rule make_all_rule [OF assms], unfold ffdir_make_def, intro wp_intros) (simp add: mkdir_at_def calls_of_def requested_def)
  moreover have "calls_of (start w e) = []" by (simp add: calls_of_def)
  ultimately show ?thesis
    unfolding Let_def first_off_def by (elim wp_mono) (auto simp: made_def)
qed

theorem make_all_makes_prefixes_witness:
  "calls_of (snd (run_state (ffdir_make_all (\<lambda>c w. (\<lparr>rv = 0, rerr = None, rout = NoOut\<rparr>, w)) (''/a/b/c'' @ NUL # []) 2)
     (start () 0))) = [FileC (Mkdir ''/a/b'' 0x1FF), FileC (Mkdir ''/a/b/c'' 0x1FF)]"
proof -
  let ?K = "\<lambda>c w. (\<lparr>rv = 0, rerr = None, rout = NoOut\<rparr>, w)"
  have "wp (ffdir_make_all ?K (''/a/b/c'' @ NUL # []) 2)
    (\<lambda>r st. \<exists>v k. r = Some (v, ''/a/b/c'' @ NUL # []) \<and>
       (let points = make_points ''/a/b/c'' (if 2 < length ''/a/b/c'' \<and> ''/a/b/c'' ! 2 = CHR ''/'' then 2 + 1 else 2) in
        calls_of st = map (mkdir_at ''/a/b/c'') (take k points) \<and> (v = 0 \<longrightarrow> length points \<le> k))) (start () 0)"
    by (rule make_all_makes_prefixes) simp_all
  note wpD [OF this]
  moreover have "fst (run_state (ffdir_make_all ?K (''/a/b/c'' @ NUL # []) 2) (start () 0)) =
      Some (0, ''/a/b/c'' @ NUL # [])"
    by (simp add: ffdir_make_all_def ffdir_make_def run_simps c_str_def numeral_eq_Suc Let_def)
  moreover have "make_points ''/a/b/c'' 3 = [4, 6]" by (simp add: make_points_def upt_rec)
  ultimately show ?thesis by (auto simp: Let_def mkdir_at_def)
qed

text \<open>
  What UNIX documents of \<open>mkdir\<close>: directories stay, a failure sets \<open>errno\<close>, and after success
  or \<open>EEXIST\<close> the name exists.
\<close>

definition mkdir_laws :: "'w kernel \<Rightarrow> ('w \<Rightarrow> string \<Rightarrow> bool) \<Rightarrow> bool" where
  "mkdir_laws K ex \<longleftrightarrow> (\<forall>d m w r w'. K (FileC (Mkdir d m)) w = (r, w') \<longrightarrow>
     (\<forall>p. ex w p \<longrightarrow> ex w' p) \<and> (rv r = 0 \<or> rerr r = Some EEXIST \<longrightarrow> ex w' d) \<and>
     (rv r \<noteq> 0 \<longrightarrow> rerr r \<noteq> None))"

text \<open>No request is refused.\<close>

definition mkdir_works :: "'w kernel \<Rightarrow> bool" where
  "mkdir_works K \<longleftrightarrow> (\<forall>d m w. let r = fst (K (FileC (Mkdir d m)) w) in rv r = 0 \<or> rerr r = Some EEXIST)"

lemma make_requested:
  assumes "mkdir_laws K ex"
  shows "wp (ffdir_make K (take p s)) (requested (mkdir_works K) (\<lambda>q st. ex (world st) (take q s)) s p st) st"
  unfolding ffdir_make_def
proof (intro wp_intros)
  fix r and s' :: "'a sys"
  assume k: "K (FileC (Mkdir (take p s) 0x1FF)) (world st) = (r, world s')"
    and t: "trace s' = trace st @ [(FileC (Mkdir (take p s) 0x1FF), r)]" "lasterr s' = err_after r (lasterr st)"
  from assms k have "(\<forall>q. ex (world st) q \<longrightarrow> ex (world s') q) \<and>
     (rv r = 0 \<or> rerr r = Some EEXIST \<longrightarrow> ex (world s') (take p s)) \<and> (rv r \<noteq> 0 \<longrightarrow> rerr r \<noteq> None)"
    unfolding mkdir_laws_def by blast
  moreover have "mkdir_works K \<longrightarrow> rv r = 0 \<or> rerr r = Some EEXIST" using k unfolding mkdir_works_def Let_def by (metis fst_conv)
  ultimately show "requested (mkdir_works K) (\<lambda>q st. ex (world st) (take q s)) s p st (rv r) s'"
    using t by (auto simp: calls_of_def mkdir_at_def requested_def err_after_def split: option.splits)
qed

text \<open>The same for \<open>ffdir_make_path\<close> of a path \<open>dir/name\<close>, which puts the separator back.\<close>

lemma make_path_rule:
  fixes rest :: string
  assumes "ffbase_ok B" "NUL \<notin> set dir" "NUL \<notin> set name" "CHR ''/'' \<notin> set name" "dir \<noteq> []" "off \<le> length dir"
    and step: "\<And>p st. p \<le> length dir \<Longrightarrow> wp (ffdir_make K (take p dir)) (requested ok D dir p st) st"
  defines "buf \<equiv> (dir @ CHR ''/'' # name) @ NUL # rest"
  shows "wp (ffdir_make_path K B buf off) (made ok D dir buf (first_off dir off) st) st"
proof -
  let ?b = "dir @ NUL # (name @ NUL # rest)"
  have "c_str buf = dir @ CHR ''/'' # name"
    unfolding buf_def by (rule c_str_app) (use assms(2,3) in auto)
  then have sl: "ffs_rfindchar B (c_str buf) (CHR ''/'') = int (length dir)"
    unfolding ffbase_okD(1) [OF assms(1)] by (simp only:) (rule rfind_pos_append_tail, use assms(4) in auto)
  have cut: "buf[length dir := NUL] = ?b" by (simp add: buf_def list_update_append)
  have fin: "made ok D dir buf (first_off dir off) st (map_option (\<lambda>x. (fst x, (snd x)[length dir := buf ! length dir])) r) st'"
    if "made ok D dir ?b (first_off dir off) st r st'" for r st'
    using that by (auto simp: made_def buf_def nth_append)
  have pos: "\<not> int (length dir) \<le> 0" using assms(5) by simp
  show ?thesis
    unfolding ffdir_make_path_def Let_def sl if_not_P [OF pos] nat_int cut
    by (rule wp_bind, rule wp_mono [OF make_all_rule [OF assms(2,6) step]], assumption, rule wp_return) (rule fin)
qed

text \<open>
  Claim C18.  After \<open>ffdir_make_path\<close> has returned \<open>0\<close> for a path \<open>dir/name\<close>, the directory
  \<open>dir\<close> exists, and all its parents from \<open>off\<close> on; it returns \<open>0\<close> if the system refuses no
  request but for a directory that is there; and the path in the buffer is unchanged in every
  case.
\<close>

theorem make_path_creates_parents:
  fixes rest :: string
  assumes "ffbase_ok B" "mkdir_laws K ex" "NUL \<notin> set dir" "NUL \<notin> set name" "CHR ''/'' \<notin> set name"
    "dir \<noteq> []" "off \<le> length dir"
  defines "buf \<equiv> (dir @ CHR ''/'' # name) @ NUL # rest"
  shows "wp (ffdir_make_path K B buf off)
    (\<lambda>r st. \<exists>v. r = Some (v, buf) \<and> (mkdir_works K \<longrightarrow> v = 0) \<and> (v = 0 \<longrightarrow> ex (world st) dir \<and>
       (\<forall>p\<in>set (make_points dir (off + 1)). ex (world st) (take p dir)))) (start w e)"
proof -
  have sub: "set (make_points dir (off + 1)) \<subseteq> set (make_points dir (first_off dir off))"
    "length dir \<in> set (make_points dir (first_off dir off))"
    using assms(7) by (auto simp: make_points_def first_off_def)
  have "ex (world st) dir \<and> (\<forall>p\<in>set (make_points dir (off + 1)). ex (world st) (take p dir))"
    if "\<forall>p\<in>set (make_points dir (first_off dir off)). ex (world st) (take p dir)" for st :: "'a sys"
    using that sub by fastforce
  then show ?thesis
    unfolding buf_def
    by (intro wp_mono [OF make_path_rule [OF assms(1,3-7) make_requested [OF assms(2)]]]) (auto simp: made_def)
qed

theorem make_path_creates_parents_witness:
  "\<exists>st. snd (run_state (ffdir_make_path (\<lambda>c w. case c of FileC (Mkdir d m) \<Rightarrow>
      (\<lparr>rv = 0, rerr = None, rout = NoOut\<rparr>, insert d w) | _ \<Rightarrow> (\<lparr>rv = -1, rerr = None, rout = NoOut\<rparr>, w))
      ffbase_ref (''a/b/f'' @ [NUL]) 0) (start {} 0)) = st \<and> ''a'' \<in> world st \<and> ''a/b'' \<in> world st"
proof -
  let ?K = "\<lambda>c w. case c of FileC (Mkdir d m) \<Rightarrow> (\<lparr>rv = 0, rerr = None, rout = NoOut\<rparr>, insert d w)
    | _ \<Rightarrow> (\<lparr>rv = -1, rerr = None, rout = NoOut\<rparr>, w)"
  have laws: "mkdir_laws ?K (\<lambda>w d. d \<in> w)" by (auto simp: mkdir_laws_def)
  have "wp (ffdir_make_path ?K ffbase_ref ((''a/b'' @ CHR ''/'' # ''f'') @ NUL # []) 0)
    (\<lambda>r st. \<exists>v. r = Some (v, (''a/b'' @ CHR ''/'' # ''f'') @ NUL # []) \<and> (mkdir_works ?K \<longrightarrow> v = 0) \<and> (v = 0 \<longrightarrow> ''a/b'' \<in> world st \<and>
       (\<forall>p\<in>set (make_points ''a/b'' (0 + 1)). take p ''a/b'' \<in> world st))) (start {} 0)"
    by (rule make_path_creates_parents [OF ffbase_ref_ok laws]) simp_all
  note wpD [OF this]
  moreover have "fst (run_state (ffdir_make_path ?K ffbase_ref (''a/b/f'' @ [NUL]) 0) (start {} 0)) =
      Some (0, ''a/b/f'' @ [NUL])"
    by (simp add: ffdir_make_path_def ffdir_make_all_def ffdir_make_def run_simps c_str_def numeral_eq_Suc
        Let_def ffbase_ref_def)
  moreover have "make_points ''a/b'' 1 = [1, 3]" by (simp add: make_points_def upt_rec)
  ultimately show ?thesis by auto
qed

subsection \<open>Reading entries\<close>

lemma length_buf_put [simp]: "off + length xs \<le> length b \<Longrightarrow> length (buf_put off xs b) = length b"
  by (simp add: buf_put_def)

text \<open>
  \<open>ffdir_entry_info\<close> asks for \<open>path/name\<close>, built in the caller's buffer; it refuses
  with \<open>EOVERFLOW\<close> and without a call when that does not fit, and otherwise writes inside the
  capacity only and leaves the path in the buffer as it was.
\<close>

theorem entry_info_in_buffer:
  assumes "NUL \<notin> set path" "NUL \<notin> set (de_name ent)" "de_path ent = path @ NUL # rest"
    "de_path_len ent = length path" "length (de_path ent) = de_path_cap ent"
  shows "wp (ffdir_entry_info K ent)
    (\<lambda>r st. length (de_path (snd r)) = de_path_cap ent \<and> c_str (de_path (snd r)) = path \<and>
       (if length path + length (de_name ent) + 1 \<ge> de_path_cap ent
        then \<not> fst r \<and> lasterr st = EOVERFLOW \<and> calls_of st = []
        else calls_of st = [FileC (Stat (path @ CHR ''/'' # de_name ent))])) (start w e)"
proof (cases "length path + length (de_name ent) + 1 \<ge> de_path_cap ent")
  case True
  then show ?thesis
    unfolding ffdir_entry_info_def ffdir_entry_fullpath_def ffdir_entry_name_def using assms
    by (intro wp_intros) (auto simp: calls_of_def c_str_app)
next
  case False
  let ?n = "de_name ent" and ?l = "length path"
  let ?b = "buf_put (?l + length ?n + 1) [NUL] (buf_put (?l + 1) ?n (buf_put ?l ''/'' (de_path ent)))"
  obtain rest' where b: "?b = (path @ CHR ''/'' # ?n) @ NUL # rest'"
    using False assms(3,5) by (simp add: buf_put_def)
  have len: "length ?b = de_path_cap ent" using False assms(5) by simp
  have c: "c_str ?b = path @ CHR ''/'' # ?n" unfolding b by (rule c_str_app) (use assms(1,2) in auto)
  have "?b[?l := NUL] = path @ NUL # ?n @ NUL # rest'" unfolding b by (simp add: list_update_append)
  then have r: "c_str (?b[?l := NUL]) = path" using assms(1) by (simp add: c_str_app)
  show ?thesis
    unfolding ffdir_entry_info_def ffdir_entry_fullpath_def ffdir_entry_name_def assms(4) if_not_P [OF False]
    by (intro wp_intros) (use len c r in \<open>simp_all add: calls_of_def\<close>)
qed

theorem entry_info_in_buffer_witness:
  "c_str (de_path (snd (fst (run_state (ffdir_entry_info (\<lambda>c w. (\<lparr>rv = 0, rerr = None, rout = NoOut\<rparr>, w))
     \<lparr>de_info = stat_undef, de_path_len = 1, de_path = ''d'' @ NUL # ''xxxxxx'', de_path_cap = 8, de_name = ''f''\<rparr>)
     (start () 0))))) = ''d''"
proof -
  let ?K = "\<lambda>c w. (\<lparr>rv = 0, rerr = None, rout = NoOut\<rparr>, w)"
  let ?e = "\<lparr>de_info = stat_undef, de_path_len = 1, de_path = ''d'' @ NUL # ''xxxxxx'', de_path_cap = 8, de_name = ''f''\<rparr>"
  have "NUL \<notin> set ''d''" "NUL \<notin> set (de_name ?e)" "de_path ?e = ''d'' @ NUL # ''xxxxxx''"
    "de_path_len ?e = length ''d''" "length (de_path ?e) = de_path_cap ?e" by simp_all
  from wpD [OF entry_info_in_buffer [OF this, of ?K "()" 0]] show ?thesis by blast
qed

subsection \<open>Windows: resources and results\<close>

interpretation make_win: wpath_call ffdir_make_win "\<lambda>w. WinFile (CreateDirectoryW w)"
  by unfold_locales (simp_all add: ffdir_make_win_def closed_def)

interpretation remove_win: wpath_call ffdir_remove_win "\<lambda>w. WinFile (RemoveDirectoryW w)"
  by unfold_locales (simp_all add: ffdir_remove_win_def closed_def)

lemma wp_make_all_loop_win:
  "(\<And>r s'. heap_after (trace s') = heap_after (trace s) \<Longrightarrow> fds_after (trace s') = fds_after (trace s) \<Longrightarrow> Q r s')
   \<Longrightarrow> heap_after (trace s) \<noteq> None \<Longrightarrow> wp (make_all_loop_win K n off w) Q s"
proof (induction n arbitrary: off s)
  case (Suc n)
  have h: "heap_step g (WinFile (CreateDirectoryW d), r) = g" for g d r
    by (cases g) simp_all
  have f: "fd_step g (WinFile (CreateDirectoryW d), r) = g" for g d r
    by (cases g) (simp_all add: fd_step_def closed_def)
  show ?case
    unfolding make_all_loop_win.simps using Suc.prems(2)
    by (intro wp_intros Suc.IH Suc.prems(1)) (simp_all add: h f)
qed (simp add: wp_return)

text \<open>
  On Windows the directory functions give back every block they allocate, and
  \<open>ffdir_open\<close> leaves open exactly the search handle it returns.
\<close>

theorem dir_win_resources:
  "wp (ffdir_make_win K U name) (\<lambda>r s. heap_clean (trace s) \<and> fds_after (trace s) = Some {#} \<and> r \<in> {-1, 0, 1}) (start w e) \<and>
   wp (ffdir_remove_win K U name) (\<lambda>r s. heap_clean (trace s) \<and> fds_after (trace s) = Some {#} \<and> r \<in> {-1, 0, 1}) (start w e) \<and>
   wp (ffdir_make_all_win K U name off) (\<lambda>r s. heap_clean (trace s) \<and> fds_after (trace s) = Some {#}) (start w e) \<and>
   wp (ffdir_open_win K U name cap ent) (\<lambda>r s. heap_clean (trace s) \<and>
     (fds_after (trace s) = Some {#} \<and> fst r = 0 \<or> fds_after (trace s) = Some {#fst r#})) (start w e)"
proof (intro conjI)
  show "wp (ffdir_make_all_win K U name off) (\<lambda>r s. heap_clean (trace s) \<and> fds_after (trace s) = Some {#}) (start w e)"
    unfolding ffdir_make_all_win_def heap_clean_def
    by (intro wp_intros wp_res wp_make_all_loop_win) simp_all
  show "wp (ffdir_open_win K U name cap ent) (\<lambda>r s. heap_clean (trace s) \<and>
     (fds_after (trace s) = Some {#} \<and> fst r = 0 \<or> fds_after (trace s) = Some {#fst r#})) (start w e)"
    unfolding ffdir_open_win_def heap_clean_def
    by (intro wp_intros wp_res) (simp_all add: fd_step_def closed_def)
qed (rule make_win.clean remove_win.clean)+

lemma make_all_win_existing:
  assumes "\<And>d w. rv (fst (K (WinFile (CreateDirectoryW d)) w)) = 0 \<and>
      rerr (fst (K (WinFile (CreateDirectoryW d)) w)) = Some ERROR_ALREADY_EXISTS"
    and "0 \<notin> set ws" "off \<le> length ws" "Suc (length ws - off) \<le> n"
  shows "wp (make_all_loop_win K n off (ws @ [0])) (\<lambda>r st. r = Some 1) s"
  using assms(3,4)
proof (induction n arbitrary: off s)
  case (Suc n)
  have k: "rv r = 0 \<and> rerr r = Some ERROR_ALREADY_EXISTS" if "K (WinFile (CreateDirectoryW d)) w = (r, w')" for d w r w'
    using assms(1) [of d w] that by simp
  have z: "(ws @ [0]) ! off = 0 \<longleftrightarrow> off = length ws"
    using assms(2) Suc.prems by (metis le_neq_implies_less nth_append nth_append_length nth_mem)
  show ?case
    unfolding make_all_loop_win.simps
    by (intro wp_intros Suc.IH) (use Suc.prems in \<open>auto dest!: k simp: z\<close>)
qed simp

text \<open>
  On Windows \<open>ffdir_make_all\<close> reports a failure when the directory is already there:
  it returns the result of its last call, where the UNIX function returns \<open>0\<close>.
\<close>

theorem make_all_win_fails_on_existing:
  assumes "\<forall>d w. rv (fst (K (WinFile (CreateDirectoryW d)) w)) = 0 \<and>
      rerr (fst (K (WinFile (CreateDirectoryW d)) w)) = Some ERROR_ALREADY_EXISTS"
    "ffsz_utow U 256 path = (int (length ws), ws)" "ws \<noteq> []" "0 \<notin> set ws" "off \<noteq> 0" "off < length ws"
  shows "wp (ffdir_make_all_win K U path off) (\<lambda>r st. r = Some 1) (start w e)"
proof -
  let ?off = "make_all_start_win (ws @ [0]) off"
  have o: "?off \<le> length ws" "Suc (length ws - ?off) \<le> length (ws @ [0]) - ?off"
    using assms(5,6) by (auto simp: make_all_start_win_def Let_def)
  have u: "utow256 K U path = State_Monad.return (WStack ws)"
    using assms(2,3) by (simp add: utow256_def ffsz_alloc_buf_utow_def)
  have "wp (make_all_loop_win K (length (ws @ [0]) - ?off) ?off (ws @ [0])) (\<lambda>r st. r = Some 1) (start w e)"
    by (rule make_all_win_existing [OF _ assms(4) o]) (use assms(1) in blast)
  then show ?thesis
    unfolding ffdir_make_all_win_def u w_free_def Let_def
    by (simp add: wp_def run_simps)
qed

theorem make_all_win_existing_witness:
  "fst (run_state (ffdir_make_all_win (\<lambda>c w. (\<lparr>rv = 0, rerr = Some 183, rout = NoOut\<rparr>, w))
     \<lparr>ffsz_utow = (\<lambda>n s. (2, [0x2F, 0x61])), ffutf8_to_utf16 = (\<lambda>n s. (0, [])), ffsz_wtou = (\<lambda>n s. (0, [])),
      ffs_wtou = (\<lambda>n s. (0, [])), wcsicmp = (\<lambda>a b. 0)\<rparr> ''/a'' 1) (start () 0)) = Some 1"
proof -
  let ?K = "\<lambda>c w. (\<lparr>rv = 0, rerr = Some 183, rout = NoOut\<rparr>, w)"
  let ?U = "\<lparr>ffsz_utow = (\<lambda>n s. (2, [0x2F, 0x61])), ffutf8_to_utf16 = (\<lambda>n s. (0, [])), ffsz_wtou = (\<lambda>n s. (0, [])),
      ffs_wtou = (\<lambda>n s. (0, [])), wcsicmp = (\<lambda>a b. 0)\<rparr>"
  have "wp (ffdir_make_all_win ?K ?U ''/a'' 1) (\<lambda>r st. r = Some 1) (start () 0)"
    by (rule make_all_win_fails_on_existing [where ws = "[0x2F, 0x61]"]) simp_all
  then show ?thesis by (simp add: wp_def)
qed

end
