(* ===== verification/Dirscan.thy ===== *)
theory Dirscan
  imports Dir
begin

text \<open>
  Scanning a directory (\<open>FFOS/dirscan.h\<close>): the names are read, filtered, stored one after
  another in a buffer with their terminators, and the buffer ends with an array of 32-bit offsets,
  sorted by the names they point to.

  The buffer is a list of characters; a 32-bit offset takes four of them, lowest byte first.
  ffbase's wildcard matching, sorting and case-insensitive comparison are parameters; its vectors
  grow by one call that gives a block, new or the same.
\<close>

record dirscan_lib =
  ffs_wildcard :: "string \<Rightarrow> string \<Rightarrow> bool \<Rightarrow> int"
  ffsort :: "(nat \<Rightarrow> nat \<Rightarrow> int) \<Rightarrow> nat list \<Rightarrow> nat list"
  ffsz_icmp :: "string \<Rightarrow> string \<Rightarrow> int"

record ffdirscan =
  ds_names :: string
  ds_ptr :: int
  ds_len :: nat
  ds_index :: nat
  ds_cur :: nat
  ds_wildcard :: string
  ds_fd :: int

definition FFDIRSCAN_NOSORT :: u32 where [flag_simps]: "FFDIRSCAN_NOSORT = 1"
definition FFDIRSCAN_DOT :: u32 where [flag_simps]: "FFDIRSCAN_DOT = 2"
definition FFDIRSCAN_USEWILDCARD :: u32 where [flag_simps]: "FFDIRSCAN_USEWILDCARD = 0x10"
definition FFDIRSCAN_USEFD :: u32 where [flag_simps]: "FFDIRSCAN_USEFD = 0x20"

subsection \<open>Comparing names\<close>

definition lower_byte :: "nat \<Rightarrow> nat" where
  "lower_byte c = (if c \<ge> 0x41 \<and> c \<le> 0x5A then c OR 0x20 else c)"

text \<open>The character at the front of a C string, the terminator if there is none left.\<close>

definition char0 :: "string \<Rightarrow> char" where
  "char0 s = (case s of [] \<Rightarrow> NUL | c # _ \<Rightarrow> c)"

function filename_cmpz :: "string \<Rightarrow> string \<Rightarrow> int" where
  "filename_cmpz a b =
     (let cl = uchar (char0 a); cr = uchar (char0 b) in
      if cl \<noteq> cr then
        (if lower_byte cl < lower_byte cr then -1
         else if lower_byte cl > lower_byte cr then 1
         else if schar (char0 a) < schar (char0 b) then 1
         else -1)
      else if cl = 0 then 0
      else filename_cmpz (tl a) (tl b))"
  by auto
termination
  by (relation "measure (\<lambda>(a, b). length a)") (auto simp: char0_def uchar_def split: list.splits)

declare filename_cmpz.simps [simp del]

text \<open>The string at an offset of the buffer.\<close>

definition str_at :: "string \<Rightarrow> nat \<Rightarrow> string" where
  "str_at buf off = c_str (drop off buf)"

definition dirscan_cmpname :: "dirscan_lib \<Rightarrow> bool \<Rightarrow> string \<Rightarrow> nat \<Rightarrow> nat \<Rightarrow> int" where
  "dirscan_cmpname X icase buf off1 off2 =
     (if icase then ffsz_icmp X (str_at buf off1) (str_at buf off2)
      else filename_cmpz (str_at buf off1) (str_at buf off2))"

subsection \<open>Collecting the names\<close>

text \<open>A \<open>ffuint\<close> in memory.\<close>

definition put32 :: "nat \<Rightarrow> string" where
  "put32 n = map char_of [n, n div 256, n div 65536, n div 16777216]"

definition get32 :: "string \<Rightarrow> nat" where
  "get32 s = uchar (s ! 0) + 256 * uchar (s ! 1) + 65536 * uchar (s ! 2) + 16777216 * uchar (s ! 3)"

text \<open>What a step of reading gives: a name, the end, or an error.\<close>

datatype dir_item = DirName string | DirEnd | DirError

text \<open>\<open>first\<close> is the variable of the Windows code that tells the first entry from the others.\<close>

definition read_unix :: "'w kernel \<Rightarrow> int \<Rightarrow> bool \<Rightarrow> ('w, dir_item) prog" where
  "read_unix K dir first = do {
     fferr_set 0;
     de \<leftarrow> sys K (FileC (Readdir dir));
     if rv de = 0 then do {
       e \<leftarrow> fferr_last;
       State_Monad.return (if e \<noteq> 0 then DirError else DirEnd)
     }
     else State_Monad.return (DirName (out_text de))
   }"

definition find_name :: "wstr \<Rightarrow> reply \<Rightarrow> wstr" where
  "find_name ent r = (case rout r of OFind i n \<Rightarrow> n | _ \<Rightarrow> ent)"

definition name_win :: "wconv \<Rightarrow> wstr \<Rightarrow> ('w, dir_item) prog" where
  "name_win U ws =
     (let n = ffsz_wtou U 1024 ws in
      if fst n < 0 then do { fferr_set ERROR_INVALID_DATA; State_Monad.return DirError }
      else State_Monad.return (DirName (snd n)))"

definition read_win :: "'w kernel \<Rightarrow> wconv \<Rightarrow> int \<Rightarrow> wstr \<Rightarrow> bool \<Rightarrow> ('w, dir_item) prog" where
  "read_win K U dir ent first =
     (if first then
        (if dir = -1 then State_Monad.return DirEnd else name_win U ent)
      else do {
        x \<leftarrow> sys K (WinFile (FindNextFileW dir));
        if rv x = 0 then do {
          e \<leftarrow> fferr_last;
          State_Monad.return (if e \<noteq> ERROR_NO_MORE_FILES then DirError else DirEnd)
        }
        else name_win U (find_name ent x)
      })"

text \<open>Which names are listed.\<close>

definition is_dot :: "string \<Rightarrow> bool" where
  "is_dot name \<longleftrightarrow> name = ''.'' \<or> name = ''..''"

definition wanted :: "dirscan_lib \<Rightarrow> bool \<Rightarrow> u32 \<Rightarrow> string \<Rightarrow> string \<Rightarrow> bool" where
  "wanted X icase flags wildcard name \<longleftrightarrow>
     (tst flags FFDIRSCAN_DOT \<or> \<not> is_dot name) \<and>
     (tst flags FFDIRSCAN_USEWILDCARD \<longrightarrow> ffs_wildcard X wildcard name icase = 0)"

text \<open>
  The vectors: the block (\<open>0\<close> before the first element) and the contents.
\<close>

record names_vecs =
  nv_offs_ptr :: int
  nv_offs :: "nat list"
  nv_buf_ptr :: int
  nv_buf :: string

definition add_name :: "'w kernel \<Rightarrow> names_vecs \<Rightarrow> string \<Rightarrow> ('w, bool \<times> names_vecs) prog" where
  "add_name K v name = do {
     p \<leftarrow> sysi K (Mem (MRealloc (nv_offs_ptr v) ((length (nv_offs v) + 1) * 4)));
     if p = 0 then State_Monad.return (False, v)
     else do {
       let v = v\<lparr>nv_offs_ptr := p, nv_offs := nv_offs v @ [length (nv_buf v) mod 2 ^ 32]\<rparr>;
       b \<leftarrow> sysi K (Mem (MRealloc (nv_buf_ptr v) (length (nv_buf v) + length name + 1)));
       if b = 0 then State_Monad.return (False, v)
       else State_Monad.return (True, v\<lparr>nv_buf_ptr := b, nv_buf := nv_buf v @ name @ [NUL]\<rparr>)
     }
   }"

text \<open>The loop; the result tells whether it ended normally.  \<open>None\<close>: the directory never ends.\<close>

partial_function (option) scan_loop ::
  "'w kernel \<Rightarrow> (bool \<Rightarrow> ('w, dir_item) prog) \<Rightarrow> (string \<Rightarrow> bool) \<Rightarrow> bool \<Rightarrow> names_vecs \<Rightarrow> 'w sys
    \<Rightarrow> ((bool \<times> names_vecs) \<times> 'w sys) option" where
  "scan_loop K rd want first v s =
     (let x = run_state (rd first) s in
      case fst x of
        DirError \<Rightarrow> Some ((False, v), snd x)
      | DirEnd \<Rightarrow> Some ((True, v), snd x)
      | DirName name \<Rightarrow>
          if \<not> want name then scan_loop K rd want False v (snd x)
          else let y = run_state (add_name K v name) (snd x) in
            if fst (fst y) then scan_loop K rd want False (snd (fst y)) (snd y)
            else Some ((False, snd (fst y)), snd y))"

subsection \<open>Building the table\<close>

definition dirscan_finish ::
  "'w kernel \<Rightarrow> dirscan_lib \<Rightarrow> bool \<Rightarrow> u32 \<Rightarrow> ffdirscan \<Rightarrow> names_vecs \<Rightarrow> ('w, (int \<times> ffdirscan) \<times> names_vecs) prog" where
  "dirscan_finish K X icase flags d v = do {
     let offs = (if tst flags FFDIRSCAN_NOSORT then nv_offs v
                 else ffsort X (dirscan_cmpname X icase (nv_buf v)) (nv_offs v));
     let d = d\<lparr>ds_index := length (nv_buf v)\<rparr>;
     b \<leftarrow> (if length offs \<noteq> 0
           then sysi K (Mem (MRealloc (nv_buf_ptr v) (length (nv_buf v) + length offs * 4)))
           else State_Monad.return (nv_buf_ptr v));
     if b = 0 then State_Monad.return ((-1, d), v\<lparr>nv_offs := offs\<rparr>)
     else do {
       let buf = nv_buf v @ concat (map put32 offs);
       State_Monad.return
         ((0, d\<lparr>ds_len := length buf, ds_cur := ds_index d, ds_names := buf, ds_ptr := b\<rparr>),
          v\<lparr>nv_offs := offs, nv_buf_ptr := 0, nv_buf := []\<rparr>)
     }
   }"

text \<open>The label \<open>end\<close>: both vectors are freed.\<close>

definition free_vecs :: "'w kernel \<Rightarrow> names_vecs \<Rightarrow> ('w, unit) prog" where
  "free_vecs K v = do {
     sysi K (Mem (MFree (nv_offs_ptr v)));
     sysi K (Mem (MFree (nv_buf_ptr v)));
     State_Monad.return ()
   }"

definition no_vecs :: names_vecs where
  "no_vecs = \<lparr>nv_offs_ptr = 0, nv_offs = [], nv_buf_ptr = 0, nv_buf = []\<rparr>"

text \<open>From the allocation of the buffer to the result of the loop and the table.\<close>

definition dirscan_read ::
  "'w kernel \<Rightarrow> dirscan_lib \<Rightarrow> bool \<Rightarrow> (bool \<Rightarrow> ('w, dir_item) prog) \<Rightarrow> u32 \<Rightarrow> ffdirscan \<Rightarrow> 'w sys
    \<Rightarrow> (((int \<times> ffdirscan) \<times> names_vecs) \<times> 'w sys) option" where
  "dirscan_read K X icase rd flags d s =
     (let a = run_state (sysi K (Mem (MAlloc 4096))) s in
      if fst a = 0 then Some (((-1, d), no_vecs), snd a)
      else case scan_loop K rd (wanted X icase flags (ds_wildcard d)) True (no_vecs\<lparr>nv_buf_ptr := fst a\<rparr>) (snd a) of
          None \<Rightarrow> None
        | Some x \<Rightarrow>
            if fst (fst x) then Some (run_state (dirscan_finish K X icase flags d (snd (fst x))) (snd x))
            else Some (((-1, d), snd (fst x)), snd x))"

subsection \<open>UNIX\<close>

definition open_dir_unix :: "'w kernel \<Rightarrow> ffdirscan \<Rightarrow> string \<Rightarrow> u32 \<Rightarrow> ('w, int \<times> ffdirscan) prog" where
  "open_dir_unix K d path flags =
     (if tst flags FFDIRSCAN_USEFD then do {
        dir \<leftarrow> sysi K (FileC (Fdopendir (ds_fd d)));
        (if dir = 0 then do { sysi K (FileC (Close (ds_fd d))); State_Monad.return () } else State_Monad.return ());
        State_Monad.return (dir, d\<lparr>ds_fd := -1\<rparr>)
      }
      else do { dir \<leftarrow> sysi K (FileC (Opendir path)); State_Monad.return (dir, d) })"

definition ffdirscan_open ::
  "'w kernel \<Rightarrow> dirscan_lib \<Rightarrow> ffdirscan \<Rightarrow> string \<Rightarrow> u32 \<Rightarrow> 'w sys \<Rightarrow> ((int \<times> ffdirscan) \<times> 'w sys) option" where
  "ffdirscan_open K X d path flags s =
     (let od = run_state (open_dir_unix K d path flags) s; dir = fst (fst od) in
      case (if dir = 0 then Some (((-1, snd (fst od)), no_vecs), snd od)
            else dirscan_read K X False (read_unix K dir) flags (snd (fst od)) (snd od)) of
        None \<Rightarrow> None
      | Some x \<Rightarrow> Some (fst (fst x), snd (run_state (do {
            (if dir \<noteq> 0 then do { sysi K (FileC (Closedir dir)); State_Monad.return () } else State_Monad.return ());
            free_vecs K (snd (fst x)) }) (snd x))))"

definition ffdirscan_close :: "'w kernel \<Rightarrow> ffdirscan \<Rightarrow> ('w, ffdirscan) prog" where
  "ffdirscan_close K d = do { sysi K (Mem (MFree (ds_ptr d))); State_Monad.return (d\<lparr>ds_ptr := 0\<rparr>) }"

definition ffdirscan_next :: "ffdirscan \<Rightarrow> string option \<times> ffdirscan" where
  "ffdirscan_next d =
     (if ds_cur d = ds_len d then (None, d)
      else (Some (str_at (ds_names d) (get32 (drop (ds_cur d) (ds_names d)))), d\<lparr>ds_cur := ds_cur d + 4\<rparr>))"

definition ffdirscan_reset :: "ffdirscan \<Rightarrow> ffdirscan" where
  "ffdirscan_reset d = d\<lparr>ds_cur := ds_index d\<rparr>"

subsection \<open>Windows\<close>

text \<open>\<open>"dir"\<close>, \<open>"dir/"\<close> \<open>\<rightarrow>\<close> \<open>"dir\*"\<close> or \<open>"dir\wildcard"\<close>\<close>

definition scan_pattern :: "wconv \<Rightarrow> wstr \<Rightarrow> string option \<Rightarrow> wstr" where
  "scan_pattern U wpath wildcard =
     (if wpath \<noteq> [] \<and> w_slash (last wpath) then butlast wpath else wpath) @ [0x5C] @
     (case wildcard of None \<Rightarrow> [0x2A] | Some wc \<Rightarrow> snd (ffs_utow_n U (Some (length wc)) wc))"

text \<open>
  The variables when the reading starts: whether to go on, the search handle, the first entry,
  and the two heap blocks.
\<close>

record win_scan =
  ws_ok :: bool
  ws_dir :: int
  ws_ent :: wstr
  ws_wpath :: wbuf
  ws_namebuf :: int

definition open_find_win :: "'w kernel \<Rightarrow> wstr \<Rightarrow> u32 \<Rightarrow> ('w, bool \<times> int \<times> wstr) prog" where
  "open_find_win K pattern flags =
     (if tst flags FFDIRSCAN_USEFD then do { fferr_set ERROR_NOT_SUPPORTED; State_Monad.return (True, -1, []) }
      else do {
        x \<leftarrow> sys K (WinFile (FindFirstFileW pattern));
        e \<leftarrow> fferr_last;
        State_Monad.return (\<not> (rv x = -1 \<and> e \<noteq> ERROR_FILE_NOT_FOUND), rv x, find_name [] x)
      })"

definition open_dir_win :: "'w kernel \<Rightarrow> wconv \<Rightarrow> ffdirscan \<Rightarrow> string \<Rightarrow> u32 \<Rightarrow> ('w, win_scan) prog" where
  "open_dir_win K U d path flags = do {
     let wildcard = (if tst flags FFDIRSCAN_USEWILDCARD then Some (ds_wildcard d) else None);
     wn \<leftarrow> ffs_alloc_utow_addcap K U path (case wildcard of None \<Rightarrow> 3 | Some wc \<Rightarrow> 2 + length wc);
     if fst wn = WNull
     then State_Monad.return \<lparr>ws_ok = False, ws_dir = -1, ws_ent = [], ws_wpath = WNull, ws_namebuf = 0\<rparr>
     else do {
       f \<leftarrow> open_find_win K (scan_pattern U (w_chars (fst wn)) wildcard) flags;
       if \<not> fst f
       then State_Monad.return \<lparr>ws_ok = False, ws_dir = fst (snd f), ws_ent = [], ws_wpath = fst wn, ws_namebuf = 0\<rparr>
       else do {
         w_free K (fst wn);
         b \<leftarrow> sysi K (Mem (MAlloc 1024));
         State_Monad.return
           \<lparr>ws_ok = (b \<noteq> 0), ws_dir = fst (snd f), ws_ent = snd (snd f), ws_wpath = WNull, ws_namebuf = b\<rparr>
       }
     }
   }"

definition scan_end_win :: "'w kernel \<Rightarrow> win_scan \<Rightarrow> names_vecs \<Rightarrow> ('w, unit) prog" where
  "scan_end_win K a v = do {
     (if ws_dir a \<noteq> -1 then do { sysi K (WinFile (FindClose (ws_dir a))); State_Monad.return () }
      else State_Monad.return ());
     w_free K (ws_wpath a);
     sysi K (Mem (MFree (ws_namebuf a)));
     free_vecs K v
   }"

definition ffdirscan_open_win ::
  "'w kernel \<Rightarrow> wconv \<Rightarrow> dirscan_lib \<Rightarrow> ffdirscan \<Rightarrow> string \<Rightarrow> u32 \<Rightarrow> 'w sys
    \<Rightarrow> ((int \<times> ffdirscan) \<times> 'w sys) option" where
  "ffdirscan_open_win K U X d path flags s =
     (if path = [] then Some ((-1, d), snd (run_state (fferr_set ERROR_PATH_NOT_FOUND) s))
      else let a = run_state (open_dir_win K U d path flags) s in
        case (if ws_ok (fst a)
              then dirscan_read K X True (read_win K U (ws_dir (fst a)) (ws_ent (fst a))) flags d (snd a)
              else Some (((-1, d), no_vecs), snd a)) of
          None \<Rightarrow> None
        | Some x \<Rightarrow> Some (fst (fst x), snd (run_state (scan_end_win K (fst a) (snd (fst x))) (snd x))))"

subsection \<open>The order of the names\<close>

text \<open>
  What sorting needs of a comparison function in the style of \<open>qsort\<close> on the names of a set: any two
  can be compared, and it is transitive.  A total order also tells different names apart.
\<close>

locale name_order =
  fixes cmp :: "string \<Rightarrow> string \<Rightarrow> int" and S :: "string set"
  assumes le_cases: "a \<in> S \<Longrightarrow> b \<in> S \<Longrightarrow> cmp a b \<le> 0 \<or> cmp b a \<le> 0"
    and cmp_trans: "a \<in> S \<Longrightarrow> b \<in> S \<Longrightarrow> c \<in> S \<Longrightarrow> cmp a b \<le> 0 \<Longrightarrow> cmp b c \<le> 0 \<Longrightarrow> cmp a c \<le> 0"

locale total_cmp = name_order +
  assumes cmp_eq: "a \<in> S \<Longrightarrow> b \<in> S \<Longrightarrow> cmp a b = 0 \<longleftrightarrow> a = b"
    and cmp_anti: "a \<in> S \<Longrightarrow> b \<in> S \<Longrightarrow> cmp b a = - cmp a b"
begin

lemma le_antisym: "a \<in> S \<Longrightarrow> b \<in> S \<Longrightarrow> cmp a b \<le> 0 \<Longrightarrow> cmp b a \<le> 0 \<Longrightarrow> a = b"
  using cmp_anti [of a b] cmp_eq [of a b] by linarith

lemma less_iff: "a \<in> S \<Longrightarrow> b \<in> S \<Longrightarrow> cmp a b < 0 \<longleftrightarrow> cmp a b \<le> 0 \<and> \<not> cmp b a \<le> 0"
  using cmp_anti [of a b] by linarith

lemma refl: "a \<in> S \<Longrightarrow> cmp a a \<le> 0"
  using cmp_eq [of a a] by simp

end

text \<open>
  A name is compared as the list of the ranks of its characters: letters by their lower-case form,
  the lower-case letter first.
\<close>

definition is_upper_byte :: "nat \<Rightarrow> bool" where
  "is_upper_byte c \<longleftrightarrow> 0x41 \<le> c \<and> c \<le> 0x5A"

definition rank :: "char \<Rightarrow> nat" where
  "rank c = 2 * lower_byte (uchar c) + (if is_upper_byte (uchar c) then 1 else 0)"

fun lex_cmp :: "nat list \<Rightarrow> nat list \<Rightarrow> int" where
  "lex_cmp [] [] = 0"
| "lex_cmp [] (y # ys) = -1"
| "lex_cmp (x # xs) [] = 1"
| "lex_cmp (x # xs) (y # ys) = (if x < y then -1 else if y < x then 1 else lex_cmp xs ys)"

lemma lex_cmp_anti: "lex_cmp b a = - lex_cmp a b"
  by (induction a b rule: lex_cmp.induct) auto

lemma lex_cmp_eq: "lex_cmp a b = 0 \<longleftrightarrow> a = b"
  by (induction a b rule: lex_cmp.induct) auto

lemma lex_cmp_trans: "lex_cmp a b \<le> 0 \<Longrightarrow> lex_cmp b c \<le> 0 \<Longrightarrow> lex_cmp a c \<le> 0"
proof (induction a b arbitrary: c rule: lex_cmp.induct)
  case (1 c)
  then show ?case by simp
next
  case (2 y ys)
  then show ?case by (cases c) auto
next
  case (4 x xs y ys)
  show ?case
  proof (cases c)
    case Nil
    with 4 show ?thesis by simp
  next
    case (Cons z zs)
    have "x \<le> y" "y \<le> z" using 4(2,3) Cons by (auto split: if_splits)
    moreover have "lex_cmp xs zs \<le> 0" if "x = y" "y = z" using that 4 Cons by simp
    ultimately show ?thesis using Cons by (cases "x = y"; cases "y = z") auto
  qed
qed simp

lemma lower_upper: "is_upper_byte c \<Longrightarrow> lower_byte c = c + 32" "\<not> is_upper_byte c \<Longrightarrow> lower_byte c = c"
proof -
  assume "is_upper_byte c"
  then have "c \<in> set [65..<91]" by (simp only: is_upper_byte_def set_upt atLeastLessThan_iff) arith
  moreover have "\<forall>c\<in>set [65..<91]. c OR 32 = c + (32 :: nat)" by code_simp
  ultimately show "lower_byte c = c + 32" by (auto simp: lower_byte_def)
qed (auto simp: lower_byte_def is_upper_byte_def)

lemma rank_inj: "rank c = rank d \<longleftrightarrow> c = d"
proof
  assume "rank c = rank d"
  then have "is_upper_byte (uchar c) = is_upper_byte (uchar d)" "lower_byte (uchar c) = lower_byte (uchar d)"
    unfolding rank_def by (auto split: if_splits) presburger+
  then show "c = d" by (cases "is_upper_byte (uchar c)") (simp_all add: lower_upper uchar_inj)
qed simp

lemma rank_0: "rank c = 0 \<longleftrightarrow> c = NUL"
proof -
  have "\<not> is_upper_byte (uchar NUL)" by (simp add: is_upper_byte_def uchar_def)
  then show ?thesis by (cases "is_upper_byte (uchar c)") (auto simp: rank_def lower_upper uchar_0)
qed

lemma rank_NUL [simp]: "rank NUL = 0" "0 < rank c \<longleftrightarrow> c \<noteq> NUL"
  using rank_0 [of NUL] rank_0 [of c] by auto

lemma cmp_char:
  assumes "c \<noteq> d"
  shows "(if lower_byte (uchar c) < lower_byte (uchar d) then -1
     else if lower_byte (uchar c) > lower_byte (uchar d) then 1
     else if schar c < schar d then 1 else - 1 :: int) = (if rank c < rank d then -1 else 1)"
proof (cases "lower_byte (uchar c) = lower_byte (uchar d)")
  case True
  then have "is_upper_byte (uchar c) \<noteq> is_upper_byte (uchar d)"
    using assms rank_inj [of c d] by (auto simp: rank_def split: if_splits)
  then show ?thesis using True
    by (cases "is_upper_byte (uchar c)") (auto simp: lower_upper rank_def schar_def is_upper_byte_def)
next
  case False
  then show ?thesis by (auto simp: rank_def)
qed

lemma cmpz_lex: "NUL \<notin> set a \<Longrightarrow> NUL \<notin> set b \<Longrightarrow> filename_cmpz a b = lex_cmp (map rank a) (map rank b)"
proof (induction a b rule: filename_cmpz.induct)
  case (1 a b)
  have ne: "filename_cmpz a b = (if rank (char0 a) < rank (char0 b) then -1 else 1)" if "char0 a \<noteq> char0 b"
    using that cmp_char [OF that] by (subst filename_cmpz.simps) (simp add: Let_def uchar_inj)
  show ?case
  proof (cases "char0 a = char0 b")
    case False
    then show ?thesis using ne 1(2,3) rank_inj
      by (cases a; cases b) (auto simp: char0_def not_less_iff_gr_or_eq)
  next
    case True
    show ?thesis
    proof (cases a)
      case Nil
      then show ?thesis using True 1(3)
        by (cases b) (auto simp: char0_def filename_cmpz.simps uchar_0)
    next
      case (Cons x xs)
      then show ?thesis using True 1 by (cases b) (auto simp: char0_def filename_cmpz.simps [of "x # xs"] uchar_0 uchar_inj Let_def)
    qed
  qed
qed

interpretation names: total_cmp filename_cmpz "{s. NUL \<notin> set s}"
proof
  fix a b c assume "a \<in> {s. NUL \<notin> set s}" "b \<in> {s. NUL \<notin> set s}"
  then have ab: "NUL \<notin> set a" "NUL \<notin> set b" by simp_all
  show "filename_cmpz a b = 0 \<longleftrightarrow> a = b"
    using inj_map_eq_map [of rank a b] by (simp add: cmpz_lex ab lex_cmp_eq inj_def rank_inj)
  show anti: "filename_cmpz b a = - filename_cmpz a b" by (simp add: cmpz_lex ab lex_cmp_anti [of "map rank a"])
  show "filename_cmpz a b \<le> 0 \<or> filename_cmpz b a \<le> 0" using anti by linarith
  assume "c \<in> {s. NUL \<notin> set s}" "filename_cmpz a b \<le> 0" "filename_cmpz b c \<le> 0"
  then show "filename_cmpz a c \<le> 0" using lex_cmp_trans by (simp add: cmpz_lex ab)
qed

text \<open>File names in this order: the library's sorting applies to them.\<close>

typedef fname = "{s :: string. NUL \<notin> set s}"
  morphisms name_of Fname
  by (rule exI [of _ "[]"]) simp

setup_lifting type_definition_fname

instantiation fname :: linorder
begin

lift_definition less_eq_fname :: "fname \<Rightarrow> fname \<Rightarrow> bool" is "\<lambda>a b. filename_cmpz a b \<le> 0" .

lift_definition less_fname :: "fname \<Rightarrow> fname \<Rightarrow> bool" is "\<lambda>a b. filename_cmpz a b < 0" .

instance
proof
  fix a b c :: fname
  show "a < b \<longleftrightarrow> a \<le> b \<and> \<not> b \<le> a" by transfer (rule names.less_iff; simp)
  show "a \<le> a" by transfer (rule names.refl; simp)
  show "a \<le> b \<Longrightarrow> b \<le> c \<Longrightarrow> a \<le> c" by transfer (rule names.cmp_trans; simp)
  show "a \<le> b \<Longrightarrow> b \<le> a \<Longrightarrow> a = b" by transfer (rule names.le_antisym; simp)
  show "a \<le> b \<or> b \<le> a" by transfer (rule names.le_cases; simp)
qed

end

definition sorted_names :: "string list \<Rightarrow> string list" where
  "sorted_names ns = map name_of (sort (map Fname ns))"

lemma name_of_Fname: "NUL \<notin> set n \<Longrightarrow> name_of (Fname n) = n"
  by (simp add: Fname_inverse)

lemma Fname_le: "NUL \<notin> set a \<Longrightarrow> NUL \<notin> set b \<Longrightarrow> Fname a \<le> Fname b \<longleftrightarrow> filename_cmpz a b \<le> 0"
  by (simp add: less_eq_fname.rep_eq name_of_Fname)

lemma sorted_names_unique:
  assumes "\<forall>n\<in>set ns. NUL \<notin> set n" "mset names = mset ns" "sorted_wrt (\<lambda>a b. filename_cmpz a b \<le> 0) names"
  shows "names = sorted_names ns"
proof -
  have nn: "\<forall>n\<in>set names. NUL \<notin> set n" using assms(1,2) by (metis set_mset_mset)
  then have "sorted_wrt (\<lambda>a b. Fname a \<le> Fname b) names"
    using assms(3) by (auto simp: Fname_le elim!: sorted_wrt_mono_rel [rotated])
  then have "sort (map Fname ns) = map Fname names"
    by (intro properties_for_sort) (simp_all add: assms(2) sorted_map)
  then show ?thesis using nn by (simp add: sorted_names_def name_of_Fname map_idI)
qed

subsection \<open>The table of names\<close>

lemma uchar_char_of: "uchar (char_of n) = n mod 256"
  by (simp add: uchar_def)

lemma get32_put32: "n < 2 ^ 32 \<Longrightarrow> get32 (put32 n @ r) = n"
proof -
  assume "n < 2 ^ 32"
  have a: "n = 256 * (n div 256) + n mod 256" by simp
  have b: "n div 256 = 256 * (n div 65536) + n div 256 mod 256"
    using mult_div_mod_eq [of 256 "n div 256"] div_mult2_eq [of n 256 256] by simp
  have c: "n div 65536 = 256 * (n div 16777216) + n div 65536 mod 256"
    using mult_div_mod_eq [of 256 "n div 65536"] div_mult2_eq [of n 65536 256] by simp
  have d: "n div 16777216 mod 256 = n div 16777216" using \<open>n < 2 ^ 32\<close> by simp
  have "get32 (put32 n @ r) = n mod 256 + 256 * (n div 256 mod 256) + 65536 * (n div 65536 mod 256) +
      16777216 * (n div 16777216 mod 256)"
    by (simp add: get32_def put32_def uchar_char_of)
  then show ?thesis using a b c d by linarith
qed

lemma length_put32 [simp]: "length (put32 n) = 4"
  by (simp add: put32_def)

lemma str_at_append: "NUL \<in> set (drop off buf) \<Longrightarrow> str_at (buf @ xs) off = str_at buf off"
  by (cases "off \<le> length buf") (auto simp: str_at_def c_str_def takeWhile_append1)

text \<open>The vectors hold the names \<open>ns\<close>.\<close>

definition holds_names :: "names_vecs \<Rightarrow> string list \<Rightarrow> bool" where
  "holds_names v ns \<longleftrightarrow> map (str_at (nv_buf v)) (nv_offs v) = ns \<and>
     (\<forall>off\<in>set (nv_offs v). NUL \<in> set (drop off (nv_buf v)) \<and> off < 2 ^ 32) \<and>
     length (nv_buf v) = sum_list (map (\<lambda>n. length n + 1) ns)"

lemma holds_names_empty: "holds_names (no_vecs\<lparr>nv_buf_ptr := p\<rparr>) []"
  by (simp add: holds_names_def no_vecs_def)

lemma holds_names_add:
  assumes "holds_names v ns" "NUL \<notin> set name" "sum_list (map (\<lambda>n. length n + 1) ns) < 2 ^ 32"
  shows "holds_names \<lparr>nv_offs_ptr = p, nv_offs = nv_offs v @ [length (nv_buf v) mod 2 ^ 32],
    nv_buf_ptr = q, nv_buf = nv_buf v @ name @ [NUL]\<rparr> (ns @ [name])"
proof -
  have m: "length (nv_buf v) mod 2 ^ 32 = length (nv_buf v)" "length (nv_buf v) < 2 ^ 32"
    using assms(1,3) by (auto simp: holds_names_def)
  have old: "map (str_at (nv_buf v @ name @ [NUL])) (nv_offs v) = ns"
    using assms(1) by (auto simp: holds_names_def str_at_append)
  have new: "str_at (nv_buf v @ name @ [NUL]) (length (nv_buf v)) = name"
    using assms(2) c_str_app [of name "[]"] by (simp add: str_at_def)
  have dr: "NUL \<in> set (drop off (nv_buf v @ name @ [NUL]))" if "off \<in> set (nv_offs v)" for off
    using assms(1) that by (auto simp: holds_names_def)
  show ?thesis unfolding holds_names_def
    using old new dr assms(1) m by (auto simp: holds_names_def)
qed

text \<open>Everything that \<open>ffdirscan_next\<close> gives until it returns \<open>NULL\<close>.\<close>

fun scan_rest :: "nat \<Rightarrow> ffdirscan \<Rightarrow> string list" where
  "scan_rest 0 d = []"
| "scan_rest (Suc n) d = (case ffdirscan_next d of (None, _) \<Rightarrow> [] | (Some name, d') \<Rightarrow> name # scan_rest n d')"

definition scan_list :: "ffdirscan \<Rightarrow> string list" where
  "scan_list d = scan_rest (Suc (ds_len d)) (ffdirscan_reset d)"

lemma scan_rest_table:
  assumes "ds_names d = pre @ concat (map put32 offs)" "ds_cur d = length pre" "ds_len d = length (ds_names d)"
    "\<forall>off\<in>set offs. off < 2 ^ 32" "length offs < n"
  shows "scan_rest n d = map (str_at (ds_names d)) offs"
  using assms
proof (induction offs arbitrary: n d pre)
  case Nil
  then show ?case by (cases n) (simp_all add: ffdirscan_next_def)
next
  case (Cons off offs)
  obtain m where n: "n = Suc m" using Cons.prems(5) by (cases n) auto
  let ?d = "d\<lparr>ds_cur := ds_cur d + 4\<rparr>"
  have nx: "ffdirscan_next d = (Some (str_at (ds_names d) off), ?d)"
    using Cons.prems by (simp add: ffdirscan_next_def get32_put32)
  have "scan_rest m ?d = map (str_at (ds_names ?d)) offs"
    by (rule Cons.IH [of _ "pre @ put32 off"]) (use Cons.prems n in auto)
  then show ?case by (simp add: n nx)
qed

text \<open>ffbase documents of its sort that the result is a sorted permutation.\<close>

definition ffsort_ok :: "dirscan_lib \<Rightarrow> bool" where
  "ffsort_ok X \<longleftrightarrow> (\<forall>cmp xs. mset (ffsort X cmp xs) = mset xs \<and>
     ((\<forall>a\<in>set xs. \<forall>b\<in>set xs. cmp a b \<le> 0 \<or> cmp b a \<le> 0) \<longrightarrow>
      (\<forall>a\<in>set xs. \<forall>b\<in>set xs. \<forall>c\<in>set xs. cmp a b \<le> 0 \<longrightarrow> cmp b c \<le> 0 \<longrightarrow> cmp a c \<le> 0) \<longrightarrow>
      sorted_wrt (\<lambda>a b. cmp a b \<le> 0) (ffsort X cmp xs)))"

context name_order
begin

lemma sorts_offsets:
  assumes "ffsort_ok X" "\<forall>n\<in>set ns. n \<in> S" "map (str_at buf) offs = ns"
  defines "out \<equiv> ffsort X (\<lambda>a b. cmp (str_at buf a) (str_at buf b)) offs"
  shows "mset out = mset offs" "mset (map (str_at buf) out) = mset ns" "sorted_wrt (\<lambda>a b. cmp a b \<le> 0) (map (str_at buf) out)"
proof -
  let ?c = "\<lambda>a b. cmp (str_at buf a) (str_at buf b)"
  have N: "str_at buf a \<in> S" if "a \<in> set offs" for a using assms(2,3) that by auto
  have "\<forall>a\<in>set offs. \<forall>b\<in>set offs. ?c a b \<le> 0 \<or> ?c b a \<le> 0" using le_cases N by auto
  moreover have "\<forall>a\<in>set offs. \<forall>b\<in>set offs. \<forall>c\<in>set offs. ?c a b \<le> 0 \<longrightarrow> ?c b c \<le> 0 \<longrightarrow> ?c a c \<le> 0"
    using cmp_trans N by blast
  ultimately have s: "mset out = mset offs" "sorted_wrt (\<lambda>a b. ?c a b \<le> 0) out"
    using assms(1) [unfolded ffsort_ok_def, THEN spec, of ?c, THEN spec, of offs] unfolding out_def by blast+
  show "mset out = mset offs" by (fact s(1))
  show "mset (map (str_at buf) out) = mset ns" using s(1) assms(3) by (metis mset_map)
  show "sorted_wrt (\<lambda>a b. cmp a b \<le> 0) (map (str_at buf) out)" unfolding sorted_wrt_map by (rule s(2))
qed

end

text \<open>The names in the table, after the offsets were sorted or not.\<close>

definition table_offs :: "dirscan_lib \<Rightarrow> bool \<Rightarrow> u32 \<Rightarrow> names_vecs \<Rightarrow> nat list" where
  "table_offs X icase flags v = (if tst flags FFDIRSCAN_NOSORT then nv_offs v
     else ffsort X (dirscan_cmpname X icase (nv_buf v)) (nv_offs v))"

lemma table_offs_unix:
  assumes "ffsort_ok X" "holds_names v ns" "\<forall>n\<in>set ns. NUL \<notin> set n"
  shows "mset (table_offs X False flags v) = mset (nv_offs v)"
    "map (str_at (nv_buf v)) (table_offs X False flags v) = (if tst flags FFDIRSCAN_NOSORT then ns else sorted_names ns)"
proof -
  have c: "dirscan_cmpname X False (nv_buf v) = (\<lambda>a b. filename_cmpz (str_at (nv_buf v) a) (str_at (nv_buf v) b))"
    by (simp add: dirscan_cmpname_def fun_eq_iff)
  have h: "map (str_at (nv_buf v)) (nv_offs v) = ns" using assms(2) by (simp add: holds_names_def)
  have n: "\<forall>n\<in>set ns. n \<in> {s. NUL \<notin> set s}" using assms(3) by simp
  note srt = names.sorts_offsets [OF assms(1) n h]
  show "mset (table_offs X False flags v) = mset (nv_offs v)" using srt(1) by (simp add: table_offs_def c)
  show "map (str_at (nv_buf v)) (table_offs X False flags v) = (if tst flags FFDIRSCAN_NOSORT then ns else sorted_names ns)"
    using h sorted_names_unique [OF assms(3) srt(2,3)] by (simp add: table_offs_def c)
qed

lemma finish_table:
  assumes "holds_names v ns" "mset (table_offs X icase flags v) = mset (nv_offs v)"
  shows "wp (dirscan_finish K X icase flags d v)
    (\<lambda>r s. (fst (fst r) = 0 \<longrightarrow> scan_list (snd (fst r)) = map (str_at (nv_buf v)) (table_offs X icase flags v)) \<and>
      (mem_available K \<and> nv_buf_ptr v \<noteq> 0 \<longrightarrow> fst (fst r) = 0)) s"
proof -
  define offs where "offs = table_offs X icase flags v"
  let ?buf = "nv_buf v @ concat (map put32 offs)"
  have os: "set offs = set (nv_offs v)" using assms(2) unfolding offs_def by (metis set_mset_mset)
  have small: "\<forall>off\<in>set offs. off < 2 ^ 32" using assms(1) os by (simp add: holds_names_def)
  have len: "length (concat (map put32 offs)) = 4 * length offs" for offs
    by (induction offs) simp_all
  have tab: "scan_list (d\<lparr>ds_index := length (nv_buf v), ds_len := length ?buf, ds_cur := length (nv_buf v),
      ds_names := ?buf, ds_ptr := b\<rparr>) = map (str_at (nv_buf v)) offs" for b
  proof -
    let ?D = "d\<lparr>ds_index := length (nv_buf v), ds_len := length ?buf,
        ds_cur := length (nv_buf v), ds_names := ?buf, ds_ptr := b\<rparr>"
    have "scan_rest (Suc (length ?buf)) ?D = map (str_at (ds_names ?D)) offs"
      by (rule scan_rest_table [of _ "nv_buf v"]) (use small in \<open>simp_all add: len\<close>)
    also have "\<dots> = map (str_at ?buf) offs" by simp
    also have "\<dots> = map (str_at (nv_buf v)) offs"
      using assms(1) os by (auto simp: holds_names_def str_at_append)
    finally have "scan_rest (Suc (length ?buf)) ?D = map (str_at (nv_buf v)) offs" .
    moreover have "ffdirscan_reset ?D = ?D" "ds_len ?D = length ?buf"
      by (auto simp: ffdirscan_reset_def intro!: ffdirscan.equality)
    ultimately show ?thesis unfolding scan_list_def by (simp only:)
  qed
  show ?thesis
    unfolding dirscan_finish_def table_offs_def [symmetric] Let_def offs_def [symmetric]
    by (intro wp_intros) (use tab in \<open>auto dest: mem_availableD\<close>)
qed

subsection \<open>Sources of names\<close>

text \<open>
  What the loop needs from the code that reads the entries, on either system: it gives the names
  one by one and then the end.  \<open>left first w\<close> are the names still to come, and allocating
  memory does not change them.
\<close>

locale dir_reader =
  fixes rd :: "'w kernel \<Rightarrow> bool \<Rightarrow> ('w, dir_item) prog" and left :: "bool \<Rightarrow> 'w \<Rightarrow> string list"
    and ok :: "'w kernel \<Rightarrow> bool"
  assumes reads: "ok K \<Longrightarrow> wp (rd K first) (\<lambda>r s'. case left first (world s) of
      [] \<Rightarrow> r = DirEnd | n # ns \<Rightarrow> r = DirName n \<and> left False (world s') = ns) s"
    and keeps: "ok K \<Longrightarrow> left b (snd (K (Mem m) w)) = left b w"
begin

lemma add_name_keeps:
  assumes "ok K"
  shows "wp (add_name K v name) (\<lambda>r s'. left False (world s') = left False (world s) \<and>
    (fst r \<longrightarrow> (\<exists>p q. snd r = \<lparr>nv_offs_ptr = p, nv_offs = nv_offs v @ [length (nv_buf v) mod 2 ^ 32],
       nv_buf_ptr = q, nv_buf = nv_buf v @ name @ [NUL]\<rparr>))) s"
proof -
  have k: "left False w' = left False w" if "K (Mem m) w = (r, w')" for m w r w'
    using keeps [OF assms, of False m w] that by simp
  show ?thesis unfolding add_name_def
    by (intro wp_intros) (auto dest!: k intro!: exI names_vecs.equality)
qed

text \<open>One round with a name in front: it is skipped, or added, or there is no memory for it.\<close>

lemma round_name:
  assumes "ok K" "holds_names v done" "left first (world s) = n # ns" "NUL \<notin> set n"
    "want n \<Longrightarrow> sum_list (map (\<lambda>n. length n + 1) (done @ [n])) < 2 ^ 32"
  obtains (stop) r where "scan_loop K (rd K) want first v s = Some r" "\<not> fst (fst r)"
  | (go) v' s' where "scan_loop K (rd K) want first v s = scan_loop K (rd K) want False v' s'" "left False (world s') = ns"
      "holds_names v' (done @ filter want [n])"
proof -
  let ?x = "run_state (rd K first) s"
  let ?y = "run_state (add_name K v n) (snd ?x)"
  have x: "fst ?x = DirName n" "left False (world (snd ?x)) = ns"
    using wpD [OF reads [OF assms(1), of first s]] assms(3) by simp_all
  have y: "left False (world (snd ?y)) = ns" "fst (fst ?y) \<Longrightarrow> \<exists>p q. snd (fst ?y) =
      \<lparr>nv_offs_ptr = p, nv_offs = nv_offs v @ [length (nv_buf v) mod 2 ^ 32],
       nv_buf_ptr = q, nv_buf = nv_buf v @ n @ [NUL]\<rparr>"
    using wpD [OF add_name_keeps [OF assms(1), of v n "snd ?x"]] x(2) by auto
  have st: "scan_loop K (rd K) want first v s =
      (if \<not> want n then scan_loop K (rd K) want False v (snd ?x)
       else if fst (fst ?y) then scan_loop K (rd K) want False (snd (fst ?y)) (snd ?y)
       else Some ((False, snd (fst ?y)), snd ?y))"
    using x(1) by (subst scan_loop.simps) (simp add: Let_def)
  consider (skip) "\<not> want n" | (add) "want n" "fst (fst ?y)" | (fail) "want n" "\<not> fst (fst ?y)" by blast
  then show thesis
  proof cases
    case skip
    then show ?thesis using go [of v "snd ?x"] st x(2) assms(2) by simp
  next
    case add
    have "holds_names (snd (fst ?y)) (done @ [n])"
      using y(2) [OF add(2)] holds_names_add [OF assms(2), of n] assms(4) assms(5) [OF add(1)] by auto
    then show ?thesis using go [of "snd (fst ?y)" "snd ?y"] st y(1) add by simp
  next
    case fail
    then show ?thesis using stop st by simp
  qed
qed

lemma loop_names:
  assumes "ok K" "holds_names v done" "left first (world s) = ns" "\<forall>n\<in>set ns. NUL \<notin> set n"
    "sum_list (map (\<lambda>n. length n + 1) (done @ filter want ns)) < 2 ^ 32"
  shows "\<exists>r. scan_loop K (rd K) want first v s = Some r \<and>
    (fst (fst r) \<longrightarrow> holds_names (snd (fst r)) (done @ filter want ns))"
  using assms(2-)
proof (induction ns arbitrary: v s "done" first)
  case Nil
  have "fst (run_state (rd K first) s) = DirEnd"
    using wpD [OF reads [OF assms(1), of first s]] Nil by simp
  then show ?case using Nil by (subst scan_loop.simps) (simp add: Let_def)
next
  case (Cons n ns)
  have n: "NUL \<notin> set n" "want n \<Longrightarrow> sum_list (map (\<lambda>n. length n + 1) (done @ [n])) < 2 ^ 32"
    using Cons.prems(3,4) by auto
  show ?case
  proof (rule round_name [OF assms(1) Cons.prems(1,2) n, where want = want])
    show ?case if "scan_loop K (rd K) want first v s = Some r" "\<not> fst (fst r)" for r using that by blast
    fix v' s'
    assume go: "scan_loop K (rd K) want first v s = scan_loop K (rd K) want False v' s'" "left False (world s') = ns"
      "holds_names v' (done @ filter want [n])"
    have "sum_list (map (\<lambda>n. length n + 1) ((done @ filter want [n]) @ filter want ns)) < 2 ^ 32"
      using Cons.prems(4) by (simp split: if_splits)
    from Cons.IH [OF go(3,2) _ this] show ?case using go(1) Cons.prems(3) by (simp split: if_splits)
  qed
qed

lemma loop_succeeds:
  assumes "ok K" "mem_available K" "left first (world s) = ns" "nv_buf_ptr v \<noteq> 0" "scan_loop K (rd K) want first v s = Some r"
  shows "fst (fst r) \<and> nv_buf_ptr (snd (fst r)) \<noteq> 0"
  using assms(3-)
proof (induction ns arbitrary: v s first)
  case Nil
  then show ?case using wpD [OF reads [OF assms(1), of first s]] by (subst (asm) scan_loop.simps) (auto simp: Let_def)
next
  case (Cons n ns)
  let ?x = "run_state (rd K first) s"
  let ?y = "run_state (add_name K v n) (snd ?x)"
  have x: "fst ?x = DirName n" "left False (world (snd ?x)) = ns"
    using wpD [OF reads [OF assms(1), of first s]] Cons.prems(1) by simp_all
  have "wp (add_name K v n) (\<lambda>r s'. fst r \<and> nv_buf_ptr (snd r) \<noteq> 0) (snd ?x)"
    unfolding add_name_def by (intro wp_intros) (use assms(2) in \<open>auto dest: mem_availableD\<close>)
  then have y: "fst (fst ?y)" "nv_buf_ptr (snd (fst ?y)) \<noteq> 0" "left False (world (snd ?y)) = ns"
    using wpD [OF add_name_keeps [OF assms(1), of v n "snd ?x"]] x(2) by (auto simp: wp_def)
  have "scan_loop K (rd K) want False (if want n then snd (fst ?y) else v) (if want n then snd ?y else snd ?x) = Some r"
    using Cons.prems(3) x(1) y(1) by (subst (asm) scan_loop.simps) (simp add: Let_def split: if_splits)
  then show ?case using Cons.IH [of False] Cons.prems(2) x(2) y(2,3) by (cases "want n") simp_all
qed

lemma read_names:
  assumes "ok K" "left True (world s) = ns" "\<forall>n\<in>set ns. NUL \<notin> set n"
    "sum_list (map (\<lambda>n. length n + 1) (filter (wanted X icase flags (ds_wildcard d)) ns)) < 2 ^ 32"
    "\<And>v. holds_names v (filter (wanted X icase flags (ds_wildcard d)) ns) \<Longrightarrow> mset (table_offs X icase flags v) = mset (nv_offs v)"
  shows "\<exists>x. dirscan_read K X icase (rd K) flags d s = Some x \<and> (mem_available K \<longrightarrow> fst (fst (fst x)) = 0) \<and>
    (fst (fst (fst x)) = 0 \<longrightarrow> (\<exists>v. holds_names v (filter (wanted X icase flags (ds_wildcard d)) ns) \<and>
       scan_list (snd (fst (fst x))) = map (str_at (nv_buf v)) (table_offs X icase flags v)))"
proof -
  let ?a = "run_state (sysi K (Mem (MAlloc 4096))) s"
  let ?v = "no_vecs\<lparr>nv_buf_ptr := fst ?a\<rparr>"
  have w: "left True (world (snd ?a)) = ns" using keeps [OF assms(1), of True] assms(2) by (simp add: run_simps)
  have m: "mem_available K \<Longrightarrow> fst ?a \<noteq> 0" by (simp add: run_simps mem_available_def)
  obtain r where r: "scan_loop K (rd K) (wanted X icase flags (ds_wildcard d)) True ?v (snd ?a) = Some r"
    "fst (fst r) \<longrightarrow> holds_names (snd (fst r)) (filter (wanted X icase flags (ds_wildcard d)) ns)"
    using loop_names [OF assms(1) holds_names_empty w assms(3), of "wanted X icase flags (ds_wildcard d)" "fst ?a"] assms(4)
    by (metis append_Nil)
  have ok: "mem_available K \<Longrightarrow> fst (fst r) \<and> nv_buf_ptr (snd (fst r)) \<noteq> 0"
    using loop_succeeds [OF assms(1) _ w _ r(1)] m by simp
  show ?thesis
  proof (cases "fst ?a \<noteq> 0 \<and> fst (fst r)")
    case True
    with r have h: "holds_names (snd (fst r)) (filter (wanted X icase flags (ds_wildcard d)) ns)" by simp
    have "dirscan_read K X icase (rd K) flags d s =
        Some (run_state (dirscan_finish K X icase flags d (snd (fst r))) (snd r))"
      using True r(1) by (simp add: dirscan_read_def Let_def)
    then show ?thesis using wpD [OF finish_table [OF h assms(5) [OF h], of K d "snd r"]] h ok by blast
  next
    case False
    then show ?thesis using r m ok by (auto simp: dirscan_read_def Let_def)
  qed
qed

end

text \<open>
  What UNIX documents of a directory stream: \<open>readdir\<close> gives the entries one by one and then
  \<open>NULL\<close> without touching \<open>errno\<close>.
\<close>

definition readdir_laws :: "'w kernel \<Rightarrow> int \<Rightarrow> ('w \<Rightarrow> string list) \<Rightarrow> bool" where
  "readdir_laws K dir rest \<longleftrightarrow>
     (\<forall>w r w'. K (FileC (Readdir dir)) w = (r, w') \<longrightarrow>
        (case rest w of [] \<Rightarrow> rv r = 0 \<and> rerr r = None
         | n # ns \<Rightarrow> rv r \<noteq> 0 \<and> out_text r = n \<and> rest w' = ns)) \<and>
     (\<forall>m w. rest (snd (K (Mem m) w)) = rest w)"

interpretation unix_reader: dir_reader "\<lambda>K. read_unix K dir" "\<lambda>first. rest"
  "\<lambda>K. readdir_laws K dir rest" for dir rest
proof
  fix K :: "'a kernel" and first and s :: "'a sys"
  assume ok: "readdir_laws K dir rest"
  have k: "case rest w of [] \<Rightarrow> rv r = 0 \<and> rerr r = None
      | n # ns \<Rightarrow> rv r \<noteq> 0 \<and> out_text r = n \<and> rest w' = ns" if "K (FileC (Readdir dir)) w = (r, w')" for w r w'
    using ok that unfolding readdir_laws_def by blast
  show "wp (read_unix K dir first) (\<lambda>r s'. case rest (world s) of
      [] \<Rightarrow> r = DirEnd | n # ns \<Rightarrow> r = DirName n \<and> rest (world s') = ns) s"
    unfolding read_unix_def
    by (intro wp_intros) (auto dest!: k split: list.splits)
  show "rest (snd (K (Mem m) w)) = rest w" for m w
    using ok by (simp add: readdir_laws_def)
qed

lemma dirscan_lists:
  assumes "ffsort_ok X" "\<not> tst flags FFDIRSCAN_USEFD"
    "readdir_laws K dir rest" "K (FileC (Opendir path)) w = (r, w1)" "rv r = dir" "rest w1 = ns"
    "\<forall>n\<in>set ns. NUL \<notin> set n"
    "sum_list (map (\<lambda>n. length n + 1) (filter (wanted X False flags (ds_wildcard d)) ns)) < 2 ^ 32"
  shows "\<exists>rc d' s. ffdirscan_open K X d path flags (start w e) = Some ((rc, d'), s) \<and>
    (dir \<noteq> 0 \<and> mem_available K \<longrightarrow> rc = 0) \<and>
    (rc = 0 \<longrightarrow> scan_list d' = (let wn = filter (wanted X False flags (ds_wildcard d)) ns
       in if tst flags FFDIRSCAN_NOSORT then wn else sorted_names wn))"
proof -
  let ?s = "sys_step K (FileC (Opendir path)) (start w e)"
  have o: "run_state (open_dir_unix K d path flags) (start w e) = ((dir, d), ?s)"
    using assms(2,4,5) by (simp add: open_dir_unix_def run_simps)
  have ns: "rest (world ?s) = ns" using assms(4,6) by simp
  have nn: "\<forall>n\<in>set (filter (wanted X False flags (ds_wildcard d)) ns). NUL \<notin> set n" using assms(7) by simp
  obtain x where x: "dirscan_read K X False (read_unix K dir) flags d ?s = Some x" "mem_available K \<longrightarrow> fst (fst (fst x)) = 0"
    "fst (fst (fst x)) = 0 \<longrightarrow> (\<exists>v. holds_names v (filter (wanted X False flags (ds_wildcard d)) ns) \<and>
       scan_list (snd (fst (fst x))) = map (str_at (nv_buf v)) (table_offs X False flags v))"
    using unix_reader.read_names [OF assms(3) ns assms(7,8) table_offs_unix(1) [OF assms(1) _ nn]] by blast
  have l: "scan_list (snd (fst (fst x))) = (let wn = filter (wanted X False flags (ds_wildcard d)) ns
       in if tst flags FFDIRSCAN_NOSORT then wn else sorted_names wn)" if "fst (fst (fst x)) = 0"
    using x(3) that table_offs_unix(2) [OF assms(1) _ nn, of _ flags] unfolding Let_def by metis
  have "\<exists>s. ffdirscan_open K X d path flags (start w e) =
      Some (if dir = 0 then (-1, d) else fst (fst x), s)"
    unfolding ffdirscan_open_def Let_def o by (simp add: x(1))
  then show ?thesis using l x(2) by (cases "dir = 0") (auto simp: prod_eq_iff)
qed


text \<open>A sort that does what ffbase documents, and a kernel with one directory.\<close>

fun insert_cmp :: "(nat \<Rightarrow> nat \<Rightarrow> int) \<Rightarrow> nat \<Rightarrow> nat list \<Rightarrow> nat list" where
  "insert_cmp cmp x [] = [x]"
| "insert_cmp cmp x (y # ys) = (if cmp x y \<le> 0 then x # y # ys else y # insert_cmp cmp x ys)"

definition scan_lib_ref :: dirscan_lib where
  "scan_lib_ref = \<lparr>ffs_wildcard = (\<lambda>wc name icase. if wc = name then 0 else 1),
     ffsort = (\<lambda>cmp xs. foldr (insert_cmp cmp) xs []), ffsz_icmp = (\<lambda>a b. 0)\<rparr>"

lemma insert_cmp_mset: "mset (insert_cmp cmp x ys) = add_mset x (mset ys)"
  by (induction ys) auto

lemma insert_cmp_sorted:
  assumes "sorted_wrt (\<lambda>a b. cmp a b \<le> 0) ys" "set (x # ys) \<subseteq> S"
    "\<forall>a\<in>S. \<forall>b\<in>S. cmp a b \<le> 0 \<or> cmp b a \<le> 0"
    "\<forall>a\<in>S. \<forall>b\<in>S. \<forall>c\<in>S. cmp a b \<le> 0 \<longrightarrow> cmp b c \<le> 0 \<longrightarrow> cmp a c \<le> 0"
  shows "sorted_wrt (\<lambda>a b. cmp a b \<le> 0) (insert_cmp cmp x ys)"
  using assms(1,2)
proof (induction ys)
  case (Cons y ys)
  have set: "set (insert_cmp cmp x ys) = insert x (set ys)"
    using insert_cmp_mset [of cmp x ys] by (metis set_mset_add_mset_insert set_mset_mset)
  show ?case
  proof (cases "cmp x y \<le> 0")
    case True
    then show ?thesis using Cons.prems assms(4) by simp (metis subsetD)
  next
    case False
    then have "cmp y x \<le> 0" using assms(3) Cons.prems(2) by auto
    then show ?thesis using False Cons set by simp
  qed
qed simp

lemma foldr_insert_cmp:
  "mset (foldr (insert_cmp cmp) xs []) = mset xs"
  "set xs \<subseteq> S \<Longrightarrow> \<forall>a\<in>S. \<forall>b\<in>S. cmp a b \<le> 0 \<or> cmp b a \<le> 0 \<Longrightarrow>
   \<forall>a\<in>S. \<forall>b\<in>S. \<forall>c\<in>S. cmp a b \<le> 0 \<longrightarrow> cmp b c \<le> 0 \<longrightarrow> cmp a c \<le> 0 \<Longrightarrow>
   sorted_wrt (\<lambda>a b. cmp a b \<le> 0) (foldr (insert_cmp cmp) xs [])"
proof -
  show m: "mset (foldr (insert_cmp cmp) xs []) = mset xs" for xs
    by (induction xs) (simp_all add: insert_cmp_mset)
  assume S: "\<forall>a\<in>S. \<forall>b\<in>S. cmp a b \<le> 0 \<or> cmp b a \<le> 0"
    "\<forall>a\<in>S. \<forall>b\<in>S. \<forall>c\<in>S. cmp a b \<le> 0 \<longrightarrow> cmp b c \<le> 0 \<longrightarrow> cmp a c \<le> 0"
  show "set xs \<subseteq> S \<Longrightarrow> sorted_wrt (\<lambda>a b. cmp a b \<le> 0) (foldr (insert_cmp cmp) xs [])"
  proof (induction xs)
    case (Cons x xs)
    have "set (foldr (insert_cmp cmp) xs []) = set xs" using m [of xs] by (metis set_mset_mset)
    then show ?case using Cons insert_cmp_sorted [OF _ _ S, of "foldr (insert_cmp cmp) xs []" x] by simp
  qed simp
qed

lemma scan_lib_ref_ok: "ffsort_ok scan_lib_ref"
  unfolding ffsort_ok_def scan_lib_ref_def dirscan_lib.simps
  by (intro allI conjI impI foldr_insert_cmp(1) foldr_insert_cmp(2) [OF subset_refl]) blast+

definition dirK :: "call \<Rightarrow> string list \<Rightarrow> reply \<times> string list" where
  "dirK c w = (case c of
      FileC f \<Rightarrow> (case f of
          Opendir _ \<Rightarrow> (\<lparr>rv = 5, rerr = None, rout = NoOut\<rparr>, w)
        | Readdir _ \<Rightarrow> (case w of
             [] \<Rightarrow> (\<lparr>rv = 0, rerr = None, rout = NoOut\<rparr>, [])
           | n # ns \<Rightarrow> (\<lparr>rv = 1, rerr = None, rout = OText n\<rparr>, ns))
        | _ \<Rightarrow> (\<lparr>rv = 0, rerr = None, rout = NoOut\<rparr>, w))
    | _ \<Rightarrow> (\<lparr>rv = 7, rerr = None, rout = NoOut\<rparr>, w))"

definition no_scan :: ffdirscan where
  "no_scan = \<lparr>ds_names = [], ds_ptr = 0, ds_len = 0, ds_index = 0, ds_cur = 0, ds_wildcard = [], ds_fd = -1\<rparr>"

lemma dirK_laws: "readdir_laws dirK 5 (\<lambda>w. w)"
  by (auto simp: readdir_laws_def dirK_def split: list.splits)




subsection \<open>Listing a directory on Windows\<close>











text \<open>Without a search handle the list is empty.\<close>

lemma read_no_handle:
  "\<exists>x. dirscan_read K X True (read_win K U (-1) ent) flags d s = Some x \<and> (mem_available K \<longrightarrow> fst (fst (fst x)) = 0) \<and>
    (ffsort X (dirscan_cmpname X True []) [] = [] \<and> fst (fst (fst x)) = 0 \<longrightarrow> scan_list (snd (fst (fst x))) = [])"
proof -
  let ?m = "run_state (sysi K (Mem (MAlloc 4096))) s"
  let ?v = "no_vecs\<lparr>nv_buf_ptr := fst ?m\<rparr>"
  have rd: "run_state (read_win K U (-1) ent True) s = (DirEnd, s)" for s by (simp add: read_win_def run_simps)
  have loop: "scan_loop K (read_win K U (-1) ent) want True v s = Some ((True, v), s)" for want v s
    by (subst scan_loop.simps) (simp add: rd Let_def)
  have m: "mem_available K \<Longrightarrow> fst ?m \<noteq> 0" by (simp add: run_simps mem_available_def)
  have "wp (dirscan_finish K X True flags d ?v) (\<lambda>r s. (mem_available K \<longrightarrow> fst (fst r) = 0) \<and>
      (ffsort X (dirscan_cmpname X True []) [] = [] \<and> fst (fst r) = 0 \<longrightarrow> scan_list (snd (fst r)) = [])) (snd ?m)"
    unfolding dirscan_finish_def Let_def using m
    by (intro wp_intros) (auto dest: mem_availableD simp: no_vecs_def scan_list_def ffdirscan_reset_def ffdirscan_next_def)
  then show ?thesis using m by (cases "fst ?m = 0") (auto simp: dirscan_read_def Let_def loop wp_def)
qed







text \<open>
  Claim C37.  \<open>_ffdirscan_filename_cmpz\<close> is a total order on file names: equal only on equal names,
  antisymmetric and transitive, although it compares letters without regard to case first.
\<close>

theorem filename_cmpz_total_order:
  assumes "NUL \<notin> set a" "NUL \<notin> set b" "NUL \<notin> set c"
  shows "(filename_cmpz a b = 0 \<longleftrightarrow> a = b) \<and> filename_cmpz b a = - filename_cmpz a b \<and>
    (filename_cmpz a b \<le> 0 \<longrightarrow> filename_cmpz b c \<le> 0 \<longrightarrow> filename_cmpz a c \<le> 0)"
  using names.cmp_eq [of a b] names.cmp_anti [of a b] names.cmp_trans [of a b c] assms by blast

theorem filename_cmpz_total_order_witness:
  "filename_cmpz ''readme'' ''README'' = -1 \<and> filename_cmpz ''README'' ''readme'' = 1"
proof -
  have "filename_cmpz ''README'' ''readme'' = - filename_cmpz ''readme'' ''README''"
    using filename_cmpz_total_order [of "''readme''" "''README''" "''a''"] by simp
  moreover have "filename_cmpz ''readme'' ''README'' = -1"
    by (simp add: cmpz_lex rank_def uchar_def lower_byte_def is_upper_byte_def)
  ultimately show ?thesis by simp
qed

subsection \<open>Resources\<close>

definition vec_blocks :: "names_vecs \<Rightarrow> int multiset" where
  "vec_blocks v = block (nv_offs_ptr v) + block (nv_buf_ptr v)"

lemma add_name_blocks:
  assumes "heap_after (trace s) = Some (F + vec_blocks v)"
  shows "wp (add_name K v name) (\<lambda>r s'. heap_after (trace s') = Some (F + vec_blocks (snd r)) \<and>
    fds_after (trace s') = fds_after (trace s)) s"
  unfolding add_name_def
  by (intro wp_intros) (use assms in \<open>auto simp: vec_blocks_def block_def\<close>)

lemma scan_loop_blocks:
  assumes rd: "\<And>b s. wp (rd b) (\<lambda>r s'. heap_after (trace s') = heap_after (trace s) \<and>
      fds_after (trace s') = fds_after (trace s)) s"
    and "scan_loop K rd want first v s = Some y" "heap_after (trace s) = Some (F + vec_blocks v)"
  shows "heap_after (trace (snd y)) = Some (F + vec_blocks (snd (fst y))) \<and>
    fds_after (trace (snd y)) = fds_after (trace s)"
  using assms(2,1,3)
proof (induction arbitrary: F rule: scan_loop.raw_induct [rotated 1, consumes 1, case_names step])
  case (step scan_loop K rd want first v s y)
  note 1 = step
  let ?x = "run_state (rd first) s"
  have x: "heap_after (trace (snd ?x)) = Some (F + vec_blocks v)" "fds_after (trace (snd ?x)) = fds_after (trace s)"
    using wpD [OF 1(3), of first s] 1(4) by simp_all
  show ?case
  proof (cases "fst ?x")
    case (DirName name)
    let ?y = "run_state (add_name K v name) (snd ?x)"
    have y: "heap_after (trace (snd ?y)) = Some (F + vec_blocks (snd (fst ?y)))"
      "fds_after (trace (snd ?y)) = fds_after (trace s)"
      using wpD [OF add_name_blocks [OF x(1), of K name]] x(2) by simp_all
    show ?thesis
    proof (cases "want name \<and> \<not> fst (fst ?y)")
      case True
      then show ?thesis using 1(2) DirName y by (auto simp: Let_def)
    next
      case False
      then show ?thesis using 1(2) DirName x y 1(1) [OF _ 1(3)] by (auto simp: Let_def split: if_splits)
    qed
  qed (use 1(2) x in \<open>auto simp: Let_def\<close>)
qed

lemma finish_blocks:
  assumes "heap_after (trace s) = Some (F + vec_blocks v)"
  shows "wp (dirscan_finish K X icase flags d v) (\<lambda>r s'. heap_after (trace s') =
      Some (F + (if fst (fst r) = 0 then {#ds_ptr (snd (fst r))#} else {#}) + vec_blocks (snd r)) \<and>
    fds_after (trace s') = fds_after (trace s)) s"
  unfolding dirscan_finish_def Let_def
  by (intro wp_intros) (use assms in \<open>auto simp: vec_blocks_def block_def\<close>)

lemma read_blocks:
  assumes "\<And>b s. wp (rd b) (\<lambda>r s'. heap_after (trace s') = heap_after (trace s) \<and>
      fds_after (trace s') = fds_after (trace s)) s"
    and "dirscan_read K X icase rd flags d s = Some x" "heap_after (trace s) = Some F"
  shows "heap_after (trace (snd x)) =
      Some (F + (if fst (fst (fst x)) = 0 then {#ds_ptr (snd (fst (fst x)))#} else {#}) + vec_blocks (snd (fst x))) \<and>
    fds_after (trace (snd x)) = fds_after (trace s)"
proof -
  let ?a = "run_state (sysi K (Mem (MAlloc 4096))) s"
  let ?v = "no_vecs\<lparr>nv_buf_ptr := fst ?a\<rparr>"
  have a: "heap_after (trace (snd ?a)) = Some (F + vec_blocks ?v)" "fds_after (trace (snd ?a)) = fds_after (trace s)"
    using assms(3) by (simp_all add: run_simps vec_blocks_def block_def no_vecs_def)
  show ?thesis
  proof (cases "fst ?a = 0")
    case True
    then have "x = (((-1, d), no_vecs), snd ?a)" using assms(2) by (simp add: dirscan_read_def Let_def)
    then show ?thesis using a True by (simp add: vec_blocks_def block_def no_vecs_def)
  next
    case False
    then obtain y where y: "scan_loop K rd (wanted X icase flags (ds_wildcard d)) True ?v (snd ?a) = Some y"
      "x = (if fst (fst y) then run_state (dirscan_finish K X icase flags d (snd (fst y))) (snd y)
            else (((-1, d), snd (fst y)), snd y))"
      using assms(2) by (auto simp: dirscan_read_def Let_def split: option.splits if_splits)
    from scan_loop_blocks [OF assms(1) y(1) a(1)] show ?thesis
      using y(2) a(2) wpD [OF finish_blocks, of "snd y" F "snd (fst y)" K X icase flags d] by auto
  qed
qed

lemma free_vecs_blocks:
  "heap_after (trace s) = Some (F + vec_blocks v) \<Longrightarrow>
   (\<And>s'. heap_after (trace s') = Some F \<Longrightarrow> fds_after (trace s') = fds_after (trace s) \<Longrightarrow> Q () s')
   \<Longrightarrow> wp (free_vecs K v) Q s"
  unfolding free_vecs_def by (intro wp_intros) (auto simp: vec_blocks_def block_def)

lemma fd_step_read [simp]:
  "fd_step h (FileC (Readdir d), r) = h" "fd_step h (WinFile (FindNextFileW d'), r) = h"
  "heap_step g (FileC (Readdir d), r) = g" "heap_step g (WinFile (FindNextFileW d'), r) = g"
  by (cases h; cases g; simp add: fd_step_def closed_def heap_step_def)+

lemma readers_blocks:
  "wp (read_unix K dir b) (\<lambda>r s'. heap_after (trace s') = heap_after (trace s) \<and>
      fds_after (trace s') = fds_after (trace s)) s"
  "wp (read_win K U dir ent b) (\<lambda>r s'. heap_after (trace s') = heap_after (trace s) \<and>
      fds_after (trace s') = fds_after (trace s)) s"
  unfolding read_unix_def read_win_def name_win_def by (intro wp_intros; simp)+

text \<open>
  Whenever \<open>ffdirscan_open\<close> returns on UNIX, the directory stream is closed, and of the
  memory it used exactly the table of names is left, or nothing if it failed, whichever allocation
  or system call failed; \<open>ffdirscan_close\<close> gives the table back.
\<close>

theorem dirscan_resources:
  assumes "\<not> tst flags FFDIRSCAN_USEFD" "ffdirscan_open K X d path flags (start w e) = Some ((rc, d'), s)"
  shows "fds_after (trace s) = Some {#} \<and>
    heap_after (trace s) = Some (if rc = 0 then {#ds_ptr d'#} else {#}) \<and>
    (rc = 0 \<and> ds_ptr d' \<noteq> 0 \<longrightarrow> wp (ffdirscan_close K d') (\<lambda>r s'. heap_clean (trace s') \<and> ds_ptr r = 0) s)"
proof -
  let ?r = "fst (K (FileC (Opendir path)) w)"
  let ?s = "sys_step K (FileC (Opendir path)) (start w e)"
  have o: "run_state (open_dir_unix K d path flags) (start w e) = ((rv ?r, d), ?s)"
    using assms(1) by (simp add: open_dir_unix_def run_simps)
  define x where "x = (if rv ?r = 0 then Some (((-1, d), no_vecs), ?s)
     else dirscan_read K X False (read_unix K (rv ?r)) flags d ?s)"
  define fin where "fin v = (do {
       (if rv ?r \<noteq> 0 then do { sysi K (FileC (Closedir (rv ?r))); State_Monad.return () } else State_Monad.return ());
       free_vecs K v })" for v
  have "(case x of None \<Rightarrow> None | Some x \<Rightarrow> Some (fst (fst x), snd (run_state (fin (snd (fst x))) (snd x))))
      = Some ((rc, d'), s)"
    using assms(2) unfolding ffdirscan_open_def Let_def o fst_conv snd_conv x_def fin_def .
  then obtain y where y: "x = Some y" "fst (fst y) = (rc, d')" "s = snd (run_state (fin (snd (fst y))) (snd y))"
    by (cases x) simp_all
  let ?F = "if rc = 0 then {#ds_ptr d'#} else {#}"
  have h: "heap_after (trace (snd y)) = Some (?F + vec_blocks (snd (fst y))) \<and>
      fds_after (trace (snd y)) = Some (block (rv ?r))"
  proof (cases "rv ?r = 0")
    case True
    then show ?thesis using y by (auto simp: x_def vec_blocks_def block_def no_vecs_def fd_step_def closed_def)
  next
    case False
    then have "dirscan_read K X False (read_unix K (rv ?r)) flags d ?s = Some y" using y(1) by (simp add: x_def)
    from read_blocks [OF readers_blocks(1) this, of "{#}"] y(2) False show ?thesis
      by (auto simp: block_def fd_step_def closed_def)
  qed
  have "wp (fin (snd (fst y))) (\<lambda>u s. fds_after (trace s) = Some {#} \<and> heap_after (trace s) = Some ?F) (snd y)"
    unfolding fin_def by (intro wp_intros free_vecs_blocks) (use h in \<open>auto simp: block_def fd_step_def closed_def\<close>)
  then have f: "fds_after (trace s) = Some {#}" "heap_after (trace s) = Some ?F" by (simp_all add: wp_def y(3))
  then show ?thesis
    unfolding ffdirscan_close_def heap_clean_def by (auto intro!: wp_intros)
qed

theorem dirscan_resources_witness:
  "\<exists>rc d' s. ffdirscan_open dirK scan_lib_ref no_scan ''/'' 0 (start [''B''] 0) = Some ((rc, d'), s) \<and>
     fds_after (trace s) = Some {#}"
proof -
  have k: "dirK (FileC (Opendir ''/'')) [''B''] = (\<lparr>rv = 5, rerr = None, rout = NoOut\<rparr>, [''B''])"
    by (simp add: dirK_def)
  have "\<exists>rc d' s. ffdirscan_open dirK scan_lib_ref no_scan ''/'' 0 (start [''B''] 0) = Some ((rc, d'), s)"
    using dirscan_lists [OF scan_lib_ref_ok _ dirK_laws k, of 0 "[''B'']" no_scan 0]
    by (auto simp: wanted_def is_dot_def)
  then show ?thesis using dirscan_resources [of 0 dirK scan_lib_ref no_scan "''/''" "[''B'']" 0] by fastforce
qed

lemma wp_addcap:
  assumes "heap_after (trace s) = Some F"
    and "\<And>r s'. heap_after (trace s') = Some (F + w_heap (fst r)) \<Longrightarrow> fds_after (trace s') = fds_after (trace s) \<Longrightarrow> Q r s'"
  shows "wp (ffs_alloc_utow_addcap K U t n) Q s"
  unfolding ffs_alloc_utow_addcap_def using assms(1)
  by (intro wp_intros assms(2)) auto

definition handle :: "int \<Rightarrow> int multiset" where
  "handle h = (if h = -1 then {#} else {#h#})"

lemma wp_open_find:
  assumes "fds_after (trace s) = Some {#}"
    and "\<And>r s'. heap_after (trace s') = heap_after (trace s) \<Longrightarrow>
      fds_after (trace s') = Some (handle (fst (snd r))) \<Longrightarrow> Q r s'"
  shows "wp (open_find_win K pattern flags) Q s"
proof -
  have h: "heap_step g (WinFile (FindFirstFileW d), r) = g" for g d r by (cases g) simp_all
  show ?thesis
    unfolding open_find_win_def using assms(1)
    by (intro wp_intros assms(2)) (auto simp: handle_def fd_step_def closed_def h)
qed

lemma open_dir_win_blocks:
  "wp (open_dir_win K U d path flags) (\<lambda>a s. heap_after (trace s) = Some (w_heap (ws_wpath a) + block (ws_namebuf a)) \<and>
     fds_after (trace s) = Some (handle (ws_dir a))) (start w e)"
  unfolding open_dir_win_def
  by (intro wp_intros wp_addcap [where F = "{#}"] wp_open_find wp_free_res) (simp_all add: block_def handle_def)

lemma scan_end_blocks:
  assumes "heap_after (trace s) = Some (F + w_heap (ws_wpath a) + block (ws_namebuf a) + vec_blocks v)"
    "fds_after (trace s) = Some (handle (ws_dir a))"
  shows "wp (scan_end_win K a v) (\<lambda>u s. heap_after (trace s) = Some F \<and> fds_after (trace s) = Some {#}) s"
proof -
  have h: "heap_step g (WinFile (FindClose d), r) = g" for g d r by (cases g) simp_all
  show ?thesis
    unfolding scan_end_win_def using assms
    by (intro wp_intros wp_free_res free_vecs_blocks [where F = F])
      (auto simp: block_def handle_def fd_step_def closed_def h ac_simps)
qed

text \<open>
  The same on Windows: whenever \<open>ffdirscan_open\<close> returns, the search handle is closed and
  the converted path, the name buffer and the offsets are freed; the table of names is all that is
  left, and only on success.
\<close>

theorem dirscan_win_resources:
  assumes "ffdirscan_open_win K U X d path flags (start w e) = Some ((rc, d'), s)"
  shows "fds_after (trace s) = Some {#} \<and> heap_after (trace s) = Some (if rc = 0 then {#ds_ptr d'#} else {#})"
proof (cases "path = []")
  case True
  then show ?thesis using assms by (auto simp: ffdirscan_open_win_def run_simps)
next
  case False
  let ?a = "run_state (open_dir_win K U d path flags) (start w e)"
  define x where "x = (if ws_ok (fst ?a)
     then dirscan_read K X True (read_win K U (ws_dir (fst ?a)) (ws_ent (fst ?a))) flags d (snd ?a)
     else Some (((-1, d), no_vecs), snd ?a))"
  have "(case x of None \<Rightarrow> None | Some x \<Rightarrow> Some (fst (fst x), snd (run_state (scan_end_win K (fst ?a) (snd (fst x))) (snd x))))
      = Some ((rc, d'), s)"
    using assms unfolding ffdirscan_open_win_def Let_def if_not_P [OF False] x_def .
  then obtain y where y: "x = Some y" "fst (fst y) = (rc, d')"
    "s = snd (run_state (scan_end_win K (fst ?a) (snd (fst y))) (snd y))"
    by (cases x) simp_all
  let ?F = "if rc = 0 then {#ds_ptr d'#} else {#}"
  let ?G = "w_heap (ws_wpath (fst ?a)) + block (ws_namebuf (fst ?a))"
  have a: "heap_after (trace (snd ?a)) = Some ?G" "fds_after (trace (snd ?a)) = Some (handle (ws_dir (fst ?a)))"
    using wpD [OF open_dir_win_blocks [of K U d path flags w e]] by simp_all
  have h: "heap_after (trace (snd y)) = Some (?G + ?F + vec_blocks (snd (fst y)))
      \<and> fds_after (trace (snd y)) = Some (handle (ws_dir (fst ?a)))"
  proof (cases "ws_ok (fst ?a)")
    case True
    then have "dirscan_read K X True (read_win K U (ws_dir (fst ?a)) (ws_ent (fst ?a))) flags d (snd ?a) = Some y"
      using y(1) by (simp add: x_def)
    from read_blocks [OF readers_blocks(2) this a(1)] y(2) a(2) show ?thesis by simp
  next
    case False
    then have "y = (((-1, d), no_vecs), snd ?a)" using y(1) by (simp add: x_def)
    then show ?thesis using a y(2) by (auto simp: vec_blocks_def block_def no_vecs_def)
  qed
  then have "heap_after (trace (snd y)) = Some (?F + w_heap (ws_wpath (fst ?a)) + block (ws_namebuf (fst ?a)) + vec_blocks (snd (fst y)))"
    by (simp add: ac_simps)
  then have "wp (scan_end_win K (fst ?a) (snd (fst y))) (\<lambda>u s. heap_after (trace s) = Some ?F \<and> fds_after (trace s) = Some {#}) (snd y)"
    by (rule scan_end_blocks) (use h in simp)
  then show ?thesis by (simp add: wp_def y(3))
qed

lemma wp_free_any: "(\<And>s'. Q () s') \<Longrightarrow> wp (w_free K x) Q s"
  by (simp add: wp_def)

text \<open>
  On Windows a scan of a caller's descriptor (\<open>FFDIRSCAN_USEFD\<close>) does not fail: the
  code sets "not supported" and goes on with no search handle, so it returns \<open>0\<close> and an empty list
  whenever the memory suffices.
\<close>

theorem dirscan_win_usefd_empty:
  assumes "tst flags FFDIRSCAN_USEFD" "path \<noteq> []" "\<forall>m w. rv (fst (K (Mem m) w)) \<noteq> 0"
    "0 \<le> fst (ffs_utow_n U None path)"
  shows "\<exists>d' s. ffdirscan_open_win K U X d path flags (start w e) = Some ((0, d'), s) \<and>
    (ffsort X (dirscan_cmpname X True []) [] = [] \<longrightarrow> scan_list d' = [])"
proof -
  let ?a = "run_state (open_dir_win K U d path flags) (start w e)"
  have k: "rv r \<noteq> 0" if "K (Mem m) w = (r, w')" for m w r w' using assms(3) that by (metis fst_conv)
  have mem: "mem_available K" using assms(3) by (simp add: mem_available_def)
  have "wp (open_dir_win K U d path flags) (\<lambda>a s. ws_ok a \<and> ws_dir a = -1) (start w e)"
    unfolding open_dir_win_def ffs_alloc_utow_addcap_def open_find_win_def
    by (intro wp_intros wp_free_any) (use assms(1,4) k in auto)
  then have a: "ws_ok (fst ?a)" "ws_dir (fst ?a) = -1" by (simp_all add: wp_def)
  then show ?thesis
    using read_no_handle [of K X U "ws_ent (fst ?a)" flags d "snd ?a"] mem assms(2)
    by (auto simp: ffdirscan_open_win_def Let_def prod_eq_iff)
qed

definition convU :: wconv where
  "convU = \<lparr>ffsz_utow = (\<lambda>n s. (0, [])), ffutf8_to_utf16 = (\<lambda>n s. (2, [0x61])), ffsz_wtou = (\<lambda>n s. (0, [])),
     ffs_wtou = (\<lambda>n s. (0, [])), wcsicmp = (\<lambda>a b. 0)\<rparr>"

theorem dirscan_win_usefd_witness:
  "\<exists>d' s. ffdirscan_open_win (\<lambda>c w. (\<lparr>rv = 7, rerr = None, rout = NoOut\<rparr>, w)) convU scan_lib_ref no_scan ''a''
     FFDIRSCAN_USEFD (start () 0) = Some ((0, d'), s) \<and> scan_list d' = []"
proof -
  have "\<exists>d' s. ffdirscan_open_win (\<lambda>c w. (\<lparr>rv = 7, rerr = None, rout = NoOut\<rparr>, w)) convU scan_lib_ref no_scan ''a''
     FFDIRSCAN_USEFD (start () 0) = Some ((0, d'), s) \<and>
    (ffsort scan_lib_ref (dirscan_cmpname scan_lib_ref True []) [] = [] \<longrightarrow> scan_list d' = [])"
    by (rule dirscan_win_usefd_empty) (simp_all add: tst_def FFDIRSCAN_USEFD_def ffs_utow_n_def convU_def Let_def)
  then show ?thesis by (simp add: scan_lib_ref_def)
qed

theorem dirscan_win_resources_witness:
  "\<exists>d' s. ffdirscan_open_win (\<lambda>c w. (\<lparr>rv = 7, rerr = None, rout = NoOut\<rparr>, w)) convU scan_lib_ref no_scan []
     0 (start () 0) = Some ((-1, d'), s) \<and> heap_after (trace s) = Some {#}"
proof -
  let ?K = "\<lambda>c w. (\<lparr>rv = 7, rerr = None, rout = NoOut\<rparr>, w)"
  obtain s where "ffdirscan_open_win ?K convU scan_lib_ref no_scan [] 0 (start () 0) = Some ((-1, no_scan), s)"
    by (simp add: ffdirscan_open_win_def)
  from this dirscan_win_resources [OF this] show ?thesis by auto
qed

end
