(* ===== verification/Environ.thy ===== *)
theory Environ
  imports Wstring
begin

text \<open>
  The environment (\<open>FFOS/environ.h\<close>): expanding variables in a text, and the user's language.

  The string builders of ffbase are parameters: \<open>ffstr_add2\<close> appends a text to a string of a
  given capacity, \<open>ffstr_addchar\<close> a character, \<open>ffstr_growtwice\<close> gives the new capacity,
  \<open>ffsz_match\<close> tests for a prefix, \<open>ffmem_ncopy\<close> gives the bytes that fit.
\<close>

record env_lib =
  ffsz_match :: "string \<Rightarrow> string \<Rightarrow> bool"
  ffstr_add2 :: "string \<Rightarrow> nat \<Rightarrow> string \<Rightarrow> string"
  ffstr_addchar :: "string \<Rightarrow> nat \<Rightarrow> char \<Rightarrow> string"
  ffstr_growtwice :: "nat \<Rightarrow> nat \<Rightarrow> nat"
  ffmem_ncopy :: "nat \<Rightarrow> string \<Rightarrow> string"


definition env_lib_ref :: env_lib where
  "env_lib_ref = \<lparr>
     ffsz_match = (\<lambda>e key. take (length key) e = key),
     ffstr_add2 = (\<lambda>out cap t. out @ take (cap - length out) t),
     ffstr_addchar = (\<lambda>out cap c. if length out < cap then out @ [c] else out),
     ffstr_growtwice = (\<lambda>cap need. max (2 * cap) need),
     ffmem_ncopy = take\<rparr>"


abbreviation (input) FFENV_LANGUAGE :: u32 where "FFENV_LANGUAGE \<equiv> 1"

subsection \<open>UNIX\<close>

definition is_name_char :: "char \<Rightarrow> bool" where
  "is_name_char ch \<longleftrightarrow>
     (uchar ch OR 0x20) \<ge> 0x61 \<and> (uchar ch OR 0x20) \<le> 0x7A
     \<or> uchar ch \<ge> 0x30 \<and> uchar ch \<le> 0x39 \<or> ch = CHR ''_''"

text \<open>The number of characters from position 1 on that belong to a name, plus 1.\<close>

definition name_end :: "string \<Rightarrow> nat" where
  "name_end s = 1 + length (takeWhile is_name_char (drop 1 s))"

text \<open>The chunk and what is left.\<close>

definition ffsvar_next :: "ffbase \<Rightarrow> string \<Rightarrow> string \<times> string" where
  "ffsvar_next B s =
     (if hd s \<noteq> CHR ''$'' then
        let pos = ffstr_findchar B s (CHR ''$'');
            pos = (if pos < 0 then length s else nat pos)
        in (take pos s, drop pos s)
      else (take (name_end s) s, drop (name_end s) s))"

text \<open>The global variable \<open>_ff_environ\<close> is the list of its entries.\<close>

fun ffenv_val :: "env_lib \<Rightarrow> string list \<Rightarrow> string \<Rightarrow> string option" where
  "ffenv_val L [] key = None"
| "ffenv_val L (e # es) key =
     (if ffsz_match L e key \<and> length key < length e \<and> e ! length key = CHR ''=''
      then Some (drop (length key + 1) e) else ffenv_val L es key)"

definition ffenv_init :: "string list \<Rightarrow> int \<times> string list" where
  "ffenv_init env = (0, env)"

text \<open>
  The output: the block (\<open>0\<close>: none yet) and its text.  \<open>alloc\<close> is the case \<open>dst == NULL\<close>.
\<close>

record envout =
  eo_ptr :: int
  eo_text :: string
  eo_cap :: nat

definition env_add ::
  "'w kernel \<Rightarrow> env_lib \<Rightarrow> bool \<Rightarrow> envout \<Rightarrow> string \<Rightarrow> ('w, envout option) prog" where
  "env_add K L alloc out s =
     (if alloc then do {
        let need = length (eo_text out) + length s;
        p \<leftarrow> sysi K (Mem (MRealloc (eo_ptr out) need));
        if p = 0 then State_Monad.return None
        else do {
          let cap = ffstr_growtwice L (eo_cap out) need;
          State_Monad.return (Some \<lparr>eo_ptr = p, eo_text = ffstr_add2 L (eo_text out) cap s, eo_cap = cap\<rparr>)
        }
      }
      else State_Monad.return (Some (out\<lparr>eo_text := ffstr_add2 L (eo_text out) (eo_cap out) s\<rparr>)))"

text \<open>The loop; the inner option is \<open>None\<close> when the function returns \<open>NULL\<close>.\<close>

partial_function (option) expand_loop ::
  "'w kernel \<Rightarrow> ffbase \<Rightarrow> env_lib \<Rightarrow> string list \<Rightarrow> bool \<Rightarrow> string \<Rightarrow> envout \<Rightarrow> 'w sys
    \<Rightarrow> (envout option \<times> 'w sys) option" where
  "expand_loop K B L env alloc inp out st =
     (if inp = [] then Some (Some out, st)
      else let c = ffsvar_next B inp; s = fst c; rest = snd c in
        if hd s = CHR ''$'' \<and> tl s = [] then expand_loop K B L env alloc rest out st
        else let s = (if hd s = CHR ''$''
                      then (case ffenv_val L env (tl s) of None \<Rightarrow> [] | Some val \<Rightarrow> val) else s);
               x = run_state (env_add K L alloc out s) st in
          (case fst x of
             None \<Rightarrow> Some (None, snd x)
           | Some out \<Rightarrow> expand_loop K B L env alloc rest out (snd x)))"

text \<open>
  \<open>dst\<close> is the capacity of the caller's buffer, or \<open>None\<close>.  The result is \<open>NULL\<close> or the
  output, whose text ends with the terminating zero if that fits.
\<close>

definition ffenv_expand ::
  "'w kernel \<Rightarrow> ffbase \<Rightarrow> env_lib \<Rightarrow> string list \<Rightarrow> nat option \<Rightarrow> string \<Rightarrow> 'w sys
    \<Rightarrow> (envout option \<times> 'w sys) option" where
  "ffenv_expand K B L env dst src st =
     (let alloc = (dst = None);
        out = \<lparr>eo_ptr = 0, eo_text = [], eo_cap = (case dst of None \<Rightarrow> 0 | Some cap \<Rightarrow> cap)\<rparr> in
      case expand_loop K B L env alloc src out st of
        None \<Rightarrow> None
      | Some (None, st) \<Rightarrow> Some (None, st)
      | Some (Some out, st) \<Rightarrow>
          if alloc then Some (run_state (env_add K L alloc out [NUL]) st)
          else Some (Some (out\<lparr>eo_text := ffstr_addchar L (eo_text out) (eo_cap out) NUL\<rparr>), st))"

text \<open>The bytes written and the return value.\<close>

definition ffenv_locale :: "ffbase \<Rightarrow> env_lib \<Rightarrow> string list \<Rightarrow> nat \<Rightarrow> u32 \<Rightarrow> int \<times> string" where
  "ffenv_locale B L env buf_cap flags =
     (if flags = FFENV_LANGUAGE then
        (case ffenv_val L env ''LANG'' of
           None \<Rightarrow> (-1, [])
         | Some val \<Rightarrow>
             let s = fst (snd (ffstr_splitby B val (CHR ''.''))); n = ffmin B (length s) buf_cap
             in (int n, take n s))
      else (-1, []))"

subsection \<open>Windows\<close>

definition ffenv_update_win :: "'w kernel \<Rightarrow> ('w, int) prog" where
  "ffenv_update_win K = do {
     r \<leftarrow> sysi K (Env SendMessageTimeout_settingchange);
     State_Monad.return (c_bool (r = 0))
   }"

definition ffenv_init_win :: int where
  "ffenv_init_win = 0"

text \<open>The result: \<open>NULL\<close> or the text, with the block when it was allocated here.\<close>

definition ffenv_expand_win ::
  "'w kernel \<Rightarrow> wconv \<Rightarrow> nat option \<Rightarrow> string \<Rightarrow> ('w, (int \<times> string) option) prog" where
  "ffenv_expand_win K U dst src = do {
     wsrc \<leftarrow> utow256 K U src;
     if wsrc = WNull then State_Monad.return None
     else do {
       wlen \<leftarrow> sysi K (Env (ExpandEnvironmentStringsW (w_chars wsrc) 0));
       wdst \<leftarrow> sysi K (Mem (MAlloc (nat wlen * 2)));
       r \<leftarrow> (if wdst = 0 then State_Monad.return None
             else do {
               x \<leftarrow> sys K (Env (ExpandEnvironmentStringsW (w_chars wsrc) (nat wlen)));
               case dst of
                 Some cap \<Rightarrow> State_Monad.return (Some (0, snd (ffs_wtou U cap (out_wide x))))
               | None \<Rightarrow> do {
                   let cap = nat (fst (ffs_wtou U 0 (out_wide x)));
                   p \<leftarrow> sysi K (Mem (MAlloc cap));
                   State_Monad.return (if p = 0 then None else Some (p, snd (ffs_wtou U cap (out_wide x))))
                 }
             });
       w_free K wsrc;
       sysi K (Mem (MFree wdst));
       State_Monad.return r
     }
   }"

text \<open>\<open>language[-Script[-REGION]...]\<close>, taken apart.\<close>

definition locale_parts_win :: "ffbase \<Rightarrow> string \<Rightarrow> string \<times> string" where
  "locale_parts_win B s =
     (let a = ffstr_splitby B s (CHR ''-''); lang = fst (snd a); s = snd (snd a);
        b = ffstr_splitby B s (CHR ''-''); s = snd (snd b);
        c = ffstr_splitby B s (CHR ''-''); region = fst (snd c)
      in (lang, region))"

definition locale_text_win :: "env_lib \<Rightarrow> nat \<Rightarrow> string \<times> string \<Rightarrow> string" where
  "locale_text_win L buf_cap lr =
     (let t = ffmem_ncopy L buf_cap (fst lr) in
      if length t < buf_cap \<and> length (snd lr) \<noteq> 0
      then t @ ''_'' @ ffmem_ncopy L (buf_cap - (length t + 1)) (snd lr) else t)"

definition ffenv_locale_win ::
  "'w kernel \<Rightarrow> wconv \<Rightarrow> ffbase \<Rightarrow> env_lib \<Rightarrow> nat option \<Rightarrow> u32 \<Rightarrow> ('w, int \<times> string) prog" where
  "ffenv_locale_win K U B L buf flags =
     (if flags = FFENV_LANGUAGE then do {
        x \<leftarrow> sys K (Env (GetUserDefaultLocaleName 85));
        let n = (if rv x \<noteq> 0 then nat (rv x) - 1 else 0);
        let lr = locale_parts_win B (snd (ffs_wtou U 85 (take n (out_wide x))));
        State_Monad.return (case buf of
            Some cap \<Rightarrow> (int (length (locale_text_win L cap lr)), locale_text_win L cap lr)
          | None \<Rightarrow> (int (length (fst lr) + (if length (snd lr) \<noteq> 0 then 1 + length (snd lr) else 0)), []))
      }
      else do {
        x \<leftarrow> sys K (Env (GetLocaleInfoW (flags OR 0x20000000)));
        State_Monad.return (out_int x 0 mod 256, [])
      })"

subsection \<open>Specification of the expansion\<close>

















text \<open>
  When the allocating \<open>ffenv_expand\<close> fails to grow its buffer it returns \<open>NULL\<close> and
  loses the block it already had: here the first chunk is stored and the second does not fit.
\<close>

definition failing_allocK :: "call \<Rightarrow> nat \<Rightarrow> reply \<times> nat" where
  "failing_allocK c n = (\<lparr>rv = (if n = 0 then 7 else 0), rerr = None, rout = NoOut\<rparr>, n + 1)"

theorem env_expand_leaks:
  "map_option (\<lambda>x. (fst x, heap_after (trace (snd x))))
     (ffenv_expand failing_allocK ffbase_ref env_lib_ref [''A=1''] None ''x$A'' (start 0 0)) = Some (None, Some {#7#})"
  by (simp add: ffenv_expand_def expand_loop.simps ffsvar_next_def ffbase_ref_def name_end_def Let_def env_add_def
      run_simps failing_allocK_def env_lib_ref_def is_name_char_def uchar_def heap_step_def)

text \<open>
  On Windows the language of a locale named \<open>language-REGION\<close> loses its region: the
  code takes the third part of the name for the region, as in \<open>language-Script-REGION\<close>.
\<close>

theorem locale_win_drops_region:
  assumes "ffbase_ok B" "CHR ''-'' \<notin> set lang" "CHR ''-'' \<notin> set region" "CHR ''-'' \<notin> set script"
  shows "locale_parts_win B (lang @ ''-'' @ region) = (lang, []) \<and>
    locale_parts_win B (lang @ ''-'' @ script @ ''-'' @ region) = (lang, region)"
proof -
  have none: "split_first (\<lambda>x. x = CHR ''-'') s = (-1, s, [])" if "CHR ''-'' \<notin> set s" for s
    by (rule split_first_none) (use that in auto)
  have hit: "split_first (\<lambda>x. x = CHR ''-'') (a @ CHR ''-'' # b) = (int (length a), a, b)" if "CHR ''-'' \<notin> set a" for a b
    by (rule split_first_hit) (use that in auto)
  show ?thesis
    using assms by (simp add: locale_parts_win_def ffbase_okD(5) [OF assms(1)] none hit Let_def)
qed

theorem locale_win_drops_region_witness:
  "locale_parts_win ffbase_ref ''en-US'' = (''en'', [])"
  using locale_win_drops_region [OF ffbase_ref_ok, of "''en''" "''US''" "''Latn''"] by simp

text \<open>
  \<open>ffenv_expand\<close> on Windows frees the converted text and the wide result on every way
  out; what is left on the heap is exactly the block it returns.
\<close>

theorem env_expand_win_resources:
  "wp (ffenv_expand_win K U dst src) (\<lambda>r s. heap_after (trace s) =
     Some (case r of None \<Rightarrow> {#} | Some x \<Rightarrow> if fst x = 0 then {#} else {#fst x#})) (start w e)"
  unfolding ffenv_expand_win_def
  by (intro wp_intros wp_res) (auto split: option.splits)

end
