(* ===== verification/Spec2Isabelle.thy ===== *)
theory Spec2Isabelle
  imports Platform Flags Fftest Router Echo Backtrace Volume Filemap Sysinfo Dylib Perf Netconf Winreg Netlink Filemon Signal Timer Process Std Path Time Timerqueue File File_Win Pipe Semaphore Sock_Win Kcall Dirscan Environ
begin

text \<open>
  A verification development of ffos, the header-only C library under \<open>src/FFOS/\<close> that gives one
  interface to files, directories, paths, time, processes, threads, timers, sockets, event queues
  and the other services of Linux, Android, FreeBSD, macOS and Windows.

  \<^bold>\<open>The program.\<close>  Each header holds a group of small static functions, usually twice: a Windows
  half and a UNIX half with differences between the systems.  The layers are: errors and strings
  (\<open>error.h\<close>, \<open>string.h\<close>); time, files, paths and directories (\<open>time.h\<close>, \<open>file.h\<close>,
  \<open>path.h\<close>, \<open>dir.h\<close>, \<open>dirscan.h\<close>, \<open>environ.h\<close>); event queues with tasks and what
  they signal (\<open>queue.h\<close>, \<open>kqtask.h\<close>, \<open>pipe.h\<close>, \<open>socket.h\<close>, \<open>timer.h\<close>,
  \<open>signal.h\<close>, \<open>filemon.h\<close>, \<open>netlink.h\<close>); threads and processes (\<open>thread.h\<close>,
  \<open>semaphore.h\<close>, \<open>process.h\<close>, \<open>std.h\<close>); two data structures that do the library's own
  scheduling (\<open>timerqueue.h\<close>, a queue of timers over a red-black tree, and \<open>kcall.h\<close>, which
  runs blocking calls on a worker); the registry (\<open>winreg.h\<close>); and small services
  (\<open>netconf.h\<close>, \<open>perf.h\<close>, \<open>dylib.h\<close>, \<open>filemap.h\<close>, \<open>volume.h\<close>, \<open>backtrace.h\<close>,
  \<open>sysconf.h\<close>, \<open>random.h\<close>).  Two example programs put sockets, event queues and standard output
  together (\<open>examples/tcp-echo-server.c\<close>, \<open>examples/tcp-msg-router.c\<close>).

  \<^bold>\<open>How it is modelled.\<close>  Computations on values are HOL functions.  A function that calls the
  system is a program of the state monad over \<open>sys\<close> (theory \<open>Os\<close>), which has the world, the last
  error, and a log of the calls with their replies.  The system is a parameter \<open>K\<close>: it takes a call
  and a world and gives a reply and a new world, so a theorem for all \<open>K\<close> covers every failure.
  Where a theorem needs a system that does what it documents, the documented behaviour is a named
  hypothesis (\<open>fs_laws\<close>, \<open>mkdir_laws\<close>, \<open>readdir_laws\<close>, \<open>eventfd_laws\<close>,
  \<open>fileptr_laws\<close>, \<open>console_laws\<close>, \<open>reg_laws\<close>, \<open>enum_laws\<close>, \<open>volnames_laws\<close>,
  \<open>sym_laws\<close>, \<open>messages_ok\<close>, \<open>net_laws\<close>), and a witness gives a
  system that satisfies it.  The external package ffbase is a parameter in the same way
  (\<open>ffbase\<close> with \<open>ffbase_ok\<close>, \<open>wconv\<close>, \<open>rbtree_ops\<close> with \<open>rbt_ok\<close>, \<open>ringq\<close> with
  \<open>ringq_ok\<close>, \<open>env_lib\<close>, \<open>dirscan_lib\<close>); its allocator and what allocates for it are calls,
  and a vector that grows is one call that gives a block, new or the same.  Integers keep their
  width: \<open>u8\<close>, \<open>u16\<close>, \<open>u32\<close> and \<open>u64\<close> are words.  Errors are values, and reading or writing
  outside a buffer is a result of its own (\<open>None\<close>).  A loop that might not end is a partial
  function into \<open>option\<close>, and the theorems about it prove that it returns; no loop of the code is
  bounded by fuel.  Fuel occurs in loops of callers (\<open>nl_walk\<close>, \<open>list_keys\<close>), where one more
  than the number of objects is proved to be enough.

  \<^bold>\<open>Theories.\<close>  \<open>Prelude\<close>: types, C truth values, searching and splitting of lists, running programs.
  \<open>Ffbase\<close>: the parameters from ffbase.  \<open>Os\<close>: calls, replies, weakest preconditions, resources in
  the log, \<open>error.h\<close>.  \<open>Bytes\<close>: members of structures in buffers.  Names of definitions are those of
  the C functions; the Windows version of a function that exists twice has the suffix \<open>_win\<close>, that
  of BSD \<open>_bsd\<close>, that of macOS \<open>_apple\<close>.

  \<^item> \<open>Platform\<close> (\<open>detect-os.h\<close>, \<open>base.h\<close>, \<open>detect-compiler.h\<close>, \<open>compiler-gcc.h\<close>): the selection of
    the system, which always picks one half of the headers.
  \<^item> \<open>Path\<close> (\<open>path.h\<close>): splitting and \<open>ffpath_normalize\<close>, which refines a specification on
    stacks of components, is idempotent, and with \<open>FFPATH_SIMPLE\<close> never leaves its directory.
  \<^item> \<open>Time\<close> (\<open>time.h\<close>): round trips and bounds of the conversions.
  \<^item> \<open>Timerqueue\<close> (\<open>timerqueue.h\<close>): insertion and processing over a red-black tree, with the
    32-bit clock that wraps around.
  \<^item> \<open>Wstring\<close> (\<open>string.h\<close>): conversions and who owns their buffers; the locale \<open>wpath_call\<close>.
  \<^item> \<open>File\<close>, \<open>File_Win\<close> (\<open>file.h\<close>): every function; whole-file round trip, resources.
  \<^item> \<open>Flags\<close>: the enumerations callers combine, and that a combination tells its members (locale
    \<open>flag_set\<close>).
  \<^item> \<open>Dir\<close> (\<open>dir.h\<close>), \<open>Dirscan\<close> (\<open>dirscan.h\<close>): creating parents in place, the buffer bounds;
    the scan of either system succeeds with memory and lists exactly the wanted names in order (locale
    \<open>dir_reader\<close>; the comparison of names is a linear order, locale \<open>name_order\<close>, type \<open>fname\<close>).
  \<^item> \<open>Environ\<close> (\<open>environ.h\<close>): expansion of variables, locale names.
  \<^item> \<open>Kqueue\<close> (\<open>queue.h\<close>, \<open>kqtask.h\<close>): event queues, and the locale \<open>async_op\<close>, the contract of
    every asynchronous operation, which \<open>Pipe\<close> (\<open>pipe.h\<close>), \<open>Sock\<close> and \<open>Sock_Win\<close>
    (\<open>socket.h\<close>) and \<open>Filemon\<close> interpret for theirs.
  \<^item> \<open>Semaphore\<close> (\<open>semaphore.h\<close>), \<open>Thread\<close> (\<open>thread.h\<close>), \<open>Process\<close> (\<open>process.h\<close>):
    repetition of interrupted waits, deadlines, command lines, what is left open.
  \<^item> \<open>Timer\<close> (\<open>timer.h\<close>): the timers of each system, and the two threads of the Windows timer as a
    step relation with its invariant.
  \<^item> \<open>Signal\<close> (\<open>signal.h\<close>): signal objects and handlers.
  \<^item> \<open>Std\<close> (\<open>std.h\<close>): terminals, the parser of keys, the console.
  \<^item> \<open>Kcall\<close> (\<open>kcall.h\<close>): the queues between threads, with the invariant under every interleaving and
    the proof that an asynchronous call gives what the blocking one gives (locale \<open>kcall_op\<close>).
  \<^item> \<open>Filemon\<close> (\<open>filemon.h\<close>): decoding of events, the watch list of Windows.
  \<^item> \<open>Netlink\<close> (\<open>netlink.h\<close>): messages and attributes in a buffer (locale \<open>object_walk\<close>).
  \<^item> \<open>Winreg\<close> (\<open>winreg.h\<close>): keys, values and enumeration.
  \<^item> \<open>Netconf\<close> (\<open>netconf.h\<close>): the list of name servers of \<open>/etc/resolv.conf\<close>, in one block.
  \<^item> \<open>Perf\<close> (\<open>perf.h\<close>): counters, their sums and differences, exact conversion of clock ticks.
  \<^item> \<open>Errstr\<close> (the messages of \<open>error.h\<close>), \<open>Dylib\<close> (\<open>dylib.h\<close>), \<open>Filemap\<close> (\<open>filemap.h\<close>),
    \<open>Volume\<close> (\<open>volume.h\<close>), \<open>Backtrace\<close> (\<open>backtrace.h\<close>), \<open>Sysinfo\<close> (\<open>sysconf.h\<close>,
    \<open>random.h\<close>, the queries of \<open>path.h\<close>): termination of messages in every buffer, the module kept for
    a frame, the loop for the paths of a volume, resources (locale \<open>bt_modules\<close>).
  \<^item> \<open>Server\<close>, \<open>Echo\<close>, \<open>Router\<close> (\<open>examples/\<close>): the event loop with its contract (locale
    \<open>server_loop\<close>), and the two servers with their objects in memory: what they send, what they own,
    and that neither ever touches a freed object (\<open>live\<close>: what the queue reports is in memory).

  \<^item> \<open>Fftest\<close> (\<open>test.h\<close>): the checks of the test program, what they count and when they end it.
  \<^item> This theory: storing a file under an untrusted name, over \<open>Path\<close>, \<open>Dir\<close> and \<open>File\<close>, stays below
    its directory.

  \<^bold>\<open>What the theorems show.\<close>  Functional behaviour and refinement (normalisation, timer queue,
  directory scan, environment, key parser, enumeration), round trips (files, addresses, times, paths,
  command lines, registry values, event and attribute buffers), equivalence (asynchronous with blocking calls,
  key codes of both systems), invariants under all interleavings (kernel calls, timer threads),
  and of the example servers over any number of rounds,
  termination and progress of every loop stated, bounds of buffers and of arithmetic, and, through
  the log, that memory, descriptors, handles and keys are given back on every path.  Where a
  function may fail, the theorems also say when it does not: files are written and read if the system
  works (\<open>fs_works\<close>), and what allocates fails for no other reason than memory (\<open>mem_available\<close>)
  and the errors of its input.  Where the
  code does not do what it means to, a theorem shows what it does instead.

  \<^bold>\<open>Not modelled.\<close>  The test program \<open>test/\<close>, which only checks the library; include directives and the
  macros that rename types (the models have the types at their width); the definitions of the
  global variables in \<open>ffos-extern.h\<close>, whose values the models pass.  Of the examples the Windows
  build is left out: a completion port reports operations that were started, and the examples, written for
  readiness events, start none.
\<close>

section \<open>Paths, directories and files together\<close>



text \<open>
  \<open>p\<close> names \<open>base\<close>, or something under it through plain names only; and a call that changes nothing
  outside of it.
\<close>

definition below :: "string \<Rightarrow> string \<Rightarrow> bool" where
  "below base p \<longleftrightarrow> p = base \<or> take (Suc (length base)) p = base @ ''/'' \<and>
     list_all plain_comp (comps ''/'' (drop (Suc (length base)) p))"


lemma below_sep [simp]: "below base (base @ CHR ''/'' # q) \<longleftrightarrow> list_all plain_comp (comps ''/'' q)"
  by (auto simp: below_def)













end
